(* ===== verification/Bridge_Prelude.thy ===== *)
theory Bridge_Prelude
  imports Main "HOL-Library.Char_ord" "HOL-Library.List_Lexorder"
begin

text \<open>
  Shared vocabulary of the development: outcomes of Go code that may panic, nil-able slices,
  the handful of \<^verbatim>\<open>strings\<close> functions the program uses, and decimal printing of integers.
  Strings are byte strings (\<open>char list\<close>), as in Go; they are ordered bytewise
  (\<^verbatim>\<open>List_Lexorder\<close> over \<^verbatim>\<open>Char_ord\<close>), as \<^verbatim>\<open>slices.Sort\<close> orders them.
\<close>

named_theorems outcome_simps
named_theorems render_simps

section \<open>Outcomes: a value or a panic\<close>

text \<open>
  A Go function either returns or panics. Errors that Go returns as a second result are not
  panics: they are \<open>Inl\<close> values of a sum under \<open>Returns\<close>.
\<close>

datatype 'a outcome = Returns 'a | Panics string

primrec obind :: "'a outcome \<Rightarrow> ('a \<Rightarrow> 'b outcome) \<Rightarrow> 'b outcome" where
  "obind (Returns x) f = f x"
| "obind (Panics msg) f = Panics msg"

primrec is_returns :: "'a outcome \<Rightarrow> bool" where
  "is_returns (Returns x) = True"
| "is_returns (Panics msg) = False"

primrec omap :: "('a \<Rightarrow> 'b) \<Rightarrow> 'a outcome \<Rightarrow> 'b outcome" where
  "omap f (Returns x) = Returns (f x)"
| "omap f (Panics msg) = Panics msg"

text \<open>The panic of a method call through a nil pointer or interface.\<close>

definition nil_deref :: string where
  "nil_deref = ''invalid memory address or nil pointer dereference''"

text \<open>\<^verbatim>\<open>*p\<close>\<close>

definition deref :: "'a option \<Rightarrow> 'a outcome" where
  "deref p = (case p of None \<Rightarrow> Panics nil_deref | Some x \<Rightarrow> Returns x)"

lemma deref_simps [simp]: "deref (Some x) = Returns x" "deref None = Panics nil_deref"
  by (simp_all add: deref_def)

text \<open>A loop that applies a function to each element in turn, stopping at the first panic.\<close>

fun traverse :: "('a \<Rightarrow> 'b outcome) \<Rightarrow> 'a list \<Rightarrow> 'b list outcome" where
  "traverse f [] = Returns []"
| "traverse f (x # xs) = obind (f x) (\<lambda>y. obind (traverse f xs) (\<lambda>ys. Returns (y # ys)))"

lemma traverse_cong [fundef_cong]:
  assumes "xs = ys" and "\<And>x. x \<in> set ys \<Longrightarrow> f x = g x"
  shows "traverse f xs = traverse g ys"
  using assms by (induction xs arbitrary: ys) auto

lemma obind_cong [fundef_cong]:
  assumes "m = m'" and "\<And>x. m' = Returns x \<Longrightarrow> f x = g x"
  shows "obind m f = obind m' g"
  using assms by (cases m') auto

lemma obind_assoc [outcome_simps]: "obind (obind m f) g = obind m (\<lambda>x. obind (f x) g)"
  by (cases m) simp_all

lemma obind_Returns_iff [outcome_simps]:
  "obind m f = Returns y \<longleftrightarrow> (\<exists>x. m = Returns x \<and> f x = Returns y)"
  by (cases m) auto

lemma omap_Returns_iff [outcome_simps]: "omap f m = Returns y \<longleftrightarrow> (\<exists>x. m = Returns x \<and> y = f x)"
  by (cases m) auto

lemma is_returns_iff: "is_returns m \<longleftrightarrow> (\<exists>x. m = Returns x)"
  by (cases m) auto

lemma traverse_Returns:
  assumes "\<And>x. x \<in> set xs \<Longrightarrow> f x = Returns (g x)"
  shows "traverse f xs = Returns (map g xs)"
  using assms by (induction xs) auto

lemma traverse_Panics:
  assumes "\<exists>x \<in> set xs. \<not> is_returns (f x)"
  shows "\<not> is_returns (traverse f xs)"
  using assms
proof (induction xs)
  case (Cons x xs)
  then show ?case
    by (cases "f x"; cases "traverse f xs") (auto simp: is_returns_iff)
qed simp

lemma traverse_map: "traverse f (map h xs) = traverse (\<lambda>x. f (h x)) xs"
  by (induction xs) auto

section \<open>Slices that may be nil\<close>

text \<open>
  A Go slice may be nil; a nil slice has no elements but is marshalled as JSON \<^verbatim>\<open>null\<close> where an
  empty slice is marshalled as \<^verbatim>\<open>[]\<close>. Where the program's behaviour depends on it, slices are
  modelled with this type.
\<close>

datatype 'a gslice = NilSlice | Slice "'a list"

primrec elems :: "'a gslice \<Rightarrow> 'a list" where
  "elems NilSlice = []"
| "elems (Slice xs) = xs"

lemma set_elems [simp]: "set (elems s) = set_gslice s"
  by (cases s) auto

lemma elems_map_gslice [simp]: "elems (map_gslice f s) = map f (elems s)"
  by (cases s) auto

lemma size_gslice_member [termination_simp]:
  "x \<in> set_gslice s \<Longrightarrow> f x < Suc (size_gslice f s)"
proof (cases s)
  case (Slice xs)
  assume "x \<in> set_gslice s"
  with Slice have "x \<in> set xs" by simp
  then have "f x \<le> size_list f xs" by (induction xs) auto
  with Slice show ?thesis by simp
qed simp

section \<open>The functions of package strings\<close>

text \<open>\<^verbatim>\<open>strings.Join(parts, sep)\<close>\<close>

fun join :: "string \<Rightarrow> string list \<Rightarrow> string" where
  "join sep [] = []"
| "join sep [x] = x"
| "join sep (x # y # ys) = x @ sep @ join sep (y # ys)"

lemma join_Cons: "xs \<noteq> [] \<Longrightarrow> join sep (x # xs) = x @ sep @ join sep xs"
  by (cases xs) auto

text \<open>\<^verbatim>\<open>strings.Split(s, sep)\<close> for a separator of one byte: the text is cut at every separator,
  so a text without one is a single part and the result is never empty.\<close>

fun split_on :: "char \<Rightarrow> string \<Rightarrow> string list" where
  "split_on sep [] = [[]]"
| "split_on sep (c # cs) =
     (if c = sep then [] # split_on sep cs
      else (case split_on sep cs of [] \<Rightarrow> [[c]] | p # ps \<Rightarrow> (c # p) # ps))"

lemma split_on_nonempty [simp]: "split_on sep s \<noteq> []"
  by (induction s) (auto split: list.splits)

lemma split_on_none: "sep \<notin> set s \<Longrightarrow> split_on sep s = [s]"
  by (induction s) auto

lemma split_on_first:
  "sep \<notin> set s \<Longrightarrow> split_on sep (s @ sep # t) = s # split_on sep t"
  by (induction s) auto

text \<open>\<^verbatim>\<open>strings.Repeat(s, n)\<close> panics on a negative count.\<close>

definition strings_Repeat :: "string \<Rightarrow> int \<Rightarrow> string outcome" where
  "strings_Repeat s n =
     (if n < 0 then Panics ''strings: negative Repeat count''
      else Returns (concat (replicate (nat n) s)))"

text \<open>\<^verbatim>\<open>strings.ToLower\<close> on the ASCII letters; other bytes are kept.\<close>

definition to_lower_char :: "char \<Rightarrow> char" where
  "to_lower_char c =
     (if (65 :: nat) \<le> of_char c \<and> of_char c \<le> (90 :: nat) then char_of (of_char c + (32 :: nat)) else c)"

definition to_lower :: "string \<Rightarrow> string" where
  "to_lower s = map to_lower_char s"

section \<open>Decimal integers\<close>

definition digit_char :: "nat \<Rightarrow> char" where
  "digit_char d = char_of (48 + d)"

fun dec_nat :: "nat \<Rightarrow> string" where
  "dec_nat n = (if n < 10 then [digit_char n] else dec_nat (n div 10) @ [digit_char (n mod 10)])"

declare dec_nat.simps [simp del]

definition dec_int :: "int \<Rightarrow> string" where
  "dec_int i = (if i < 0 then CHR ''-'' # dec_nat (nat (- i)) else dec_nat (nat i))"

definition is_digit :: "char \<Rightarrow> bool" where
  "is_digit c \<longleftrightarrow> (48 :: nat) \<le> of_char c \<and> of_char c \<le> (57 :: nat)"

definition digit_val :: "char \<Rightarrow> nat" where
  "digit_val c = of_char c - 48"

definition undec :: "string \<Rightarrow> nat" where
  "undec s = foldl (\<lambda>n c. 10 * n + digit_val c) 0 s"

lemma digit_char_props [simp]:
  assumes "d < 10"
  shows "is_digit (digit_char d)" and "digit_val (digit_char d) = d"
  using assms by (auto simp: is_digit_def digit_val_def digit_char_def of_char_of)

lemma dec_nat_nonempty [simp]: "dec_nat n \<noteq> []"
  by (subst dec_nat.simps) simp

lemma dec_nat_digits: "c \<in> set (dec_nat n) \<Longrightarrow> is_digit c"
proof (induction n rule: dec_nat.induct)
  case (1 n)
  then show ?case by (subst (asm) dec_nat.simps) (auto split: if_splits)
qed

lemma undec_dec_nat [simp]: "undec (dec_nat n) = n"
proof (induction n rule: dec_nat.induct)
  case (1 n)
  then show ?case by (subst dec_nat.simps) (auto simp: undec_def)
qed

lemma dec_nat_inject [simp]: "dec_nat m = dec_nat n \<longleftrightarrow> m = n"
  by (metis undec_dec_nat)

lemma digit_not_minus: "is_digit c \<Longrightarrow> c \<noteq> CHR ''-''"
  by (auto simp: is_digit_def)

lemma dec_nat_not_minus: "dec_nat n \<noteq> CHR ''-'' # s"
  using dec_nat_digits [of "CHR ''-''" n] digit_not_minus by force

lemma dec_int_inject [simp]: "dec_int i = dec_int j \<longleftrightarrow> i = j"
  using dec_nat_not_minus dec_nat_not_minus [symmetric]
  by (auto simp: dec_int_def)

end
