(* ===== verification/Go_Values.thy ===== *)
theory Go_Values
  imports Bridge_Prelude
begin

text \<open>
  The dynamic values the program passes around as \<^verbatim>\<open>interface{}\<close> (filter operands, statement
  arguments, fields of a DTO) and the \<^verbatim>\<open>%v\<close> rendering that package \<^verbatim>\<open>fmt\<close> gives them. The
  program reaches \<^verbatim>\<open>%v\<close> in every rendered filter and in the decoder of simple expressions,
  so it is written out here, not assumed.
\<close>

section \<open>Values\<close>

text \<open>
  A finite \<^verbatim>\<open>float64\<close> is carried by its shortest decimal: sign, digits and decimal exponent,
  so \<open>F64 neg m e\<close> stands for \<open>\<plusminus> m * 10 ^ e\<close> with no trailing zero in \<open>m\<close>. This is the pair
  that \<^verbatim>\<open>strconv\<close> computes before it prints. The type holds any decimal; \<open>f64_round\<close> of
  \<^verbatim>\<open>Go_Float\<close> takes it to the one that stands for the double nearest to it.
\<close>

datatype float64 = F64 bool nat int

text \<open>
  A \<^verbatim>\<open>time.Time\<close> is carried by its \<^verbatim>\<open>String()\<close> text. A Go map is an association list; the
  operations on it (lookup, printing, sorted keys) do not depend on the order of its entries.
\<close>

datatype gval =
    VNil
  | VBool bool
  | VInt int
  | VFloat float64
  | VStr string
  | VBytes "nat list"
  | VTime string
  | VList "gval list"
  | VMap "(string \<times> gval) list"

type_synonym gmap = "(string \<times> gval) list"

text \<open>\<^verbatim>\<open>m[key]\<close>: a missing key reads as the nil interface.\<close>

definition gmap_get :: "gmap \<Rightarrow> string \<Rightarrow> gval" where
  "gmap_get m key = (case map_of m key of None \<Rightarrow> VNil | Some v \<Rightarrow> v)"

section \<open>Numbers\<close>

fun strip_zeros :: "nat \<Rightarrow> int \<Rightarrow> nat \<times> int" where
  "strip_zeros m e =
     (if m \<noteq> 0 \<and> m mod 10 = 0 then strip_zeros (m div 10) (e + 1) else (m, e))"

declare strip_zeros.simps [simp del]

text \<open>The decimal that is the text of an integer, before any rounding.\<close>

definition decimal_of_int :: "int \<Rightarrow> float64" where
  "decimal_of_int i = (case strip_zeros (nat \<bar>i\<bar>) 0 of (m, e) \<Rightarrow> F64 (i < 0) m e)"

text \<open>\<^verbatim>\<open>strconv\<close>'s \<^verbatim>\<open>%e\<close> and \<^verbatim>\<open>%f\<close> layouts of a shortest decimal: \<open>ds\<close> are its digits and
  \<open>dp\<close> is the place of the decimal point.\<close>

definition exp_suffix :: "int \<Rightarrow> string" where
  "exp_suffix x =
     ''e'' @ (if x < 0 then ''-'' else ''+'') @
     (if \<bar>x\<bar> < 10 then ''0'' else []) @ dec_nat (nat \<bar>x\<bar>)"

definition fmt_e :: "string \<Rightarrow> int \<Rightarrow> string" where
  "fmt_e ds dp = take 1 ds @ (if length ds > 1 then ''.'' @ drop 1 ds else []) @ exp_suffix (dp - 1)"

definition fmt_f :: "string \<Rightarrow> int \<Rightarrow> string" where
  "fmt_f ds dp =
     (if dp > 0 then take (nat dp) ds @ replicate (nat dp - length ds) (CHR ''0'') else ''0'') @
     (if dp < int (length ds)
      then ''.'' @ replicate (nat (- dp)) (CHR ''0'') @ drop (nat dp) ds else [])"

text \<open>\<^verbatim>\<open>%v\<close> of a \<^verbatim>\<open>float64\<close> is \<^verbatim>\<open>%g\<close> with the shortest digits: exponents below -4 or from 6 on are
  printed with an exponent, so \<open>100000\<close> prints as \<^verbatim>\<open>100000\<close> and a million as \<^verbatim>\<open>1e+06\<close>.\<close>

definition fmt_float :: "float64 \<Rightarrow> string" where
  "fmt_float x =
     (case x of F64 neg m e \<Rightarrow>
        (let ds = (if m = 0 then [] else dec_nat m);
             dp = (if m = 0 then 0 else int (length ds) + e);
             body = (if dp - 1 < -4 \<or> 6 \<le> dp - 1 then fmt_e ds dp else fmt_f ds dp)
         in (if neg then ''-'' else []) @ body))"

section \<open>The verb \<open>%v\<close>\<close>

fun fmt_v :: "gval \<Rightarrow> string" where
  "fmt_v VNil = ''<nil>''"
| "fmt_v (VBool b) = (if b then ''true'' else ''false'')"
| "fmt_v (VInt i) = dec_int i"
| "fmt_v (VFloat x) = fmt_float x"
| "fmt_v (VStr s) = s"
| "fmt_v (VBytes bs) = ''['' @ join '' '' (map dec_nat bs) @ '']''"
| "fmt_v (VTime s) = s"
| "fmt_v (VList vs) = ''['' @ join '' '' (map fmt_v vs) @ '']''"
| "fmt_v (VMap m) =
     ''map['' @ join '' '' (map snd (sort_key fst (map (\<lambda>(k, v). (k, k @ '':'' @ fmt_v v)) m))) @ '']''"

end
