(* ===== verification/Go_Float.thy ===== *)
theory Go_Float
  imports Go_Values
begin

text \<open>
  The IEEE-754 doubles behind \<^typ>\<open>float64\<close>: rounding a decimal to the nearest double, ties to
  even, and the shortest decimal of a double, the two conversions of \<^verbatim>\<open>strconv\<close>. Every number that
  \<^verbatim>\<open>encoding/json\<close> decodes into an \<^verbatim>\<open>interface{}\<close> goes through them, so an integer above \<open>2 ^ 53\<close>
  comes back as the double next to it.
\<close>

section \<open>The nearest double\<close>

fun bit_len :: "int \<Rightarrow> nat" where
  "bit_len n = (if n \<le> 0 then 0 else Suc (bit_len (n div 2)))"

declare bit_len.simps [simp del]

text \<open>Division rounded to the nearest integer, ties to even.\<close>

definition div_even :: "int \<Rightarrow> int \<Rightarrow> int" where
  "div_even n d =
     (let q = n div d; r = n mod d in if 2 * r > d \<or> (2 * r = d \<and> odd q) then q + 1 else q)"

text \<open>
  The double \<open>q * 2 ^ k\<close> next to \<open>n / d\<close>: 53 bits of mantissa, exponents from -1074 on (the
  subnormal ones). A mantissa that rounds up to \<open>2 ^ 53\<close> moves to the next exponent.
\<close>

definition quot_len :: "int \<Rightarrow> int \<Rightarrow> int" where
  "quot_len n d =
     (let l = int (bit_len n) - int (bit_len d)
      in if d * 2 ^ nat l \<le> n * 2 ^ nat (- l) then l + 1 else l)"

definition f64_quot :: "int \<Rightarrow> int \<Rightarrow> int \<times> int" where
  "f64_quot n d =
     (let k = max (- 1074) (quot_len n d - 53); q = div_even (n * 2 ^ nat (- k)) (d * 2 ^ nat k)
      in if q = 2 ^ 53 then (2 ^ 52, k + 1) else (q, k))"

definition f64_nearest :: "int \<Rightarrow> int \<Rightarrow> int \<times> int" where
  "f64_nearest m e = f64_quot (m * 10 ^ nat e) (10 ^ nat (- e))"

text \<open>A decimal whose nearest double is beyond \<open>(2 ^ 53 - 1) * 2 ^ 971\<close> is out of range.\<close>

fun f64_finite :: "float64 \<Rightarrow> bool" where
  "f64_finite (F64 neg m e) \<longleftrightarrow> snd (f64_nearest (int m) e) \<le> 971"

section \<open>The shortest decimal of a double\<close>

text \<open>
  The decimals around \<open>q * 2 ^ k\<close> on the grids \<open>10 ^ j\<close>, the coarsest first: the nearest one on the
  grid, then its neighbours. The first grid lies above the value, and 20 grids hold at least 17 digits,
  which tell any two doubles apart.
\<close>

definition grid_decimals :: "int \<Rightarrow> int \<Rightarrow> int \<Rightarrow> (int \<times> int) list" where
  "grid_decimals q k j =
     (let n = q * 2 ^ nat k * 10 ^ nat (- j); d = 2 ^ nat (- k) * 10 ^ nat j
      in [(div_even n d, j), (n div d, j), (n div d + 1, j)])"

definition decimals :: "int \<Rightarrow> int \<Rightarrow> (int \<times> int) list" where
  "decimals q k =
     (let J = (int (bit_len q) + k) * 30103 div 100000 + 1
      in concat (map (\<lambda>i. grid_decimals q k (J - int i)) [0 ..< 20]))"

text \<open>
  \<^verbatim>\<open>strconv.ParseFloat\<close> followed by the shortest form: the first candidate that rounds to the
  same double (the decimal itself, should there be none). A decimal that rounds to zero is zero.
\<close>

definition f64_shortest :: "int \<Rightarrow> int \<Rightarrow> (int \<times> int) option" where
  "f64_shortest q k = List.find (\<lambda>(c, j). 0 < c \<and> c mod 10 \<noteq> 0 \<and> f64_nearest c j = (q, k)) (decimals q k)"

fun f64_round :: "float64 \<Rightarrow> float64" where
  "f64_round (F64 neg m e) =
     (case f64_nearest (int m) e of (q, k) \<Rightarrow>
        if q = 0 then F64 neg 0 0
        else (case f64_shortest q k of Some (c, j) \<Rightarrow> F64 neg (nat c) j | None \<Rightarrow> F64 neg m e))"

declare f64_round.simps [simp del] f64_finite.simps [simp del]

section \<open>Evaluation on numerals\<close>

lemma bit_len_numeral:
  "bit_len 0 = 0" "bit_len 1 = 1" "bit_len (numeral Num.One) = 1"
  "bit_len (numeral (Num.Bit0 n)) = Suc (bit_len (numeral n))"
  "bit_len (numeral (Num.Bit1 n)) = Suc (bit_len (numeral n))"
  by (simp_all add: bit_len.simps [of 0] bit_len.simps [of 1] bit_len.simps [of "numeral (Num.Bit0 n)"]
      bit_len.simps [of "numeral (Num.Bit1 n)"])

lemmas f64_nearest_numeral =
  f64_nearest_def [of 0] f64_nearest_def [of 1] f64_nearest_def [of "numeral n" for n]
  f64_quot_def [of 0] f64_quot_def [of 1] f64_quot_def [of "numeral n" for n]
  quot_len_def [of 0] quot_len_def [of 1] quot_len_def [of "numeral n" for n]
  div_even_def [of 0] div_even_def [of 1] div_even_def [of "numeral n" for n] bit_len_numeral

lemmas f64_eval = f64_nearest_numeral f64_round.simps f64_finite.simps
  f64_shortest_def [of 1] f64_shortest_def [of "numeral n" for n]
  decimals_def [of 1] decimals_def [of "numeral n" for n]
  grid_decimals_def [of 1] grid_decimals_def [of "numeral n" for n]

section \<open>Rounded decimals\<close>

fun float_normal :: "float64 \<Rightarrow> bool" where
  "float_normal (F64 neg m e) = (if m = 0 then e = 0 else m mod 10 \<noteq> 0)"

lemma f64_shortest_Some:
  "f64_shortest q k = Some (c, j) \<Longrightarrow> 0 < c \<and> c mod 10 \<noteq> 0 \<and> f64_nearest c j = (q, k)"
  by (auto simp: f64_shortest_def find_Some_iff)

lemma f64_nearest_zero: "f64_nearest 0 0 = (0, - 54)"
  by (simp add: f64_nearest_numeral)

text \<open>The three cases of rounding.\<close>

lemma f64_round_cases:
  obtains (zero) neg m e k where "x = F64 neg m e" "f64_nearest (int m) e = (0, k)" "f64_round x = F64 neg 0 0"
    | (short) neg m e q k c j where "x = F64 neg m e" "f64_nearest (int m) e = (q, k)" "q \<noteq> 0"
        "f64_shortest q k = Some (c, j)" "0 < c" "c mod 10 \<noteq> 0" "f64_nearest c j = (q, k)"
        "f64_round x = F64 neg (nat c) j"
    | (same) neg m e q k where "x = F64 neg m e" "f64_nearest (int m) e = (q, k)" "q \<noteq> 0"
        "f64_shortest q k = None" "f64_round x = x"
proof -
  obtain neg m e where x: "x = F64 neg m e" by (cases x)
  obtain q k where n: "f64_nearest (int m) e = (q, k)" by fastforce
  show thesis
  proof (cases "q = 0")
    case True
    then show thesis using zero [OF x, of k] n by (simp add: x f64_round.simps)
  next
    case False
    then show thesis
    proof (cases "f64_shortest q k")
      case None
      then show thesis using same [OF x n False] False n by (simp add: x f64_round.simps)
    next
      case (Some cj)
      obtain c j where cj: "cj = (c, j)" by fastforce
      with Some False n f64_shortest_Some [of q k c j] show thesis
        using short [OF x n False, of c j] by (simp add: x f64_round.simps)
    qed
  qed
qed

lemma f64_round_idem [simp]: "f64_round (f64_round x) = f64_round x"
  by (cases x rule: f64_round_cases) (auto simp: f64_round.simps f64_nearest_zero)

lemma f64_round_finite [simp]: "f64_finite x \<Longrightarrow> f64_finite (f64_round x)"
  by (cases x rule: f64_round_cases) (auto simp: f64_finite.simps f64_nearest_zero)

lemma f64_round_normal [simp]: "float_normal x \<Longrightarrow> float_normal (f64_round x)"
  by (cases x rule: f64_round_cases) (auto simp: nat_mod_as_int)

section \<open>Small integers\<close>

lemma strip_zeros_normal:
  "m \<noteq> 0 \<Longrightarrow> strip_zeros m e = (m', e') \<Longrightarrow> m' mod 10 \<noteq> 0 \<and> m' \<noteq> 0"
proof (induction m e rule: strip_zeros.induct)
  case (1 m e)
  show ?case
  proof (cases "m mod 10 = 0")
    case True
    with "1.prems" have "strip_zeros (m div 10) (e + 1) = (m', e')"
      by (subst (asm) strip_zeros.simps) simp
    moreover have "m div 10 \<noteq> 0" using True "1.prems"(1) by auto
    ultimately show ?thesis using "1.IH" True "1.prems"(1) by simp
  next
    case False
    with "1.prems" have "m' = m" by (subst (asm) strip_zeros.simps) simp
    with False "1.prems"(1) show ?thesis by simp
  qed
qed

lemma strip_zeros_value: "strip_zeros m e = (m', e') \<Longrightarrow> e \<le> e' \<and> m' * 10 ^ nat (e' - e) = m"
proof (induction m e rule: strip_zeros.induct)
  case (1 m e)
  show ?case
  proof (cases "m \<noteq> 0 \<and> m mod 10 = 0")
    case True
    with "1.prems" have "strip_zeros (m div 10) (e + 1) = (m', e')" by (subst (asm) strip_zeros.simps) simp
    with "1.IH" [OF True] have h: "e + 1 \<le> e'" "m' * 10 ^ nat (e' - (e + 1)) = m div 10" by auto
    then have "nat (e' - e) = Suc (nat (e' - (e + 1)))" by simp
    then have "m' * 10 ^ nat (e' - e) = 10 * (m div 10)" using h(2) by (simp add: algebra_simps)
    with True h(1) show ?thesis by auto
  next
    case False
    then have "strip_zeros m e = (m, e)" by (subst strip_zeros.simps) auto
    with "1.prems" show ?thesis by simp
  qed
qed

lemma decimal_of_int_normal [simp]: "float_normal (decimal_of_int i)"
proof (cases "i = 0")
  case True
  then show ?thesis by (simp add: decimal_of_int_def strip_zeros.simps [of 0])
next
  case False
  obtain m e where me: "strip_zeros (nat \<bar>i\<bar>) 0 = (m, e)" by fastforce
  with False strip_zeros_normal [OF _ me] show ?thesis by (simp add: decimal_of_int_def)
qed

lemma bit_len_bounds: "0 < n \<Longrightarrow> 0 < bit_len n \<and> 2 ^ (bit_len n - 1) \<le> n \<and> n < 2 ^ bit_len n"
proof (induction n rule: bit_len.induct)
  case (1 n)
  show ?case
  proof (cases "n = 1")
    case True
    then show ?thesis by (simp add: bit_len_numeral)
  next
    case False
    with "1.prems" have half: "0 < n div 2" by linarith
    with "1.IH" "1.prems" have b: "0 < bit_len (n div 2)" "2 ^ (bit_len (n div 2) - 1) \<le> n div 2"
      "n div 2 < 2 ^ bit_len (n div 2)" by auto
    have s: "bit_len n = Suc (bit_len (n div 2))" using "1.prems" by (simp add: bit_len.simps [of n])
    obtain l where l: "bit_len (n div 2) = Suc l" using b(1) by (cases "bit_len (n div 2)") auto
    from b(2) l have "2 ^ Suc l \<le> n" by simp
    moreover from b(3) have "n < 2 * 2 ^ bit_len (n div 2)" by linarith
    ultimately show ?thesis by (simp add: s l)
  qed
qed

lemma bit_len_shift: "0 < n \<Longrightarrow> bit_len (n * 2 ^ s) = bit_len n + s"
proof (induction s)
  case (Suc s)
  have "bit_len (n * 2 ^ Suc s) = Suc (bit_len (n * 2 ^ s))"
    using Suc.prems by (subst bit_len.simps) (simp add: algebra_simps not_le)
  with Suc show ?case by simp
qed simp

lemma f64_quot_int:
  assumes "0 < n"
  shows "quot_len n 1 = int (bit_len n)"
proof -
  from bit_len_bounds [OF assms] have b: "0 < bit_len n" "2 ^ (bit_len n - 1) \<le> n" by auto
  then have "nat (int (bit_len n) - 1) = bit_len n - 1" "nat (1 - int (bit_len n)) = 0" by auto
  with b show ?thesis by (simp add: quot_len_def bit_len_numeral Let_def)
qed

text \<open>Integers below \<open>2 ^ 53\<close> are doubles; larger ones have a positive exponent.\<close>

lemma f64_quot_small:
  assumes "0 < n" "n < 2 ^ 53"
  shows "f64_quot n 1 = (n * 2 ^ (53 - bit_len n), int (bit_len n) - 53)" and "bit_len n \<le> 53"
proof -
  from bit_len_bounds [OF assms(1)] have b: "2 ^ (bit_len n - 1) \<le> n" "n < 2 ^ bit_len n" by auto
  have "(2 :: int) ^ (bit_len n - 1) < 2 ^ 53" using b(1) assms(2) by (rule le_less_trans)
  then have "bit_len n - 1 < 53" by (rule power_less_imp_less_exp [rotated]) simp
  then show le: "bit_len n \<le> 53" by simp
  have "n * 2 ^ (53 - bit_len n) < 2 ^ bit_len n * 2 ^ (53 - bit_len n)"
    using b(2) by (rule mult_strict_right_mono) simp
  also have "\<dots> = (2 :: int) ^ 53" using le by (simp flip: power_add)
  finally have "n * 2 ^ (53 - bit_len n) \<noteq> 2 ^ 53" by simp
  moreover have "nat (53 - int (bit_len n)) = 53 - bit_len n" "nat (int (bit_len n) - 53) = 0" using le by auto
  ultimately show "f64_quot n 1 = (n * 2 ^ (53 - bit_len n), int (bit_len n) - 53)"
    by (simp add: f64_quot_def f64_quot_int [OF assms(1)] div_even_def Let_def)
qed

lemma f64_quot_big:
  assumes "2 ^ 53 \<le> n"
  shows "0 < snd (f64_quot n 1)"
proof -
  have pos: "0 < n" using assms by simp
  from bit_len_bounds [OF pos] have "n < 2 ^ bit_len n" by simp
  with assms have "(2 :: int) ^ 53 < 2 ^ bit_len n" by (rule le_less_trans)
  then have "53 < bit_len n" by (rule power_less_imp_less_exp [rotated]) simp
  then show ?thesis by (simp add: f64_quot_def f64_quot_int [OF pos] Let_def)
qed

lemma f64_quot_inj:
  assumes "0 < n" "n < 2 ^ 53" "0 < i" "f64_quot i 1 = f64_quot n 1"
  shows "i = n"
proof (cases "i < 2 ^ 53")
  case True
  with f64_quot_small [OF assms(1,2)] f64_quot_small [OF assms(3)] assms(4)
  show ?thesis by auto
next
  case False
  with f64_quot_big [of i] f64_quot_small [OF assms(1,2)] assms(4) show ?thesis by simp
qed


text \<open>A decimal without trailing zeros is determined by its value.\<close>

lemma decimal_unique:
  fixes m c :: int
  assumes "m mod 10 \<noteq> 0" "c mod 10 \<noteq> 0" "c * 10 ^ j = m * 10 ^ e"
  shows "c = m \<and> j = e"
  using assms
proof (induction j arbitrary: e)
  case 0
  then show ?case by (cases e) (auto simp: mult.left_commute)
next
  case (Suc j)
  then obtain e' where e: "e = Suc e'" by (cases e) (auto simp: mult.left_commute)
  with Suc.prems(3) have "c * 10 ^ j = m * 10 ^ e'" by simp
  from Suc.IH [OF Suc.prems(1,2) this] e show ?case by simp
qed

lemma f64_nearest_int: "0 \<le> e \<Longrightarrow> f64_nearest m e = f64_quot (m * 10 ^ nat e) 1"
  by (simp add: f64_nearest_def)

lemma find_unique:
  assumes "a \<in> set xs" "P a" "\<And>x. x \<in> set xs \<Longrightarrow> P x \<Longrightarrow> x = a"
  shows "List.find P (xs @ ys) = Some a"
  using assms
proof (induction xs)
  case (Cons x xs)
  show ?case
  proof (cases "P x")
    case True
    then show ?thesis using Cons.prems(3) [of x] by simp
  next
    case False
    then have "a \<in> set xs" using Cons.prems(1,2) by auto
    then show ?thesis using Cons.IH [OF _ Cons.prems(2)] Cons.prems(3) False by simp
  qed
qed simp

text \<open>The first grid lies above the integer.\<close>

definition top_grid :: "int \<Rightarrow> int" where
  "top_grid b = b * 30103 div 100000 + 1"

lemma top_grid_table:
  "list_all (\<lambda>b. (2 :: int) ^ b \<le> 10 ^ nat (top_grid (int b)) \<and> 0 < top_grid (int b) \<and> top_grid (int b) \<le> 16) [1 ..< 54]"
  by (simp add: top_grid_def upt_rec)

lemma top_grid:
  assumes "1 \<le> b" "b \<le> 53"
  shows "(2 :: int) ^ b \<le> 10 ^ nat (top_grid (int b))" "0 < top_grid (int b)" "top_grid (int b) \<le> 16"
  using top_grid_table assms by (auto simp: list_all_iff)

lemma f64_shortest_int:
  assumes "0 < m" "m mod 10 \<noteq> 0" "0 \<le> e" "m * 10 ^ nat e < 2 ^ 53" "f64_nearest m e = (q, k)"
  shows "f64_shortest q k = Some (m, e) \<and> q \<noteq> 0 \<and> k \<le> 0"
proof -
  let ?N = "m * 10 ^ nat e" and ?P = "\<lambda>(c, j). 0 < c \<and> c mod 10 \<noteq> 0 \<and> f64_nearest c j = (q, k)"
  define b where "b = bit_len ?N"
  have N: "0 < ?N" using assms(1) by simp
  have quot: "f64_quot ?N 1 = (q, k)" using assms(3,5) by (simp add: f64_nearest_int)
  with f64_quot_small [OF N assms(4)] have qk: "q = ?N * 2 ^ (53 - b)" "k = int b - 53" "b \<le> 53"
    by (simp_all add: b_def)
  from bit_len_bounds [OF N] have b: "1 \<le> b" "?N < 2 ^ b" by (auto simp: b_def)
  define J where "J = top_grid (int b)"
  have len: "int (bit_len q) + k = int b"
    using bit_len_shift [OF N, of "53 - b"] qk by (simp add: b_def)
  have list: "decimals q k = concat (map (\<lambda>i. grid_decimals q k (J - int i)) [0 ..< 20])"
    by (simp add: decimals_def len J_def top_grid_def Let_def)
  have "(10 :: int) ^ nat e \<le> ?N" using assms(1) by simp
  also have "\<dots> < 10 ^ nat J" using b(2) top_grid(1) [OF b(1) qk(3)] by (simp add: J_def)
  finally have "nat e < nat J" by (rule power_less_imp_less_exp [rotated]) simp
  then have J: "e < J" "J \<le> 16" using assms(3) top_grid(3) [OF b(1) qk(3)] by (simp_all add: J_def)
  define t where "t = nat (J - e)"
  have t: "t < 20" "J - int t = e" using J assms(3) by (simp_all add: t_def)
  define xs where "xs = concat (map (\<lambda>i. grid_decimals q k (J - int i)) [0 ..< Suc t])"
  have "[0 ..< 20] = [0 ..< Suc t] @ [Suc t ..< 20]" using upt_add_eq_append [of 0 "Suc t" "19 - t"] t(1)
    by (simp del: upt_Suc)
  then obtain ys where ys: "decimals q k = xs @ ys" by (simp add: list xs_def del: upt_Suc)
  have unique: "x = (m, e)" if "x \<in> set xs" "?P x" for x
  proof -
    obtain c j where x: "x = (c, j)" by fastforce
    with that(1) J t have j: "0 \<le> j" using assms(3)
      by (auto simp: xs_def grid_decimals_def Let_def simp del: upt_Suc)
    with that(2) x have c: "0 < c" "c mod 10 \<noteq> 0" "f64_quot (c * 10 ^ nat j) 1 = f64_quot ?N 1"
      by (simp_all add: f64_nearest_int quot)
    then have "c * 10 ^ nat j = ?N" by (intro f64_quot_inj [OF N assms(4)]) simp_all
    from decimal_unique [OF assms(2) c(2) this] j assms(3) x show ?thesis by (simp add: eq_nat_nat_iff)
  qed
  have "q div (2 ^ (53 - b) * 10 ^ nat e) = m"
    using nonzero_mult_div_cancel_right [of "2 ^ (53 - b) * 10 ^ nat e" m] by (simp add: qk(1) mult_ac)
  then have "(m, e) \<in> set (grid_decimals q k (J - int t))"
    using qk(2,3) assms(3) t(2) by (simp add: grid_decimals_def Let_def nat_diff_distrib)
  then have "(m, e) \<in> set xs" by (auto simp: xs_def simp del: upt_Suc)
  moreover have "?P (m, e)" using assms(1,2,5) by simp
  ultimately have "List.find ?P (xs @ ys) = Some (m, e)" using unique by (rule find_unique)
  then have "f64_shortest q k = Some (m, e)" by (simp only: f64_shortest_def ys)
  then show ?thesis using assms(1) qk by simp
qed

text \<open>An integer below \<open>2 ^ 53\<close> is the same after the rounding.\<close>

lemma f64_round_int:
  assumes "\<bar>i\<bar> < 2 ^ 53"
  shows "f64_round (decimal_of_int i) = decimal_of_int i \<and> f64_finite (decimal_of_int i)"
proof (cases "i = 0")
  case True
  then show ?thesis
    by (simp add: decimal_of_int_def strip_zeros.simps [of 0] f64_round.simps f64_finite.simps f64_nearest_zero)
next
  case False
  obtain m e where me: "strip_zeros (nat \<bar>i\<bar>) 0 = (m, e)" by fastforce
  with False strip_zeros_normal [OF _ me] strip_zeros_value [OF me]
  have m: "m mod 10 \<noteq> 0" "0 < m" "0 \<le> e" "m * 10 ^ nat e = nat \<bar>i\<bar>" by auto
  have "int m * 10 ^ nat e = int (m * 10 ^ nat e)" by simp
  then have v: "int m * 10 ^ nat e = \<bar>i\<bar>" using m(4) by (simp del: of_nat_mult of_nat_power)
  obtain q k where n: "f64_nearest (int m) e = (q, k)" by fastforce
  have "int m mod 10 \<noteq> 0" using m(1) by (metis of_nat_eq_0_iff of_nat_mod of_nat_numeral)
  with m(2,3) v assms n have "f64_shortest q k = Some (int m, e) \<and> q \<noteq> 0 \<and> k \<le> 0"
    by (intro f64_shortest_int) simp_all
  with n show ?thesis by (simp add: decimal_of_int_def me f64_round.simps f64_finite.simps)
qed

end
