(* ===== verification/Filter_Expr.thy ===== *)
theory Filter_Expr
  imports Go_Float
begin

text \<open>
  Filter expressions: \<^verbatim>\<open>pkg/query/filter.go\<close> (the six kinds of expression, their SQL text,
  their JSON form and the typed wrapper) and the filter half of \<^verbatim>\<open>pkg/query/codec.go\<close> (the
  decoder the server runs on the \<^verbatim>\<open>filter\<close> query parameter). JSON is handled here as a tree
  of Go values.
\<close>

section \<open>Operators and expressions\<close>

type_synonym Op = string

definition OpAnd :: Op where [simp]: "OpAnd = ''AND''"
definition OpOr :: Op where [simp]: "OpOr = ''OR''"
definition OpNot :: Op where [simp]: "OpNot = ''NOT''"
definition OpEq :: Op where [simp]: "OpEq = ''=''"
definition OpIsNull :: Op where [simp]: "OpIsNull = ''IS NULL''"
definition OpIsNotNull :: Op where [simp]: "OpIsNotNull = ''IS NOT NULL''"
definition OpGt :: Op where [simp]: "OpGt = ''>''"
definition OpLt :: Op where [simp]: "OpLt = ''<''"
definition OpNe :: Op where [simp]: "OpNe = ''<>''"
definition OpNe2 :: Op where [simp]: "OpNe2 = ''!=''"
definition OpIn :: Op where [simp]: "OpIn = ''IN''"
definition OpLike :: Op where [simp]: "OpLike = ''LIKE''"
definition OpNotLike :: Op where [simp]: "OpNotLike = ''NOT LIKE''"

text \<open>
  A value of the interface type \<^verbatim>\<open>FilterExpression\<close>: nil, or one of the six structs. The
  operand lists of a junction and of \<^verbatim>\<open>IN\<close> are Go slices, and may be nil: \<^verbatim>\<open>Junction(op)\<close>
  with no further argument leaves its slice nil.
\<close>

datatype fexpr =
    NilE
  | SimpleE string Op gval
  | JunctionE Op "fexpr gslice"
  | NotE fexpr
  | InE string "gval gslice"
  | UnE string Op
  | BetweenE string gval gval

text \<open>The exported constructors. A variadic call without operands passes a nil slice.\<close>

definition SimpleExpr :: "string \<Rightarrow> Op \<Rightarrow> gval \<Rightarrow> fexpr" where
  "SimpleExpr name op val = SimpleE name op val"

definition Junction :: "Op \<Rightarrow> fexpr gslice \<Rightarrow> fexpr" where
  "Junction op sub = JunctionE op sub"

definition Not_expr :: "fexpr \<Rightarrow> fexpr" where
  "Not_expr e = NotE e"

definition In :: "string \<Rightarrow> gval gslice \<Rightarrow> fexpr" where
  "In name vals = InE name vals"

definition UnaryExpr :: "string \<Rightarrow> Op \<Rightarrow> fexpr" where
  "UnaryExpr name op = UnE name op"

definition BetweenExpr :: "string \<Rightarrow> gval \<Rightarrow> gval \<Rightarrow> fexpr" where
  "BetweenExpr name l r = BetweenE name l r"

lemmas fexpr_ctors [simp] =
  SimpleExpr_def Junction_def Not_expr_def In_def UnaryExpr_def BetweenExpr_def

section \<open>SQL text\<close>

text \<open>\<^verbatim>\<open>wrapStr\<close> puts the quote around strings and leaves every other value alone.\<close>

fun wrapStr :: "gval \<Rightarrow> string \<Rightarrow> gval" where
  "wrapStr (VStr s) q = VStr (q @ s @ q)"
| "wrapStr v q = v"

definition sql_quote :: string where
  "sql_quote = [CHR 0x27]"

definition fmt_operand :: "gval \<Rightarrow> string" where
  "fmt_operand v = fmt_v (wrapStr v sql_quote)"

text \<open>\<^verbatim>\<open>String\<close> of the six structs. A junction and a negation call the method of their operands, which
  panics on a nil operand.\<close>

definition simpleExpr_String :: "string \<Rightarrow> string \<Rightarrow> gval \<Rightarrow> string" where
  [simp]: "simpleExpr_String name op val = name @ '' '' @ op @ '' '' @ fmt_operand val"

definition notExpr_String :: "string \<Rightarrow> string" where
  [simp]: "notExpr_String s = ''NOT ('' @ s @ '')''"

definition inExpr_String :: "string \<Rightarrow> gval list \<Rightarrow> string" where
  [simp]: "inExpr_String name vals = name @ '' IN ('' @ join '','' (map fmt_operand vals) @ '')''"

definition unExpr_String :: "string \<Rightarrow> string \<Rightarrow> string" where
  [simp]: "unExpr_String name op = name @ '' '' @ op"

definition betweenExpr_String :: "string \<Rightarrow> gval \<Rightarrow> gval \<Rightarrow> string" where
  [simp]: "betweenExpr_String name l r = name @ '' BETWEEN '' @ fmt_operand l @ '' AND '' @ fmt_operand r"

fun fe_String :: "fexpr \<Rightarrow> string outcome" where
  "fe_String NilE = Panics nil_deref"
| "fe_String (SimpleE name op val) = Returns (simpleExpr_String name op val)"
| "fe_String (JunctionE op sub) =
     obind (traverse (\<lambda>item. obind (fe_String item) (\<lambda>s. Returns (''('' @ s @ '')''))) (elems sub))
       (\<lambda>parts. Returns (''('' @ join ('' '' @ op @ '' '') parts @ '')''))"
| "fe_String (NotE e) = obind (fe_String e) (\<lambda>s. Returns (notExpr_String s))"
| "fe_String (InE name vals) = Returns (inExpr_String name (elems vals))"
| "fe_String (UnE name op) = Returns (unExpr_String name op)"
| "fe_String (BetweenE name l r) = Returns (betweenExpr_String name l r)"

section \<open>JSON form\<close>

definition slice_json :: "gval gslice \<Rightarrow> gval" where
  "slice_json s = (case s of NilSlice \<Rightarrow> VNil | Slice vs \<Rightarrow> VList vs)"

text \<open>
  \<^verbatim>\<open>MarshalJSON\<close> of the six structs, as the tree that \<^verbatim>\<open>json.Marshal\<close> writes; keys are listed
  in the order the encoder writes them. A nil interface and a nil slice become \<^verbatim>\<open>null\<close>.
\<close>

definition simpleExpr_MarshalJSON :: "string \<Rightarrow> string \<Rightarrow> gval \<Rightarrow> gval" where
  [simp]: "simpleExpr_MarshalJSON name op val =
     VMap [(''simple'', VMap [(''name'', VStr name), (''op'', VStr op), (''val'', val)])]"

definition notExpr_MarshalJSON :: "gval \<Rightarrow> gval" where
  [simp]: "notExpr_MarshalJSON sub = VMap [(''not'', sub)]"

definition inExpr_MarshalJSON :: "string \<Rightarrow> gval gslice \<Rightarrow> gval" where
  [simp]: "inExpr_MarshalJSON name vals = VMap [(''in'', VMap [(''name'', VStr name), (''val'', slice_json vals)])]"

definition unExpr_MarshalJSON :: "string \<Rightarrow> string \<Rightarrow> gval" where
  [simp]: "unExpr_MarshalJSON name op = VMap [(''un'', VMap [(''name'', VStr name), (''op'', VStr op)])]"

definition betweenExpr_MarshalJSON :: "string \<Rightarrow> gval \<Rightarrow> gval \<Rightarrow> gval" where
  [simp]: "betweenExpr_MarshalJSON name l r =
     VMap [(''between'', VMap [(''left'', l), (''name'', VStr name), (''right'', r)])]"

fun fe_MarshalJSON :: "fexpr \<Rightarrow> gval" where
  "fe_MarshalJSON NilE = VNil"
| "fe_MarshalJSON (SimpleE name op val) = simpleExpr_MarshalJSON name op val"
| "fe_MarshalJSON (JunctionE op sub) =
     VMap [(''junction'', VMap [(''op'', VStr op),
       (''sub'', case sub of NilSlice \<Rightarrow> VNil | Slice es \<Rightarrow> VList (map fe_MarshalJSON es))])]"
| "fe_MarshalJSON (NotE e) = notExpr_MarshalJSON (fe_MarshalJSON e)"
| "fe_MarshalJSON (InE name vals) = inExpr_MarshalJSON name vals"
| "fe_MarshalJSON (UnE name op) = unExpr_MarshalJSON name op"
| "fe_MarshalJSON (BetweenE name l r) = betweenExpr_MarshalJSON name l r"

text \<open>
  What is read of a JSON number into an \<^verbatim>\<open>interface{}\<close>: the \<^verbatim>\<open>float64\<close> next to it; a number out
  of range is reported as an error and leaves nil. \<open>json_any\<close> does so for every number of a tree
  whose numbers are still the decimals of the text, and \<open>json_finite\<close> tells when no error is
  reported.
\<close>

definition json_number :: "float64 \<Rightarrow> gval" where
  "json_number x = (if f64_finite x then VFloat (f64_round x) else VNil)"

fun json_any :: "gval \<Rightarrow> gval" where
  "json_any (VFloat x) = json_number x"
| "json_any (VList vs) = VList (map json_any vs)"
| "json_any (VMap m) = VMap (map (\<lambda>(k, v). (k, json_any v)) m)"
| "json_any v = v"

fun json_finite :: "gval \<Rightarrow> bool" where
  "json_finite (VInt i) = f64_finite (decimal_of_int i)"
| "json_finite (VFloat x) = f64_finite x"
| "json_finite (VList vs) = list_all json_finite vs"
| "json_finite (VMap m) = list_all (\<lambda>(k, v). json_finite v) m"
| "json_finite v = True"

text \<open>
  What a value looks like after a trip through JSON text: byte slices and times come back as strings
  (\<open>enc\<close> is the encoder's text for them), integers as the decimals that are their text
  (\<open>json_raw\<close>), or, decoded into an \<^verbatim>\<open>interface{}\<close>, as \<^verbatim>\<open>float64\<close> (\<open>json_norm\<close>).
\<close>

fun json_raw :: "(gval \<Rightarrow> string) \<Rightarrow> gval \<Rightarrow> gval" where
  "json_raw enc (VInt i) = VFloat (decimal_of_int i)"
| "json_raw enc (VBytes bs) = VStr (enc (VBytes bs))"
| "json_raw enc (VTime t) = VStr (enc (VTime t))"
| "json_raw enc (VList vs) = VList (map (json_raw enc) vs)"
| "json_raw enc (VMap m) = VMap (map (\<lambda>(k, v). (k, json_raw enc v)) m)"
| "json_raw enc v = v"

fun json_norm :: "(gval \<Rightarrow> string) \<Rightarrow> gval \<Rightarrow> gval" where
  "json_norm enc (VInt i) = json_number (decimal_of_int i)"
| "json_norm enc (VFloat x) = json_number x"
| "json_norm enc (VBytes bs) = VStr (enc (VBytes bs))"
| "json_norm enc (VTime t) = VStr (enc (VTime t))"
| "json_norm enc (VList vs) = VList (map (json_norm enc) vs)"
| "json_norm enc (VMap m) = VMap (map (\<lambda>(k, v). (k, json_norm enc v)) m)"
| "json_norm enc v = v"

lemma json_any_raw: "json_any (json_raw enc v) = json_norm enc v"
  by (induction v) auto

lemma json_finite_raw: "json_finite (json_raw enc v) = json_finite v"
  by (induction v) (fastforce simp: list_all_iff prod_set_defs)+

lemma json_norm_idem: "json_norm enc (json_norm enc v) = json_norm enc v"
  by (induction v) (auto simp: json_number_def)

lemma json_norm_finite: "json_finite v \<Longrightarrow> json_finite (json_norm enc v)"
  by (induction v) (fastforce simp: json_number_def list_all_iff prod_set_defs)+

text \<open>Integers below \<open>2 ^ 53\<close> survive exactly.\<close>

lemma json_small_int:
  assumes "\<bar>i\<bar> < 2 ^ 53"
  shows "json_norm enc (VInt i) = VFloat (decimal_of_int i)" "json_finite (VInt i)"
  using f64_round_int [OF assms] by (simp_all add: json_number_def)

section \<open>The decoder of the server\<close>

text \<open>\<^verbatim>\<open>hasSubMap\<close>: the value under the key, when it is a JSON object.\<close>

definition hasSubMap :: "string \<Rightarrow> gmap \<Rightarrow> gmap option" where
  "hasSubMap key m = (case map_of m key of Some (VMap inner) \<Rightarrow> Some inner | _ \<Rightarrow> None)"

text \<open>The type assertions \<^verbatim>\<open>v.(string)\<close> and \<^verbatim>\<open>v.([]interface{})\<close> in their one-result form, which
  panics.\<close>

definition assert_string :: "gval \<Rightarrow> string outcome" where
  "assert_string v =
     (case v of VStr s \<Rightarrow> Returns s | _ \<Rightarrow> Panics ''interface conversion: not a string'')"

definition assert_list :: "gval \<Rightarrow> gval list outcome" where
  "assert_list v =
     (case v of VList vs \<Rightarrow> Returns vs | _ \<Rightarrow> Panics ''interface conversion: not a list'')"

lemmas assert_simps [simp] = assert_string_def assert_list_def

lemma map_of_size:
  "map_of m k = Some v \<Longrightarrow> size v < size_list (size_prod (\<lambda>_. 0) size) m"
  by (induction m) (auto split: if_splits)

lemma hasSubMap_size:
  "hasSubMap key m = Some inner \<Longrightarrow> size (VMap inner) < size (VMap m)"
  by (auto simp: hasSubMap_def dest!: map_of_size split: option.splits gval.splits)

lemma gmap_get_list_size:
  assumes "gmap_get m k = VList vs" and "VMap m' \<in> set vs"
  shows "size (VMap m') < size (VMap m)"
proof -
  from assms(1) have "map_of m k = Some (VList vs)"
    by (auto simp: gmap_get_def split: option.splits)
  then have "size (VList vs) < size_list (size_prod (\<lambda>_. 0) size) m" by (rule map_of_size)
  moreover have "size (VMap m') \<le> size_list size vs"
    using assms(2) by (rule size_list_estimation') simp
  ultimately show ?thesis by simp
qed

text \<open>
  The leaf decoders (\<^verbatim>\<open>simpleExprFromMap\<close> and its siblings). The name is printed with \<^verbatim>\<open>%v\<close>
  whatever its type; so is the value of a simple expression, which is a string from then on.
\<close>

definition simpleExprFromMap :: "gmap \<Rightarrow> fexpr outcome" where
  "simpleExprFromMap m =
     obind (assert_string (gmap_get m ''op'')) (\<lambda>op.
       Returns (SimpleExpr (fmt_v (gmap_get m ''name'')) op (VStr (fmt_v (gmap_get m ''val'')))))"

definition inExprFromMap :: "gmap \<Rightarrow> fexpr outcome" where
  "inExprFromMap m =
     obind (assert_list (gmap_get m ''val'')) (\<lambda>vs.
       Returns (In (fmt_v (gmap_get m ''name'')) (Slice vs)))"

definition unExprFromMap :: "gmap \<Rightarrow> fexpr outcome" where
  "unExprFromMap m =
     obind (assert_string (gmap_get m ''op'')) (\<lambda>op.
       Returns (UnaryExpr (fmt_v (gmap_get m ''name'')) op))"

definition betweenExprFromMap :: "gmap \<Rightarrow> fexpr outcome" where
  "betweenExprFromMap m =
     Returns (BetweenExpr (fmt_v (gmap_get m ''name'')) (gmap_get m ''left'') (gmap_get m ''right''))"

text \<open>
  \<^verbatim>\<open>decodeExprFromMap\<close> with its two recursive helpers \<^verbatim>\<open>junctionExprFromMap\<close> and
  \<^verbatim>\<open>notExprFromMap\<close>. The kinds are tried in the order of the source; a map with none of them
  decodes to nil.
\<close>

function decodeExprFromMap :: "gmap \<Rightarrow> fexpr outcome"
  and junctionExprFromMap :: "gmap \<Rightarrow> fexpr outcome"
  and notExprFromMap :: "gmap \<Rightarrow> fexpr outcome" where
  "decodeExprFromMap m =
     (case hasSubMap ''simple'' m of Some sub \<Rightarrow> simpleExprFromMap sub
      | None \<Rightarrow> (case hasSubMap ''junction'' m of Some sub \<Rightarrow> junctionExprFromMap sub
      | None \<Rightarrow> (case hasSubMap ''not'' m of Some sub \<Rightarrow> notExprFromMap sub
      | None \<Rightarrow> (case hasSubMap ''in'' m of Some sub \<Rightarrow> inExprFromMap sub
      | None \<Rightarrow> (case hasSubMap ''un'' m of Some sub \<Rightarrow> unExprFromMap sub
      | None \<Rightarrow> (case hasSubMap ''between'' m of Some sub \<Rightarrow> betweenExprFromMap sub
      | None \<Rightarrow> Returns NilE))))))"
| "junctionExprFromMap m =
     obind (assert_string (gmap_get m ''op'')) (\<lambda>op.
       (case gmap_get m ''sub'' of
          VList items \<Rightarrow>
            obind (traverse (\<lambda>item. case item of
                VMap inner \<Rightarrow> decodeExprFromMap inner
              | _ \<Rightarrow> Panics ''interface conversion: not a map'') items)
              (\<lambda>es. Returns (Junction op (Slice es)))
        | _ \<Rightarrow> Panics ''interface conversion: not a list''))"
| "notExprFromMap m = obind (decodeExprFromMap m) (\<lambda>e. Returns (Not_expr e))"
  by pat_completeness auto

text \<open>Each call goes to a strictly smaller object; \<^verbatim>\<open>notExprFromMap\<close> looks at its own argument.\<close>

termination
proof (relation "measure (\<lambda>x. case x of
    Inl m \<Rightarrow> 2 * size (VMap m) | Inr (Inl m) \<Rightarrow> 2 * size (VMap m) + 1
  | Inr (Inr m) \<Rightarrow> 2 * size (VMap m) + 1)")
qed (auto dest!: hasSubMap_size dest: gmap_get_list_size)

declare decodeExprFromMap.simps [simp del]


section \<open>The typed wrapper\<close>

text \<open>
  \<^verbatim>\<open>FilterExpressionWrapper\<close> has one optional field per kind, the two recursive ones through
  \<^verbatim>\<open>FilterJunctionExpression\<close> (a list of wrappers) and \<^verbatim>\<open>FilterNotExpression\<close> (one wrapper).
\<close>

datatype between_expression = FilterBetweenExpression gval string gval
datatype in_expression = FilterInExpression string "gval gslice"
datatype simple_expression = FilterSimpleExpression string string gval
datatype un_expression = FilterUnExpression string string

datatype few =
    FilterExpressionWrapper "between_expression option" "in_expression option"
      "junction_expression option" "not_expression option"
      "simple_expression option" "un_expression option"
  and junction_expression = FilterJunctionExpression string "few list"
  and not_expression = FilterNotExpression few

text \<open>\<^verbatim>\<open>AsFilterExpression\<close> of the six structs and of the wrapper.\<close>

fun simple_AsFilterExpression :: "simple_expression \<Rightarrow> fexpr" where
  "simple_AsFilterExpression (FilterSimpleExpression name op val) = SimpleExpr name op val"

fun in_AsFilterExpression :: "in_expression \<Rightarrow> fexpr" where
  "in_AsFilterExpression (FilterInExpression name val) = In name val"

fun between_AsFilterExpression :: "between_expression \<Rightarrow> fexpr" where
  "between_AsFilterExpression (FilterBetweenExpression l name r) = BetweenExpr name l r"

fun un_AsFilterExpression :: "un_expression \<Rightarrow> fexpr" where
  "un_AsFilterExpression (FilterUnExpression name op) = UnaryExpr name op"

fun few_AsFilterExpression :: "few \<Rightarrow> fexpr"
  and junction_AsFilterExpression :: "junction_expression \<Rightarrow> fexpr"
  and not_AsFilterExpression :: "not_expression \<Rightarrow> fexpr" where
  "few_AsFilterExpression (FilterExpressionWrapper b i j n s u) =
     (case s of Some se \<Rightarrow> simple_AsFilterExpression se
      | None \<Rightarrow> (case j of Some je \<Rightarrow> junction_AsFilterExpression je
      | None \<Rightarrow> (case n of Some ne \<Rightarrow> not_AsFilterExpression ne
      | None \<Rightarrow> (case i of Some ie \<Rightarrow> in_AsFilterExpression ie
      | None \<Rightarrow> (case b of Some be \<Rightarrow> between_AsFilterExpression be
      | None \<Rightarrow> (case u of Some ue \<Rightarrow> un_AsFilterExpression ue
      | None \<Rightarrow> NilE))))))"
| "junction_AsFilterExpression (FilterJunctionExpression op sub) =
     Junction op (Slice (map few_AsFilterExpression sub))"
| "not_AsFilterExpression (FilterNotExpression sub) = Not_expr (few_AsFilterExpression sub)"

text \<open>The JSON form of the wrapper: the default encoding of its struct, with \<^verbatim>\<open>omitempty\<close>.\<close>

definition opt_field :: "string \<Rightarrow> gval option \<Rightarrow> gmap" where
  "opt_field key v = (case v of None \<Rightarrow> [] | Some x \<Rightarrow> [(key, x)])"

fun few_json :: "few \<Rightarrow> gval"
  and junction_json :: "junction_expression \<Rightarrow> gval"
  and not_json :: "not_expression \<Rightarrow> gval" where
  "few_json (FilterExpressionWrapper b i j n s u) = VMap (
     opt_field ''between'' (case b of None \<Rightarrow> None | Some (FilterBetweenExpression l name r) \<Rightarrow>
       Some (VMap [(''left'', l), (''name'', VStr name), (''right'', r)])) @
     opt_field ''in'' (case i of None \<Rightarrow> None | Some (FilterInExpression name val) \<Rightarrow>
       Some (VMap [(''name'', VStr name), (''val'', slice_json val)])) @
     opt_field ''junction'' (case j of None \<Rightarrow> None | Some je \<Rightarrow> Some (junction_json je)) @
     opt_field ''not'' (case n of None \<Rightarrow> None | Some ne \<Rightarrow> Some (not_json ne)) @
     opt_field ''simple'' (case s of None \<Rightarrow> None | Some (FilterSimpleExpression name op val) \<Rightarrow>
       Some (VMap [(''name'', VStr name), (''op'', VStr op), (''val'', val)])) @
     opt_field ''un'' (case u of None \<Rightarrow> None | Some (FilterUnExpression name op) \<Rightarrow>
       Some (VMap [(''name'', VStr name), (''op'', VStr op)])))"
| "junction_json (FilterJunctionExpression op sub) =
     VMap [(''op'', VStr op), (''sub'', VList (map few_json sub))]"
| "not_json (FilterNotExpression sub) = VMap [(''sub'', few_json sub)]"

text \<open>The wrapper that denotes an expression.\<close>

definition empty_few :: few where
  "empty_few = FilterExpressionWrapper None None None None None None"

fun few_of :: "fexpr \<Rightarrow> few" where
  "few_of NilE = empty_few"
| "few_of (SimpleE name op val) =
     FilterExpressionWrapper None None None None (Some (FilterSimpleExpression name op val)) None"
| "few_of (JunctionE op sub) = FilterExpressionWrapper None None
     (Some (FilterJunctionExpression op (map few_of (elems sub)))) None None None"
| "few_of (NotE e) =
     FilterExpressionWrapper None None None (Some (FilterNotExpression (few_of e))) None None"
| "few_of (InE name vals) =
     FilterExpressionWrapper None (Some (FilterInExpression name vals)) None None None None"
| "few_of (UnE name op) =
     FilterExpressionWrapper None None None None None (Some (FilterUnExpression name op))"
| "few_of (BetweenE name l r) =
     FilterExpressionWrapper (Some (FilterBetweenExpression l name r)) None None None None None"

end
