(* ===== verification/Filter_Codec.thy ===== *)
theory Filter_Codec
  imports Filter_Expr
begin

text \<open>
  What the filter codec promises: the decoder of the server undoes \<^verbatim>\<open>MarshalJSON\<close> up to the
  rewriting of simple operands to strings, which inputs make it panic, and how the typed
  wrapper relates to it.
\<close>

section \<open>Well-formed expressions\<close>

text \<open>\<open>fe_nil_free\<close>: no nil interface anywhere in the tree. \<open>fe_wf\<close>: moreover no nil slice.\<close>

fun fe_nil_free :: "fexpr \<Rightarrow> bool" where
  "fe_nil_free NilE = False"
| "fe_nil_free (JunctionE op sub) = (\<forall>e \<in> set (elems sub). fe_nil_free e)"
| "fe_nil_free (NotE e) = fe_nil_free e"
| "fe_nil_free e = True"

fun fe_wf :: "fexpr \<Rightarrow> bool" where
  "fe_wf NilE = False"
| "fe_wf (JunctionE op sub) = (sub \<noteq> NilSlice \<and> (\<forall>e \<in> set (elems sub). fe_wf e))"
| "fe_wf (NotE e) = fe_wf e"
| "fe_wf (InE name vals) = (vals \<noteq> NilSlice)"
| "fe_wf e = True"

lemma fe_wf_nil_free: "fe_wf e \<Longrightarrow> fe_nil_free e"
  by (induction e) auto

text \<open>What the server holds after decoding: operands of simple expressions are strings.\<close>

fun fe_wire :: "fexpr \<Rightarrow> fexpr" where
  "fe_wire (SimpleE name op val) = SimpleE name op (VStr (fmt_v val))"
| "fe_wire (JunctionE op sub) = JunctionE op (map_gslice fe_wire sub)"
| "fe_wire (NotE e) = NotE (fe_wire e)"
| "fe_wire e = e"

text \<open>The expression with its operands as they are after a trip through JSON text.\<close>

fun fe_norm :: "(gval \<Rightarrow> string) \<Rightarrow> fexpr \<Rightarrow> fexpr" where
  "fe_norm enc (SimpleE name op val) = SimpleE name op (json_norm enc val)"
| "fe_norm enc (JunctionE op sub) = JunctionE op (map_gslice (fe_norm enc) sub)"
| "fe_norm enc (NotE e) = NotE (fe_norm enc e)"
| "fe_norm enc (InE name vals) = InE name (map_gslice (json_norm enc) vals)"
| "fe_norm enc (BetweenE name l r) = BetweenE name (json_norm enc l) (json_norm enc r)"
| "fe_norm enc e = e"

lemma json_norm_marshal: "json_norm enc (fe_MarshalJSON e) = fe_MarshalJSON (fe_norm enc e)"
proof (induction e)
  case (JunctionE op sub)
  then show ?case by (cases sub) simp_all
next
  case (InE name vals)
  then show ?case by (cases vals) (simp_all add: slice_json_def)
qed simp_all

lemma fe_wf_norm [simp]: "fe_wf (fe_norm enc e) = fe_wf e"
proof (induction e)
  case (JunctionE op sub)
  then show ?case by (cases sub) auto
next
  case (InE name vals)
  then show ?case by (cases vals) auto
qed simp_all

section \<open>The decoder undoes the encoder\<close>

lemma hasSubMap_single [simp]:
  "hasSubMap key [(k, v)] = (if k = key then (case v of VMap m \<Rightarrow> Some m | _ \<Rightarrow> None) else None)"
  by (simp add: hasSubMap_def split: gval.splits)

lemma gmap_get_simps [simp]:
  "gmap_get [] key = VNil"
  "gmap_get ((k, v) # m) key = (if k = key then v else gmap_get m key)"
  by (simp_all add: gmap_get_def)

definition is_object :: "gval \<Rightarrow> bool" where
  "is_object v = (case v of VMap m \<Rightarrow> True | _ \<Rightarrow> False)"

definition object_of :: "gval \<Rightarrow> gmap" where
  "object_of v = (case v of VMap m \<Rightarrow> m | _ \<Rightarrow> [])"

lemma marshal_object: "fe_wf e \<Longrightarrow> \<exists>m. fe_MarshalJSON e = VMap m"
  by (cases e) simp_all

lemma object_of_VMap [simp]: "object_of (VMap m) = m"
  by (simp add: object_of_def)

lemma decode_marshal:
  "fe_wf e \<Longrightarrow> decodeExprFromMap (object_of (fe_MarshalJSON e)) = Returns (fe_wire e)"
proof (induction e)
  case (JunctionE op sub)
  from JunctionE.prems obtain es where sub: "sub = Slice es" by (cases sub) auto
  have item: "(case fe_MarshalJSON e of VMap inner \<Rightarrow> decodeExprFromMap inner
      | _ \<Rightarrow> Panics ''interface conversion: not a map'') = Returns (fe_wire e)"
    if "e \<in> set es" for e
  proof -
    from that JunctionE.prems sub have "fe_wf e" by auto
    moreover from this obtain m where "fe_MarshalJSON e = VMap m"
      using marshal_object by auto
    ultimately show ?thesis using JunctionE.IH [of e] that sub by simp
  qed
  show ?case
    by (subst decodeExprFromMap.simps)
       (simp add: sub traverse_map
          traverse_Returns [where g = fe_wire] item)
next
  case (NotE e)
  then obtain m where "fe_MarshalJSON e = VMap m"
    using marshal_object by auto
  with NotE show ?case
    by (subst decodeExprFromMap.simps) simp
next
  case (InE name vals)
  then show ?case
    by (subst decodeExprFromMap.simps)
       (cases vals; simp add: inExprFromMap_def slice_json_def)
qed (simp_all add: decodeExprFromMap.simps [of "_ # _"] simpleExprFromMap_def unExprFromMap_def
       betweenExprFromMap_def)

section \<open>What every decoded expression looks like\<close>

fun fe_decoded :: "fexpr \<Rightarrow> bool" where
  "fe_decoded (SimpleE name op val) = (\<exists>s. val = VStr s)"
| "fe_decoded (JunctionE op sub) = (sub \<noteq> NilSlice \<and> (\<forall>e \<in> set (elems sub). fe_decoded e))"
| "fe_decoded (NotE e) = fe_decoded e"
| "fe_decoded (InE name vals) = (vals \<noteq> NilSlice)"
| "fe_decoded e = True"

lemma fe_decoded_wire: "fe_decoded e \<Longrightarrow> fe_wire e = e"
proof (induction e)
  case (JunctionE op sub)
  then show ?case by (cases sub) (auto intro: map_idI)
qed auto

lemma fe_decoded_wf: "fe_decoded e \<Longrightarrow> fe_nil_free e \<Longrightarrow> fe_wf e"
  by (induction e) auto

lemma traverse_Returns_all:
  assumes "traverse f xs = Returns ys" and "\<And>x y. x \<in> set xs \<Longrightarrow> f x = Returns y \<Longrightarrow> P y"
  shows "\<forall>y \<in> set ys. P y"
  using assms
proof (induction xs arbitrary: ys)
  case (Cons x xs)
  from Cons.prems(1) obtain z zs where "f x = Returns z" "traverse f xs = Returns zs" "ys = z # zs"
    by (auto simp: obind_Returns_iff)
  moreover have "P z"
    using \<open>f x = Returns z\<close> by (auto intro: Cons.prems(2))
  moreover have "\<forall>y \<in> set zs. P y"
    using \<open>traverse f xs = Returns zs\<close> by (rule Cons.IH) (auto intro: Cons.prems(2))
  ultimately show ?case by simp
qed simp

lemma decode_decoded:
  shows "decodeExprFromMap m = Returns e \<Longrightarrow> fe_decoded e"
    and "junctionExprFromMap m = Returns e \<Longrightarrow> fe_decoded e"
    and "notExprFromMap m = Returns e \<Longrightarrow> fe_decoded e"
proof (induction m and m and m arbitrary: e and e and e
    rule: decodeExprFromMap_junctionExprFromMap_notExprFromMap.induct)
  case (1 m)
  from "1.prems" show ?case
    by (subst (asm) decodeExprFromMap.simps)
       (auto split: option.splits simp: obind_Returns_iff simpleExprFromMap_def
          inExprFromMap_def unExprFromMap_def betweenExprFromMap_def dest: "1.IH")
next
  case (2 m)
  from "2.prems" obtain op items es where
    items: "gmap_get m ''sub'' = VList items" and e: "e = JunctionE op (Slice es)" and
    tr: "traverse (\<lambda>item. case item of VMap inner \<Rightarrow> decodeExprFromMap inner
        | _ \<Rightarrow> Panics ''interface conversion: not a map'') items = Returns es"
    and op: "gmap_get m ''op'' = VStr op"
    by (auto simp: obind_Returns_iff split: gval.splits)
  have "\<forall>x \<in> set es. fe_decoded x"
    using tr
  proof (rule traverse_Returns_all)
    fix x y
    assume "x \<in> set items"
      and "(case x of VMap inner \<Rightarrow> decodeExprFromMap inner
        | _ \<Rightarrow> Panics ''interface conversion: not a map'') = Returns y"
    then show "fe_decoded y"
      using "2.IH" op items by (auto split: gval.splits)
  qed
  with e show ?case by simp
next
  case (3 m)
  then show ?case by (auto simp: obind_Returns_iff)
qed

section \<open>The typed wrapper against the decoder\<close>

fun fe_not_free :: "fexpr \<Rightarrow> bool" where
  "fe_not_free (NotE e) = False"
| "fe_not_free (JunctionE op sub) = (\<forall>e \<in> set (elems sub). fe_not_free e)"
| "fe_not_free e = True"

lemma few_of_roundtrip: "fe_wf e \<Longrightarrow> few_AsFilterExpression (few_of e) = e"
proof (induction e)
  case (JunctionE op sub)
  then show ?case by (cases sub) (auto intro: map_idI)
qed auto

lemma few_json_few_of: "fe_wf e \<Longrightarrow> few_json (few_of e) = fe_MarshalJSON e \<longleftrightarrow> fe_not_free e"
proof (induction e)
  case (JunctionE op sub)
  then show ?case by (cases sub) (auto simp: opt_field_def list.map_comp)
next
  case (NotE e)
  then show ?case by (cases e) (auto simp: opt_field_def)
qed (simp_all add: opt_field_def)

lemma few_json_object: "\<exists>m. few_json w = VMap m"
  by (cases w) simp

lemma wrapper_not_decode:
  "decodeExprFromMap [(''not'', VMap [(''sub'', few_json w)])] = Returns (NotE NilE)"
  by (simp add: decodeExprFromMap.simps)

section \<open>Rendering is total on expressions without nil\<close>

lemma fe_String_total: "is_returns (fe_String e) \<longleftrightarrow> fe_nil_free e"
proof (induction e)
  case (JunctionE op sub)
  show ?case
  proof (cases "\<forall>e \<in> set (elems sub). fe_nil_free e")
    case True
    then have "\<forall>e \<in> set (elems sub). \<exists>s. fe_String e = Returns s"
      using JunctionE.IH by (auto simp: is_returns_iff)
    then obtain g where "\<forall>e \<in> set (elems sub). fe_String e = Returns (g e)"
      by metis
    then have "traverse (\<lambda>item. obind (fe_String item) (\<lambda>s. Returns (''('' @ s @ '')''))) (elems sub)
        = Returns (map (\<lambda>e. ''('' @ g e @ '')'') (elems sub))"
      by (intro traverse_Returns) auto
    with True show ?thesis by simp
  next
    case False
    then have "\<exists>e \<in> set (elems sub). \<not> is_returns (obind (fe_String e) (\<lambda>s. Returns (''('' @ s @ '')'')))"
      using JunctionE.IH by (auto simp: is_returns_iff obind_Returns_iff)
    then have "\<not> is_returns (traverse (\<lambda>item. obind (fe_String item)
        (\<lambda>s. Returns (''('' @ s @ '')''))) (elems sub))"
      by (rule traverse_Panics)
    with False show ?thesis by (auto simp: is_returns_iff obind_Returns_iff)
  qed
next
  case (NotE e)
  then show ?case by (auto simp: is_returns_iff obind_Returns_iff)
qed simp_all

end
