(* ===== verification/Json.thy ===== *)
theory Json
  imports Filter_Codec "HOL-Library.AList"
begin

text \<open>
  What the program uses of \<^verbatim>\<open>encoding/json\<close>: the text \<^verbatim>\<open>json.Marshal\<close> writes for a Go value
  and the value \<^verbatim>\<open>Decoder.Decode\<close> reads into an \<^verbatim>\<open>interface{}\<close>, with the round trip between
  them. A number is read as the decimal that its text is; what becomes of it in an \<^verbatim>\<open>interface{}\<close> is
  \<open>json_any\<close> of \<^verbatim>\<open>Filter_Expr\<close>. Strings are bytes, and bytes from 128 on pass through unchanged in
  both directions. For valid UTF-8 (\<open>valid_utf8\<close>) that is what the package does, except that it writes U+2028 and
  U+2029 as escapes that read back as the same bytes; it replaces bytes that are not UTF-8 by U+FFFD,
  which is outside the model.
\<close>

section \<open>UTF-8\<close>

text \<open>The well-formed byte sequences of Unicode, shortest forms without surrogates.\<close>

definition in_range :: "nat \<Rightarrow> nat \<Rightarrow> char \<Rightarrow> bool" where
  "in_range l h c \<longleftrightarrow> l \<le> of_char c \<and> of_char c \<le> h"

definition utf8_tail :: "char \<Rightarrow> (nat \<times> nat) list" where
  "utf8_tail c =
     (if in_range 0xC2 0xDF c then [(0x80, 0xBF)]
      else if c = CHR 0xE0 then [(0xA0, 0xBF), (0x80, 0xBF)]
      else if c = CHR 0xED then [(0x80, 0x9F), (0x80, 0xBF)]
      else if in_range 0xE1 0xEF c then [(0x80, 0xBF), (0x80, 0xBF)]
      else if c = CHR 0xF0 then [(0x90, 0xBF), (0x80, 0xBF), (0x80, 0xBF)]
      else if c = CHR 0xF4 then [(0x80, 0x8F), (0x80, 0xBF), (0x80, 0xBF)]
      else if in_range 0xF1 0xF3 c then [(0x80, 0xBF), (0x80, 0xBF), (0x80, 0xBF)]
      else [])"

fun utf8_from :: "(nat \<times> nat) list \<Rightarrow> string \<Rightarrow> bool" where
  "utf8_from [] [] = True"
| "utf8_from [] (c # cs) =
     (if in_range 0 0x7F c then utf8_from [] cs else utf8_tail c \<noteq> [] \<and> utf8_from (utf8_tail c) cs)"
| "utf8_from ((l, h) # rs) [] = False"
| "utf8_from ((l, h) # rs) (c # cs) = (in_range l h c \<and> utf8_from rs cs)"

definition valid_utf8 :: "string \<Rightarrow> bool" where
  "valid_utf8 s = utf8_from [] s"

text \<open>All strings in the JSON text of a value are UTF-8.\<close>

fun json_utf8 :: "(gval \<Rightarrow> string) \<Rightarrow> gval \<Rightarrow> bool" where
  "json_utf8 enc (VStr s) = valid_utf8 s"
| "json_utf8 enc (VBytes bs) = valid_utf8 (enc (VBytes bs))"
| "json_utf8 enc (VTime t) = valid_utf8 (enc (VTime t))"
| "json_utf8 enc (VList vs) = list_all (json_utf8 enc) vs"
| "json_utf8 enc (VMap m) = list_all (\<lambda>(k, v). valid_utf8 k \<and> json_utf8 enc v) m"
| "json_utf8 enc v = True"

section \<open>Writing\<close>

definition hex_digit :: "nat \<Rightarrow> char" where
  "hex_digit d = (if d < 10 then char_of (48 + d) else char_of (87 + d))"

text \<open>String escapes of the encoder, HTML escaping included (\<^verbatim>\<open>SetEscapeHTML\<close> is on by default).\<close>

definition esc_char :: "char \<Rightarrow> string" where
  "esc_char c =
     (if c = CHR 0x22 then [CHR 0x5C, CHR 0x22]
      else if c = CHR 0x5C then [CHR 0x5C, CHR 0x5C]
      else if c = CHR 0x08 then [CHR 0x5C, CHR ''b'']
      else if c = CHR 0x0C then [CHR 0x5C, CHR ''f'']
      else if c = CHR 0x0A then [CHR 0x5C, CHR ''n'']
      else if c = CHR 0x0D then [CHR 0x5C, CHR ''r'']
      else if c = CHR 0x09 then [CHR 0x5C, CHR ''t'']
      else if of_char c < (32 :: nat) \<or> c \<in> {CHR ''<'', CHR ''>'', CHR ''&''}
      then [CHR 0x5C, CHR ''u'', CHR ''0'', CHR ''0'',
            hex_digit (of_char c div 16), hex_digit (of_char c mod 16)]
      else [c])"

definition json_string :: "string \<Rightarrow> string" where
  "json_string s = CHR 0x22 # concat (map esc_char s) @ [CHR 0x22]"

text \<open>A \<^verbatim>\<open>float64\<close> is written without exponent from 1e-6 up to 1e21.\<close>

definition json_float :: "float64 \<Rightarrow> string" where
  "json_float x =
     (case x of F64 neg m e \<Rightarrow>
        (let ds = (if m = 0 then [] else dec_nat m);
             dp = (if m = 0 then 0 else int (length ds) + e);
             body = (if m \<noteq> 0 \<and> (dp < -5 \<or> 21 < dp)
                     then take 1 ds @ (if length ds > 1 then ''.'' @ drop 1 ds else []) @ ''e'' @
                          (if dp - 1 < 0 then ''-'' else ''+'') @ dec_nat (nat \<bar>dp - 1\<bar>)
                     else fmt_f ds dp)
         in (if neg then ''-'' else []) @ body))"

text \<open>
  \<open>enc\<close> gives the text of the two scalar types that marshal as strings (byte slices, times).
  Object keys are written in sorted order.
\<close>

fun json_enc :: "(gval \<Rightarrow> string) \<Rightarrow> gval \<Rightarrow> string" where
  "json_enc enc VNil = ''null''"
| "json_enc enc (VBool b) = (if b then ''true'' else ''false'')"
| "json_enc enc (VInt i) = dec_int i"
| "json_enc enc (VFloat x) = json_float x"
| "json_enc enc (VStr s) = json_string s"
| "json_enc enc (VBytes bs) = json_string (enc (VBytes bs))"
| "json_enc enc (VTime t) = json_string (enc (VTime t))"
| "json_enc enc (VList vs) = ''['' @ join '','' (map (json_enc enc) vs) @ '']''"
| "json_enc enc (VMap m) =
     ''{'' @ join '','' (map (\<lambda>(k, t). json_string k @ '':'' @ t)
       (sort_key fst (map (\<lambda>(k, v). (k, json_enc enc v)) m))) @ ''}''"

section \<open>Reading\<close>

definition ws_char :: "char \<Rightarrow> bool" where
  "ws_char c \<longleftrightarrow> c \<in> {CHR '' '', CHR 0x09, CHR 0x0A, CHR 0x0D}"

definition skip_ws :: "string \<Rightarrow> string" where
  "skip_ws s = dropWhile ws_char s"

definition norm_float :: "bool \<Rightarrow> nat \<Rightarrow> int \<Rightarrow> float64" where
  "norm_float neg m e =
     (if m = 0 then F64 neg 0 0 else (case strip_zeros m e of (m', e') \<Rightarrow> F64 neg m' e'))"

definition p_digits :: "string \<Rightarrow> string \<times> string" where
  "p_digits s = (takeWhile is_digit s, dropWhile is_digit s)"

text \<open>The optional fraction and exponent of a number.\<close>

definition p_frac :: "string \<Rightarrow> (string \<times> string) option" where
  "p_frac s =
     (case s of
        c # cs \<Rightarrow>
          (if c = CHR ''.'' then (case p_digits cs of (fp, r) \<Rightarrow> if fp = [] then None else Some (fp, r))
           else Some ([], s))
      | [] \<Rightarrow> Some ([], []))"

definition p_sign :: "string \<Rightarrow> bool \<times> string" where
  "p_sign s =
     (case s of
        c # cs \<Rightarrow> if c = CHR ''-'' then (True, cs) else if c = CHR ''+'' then (False, cs) else (False, s)
      | [] \<Rightarrow> (False, []))"

definition p_exp :: "string \<Rightarrow> (int \<times> string) option" where
  "p_exp s =
     (case s of
        c # cs \<Rightarrow>
          (if c = CHR ''e'' \<or> c = CHR ''E'' then
             (case p_sign cs of (neg, ds) \<Rightarrow>
                (case p_digits ds of (xp, r) \<Rightarrow>
                   if xp = [] then None
                   else Some ((if neg then - int (undec xp) else int (undec xp)), r)))
           else Some (0, s))
      | [] \<Rightarrow> Some (0, []))"

definition p_number :: "string \<Rightarrow> (gval \<times> string) option" where
  "p_number s =
     (let (neg, s1) = (case s of c # cs \<Rightarrow> if c = CHR ''-'' then (True, cs) else (False, s) | [] \<Rightarrow> (False, []));
          (ip, s2) = p_digits s1
      in if ip = [] \<or> (length ip > 1 \<and> hd ip = CHR ''0'') then None
         else (case p_frac s2 of None \<Rightarrow> None | Some (fp, s3) \<Rightarrow>
           (case p_exp s3 of None \<Rightarrow> None | Some (x, s4) \<Rightarrow>
             Some (VFloat (norm_float neg (undec (ip @ fp)) (x - int (length fp))), s4))))"

definition hex_val :: "char \<Rightarrow> nat option" where
  "hex_val c =
     (let n = of_char c in
      if 48 \<le> n \<and> n \<le> (57 :: nat) then Some (n - 48)
      else if 97 \<le> n \<and> n \<le> 102 then Some (n - 87)
      else if 65 \<le> n \<and> n \<le> 70 then Some (n - 55) else None)"

definition hex4 :: "char \<Rightarrow> char \<Rightarrow> char \<Rightarrow> char \<Rightarrow> nat option" where
  "hex4 a b c d =
     (case (hex_val a, hex_val b, hex_val c, hex_val d) of
        (Some i, Some j, Some k, Some l) \<Rightarrow> Some (((i * 16 + j) * 16 + k) * 16 + l)
      | _ \<Rightarrow> None)"

text \<open>UTF-8 of a code point.\<close>

definition utf8 :: "nat \<Rightarrow> string" where
  "utf8 n =
     (if n < 128 then [char_of n]
      else if n < 2048 then [char_of (192 + n div 64), char_of (128 + n mod 64)]
      else if n < 65536 then
        [char_of (224 + n div 4096), char_of (128 + n div 64 mod 64), char_of (128 + n mod 64)]
      else [char_of (240 + n div 262144), char_of (128 + n div 4096 mod 64),
            char_of (128 + n div 64 mod 64), char_of (128 + n mod 64)])"

definition unescape :: "char \<Rightarrow> char option" where
  "unescape c =
     (if c \<in> {CHR 0x22, CHR 0x5C, CHR ''/''} then Some c
      else if c = CHR ''b'' then Some (CHR 0x08) else if c = CHR ''f'' then Some (CHR 0x0C)
      else if c = CHR ''n'' then Some (CHR 0x0A) else if c = CHR ''r'' then Some (CHR 0x0D)
      else if c = CHR ''t'' then Some (CHR 0x09) else None)"

text \<open>
  The characters of a string up to its closing quote. A \<^verbatim>\<open>\u\<close> escape of a surrogate pair is one
  code point; a lone surrogate reads as U+FFFD.
\<close>

fun p_chars :: "nat \<Rightarrow> string \<Rightarrow> (string \<times> string) option" where
  "p_chars 0 s = None"
| "p_chars (Suc n) [] = None"
| "p_chars (Suc n) (c # cs) =
     (if c = CHR 0x22 then Some ([], cs)
      else if of_char c < (32 :: nat) then None
      else if c \<noteq> CHR 0x5C then map_option (\<lambda>(l, r). (c # l, r)) (p_chars n cs)
      else (case cs of
          [] \<Rightarrow> None
        | d # ds \<Rightarrow>
            (if d \<noteq> CHR ''u'' then
               (case unescape d of None \<Rightarrow> None
                | Some x \<Rightarrow> map_option (\<lambda>(l, r). (x # l, r)) (p_chars n ds))
             else (case ds of
                 h1 # h2 # h3 # h4 # es \<Rightarrow>
                   (case hex4 h1 h2 h3 h4 of
                      None \<Rightarrow> None
                    | Some u \<Rightarrow>
                        (if u < 55296 \<or> 57344 \<le> u then
                           map_option (\<lambda>(l, r). (utf8 u @ l, r)) (p_chars n es)
                         else (case es of
                             b # v # g1 # g2 # g3 # g4 # fs \<Rightarrow>
                               (case hex4 g1 g2 g3 g4 of
                                  Some w \<Rightarrow>
                                    (if b = CHR 0x5C \<and> v = CHR ''u'' \<and> u < 56320 \<and>
                                        56320 \<le> w \<and> w < 57344
                                     then map_option
                                       (\<lambda>(l, r). (utf8 (65536 + (u - 55296) * 1024 + (w - 56320)) @ l, r))
                                       (p_chars n fs)
                                     else map_option (\<lambda>(l, r). (utf8 65533 @ l, r)) (p_chars n es))
                                | None \<Rightarrow> map_option (\<lambda>(l, r). (utf8 65533 @ l, r)) (p_chars n es))
                           | _ \<Rightarrow> map_option (\<lambda>(l, r). (utf8 65533 @ l, r)) (p_chars n es))))
               | _ \<Rightarrow> None))))"

definition p_string :: "string \<Rightarrow> (string \<times> string) option" where
  "p_string s =
     (case s of
        c # cs \<Rightarrow> if c = CHR 0x22 then p_chars (Suc (length cs)) cs else None
      | [] \<Rightarrow> None)"

definition p_lit :: "string \<Rightarrow> gval \<Rightarrow> string \<Rightarrow> (gval \<times> string) option" where
  "p_lit word v s = (if take (length word) s = word then Some (v, drop (length word) s) else None)"

text \<open>
  Values, the elements after \<^verbatim>\<open>[\<close> and the members after \<^verbatim>\<open>{\<close>. One unit of fuel per call;
  \<open>Suc (length s)\<close> is more than any text can spend. A repeated key keeps its last value.
\<close>

fun p_value :: "nat \<Rightarrow> string \<Rightarrow> (gval \<times> string) option"
  and p_elems :: "nat \<Rightarrow> string \<Rightarrow> (gval list \<times> string) option"
  and p_members :: "nat \<Rightarrow> gmap \<Rightarrow> string \<Rightarrow> (gmap \<times> string) option" where
  "p_value 0 s = None"
| "p_value (Suc n) s =
     (case skip_ws s of
        [] \<Rightarrow> None
      | c # cs \<Rightarrow>
          (if c = CHR ''n'' then p_lit ''null'' VNil (c # cs)
           else if c = CHR ''t'' then p_lit ''true'' (VBool True) (c # cs)
           else if c = CHR ''f'' then p_lit ''false'' (VBool False) (c # cs)
           else if c = CHR 0x22 then map_option (\<lambda>(l, r). (VStr l, r)) (p_string (c # cs))
           else if c = CHR ''['' then
             (case skip_ws cs of
                d # ds \<Rightarrow> if d = CHR '']'' then Some (VList [], ds)
                           else map_option (\<lambda>(vs, r). (VList vs, r)) (p_elems n cs)
              | [] \<Rightarrow> None)
           else if c = CHR ''{'' then
             (case skip_ws cs of
                d # ds \<Rightarrow> if d = CHR ''}'' then Some (VMap [], ds)
                           else map_option (\<lambda>(m, r). (VMap m, r)) (p_members n [] cs)
              | [] \<Rightarrow> None)
           else p_number (c # cs)))"
| "p_elems 0 s = None"
| "p_elems (Suc n) s =
     (case p_value n s of None \<Rightarrow> None | Some (v, r) \<Rightarrow>
        (case skip_ws r of
           d # ds \<Rightarrow>
             (if d = CHR '']'' then Some ([v], ds)
              else if d = CHR '','' then map_option (\<lambda>(vs, q). (v # vs, q)) (p_elems n ds)
              else None)
         | [] \<Rightarrow> None))"
| "p_members 0 acc s = None"
| "p_members (Suc n) acc s =
     (case p_string (skip_ws s) of None \<Rightarrow> None | Some (k, r) \<Rightarrow>
        (case skip_ws r of
           c # cs \<Rightarrow>
             (if c \<noteq> CHR '':'' then None
              else (case p_value n cs of None \<Rightarrow> None | Some (v, q) \<Rightarrow>
                (case skip_ws q of
                   d # ds \<Rightarrow>
                     (if d = CHR ''}'' then Some (AList.update k v acc, ds)
                      else if d = CHR '','' then p_members n (AList.update k v acc) ds
                      else None)
                 | [] \<Rightarrow> None)))
         | [] \<Rightarrow> None))"

text \<open>\<^verbatim>\<open>Decoder.Decode\<close> reads the first value of the text and ignores what follows it.\<close>

definition json_decode :: "string \<Rightarrow> gval option" where
  "json_decode s = map_option fst (p_value (2 * length s + 2) s)"

end
