(* ===== verification/Json_Roundtrip.thy ===== *)
theory Json_Roundtrip
  imports Json
begin

text \<open>
  Reading back what was written: strings, numbers, and by induction every value whose objects
  have sorted distinct keys (the order in which the encoder writes them).
\<close>

section \<open>Strings\<close>

lemma hex_val_digit: "d < 16 \<Longrightarrow> hex_val (hex_digit d) = Some d"
  by (auto simp: hex_val_def hex_digit_def of_char_of Let_def)

lemma utf8_ascii: "of_char c < (128 :: nat) \<Longrightarrow> utf8 (of_char c) = [c]"
  by (simp add: utf8_def)

lemma p_chars_u00:
  assumes "of_char c < (128 :: nat)"
  shows "p_chars (Suc n) ([CHR 0x5C, CHR ''u'', CHR ''0'', CHR ''0'',
      hex_digit (of_char c div 16), hex_digit (of_char c mod 16)] @ t)
    = map_option (\<lambda>(l, r). (c # l, r)) (p_chars n t)"
proof -
  have "hex4 (CHR ''0'') (CHR ''0'') (hex_digit (of_char c div 16)) (hex_digit (of_char c mod 16))
      = Some (of_char c)"
    using assms by (simp add: hex4_def hex_val_digit) (simp add: hex_val_def Let_def)
  with assms show ?thesis by (simp add: utf8_ascii)
qed

lemma p_chars_esc: "p_chars (Suc n) (esc_char c @ t) = map_option (\<lambda>(l, r). (c # l, r)) (p_chars n t)"
proof (cases "c \<in> {CHR 0x22, CHR 0x5C, CHR 0x08, CHR 0x0C, CHR 0x0A, CHR 0x0D, CHR 0x09}")
  case True
  then show ?thesis by (auto simp: esc_char_def unescape_def)
next
  case nospecial: False
  show ?thesis
  proof (cases "of_char c < (32 :: nat) \<or> c \<in> {CHR ''<'', CHR ''>'', CHR ''&''}")
    case True
    with nospecial have "esc_char c = [CHR 0x5C, CHR ''u'', CHR ''0'', CHR ''0'',
      hex_digit (of_char c div 16), hex_digit (of_char c mod 16)]"
      by (simp add: esc_char_def)
    moreover have "of_char c < (128 :: nat)" using True by auto
    ultimately show ?thesis using p_chars_u00 by metis
  next
    case False
    with nospecial show ?thesis by (simp add: esc_char_def)
  qed
qed

lemma p_chars_text:
  "length s < n \<Longrightarrow> p_chars n (concat (map esc_char s) @ CHR 0x22 # rest) = Some (s, rest)"
proof (induction s arbitrary: n)
  case Nil
  then show ?case by (cases n) simp_all
next
  case (Cons c s)
  then obtain m where n: "n = Suc m" and m: "length s < m" by (cases n) auto
  from Cons.IH [OF m] show ?case
    using p_chars_esc [of m c "concat (map esc_char s) @ CHR 0x22 # rest"] n by simp
qed

lemma esc_char_nonempty: "esc_char c \<noteq> []"
  by (simp add: esc_char_def)

lemma length_esc: "length s \<le> length (concat (map esc_char s))"
proof (induction s)
  case (Cons c s)
  moreover have "1 \<le> length (esc_char c)" using esc_char_nonempty [of c] by (simp add: Suc_le_eq)
  ultimately show ?case by simp
qed simp

lemma p_string_text: "p_string (json_string s @ rest) = Some (s, rest)"
  using p_chars_text [of s "Suc (length (concat (map esc_char s) @ CHR 0x22 # rest))" rest]
    length_esc [of s]
  by (simp add: p_string_def json_string_def)

section \<open>Numbers\<close>

definition num_stop :: "string \<Rightarrow> bool" where
  "num_stop s = (case s of [] \<Rightarrow> True | c # _ \<Rightarrow> \<not> is_digit c \<and> c \<notin> {CHR ''.'', CHR ''e'', CHR ''E''})"

definition digits :: "string \<Rightarrow> bool" where
  "digits s = list_all is_digit s"

lemma digits_dec_nat [simp]: "digits (dec_nat n)"
  using dec_nat_digits by (auto simp: digits_def list_all_iff)

lemma p_digits_append:
  assumes "digits ds" and "case t of [] \<Rightarrow> True | c # _ \<Rightarrow> \<not> is_digit c"
  shows "p_digits (ds @ t) = (ds, t)"
  using assms
  by (auto simp: p_digits_def digits_def list_all_iff takeWhile_append dropWhile_append
      split: list.splits)

lemma digit_neq:
  "is_digit c \<Longrightarrow> c \<noteq> CHR ''-''" "is_digit c \<Longrightarrow> c \<noteq> CHR ''.''" "is_digit c \<Longrightarrow> c \<noteq> CHR ''e''"
  "is_digit c \<Longrightarrow> c \<noteq> CHR ''E''" "is_digit c \<Longrightarrow> c \<noteq> CHR ''+''"
  by (auto simp: is_digit_def)

definition frac_text :: "string \<Rightarrow> string" where
  "frac_text fp = (if fp = [] then [] else CHR ''.'' # fp)"

definition exp_text :: "int option \<Rightarrow> string" where
  "exp_text x = (case x of None \<Rightarrow> []
     | Some i \<Rightarrow> CHR ''e'' # (if i < 0 then CHR ''-'' else CHR ''+'') # dec_nat (nat \<bar>i\<bar>))"

definition exp_val :: "int option \<Rightarrow> int" where
  "exp_val x = (case x of None \<Rightarrow> 0 | Some i \<Rightarrow> i)"

lemma p_exp_text: "num_stop rest \<Longrightarrow> p_exp (exp_text x @ rest) = Some (exp_val x, rest)"
proof (cases x)
  case None
  assume "num_stop rest"
  with None show ?thesis
    by (auto simp: p_exp_def exp_text_def exp_val_def num_stop_def split: list.splits)
next
  case (Some i)
  assume "num_stop rest"
  then have "p_digits (dec_nat k @ rest) = (dec_nat k, rest)" for k
    by (intro p_digits_append) (auto simp: num_stop_def split: list.splits)
  with Some show ?thesis
    by (simp add: p_exp_def exp_text_def exp_val_def p_sign_def)
qed

lemma p_frac_text:
  assumes "digits fp" and "case t of [] \<Rightarrow> True | c # _ \<Rightarrow> \<not> is_digit c \<and> c \<noteq> CHR ''.''"
  shows "p_frac (frac_text fp @ t) = Some (fp, t)"
proof (cases "fp = []")
  case True
  with assms show ?thesis by (auto simp: p_frac_def frac_text_def split: list.splits)
next
  case False
  have "p_digits (fp @ t) = (fp, t)"
    using assms by (intro p_digits_append) (auto split: list.splits)
  with False show ?thesis by (simp add: p_frac_def frac_text_def)
qed

lemma exp_text_head:
  "num_stop rest \<Longrightarrow> (case exp_text x @ rest of [] \<Rightarrow> True | c # _ \<Rightarrow> \<not> is_digit c \<and> c \<noteq> CHR ''.'')"
  by (auto simp: exp_text_def num_stop_def is_digit_def split: option.splits list.splits)

lemma frac_text_head:
  "num_stop rest \<Longrightarrow>
   (case frac_text fp @ exp_text x @ rest of [] \<Rightarrow> True | c # _ \<Rightarrow> \<not> is_digit c)"
  using exp_text_head [of rest x]
  by (auto simp: frac_text_def is_digit_def split: list.splits)

lemma p_number_text:
  assumes ip: "digits ip" "ip \<noteq> []" "length ip > 1 \<Longrightarrow> hd ip \<noteq> CHR ''0''"
    and fp: "digits fp" and stop: "num_stop rest"
  shows "p_number ((if neg then ''-'' else []) @ ip @ frac_text fp @ exp_text x @ rest)
    = Some (VFloat (norm_float neg (undec (ip @ fp)) (exp_val x - int (length fp))), rest)"
proof -
  let ?t = "frac_text fp @ exp_text x @ rest"
  have d: "p_digits (ip @ ?t) = (ip, ?t)"
    using ip stop by (intro p_digits_append frac_text_head)
  have f: "p_frac ?t = Some (fp, exp_text x @ rest)"
    using fp stop by (intro p_frac_text exp_text_head)
  obtain c cs where ipc: "ip = c # cs" using ip(2) by (cases ip) auto
  then have "c \<noteq> CHR ''-''" using ip(1) digit_neq(1) by (auto simp: digits_def)
  with d f p_exp_text [OF stop, of x] ip(2,3) ipc show ?thesis
    by (auto simp: p_number_def)
qed


lemma dec_nat_head: "0 < n \<Longrightarrow> hd (dec_nat n) \<noteq> CHR ''0''"
proof (induction n rule: dec_nat.induct)
  case (1 n)
  show ?case
  proof (cases "n < 10")
    case True
    have "digit_char n \<noteq> CHR ''0''"
    proof
      assume "digit_char n = CHR ''0''"
      moreover have "of_char (digit_char n) = 48 + n" using True by (simp add: digit_char_def of_char_of)
      ultimately show False using "1.prems" by simp
    qed
    with True show ?thesis by (subst dec_nat.simps) simp
  next
    case False
    with "1.IH" show ?thesis by (subst dec_nat.simps) simp
  qed
qed

lemma undec_append_zeros: "undec (s @ replicate k (CHR ''0'')) = undec s * 10 ^ k"
  by (induction k arbitrary: s)
     (simp_all add: undec_def digit_val_def replicate_append_same [symmetric] del: replicate_append_same)

lemma undec_zeros_append: "undec (replicate k (CHR ''0'') @ s) = undec s"
  by (induction k) (simp_all add: undec_def digit_val_def)

lemma undec_zero_Cons: "undec (CHR ''0'' # s) = undec s"
  by (simp add: undec_def digit_val_def)

lemma strip_zeros_pow:
  assumes "m mod 10 \<noteq> 0"
  shows "strip_zeros (m * 10 ^ k) e = (m, e + int k)"
proof (induction k arbitrary: e)
  case 0
  with assms show ?case by (simp add: strip_zeros.simps)
next
  case (Suc k)
  have "m \<noteq> 0" using assms by auto
  then have "strip_zeros (m * 10 ^ Suc k) e = strip_zeros (m * 10 ^ k) (e + 1)"
    by (subst strip_zeros.simps) simp
  with Suc.IH [of "e + 1"] show ?case by simp
qed

text \<open>Shortest decimals: no trailing zero, and zero itself without exponent.\<close>

lemma norm_float_pow:
  "m mod 10 \<noteq> 0 \<Longrightarrow> norm_float neg (m * 10 ^ k) e = F64 neg m (e + int k)"
  by (auto simp: norm_float_def strip_zeros_pow)

lemma norm_float_id: "m mod 10 \<noteq> 0 \<Longrightarrow> norm_float neg m e = F64 neg m e"
  using norm_float_pow [of m neg 0 e] by simp

lemma norm_float_int: "norm_float (i < 0) (nat \<bar>i\<bar>) 0 = decimal_of_int i"
  by (auto simp: norm_float_def decimal_of_int_def strip_zeros.simps [of 0])

lemma digits_simps [simp]:
  "digits []" "digits (c # s) \<longleftrightarrow> is_digit c \<and> digits s" "digits (s @ t) \<longleftrightarrow> digits s \<and> digits t"
  "digits (replicate n (CHR ''0''))"
  by (auto simp: digits_def list_all_iff is_digit_def)

lemma digits_take_drop [simp]: "digits s \<Longrightarrow> digits (take n s)" "digits s \<Longrightarrow> digits (drop n s)"
  by (auto simp: digits_def list_all_iff dest: in_set_takeD in_set_dropD)

lemma is_digit_zero [simp]: "is_digit (CHR ''0'')"
  by (simp add: is_digit_def)

lemma p_number_int: "num_stop rest \<Longrightarrow> p_number (dec_int i @ rest) = Some (VFloat (decimal_of_int i), rest)"
proof -
  assume "num_stop rest"
  moreover have "length (dec_nat (nat \<bar>i\<bar>)) > 1 \<Longrightarrow> hd (dec_nat (nat \<bar>i\<bar>)) \<noteq> CHR ''0''"
    using dec_nat_head [of "nat \<bar>i\<bar>"] by (cases "i = 0") (auto simp: dec_nat.simps [of 0])
  ultimately show ?thesis
    using p_number_text [of "dec_nat (nat \<bar>i\<bar>)" "[]" rest "i < 0" None]
    by (cases "i < 0") (simp_all add: frac_text_def exp_text_def exp_val_def norm_float_int [symmetric] dec_int_def)
qed

text \<open>The three layouts of a number without exponent, and the one with.\<close>

lemma fmt_f_parts:
  assumes "ds \<noteq> []" and "digits ds" and "hd ds \<noteq> CHR ''0''"
  obtains ip fp where "fmt_f ds dp = ip @ frac_text fp" "digits ip" "digits fp" "ip \<noteq> []"
    "length ip > 1 \<Longrightarrow> hd ip \<noteq> CHR ''0''"
    "int (length ds) \<le> dp \<Longrightarrow> ip = ds @ replicate (nat dp - length ds) (CHR ''0'') \<and> fp = []"
    "dp < int (length ds) \<Longrightarrow> undec (ip @ fp) = undec ds \<and> int (length fp) = int (length ds) - dp"
proof -
  consider (small) "dp \<le> 0" | (mid) "0 < dp" "dp < int (length ds)" | (big) "int (length ds) \<le> dp"
    by linarith
  then show thesis
  proof cases
    case small
    moreover have "dp < int (length ds)" using small assms(1) by (cases ds) auto
    ultimately show ?thesis
      using assms that [of "''0''" "replicate (nat (- dp)) (CHR ''0'') @ ds"]
      by (auto simp: fmt_f_def frac_text_def undec_zero_Cons undec_zeros_append)
  next
    case mid
    then have "take (nat dp) ds \<noteq> []" "drop (nat dp) ds \<noteq> []" using assms(1) by auto
    with mid assms that [of "take (nat dp) ds" "drop (nat dp) ds"] show ?thesis
      by (auto simp: fmt_f_def frac_text_def hd_take)
  next
    case big
    moreover have "0 < dp" using big assms(1) by (cases ds) auto
    ultimately show ?thesis
      using assms that [of "ds @ replicate (nat dp - length ds) (CHR ''0'')" "[]"]
      by (auto simp: fmt_f_def frac_text_def)
  qed
qed

lemma p_number_float:
  assumes "float_normal x" and stop: "num_stop rest"
  shows "p_number (json_float x @ rest) = Some (VFloat x, rest)"
proof (cases x)
  case (F64 neg m e)
  show ?thesis
  proof (cases "m = 0")
    case True
    with assms F64 have "e = 0" by simp
    from p_number_text [of "''0''" "[]" rest neg None] stop True F64 \<open>e = 0\<close> show ?thesis
      by (simp add: json_float_def fmt_f_def frac_text_def exp_text_def exp_val_def norm_float_def
          undec_zero_Cons) (simp add: undec_def)
  next
    case False
    define ds where "ds = dec_nat m"
    define dp where "dp = int (length ds) + e"
    have ds: "ds \<noteq> []" "digits ds" "hd ds \<noteq> CHR ''0''" "undec ds = m"
      using False dec_nat_head by (simp_all add: ds_def)
    have m10: "m mod 10 \<noteq> 0" using assms F64 False by simp
    show ?thesis
    proof (cases "dp < -5 \<or> 21 < dp")
      case True
      have "p_number ((if neg then ''-'' else []) @ take 1 ds @ frac_text (drop 1 ds) @
          exp_text (Some (dp - 1)) @ rest)
        = Some (VFloat (norm_float neg (undec (take 1 ds @ drop 1 ds))
            (exp_val (Some (dp - 1)) - int (length (drop 1 ds)))), rest)"
        using ds stop by (intro p_number_text) auto
      moreover have "exp_val (Some (dp - 1)) - int (length (drop 1 ds)) = e"
        using ds(1) by (cases ds) (simp_all add: dp_def exp_val_def)
      moreover have "json_float x @ rest = (if neg then ''-'' else []) @ take 1 ds @
          frac_text (drop 1 ds) @ exp_text (Some (dp - 1)) @ rest"
        using True F64 False
        by (auto simp: json_float_def frac_text_def exp_text_def Let_def ds_def [symmetric]
            dp_def [symmetric])
      ultimately show ?thesis
        using F64 norm_float_id [OF m10] by (simp only: append_take_drop_id ds(4))
    next
      case plain: False
      obtain ip fp where p: "fmt_f ds dp = ip @ frac_text fp" "digits ip" "digits fp" "ip \<noteq> []"
        "length ip > 1 \<Longrightarrow> hd ip \<noteq> CHR ''0''"
        "int (length ds) \<le> dp \<Longrightarrow> ip = ds @ replicate (nat dp - length ds) (CHR ''0'') \<and> fp = []"
        "dp < int (length ds) \<Longrightarrow> undec (ip @ fp) = undec ds \<and> int (length fp) = int (length ds) - dp"
        using fmt_f_parts [OF ds(1-3), of dp] by metis
      have "p_number ((if neg then ''-'' else []) @ ip @ frac_text fp @ exp_text None @ rest)
        = Some (VFloat (norm_float neg (undec (ip @ fp)) (exp_val None - int (length fp))), rest)"
        using p stop by (intro p_number_text) auto
      moreover have "norm_float neg (undec (ip @ fp)) (exp_val None - int (length fp)) = x"
      proof (cases "dp < int (length ds)")
        case True
        with p(7) have "undec (ip @ fp) = m" "int (length fp) = - e"
          using ds(4) by (simp_all add: dp_def)
        with m10 F64 show ?thesis by (simp add: norm_float_id exp_val_def)
      next
        case big: False
        with p(6) ds(4) have "undec (ip @ fp) = m * 10 ^ (nat dp - length ds)" "fp = []"
          by (auto simp: undec_append_zeros)
        moreover have "int (nat dp - length ds) = e" using big by (simp add: dp_def)
        ultimately show ?thesis using m10 F64 by (simp add: norm_float_pow exp_val_def)
      qed
      moreover have "json_float x @ rest
          = (if neg then ''-'' else []) @ ip @ frac_text fp @ exp_text None @ rest"
        using plain F64 False p(1)
        by (auto simp: json_float_def exp_text_def Let_def ds_def [symmetric] dp_def [symmetric])
      ultimately show ?thesis by simp
    qed
  qed
qed


section \<open>Values\<close>

text \<open>\<open>json_canon\<close>: floats are shortest decimals and every object lists its keys in increasing
  order. \<open>json_fuel\<close> is the fuel the parser spends on the text of a value.\<close>

fun json_canon :: "gval \<Rightarrow> bool" where
  "json_canon (VFloat x) = float_normal x"
| "json_canon (VList vs) = list_all json_canon vs"
| "json_canon (VMap m) = (sorted_wrt (<) (map fst m) \<and> list_all (\<lambda>(k, v). json_canon v) m)"
| "json_canon v = True"

fun json_fuel :: "gval \<Rightarrow> nat" where
  "json_fuel (VList vs) = Suc (sum_list (map (\<lambda>v. Suc (json_fuel v)) vs))"
| "json_fuel (VMap m) = Suc (sum_list (map (\<lambda>(k, v). Suc (json_fuel v)) m))"
| "json_fuel v = 1"

lemma json_fuel_pos: "0 < json_fuel v"
  by (cases v) auto

definition member_text :: "(gval \<Rightarrow> string) \<Rightarrow> string \<times> gval \<Rightarrow> string" where
  "member_text enc kv = json_string (fst kv) @ '':'' @ json_enc enc (snd kv)"

lemma member_text_pair [simp]: "member_text enc (k, v) = json_string k @ '':'' @ json_enc enc v"
  by (simp add: member_text_def)

lemma sorted_wrt_less_sorted: "sorted_wrt (<) (ks :: string list) \<Longrightarrow> sorted ks"
  by (rule sorted_wrt_mono_rel [where P = "(<)"]) auto

lemma json_enc_VMap:
  assumes "sorted_wrt (<) (map fst m)"
  shows "json_enc enc (VMap m) = ''{'' @ join '','' (map (member_text enc) m) @ ''}''"
proof -
  let ?m = "map (\<lambda>(k, v). (k, json_enc enc v)) m"
  have "map fst ?m = map fst m" by auto
  then have "sorted (map fst ?m)" using sorted_wrt_less_sorted [OF assms] by (simp only:)
  then have "sort_key fst ?m = ?m" by (rule sort_key_id_if_sorted)
  then show ?thesis by (simp add: member_text_def [abs_def] comp_def case_prod_beta)
qed

lemma dec_nat_Cons: "\<exists>c cs. dec_nat n = c # cs \<and> is_digit c"
  using dec_nat_digits [of _ n] by (cases "dec_nat n") auto

definition number_head :: "string \<Rightarrow> bool" where
  "number_head s = (case s of [] \<Rightarrow> False | c # _ \<Rightarrow> is_digit c \<or> c = CHR ''-'')"

lemma number_head_append: "number_head s \<Longrightarrow> number_head (s @ t)"
  by (auto simp: number_head_def split: list.splits)

lemma number_head_digits: "s \<noteq> [] \<Longrightarrow> digits s \<Longrightarrow> number_head (s @ t)"
  by (cases s) (auto simp: number_head_def)

lemma number_head_dec_int: "number_head (dec_int i)"
  using dec_nat_Cons [of "nat i"] by (auto simp: dec_int_def number_head_def)

lemma number_head_fmt_f: "digits ds \<Longrightarrow> number_head (fmt_f ds dp)"
proof (cases "dp > 0")
  case True
  assume "digits ds"
  moreover from True have "take (nat dp) ds @ replicate (nat dp - length ds) (CHR ''0'') \<noteq> []" by auto
  ultimately show ?thesis
    using True number_head_digits [of "take (nat dp) ds @ replicate (nat dp - length ds) (CHR ''0'')"]
    by (simp add: fmt_f_def)
qed (simp add: fmt_f_def number_head_def)

lemma number_head_json_float: "number_head (json_float x)"
proof (cases x)
  case (F64 neg m e)
  have "number_head (take 1 (dec_nat m) @ t)" for t
    by (intro number_head_digits) simp_all
  with F64 show ?thesis
    using number_head_fmt_f [of "dec_nat m"] number_head_fmt_f [of "[]"]
    by (cases neg) (simp_all add: json_float_def Let_def, simp_all add: number_head_def)
qed

lemma number_head_p_value: "number_head s \<Longrightarrow> p_value (Suc n) s = p_number s"
proof (cases s)
  case (Cons c cs)
  assume "number_head s"
  with Cons have c: "is_digit c \<or> c = CHR ''-''" by (simp add: number_head_def)
  then have "\<not> ws_char c" by (auto simp: ws_char_def is_digit_def)
  with Cons have "skip_ws s = c # cs" by (simp add: skip_ws_def)
  moreover have "c \<notin> {CHR ''n'', CHR ''t'', CHR ''f'', CHR 0x22, CHR ''['', CHR ''{''}"
    using c by (auto simp: is_digit_def)
  ultimately show ?thesis using Cons by simp
qed (simp add: number_head_def)

lemma ws_punct [simp]:
  "\<not> ws_char (CHR '']'')" "\<not> ws_char (CHR ''}'')" "\<not> ws_char (CHR '','')" "\<not> ws_char (CHR 0x22)"
  "\<not> ws_char (CHR ''n'')" "\<not> ws_char (CHR ''t'')" "\<not> ws_char (CHR ''f'')" "\<not> ws_char (CHR ''['')"
  "\<not> ws_char (CHR ''{'')" "\<not> ws_char (CHR '':'')"
  by (simp_all add: ws_char_def)

lemma skip_ws_Cons [simp]: "\<not> ws_char c \<Longrightarrow> skip_ws (c # cs) = c # cs"
  by (simp add: skip_ws_def)

lemma skip_ws_json_string [simp]: "skip_ws (json_string k @ t) = json_string k @ t"
  by (simp add: json_string_def)

text \<open>The text of a value starts with a character that is neither white space nor a closing
  bracket.\<close>

definition value_head :: "string \<Rightarrow> bool" where
  "value_head s = (case s of [] \<Rightarrow> False | c # _ \<Rightarrow> \<not> ws_char c \<and> c \<noteq> CHR '']'' \<and> c \<noteq> CHR ''}'')"

lemma number_value_head: "number_head s \<Longrightarrow> value_head s"
  by (auto simp: number_head_def value_head_def ws_char_def is_digit_def split: list.splits)

lemma json_enc_head: "value_head (json_enc enc v)"
  using number_value_head [OF number_head_dec_int] number_value_head [OF number_head_json_float]
  by (cases v) (auto simp: value_head_def json_string_def)

lemma num_stop_punct [simp]:
  "num_stop []" "num_stop (CHR '','' # s)" "num_stop (CHR '']'' # s)" "num_stop (CHR ''}'' # s)"
  by (simp_all add: num_stop_def is_digit_def)

lemma p_elems_join:
  assumes "vs \<noteq> []"
    and "\<And>v n rest. v \<in> set vs \<Longrightarrow> num_stop rest \<Longrightarrow> json_fuel v \<le> n \<Longrightarrow>
      p_value n (json_enc enc v @ rest) = Some (f v, rest)"
    and "sum_list (map (\<lambda>v. Suc (json_fuel v)) vs) \<le> n"
  shows "p_elems n (join '','' (map (json_enc enc) vs) @ CHR '']'' # rest) = Some (map f vs, rest)"
  using assms
proof (induction vs arbitrary: n rule: induct_list012)
  case (2 v)
  then obtain m where "n = Suc m" "json_fuel v \<le> m" by (cases n) auto
  with 2 show ?case by simp
next
  case (3 v w vs)
  then obtain m where n: "n = Suc m" and m: "json_fuel v \<le> m"
    "sum_list (map (\<lambda>v. Suc (json_fuel v)) (w # vs)) \<le> m" by (cases n) auto
  have "p_elems m (join '','' (map (json_enc enc) (w # vs)) @ CHR '']'' # rest)
      = Some (map f (w # vs), rest)"
    using m(2) "3.prems"(2) by (intro "3.IH"(2)) auto
  with "3.prems"(2) [of v] n m(1) show ?case by simp
qed simp

lemma update_fresh: "k \<notin> fst ` set acc \<Longrightarrow> AList.update k v acc = acc @ [(k, v)]"
  by (induction acc) auto

lemma p_members_join:
  assumes "m \<noteq> []" and "distinct (map fst (acc @ m))"
    and "\<And>k v n rest. (k, v) \<in> set m \<Longrightarrow> num_stop rest \<Longrightarrow> json_fuel v \<le> n \<Longrightarrow>
      p_value n (json_enc enc v @ rest) = Some (f v, rest)"
    and "sum_list (map (\<lambda>(k, v). Suc (json_fuel v)) m) \<le> n"
  shows "p_members n acc (join '','' (map (member_text enc) m) @ CHR ''}'' # rest)
    = Some (acc @ map (\<lambda>(k, v). (k, f v)) m, rest)"
  using assms
proof (induction m arbitrary: n acc rule: induct_list012)
  case (2 kv)
  obtain k v where kv: "kv = (k, v)" by fastforce
  from 2 kv obtain i where "n = Suc i" "json_fuel v \<le> i" by (cases n) auto
  with 2 kv show ?case by (simp add: member_text_def p_string_text update_fresh)
next
  case (3 kv lw m)
  obtain k v where kv: "kv = (k, v)" by fastforce
  from 3 kv obtain i where n: "n = Suc i" and i: "json_fuel v \<le> i"
    "sum_list (map (\<lambda>(k, v). Suc (json_fuel v)) (lw # m)) \<le> i" by (cases n) auto
  have acc: "AList.update k (f v) acc = acc @ [(k, f v)]"
    using "3.prems"(2) kv by (intro update_fresh) auto
  have "p_members i (acc @ [(k, f v)]) (join '','' (map (member_text enc) (lw # m)) @ CHR ''}'' # rest)
      = Some ((acc @ [(k, f v)]) @ map (\<lambda>(k, v). (k, f v)) (lw # m), rest)"
    using "3.prems"(2,3) kv i(2) by (intro "3.IH"(2)) auto
  with "3.prems"(3) [of k v] n i(1) kv acc show ?case
    by (simp add: p_string_text)
qed simp

lemma p_value_json_enc:
  "json_canon v \<Longrightarrow> num_stop rest \<Longrightarrow> json_fuel v \<le> n \<Longrightarrow>
   p_value n (json_enc enc v @ rest) = Some (json_raw enc v, rest)"
proof (induction v arbitrary: n rest)
  case (VInt i)
  then show ?case
    by (cases n) (simp_all add: number_head_p_value number_head_append number_head_dec_int p_number_int
      del: p_value.simps(2))
next
  case (VFloat x)
  then show ?case
    by (cases n) (simp_all add: number_head_p_value number_head_append number_head_json_float
      p_number_float del: p_value.simps(2))
next
  case (VList vs)
  obtain i where n: "n = Suc i" and i: "sum_list (map (\<lambda>v. Suc (json_fuel v)) vs) \<le> i"
    using VList.prems by (cases n) auto
  show ?case
  proof (cases "vs = []")
    case False
    have "p_elems i (join '','' (map (json_enc enc) vs) @ CHR '']'' # rest)
        = Some (map (json_raw enc) vs, rest)"
      using False VList.IH VList.prems(1) i by (intro p_elems_join) (auto simp: list_all_iff)
    moreover obtain c cs where "join '','' (map (json_enc enc) vs) @ CHR '']'' # rest = c # cs"
      "\<not> ws_char c" "c \<noteq> CHR '']''"
    proof -
      obtain v r where "join '','' (map (json_enc enc) vs) = json_enc enc v @ r"
        using False by (cases vs rule: list.exhaust; cases "tl vs") auto
      then show thesis using json_enc_head [of enc v] that
        by (auto simp: value_head_def split: list.splits)
    qed
    ultimately show ?thesis using n by simp
  qed (simp add: n)
next
  case (VMap m)
  obtain i where n: "n = Suc i" and i: "sum_list (map (\<lambda>(k, v). Suc (json_fuel v)) m) \<le> i"
    using VMap.prems by (cases n) auto
  have keys: "sorted_wrt (<) (map fst m)" using VMap.prems(1) by simp
  show ?case
  proof (cases "m = []")
    case False
    have "distinct (map fst m)" using keys strict_sorted_iff by blast
    then have "p_members i [] (join '','' (map (member_text enc) m) @ CHR ''}'' # rest)
        = Some ([] @ map (\<lambda>(k, v). (k, json_raw enc v)) m, rest)"
      using False VMap.IH VMap.prems(1) i
      by (intro p_members_join) (fastforce simp: list_all_iff)+
    moreover obtain cs where "join '','' (map (member_text enc) m) @ CHR ''}'' # rest = CHR 0x22 # cs"
      using False by (cases m rule: list.exhaust; cases "tl m")
        (auto simp: member_text_def json_string_def)
    ultimately show ?thesis unfolding json_enc_VMap [OF keys] using n by simp
  qed (simp add: n json_enc_VMap)
next
  case (VStr s)
  then show ?case using p_string_text [of s rest] by (cases n) (simp_all add: json_string_def)
next
  case (VBytes bs)
  then show ?case using p_string_text [of "enc (VBytes bs)" rest]
    by (cases n) (simp_all add: json_string_def)
next
  case (VTime t)
  then show ?case using p_string_text [of "enc (VTime t)" rest]
    by (cases n) (simp_all add: json_string_def)
next
  case VNil
  then show ?case by (cases n) (simp_all add: p_lit_def)
next
  case (VBool b)
  then show ?case by (cases n) (simp_all add: p_lit_def)
qed


lemma fuel_join:
  "(\<And>x. x \<in> set xs \<Longrightarrow> g x \<le> 2 * length (t x)) \<Longrightarrow>
   sum_list (map (\<lambda>x. Suc (g x)) xs) \<le> Suc (2 * length (join '','' (map t xs)))"
proof (induction xs rule: induct_list012)
  case (3 x y zs)
  then have "sum_list (map (\<lambda>x. Suc (g x)) (y # zs)) \<le> Suc (2 * length (join '','' (map t (y # zs))))"
    by auto
  moreover have "g x \<le> 2 * length (t x)" using "3.prems" by simp
  ultimately show ?case by simp
qed auto

lemma json_fuel_length: "json_canon v \<Longrightarrow> json_fuel v \<le> 2 * length (json_enc enc v)"
proof (induction v)
  case (VList vs)
  then have "sum_list (map (\<lambda>v. Suc (json_fuel v)) vs)
      \<le> Suc (2 * length (join '','' (map (json_enc enc) vs)))"
    by (intro fuel_join) (auto simp: list_all_iff)
  then show ?case by simp
next
  case (VMap m)
  have keys: "sorted_wrt (<) (map fst m)" using VMap.prems by simp
  have "sum_list (map (\<lambda>kv. Suc (json_fuel (snd kv))) m)
      \<le> Suc (2 * length (join '','' (map (member_text enc) m)))"
  proof (rule fuel_join)
    fix kv
    assume kv: "kv \<in> set m"
    moreover have "json_canon (snd kv)" using VMap.prems kv by (auto simp: list_all_iff)
    ultimately have "json_fuel (snd kv) \<le> 2 * length (json_enc enc (snd kv))"
      by (intro VMap.IH [of kv "snd kv"]) (auto simp: prod_set_defs)
    then show "json_fuel (snd kv) \<le> 2 * length (member_text enc kv)"
      by (simp add: member_text_def)
  qed
  moreover have f: "(\<lambda>(k :: string, v). Suc (json_fuel v)) = (\<lambda>kv. Suc (json_fuel (snd kv)))"
    by auto
  ultimately show ?case unfolding json_enc_VMap [OF keys] json_fuel.simps f by simp
next
  case (VInt i)
  then show ?case using number_head_dec_int [of i] by (cases "dec_int i") (auto simp: number_head_def)
next
  case (VFloat x)
  then show ?case using number_head_json_float [of x] by (cases "json_float x") (auto simp: number_head_def)
qed (simp_all add: json_string_def)

lemma json_decode_enc:
  assumes "json_canon v" and "num_stop rest"
  shows "json_decode (json_enc enc v @ rest) = Some (json_raw enc v)"
  using p_value_json_enc [OF assms, of "2 * length (json_enc enc v @ rest) + 2" enc]
    json_fuel_length [OF assms(1), of enc]
  by (simp add: json_decode_def)

end
