(* ===== verification/Filter_Sql.thy ===== *)
theory Filter_Sql
  imports Json_Roundtrip
begin

text \<open>
  An abstract specification for the SQL text of a filter: the part of MySQL's lexical rules and of its
  precedence grammar (OR below AND below NOT) by which the database reads the conditions of this program,
  and the condition each filter expression is meant to denote. Text outside that part (comments, double
  quotes, backticks, operators such as \<^verbatim>\<open>||\<close>, qualified names) is not read at all. The renderer refines the
  specification when reading its text back gives the condition.
\<close>

section \<open>Lexical structure\<close>

text \<open>Words (identifiers and keywords), numbers, comparison operators, string literals.\<close>

datatype token = TLPar | TRPar | TComma | TQuoted string | TWord string | TNum string | TOp string | TBad

definition sql_space :: "char \<Rightarrow> bool" where
  "sql_space c \<longleftrightarrow> c \<in> {CHR '' '', CHR 0x09, CHR 0x0A, CHR 0x0B, CHR 0x0C, CHR 0x0D}"

text \<open>Unquoted identifiers: ASCII letters, underscores and every byte of a character beyond ASCII, then also
  digits and dollar signs.\<close>

definition word_start :: "char \<Rightarrow> bool" where
  "word_start c \<longleftrightarrow>
     (let n = of_char c :: nat in (65 \<le> n \<and> n \<le> 90) \<or> (97 \<le> n \<and> n \<le> 122) \<or> n = 95 \<or> 128 \<le> n)"

definition word_char :: "char \<Rightarrow> bool" where
  "word_char c \<longleftrightarrow> word_start c \<or> is_digit c \<or> c = CHR ''$''"

definition op_char :: "char \<Rightarrow> bool" where
  "op_char c \<longleftrightarrow> c \<in> {CHR ''='', CHR ''<'', CHR ''>'', CHR ''!''}"

definition sql_ops :: "string list" where
  "sql_ops = [''='', ''<>'', ''!='', ''<'', ''>'', ''<='', ''>='']"

text \<open>A string literal runs to the next single quote; a doubled quote and a backslash escape
  stand for one character of the literal.\<close>

fun lex_quoted :: "string \<Rightarrow> (string \<times> string) option" where
  "lex_quoted [] = None"
| "lex_quoted (c # cs) =
     (if c = CHR 0x27 then
        (case cs of
           d # ds \<Rightarrow> if d = CHR 0x27 then map_option (\<lambda>(l, r). (d # l, r)) (lex_quoted ds)
                      else Some ([], cs)
         | [] \<Rightarrow> Some ([], []))
      else if c = CHR 0x5C then
        (case cs of d # ds \<Rightarrow> map_option (\<lambda>(l, r). (d # l, r)) (lex_quoted ds) | [] \<Rightarrow> None)
      else map_option (\<lambda>(l, r). (c # l, r)) (lex_quoted cs))"

lemma lex_quoted_shorter: "lex_quoted s = Some (l, r) \<Longrightarrow> length r < length s"
proof (induction s arbitrary: l rule: lex_quoted.induct)
  case (2 c cs)
  then show ?case by (fastforce split: if_splits list.splits)
qed simp

text \<open>Numbers: digits, then a fraction and an exponent if there are any. A minus sign directly before the
  digits is taken as part of the number (in a condition it can only be the sign); two of them start a
  comment. A number must not run into a word, which would be an identifier that starts with a digit.\<close>

definition lex_frac :: "string \<Rightarrow> string \<times> string" where
  "lex_frac s =
     (case s of
        c # cs \<Rightarrow> (if c = CHR ''.'' \<and> takeWhile is_digit cs \<noteq> []
                   then (c # takeWhile is_digit cs, dropWhile is_digit cs) else ([], s))
      | [] \<Rightarrow> ([], []))"

definition lex_sign :: "string \<Rightarrow> string \<times> string" where
  "lex_sign s =
     (case s of
        c # cs \<Rightarrow> (if c = CHR ''+'' \<or> c = CHR ''-'' then ([c], cs) else ([], s))
      | [] \<Rightarrow> ([], []))"

definition lex_exp :: "string \<Rightarrow> string \<times> string" where
  "lex_exp s =
     (case s of
        c # cs \<Rightarrow>
          (if c = CHR ''e'' \<or> c = CHR ''E'' then
             (case lex_sign cs of (sg, ds) \<Rightarrow>
                if takeWhile is_digit ds = [] then ([], s)
                else (c # sg @ takeWhile is_digit ds, dropWhile is_digit ds))
           else ([], s))
      | [] \<Rightarrow> ([], []))"

definition ends_number :: "string \<Rightarrow> bool" where
  "ends_number s = (case s of [] \<Rightarrow> True | c # _ \<Rightarrow> \<not> word_char c \<and> c \<noteq> CHR ''.'' \<and> c \<noteq> CHR 0x27)"

definition lex_unsigned :: "string \<Rightarrow> (string \<times> string) option" where
  "lex_unsigned s =
     (let ip = takeWhile is_digit s
      in if ip = [] then None
         else (case lex_frac (dropWhile is_digit s) of (fr, s2) \<Rightarrow>
                 (case lex_exp s2 of (ex, s3) \<Rightarrow>
                    if ends_number s3 then Some (ip @ fr @ ex, s3) else None)))"

definition lex_number :: "string \<Rightarrow> (string \<times> string) option" where
  "lex_number s =
     (case s of
        c # cs \<Rightarrow> (if c = CHR ''-'' then map_option (\<lambda>(t, r). (c # t, r)) (lex_unsigned cs) else lex_unsigned s)
      | [] \<Rightarrow> None)"

lemma lex_parts_length:
  "lex_frac s = (t, r) \<Longrightarrow> length r \<le> length s" "lex_exp s = (t, r) \<Longrightarrow> length r \<le> length s"
  by (auto simp: lex_frac_def lex_exp_def lex_sign_def le_Suc_eq length_dropWhile_le split: list.splits if_splits
      intro: le_SucI le_trans [OF length_dropWhile_le])

lemma lex_unsigned_shorter: "lex_unsigned s = Some (t, r) \<Longrightarrow> length r < length s"
proof -
  assume "lex_unsigned s = Some (t, r)"
  then obtain fr s2 ex where "takeWhile is_digit s \<noteq> []" "lex_frac (dropWhile is_digit s) = (fr, s2)" "lex_exp s2 = (ex, r)"
    by (auto simp: lex_unsigned_def Let_def split: if_splits prod.splits)
  moreover from this have "length (dropWhile is_digit s) < length s"
    by (cases s) (auto simp: less_Suc_eq_le length_dropWhile_le split: if_splits)
  ultimately show ?thesis using lex_parts_length(1) [of "dropWhile is_digit s" fr s2] lex_parts_length(2) [of s2 ex r] by simp
qed

lemma lex_number_shorter: "lex_number s = Some (t, r) \<Longrightarrow> length r < length s"
  by (auto simp: lex_number_def dest: lex_unsigned_shorter split: list.splits if_splits)

text \<open>A word directly before a quote would be the prefix of a literal (\<^verbatim>\<open>x'41'\<close>, \<^verbatim>\<open>_utf8'a'\<close>).\<close>

function (sequential) sql_lex :: "string \<Rightarrow> token list" where
  "sql_lex [] = []"
| "sql_lex (c # cs) =
     (if sql_space c then sql_lex cs
      else if c = CHR ''('' then TLPar # sql_lex cs
      else if c = CHR '')'' then TRPar # sql_lex cs
      else if c = CHR '','' then TComma # sql_lex cs
      else if c = CHR 0x27 then
        (case lex_quoted cs of None \<Rightarrow> [TBad] | Some (l, r) \<Rightarrow> TQuoted l # sql_lex r)
      else if word_start c then
        (if take 1 (dropWhile word_char cs) = [CHR 0x27] then [TBad]
         else TWord (takeWhile word_char (c # cs)) # sql_lex (dropWhile word_char cs))
      else if is_digit c \<or> c = CHR ''-'' then
        (case lex_number (c # cs) of None \<Rightarrow> [TBad] | Some (t, r) \<Rightarrow> TNum t # sql_lex r)
      else if op_char c then
        (if takeWhile op_char (c # cs) \<in> set sql_ops
         then TOp (takeWhile op_char (c # cs)) # sql_lex (dropWhile op_char cs) else [TBad])
      else [TBad])"
  by pat_completeness auto
termination
  by (relation "measure length")
     (auto dest: lex_quoted_shorter lex_number_shorter simp: less_Suc_eq_le length_dropWhile_le)

declare sql_lex.simps(2) [simp del]

definition ends_word :: "string \<Rightarrow> bool" where
  "ends_word s = (case s of [] \<Rightarrow> True | c # _ \<Rightarrow> \<not> word_char c \<and> c \<noteq> CHR 0x27)"

definition is_word :: "string \<Rightarrow> bool" where
  "is_word w \<longleftrightarrow> (case w of [] \<Rightarrow> False | c # cs \<Rightarrow> word_start c \<and> list_all word_char cs)"

lemma word_start_plain:
  "word_start c \<Longrightarrow> \<not> sql_space c \<and> c \<noteq> CHR ''('' \<and> c \<noteq> CHR '')'' \<and> c \<noteq> CHR '','' \<and> c \<noteq> CHR 0x27"
  by (auto simp: word_start_def sql_space_def)

lemma takeWhile_all: "list_all P xs \<Longrightarrow> (case ys of [] \<Rightarrow> True | y # _ \<Rightarrow> \<not> P y) \<Longrightarrow>
    takeWhile P (xs @ ys) = xs \<and> dropWhile P (xs @ ys) = ys"
  by (induction xs) (auto split: list.splits)

lemma lex_word:
  assumes "is_word w" and "ends_word s"
  shows "sql_lex (w @ s) = TWord w # sql_lex s"
proof -
  from assms(1) obtain c cs where w: "w = c # cs" "word_start c" "list_all word_char cs"
    by (auto simp: is_word_def split: list.splits)
  then have c: "word_char c" by (simp add: word_char_def)
  have t: "takeWhile word_char (cs @ s) = cs" "dropWhile word_char (cs @ s) = s"
    using takeWhile_all [OF w(3), of s] assms(2) by (auto simp: ends_word_def split: list.splits)
  have "take 1 s \<noteq> [CHR 0x27]" using assms(2) by (auto simp: ends_word_def split: list.splits)
  with t c w word_start_plain [OF w(2)] show ?thesis by (simp add: sql_lex.simps(2))
qed

text \<open>What is not read: the token sequence has a bad token, which no condition contains.\<close>

lemma unread_text:
  "list_all (\<lambda>t. TBad \<in> set (sql_lex t))
     [''a=1||b'', ''a -- b'', ''a#b'', ''a/*b*/'', ''a;b'', ''`a`'', ''t.a'', ''1a'', ''1--1'', ''a=!b'', ''x'' @ [CHR 0x27, CHR 0x27]]"
  by code_simp

lemma lex_punct [simp]:
  "sql_lex (CHR '' '' # s) = sql_lex s"
  "sql_lex (CHR ''('' # s) = TLPar # sql_lex s"
  "sql_lex (CHR '')'' # s) = TRPar # sql_lex s"
  "sql_lex (CHR '','' # s) = TComma # sql_lex s"
  by (simp_all add: sql_lex.simps(2) sql_space_def)

definition clean_literal :: "string \<Rightarrow> bool" where
  "clean_literal s \<longleftrightarrow> CHR 0x27 \<notin> set s \<and> CHR 0x5C \<notin> set s"

lemma lex_quoted_clean:
  assumes "clean_literal l" and "s = [] \<or> hd s \<noteq> CHR 0x27"
  shows "lex_quoted (l @ CHR 0x27 # s) = Some (l, s)"
  using assms(1)
proof (induction l)
  case Nil
  with assms(2) show ?case by (cases s) auto
next
  case (Cons c cs)
  then show ?case by (auto simp: clean_literal_def)
qed

section \<open>Conditions and their grammar\<close>

datatype operand = Quoted string | Bare string

datatype cond =
    CAnd cond cond
  | COr cond cond
  | CNot cond
  | CCmp string string operand
  | CIn string "operand list"
  | CBetween string operand operand
  | CNull string
  | CNotNull string

text \<open>Keywords have no case. A name is a word that is no keyword of the grammar and none of the other
  reserved words of the database, which differ between versions and are the argument \<open>reserved\<close> (of a word
  in lower case).\<close>

definition kw :: "string \<Rightarrow> string \<Rightarrow> bool" where
  "kw w k \<longleftrightarrow> to_lower w = k"

definition grammar_words :: "string list" where
  "grammar_words = [''and'', ''or'', ''not'', ''in'', ''is'', ''between'', ''like'', ''null'', ''true'', ''false'']"

definition name_word :: "(string \<Rightarrow> bool) \<Rightarrow> string \<Rightarrow> bool" where
  "name_word reserved w \<longleftrightarrow> to_lower w \<notin> set grammar_words \<and> \<not> reserved (to_lower w)"

text \<open>An operand: a literal, a number or a truth value.\<close>

fun p_operand :: "token list \<Rightarrow> (operand \<times> token list) option" where
  "p_operand (TQuoted l # ts) = Some (Quoted l, ts)"
| "p_operand (TNum w # ts) = Some (Bare w, ts)"
| "p_operand (TWord w # ts) = (if kw w ''true'' \<or> kw w ''false'' then Some (Bare w, ts) else None)"
| "p_operand ts = None"

fun p_operands :: "token list \<Rightarrow> (operand list \<times> token list) option" where
  "p_operands [] = None"
| "p_operands (t # ts) =
     (case p_operand [t] of None \<Rightarrow> None | Some (x, _) \<Rightarrow>
        (case ts of
           TRPar # us \<Rightarrow> Some ([x], us)
         | TComma # us \<Rightarrow> map_option (\<lambda>(xs, vs). (x # xs, vs)) (p_operands us)
         | _ \<Rightarrow> None))"

text \<open>A predicate, after the name it starts with.\<close>

definition p_predicate :: "string \<Rightarrow> token list \<Rightarrow> (cond \<times> token list) option" where
  "p_predicate name ts =
     (case ts of
        TOp op # us \<Rightarrow> map_option (\<lambda>(x, vs). (CCmp name op x, vs)) (p_operand us)
      | TWord w # us \<Rightarrow>
          (if kw w ''between'' then
             (case p_operand us of
                Some (l, TWord a # vs) \<Rightarrow>
                  (if kw a ''and'' then map_option (\<lambda>(r, ws). (CBetween name l r, ws)) (p_operand vs)
                   else None)
              | _ \<Rightarrow> None)
           else if kw w ''in'' then
             (case us of
                TLPar # vs \<Rightarrow> map_option (\<lambda>(xs, ws). (CIn name xs, ws)) (p_operands vs)
              | _ \<Rightarrow> None)
           else if kw w ''is'' then
             (case us of
                TWord a # vs \<Rightarrow>
                  (if kw a ''null'' then Some (CNull name, vs)
                   else if kw a ''not'' then
                     (case vs of
                        TWord b # ws \<Rightarrow> if kw b ''null'' then Some (CNotNull name, ws) else None
                      | _ \<Rightarrow> None)
                   else None)
              | _ \<Rightarrow> None)
           else if kw w ''like'' then map_option (\<lambda>(x, vs). (CCmp name ''LIKE'' x, vs)) (p_operand us)
           else if kw w ''not'' then
             (case us of
                TWord a # vs \<Rightarrow>
                  (if kw a ''like'' then
                     map_option (\<lambda>(x, ws). (CCmp name ''NOT LIKE'' x, ws)) (p_operand vs)
                   else None)
              | _ \<Rightarrow> None)
           else None)
      | _ \<Rightarrow> None)"

text \<open>Recursive descent, one level per precedence; a level spends one unit of fuel.\<close>

fun p_or :: "(string \<Rightarrow> bool) \<Rightarrow> nat \<Rightarrow> token list \<Rightarrow> (cond \<times> token list) option"
  and p_and :: "(string \<Rightarrow> bool) \<Rightarrow> nat \<Rightarrow> token list \<Rightarrow> (cond \<times> token list) option"
  and p_not :: "(string \<Rightarrow> bool) \<Rightarrow> nat \<Rightarrow> token list \<Rightarrow> (cond \<times> token list) option" where
  "p_or rsv 0 ts = None"
| "p_or rsv (Suc n) ts =
     (case p_and rsv n ts of None \<Rightarrow> None | Some (c, us) \<Rightarrow>
        (case us of
           TWord w # vs \<Rightarrow>
             (if kw w ''or'' then map_option (\<lambda>(d, ws). (COr c d, ws)) (p_or rsv n vs) else Some (c, us))
         | _ \<Rightarrow> Some (c, us)))"
| "p_and rsv 0 ts = None"
| "p_and rsv (Suc n) ts =
     (case p_not rsv n ts of None \<Rightarrow> None | Some (c, us) \<Rightarrow>
        (case us of
           TWord w # vs \<Rightarrow>
             (if kw w ''and'' then map_option (\<lambda>(d, ws). (CAnd c d, ws)) (p_and rsv n vs) else Some (c, us))
         | _ \<Rightarrow> Some (c, us)))"
| "p_not rsv 0 ts = None"
| "p_not rsv (Suc n) ts =
     (case ts of
        TLPar # us \<Rightarrow>
          (case p_or rsv n us of Some (c, TRPar # vs) \<Rightarrow> Some (c, vs) | _ \<Rightarrow> None)
      | TWord w # us \<Rightarrow>
          (if kw w ''not'' then map_option (\<lambda>(c, vs). (CNot c, vs)) (p_not rsv n us)
           else if name_word rsv w then p_predicate w us else None)
      | _ \<Rightarrow> None)"

text \<open>Reading a whole condition: nothing may be left over.\<close>

definition read_cond :: "(string \<Rightarrow> bool) \<Rightarrow> nat \<Rightarrow> string \<Rightarrow> cond option" where
  "read_cond reserved fuel s = (case p_or reserved fuel (sql_lex s) of Some (c, []) \<Rightarrow> Some c | _ \<Rightarrow> None)"

section \<open>The condition an expression denotes\<close>

definition operand_of :: "gval \<Rightarrow> operand" where
  "operand_of v = (case v of VStr s \<Rightarrow> Quoted s | _ \<Rightarrow> Bare (fmt_v v))"

text \<open>A junction is a right-nested chain of its operands; it needs at least one.\<close>

fun chain :: "(cond \<Rightarrow> cond \<Rightarrow> cond) \<Rightarrow> cond list \<Rightarrow> cond" where
  "chain f [] = CNull []"
| "chain f [c] = c"
| "chain f (c # d # ds) = f c (chain f (d # ds))"

fun fe_cond :: "fexpr \<Rightarrow> cond" where
  "fe_cond (SimpleE name op val) = CCmp name op (operand_of val)"
| "fe_cond (JunctionE op sub) =
     chain (if op = ''OR'' then COr else CAnd) (map fe_cond (elems sub))"
| "fe_cond (NotE e) = CNot (fe_cond e)"
| "fe_cond (InE name vals) = CIn name (map operand_of (elems vals))"
| "fe_cond (UnE name op) = (if op = ''IS NULL'' then CNull name else CNotNull name)"
| "fe_cond (BetweenE name l r) = CBetween name (operand_of l) (operand_of r)"
| "fe_cond NilE = CNull []"

text \<open>Expressions that stay within the grammar: unqualified names that are not reserved, comparison
  operators, operands that are numbers, booleans or strings without quotes and backslashes, junctions that
  are not empty.\<close>

definition sql_name :: "(string \<Rightarrow> bool) \<Rightarrow> string \<Rightarrow> bool" where
  "sql_name reserved s \<longleftrightarrow> is_word s \<and> name_word reserved s"

definition sql_op :: "string \<Rightarrow> bool" where
  "sql_op s \<longleftrightarrow> s \<in> set sql_ops \<or> s = ''LIKE'' \<or> s = ''NOT LIKE''"

fun sql_operand :: "gval \<Rightarrow> bool" where
  "sql_operand (VStr s) = clean_literal s"
| "sql_operand (VInt i) = True"
| "sql_operand (VFloat x) = True"
| "sql_operand (VBool b) = True"
| "sql_operand v = False"

fun fe_sql_safe :: "(string \<Rightarrow> bool) \<Rightarrow> fexpr \<Rightarrow> bool" where
  "fe_sql_safe rsv NilE = False"
| "fe_sql_safe rsv (SimpleE name op val) = (sql_name rsv name \<and> sql_op op \<and> sql_operand val)"
| "fe_sql_safe rsv (JunctionE op sub) =
     (op \<in> {''AND'', ''OR''} \<and> elems sub \<noteq> [] \<and> (\<forall>e \<in> set (elems sub). fe_sql_safe rsv e))"
| "fe_sql_safe rsv (NotE e) = fe_sql_safe rsv e"
| "fe_sql_safe rsv (InE name vals) =
     (sql_name rsv name \<and> elems vals \<noteq> [] \<and> list_all sql_operand (elems vals))"
| "fe_sql_safe rsv (UnE name op) = (sql_name rsv name \<and> op \<in> {''IS NULL'', ''IS NOT NULL''})"
| "fe_sql_safe rsv (BetweenE name l r) = (sql_name rsv name \<and> sql_operand l \<and> sql_operand r)"

section \<open>The tokens of rendered text\<close>

definition breaks :: "string \<Rightarrow> bool" where
  "breaks s \<longleftrightarrow> (case s of [] \<Rightarrow> True | c # _ \<Rightarrow> c \<in> {CHR '' '', CHR ''('', CHR '')'', CHR '',''})"

lemma breaks_simps [simp]:
  "breaks []"
  "breaks (CHR '' '' # s)"
  "breaks (CHR ''('' # s)"
  "breaks (CHR '')'' # s)"
  "breaks (CHR '','' # s)"
  by (simp_all add: breaks_def)

lemma not_word_char [simp]:
  "\<not> word_char (CHR '' '')" "\<not> word_char (CHR ''('')" "\<not> word_char (CHR '')'')" "\<not> word_char (CHR '','')"
  by (simp_all add: word_char_def word_start_def is_digit_def)

lemma breaks_ends_word: "breaks s \<Longrightarrow> ends_word s"
  by (auto simp: breaks_def ends_word_def split: list.splits)

lemma breaks_ends_number: "breaks s \<Longrightarrow> ends_number s"
  by (auto simp: breaks_def ends_number_def split: list.splits)

lemma breaks_no_quote: "breaks s \<Longrightarrow> s = [] \<or> hd s \<noteq> CHR 0x27"
  by (auto simp: breaks_def split: list.splits)

text \<open>The shape of a printed number.\<close>

definition exp_shape :: "string \<Rightarrow> bool" where
  "exp_shape ex \<longleftrightarrow>
     ex = [] \<or> (\<exists>sg ds. ex = CHR ''e'' # sg # ds \<and> (sg = CHR ''+'' \<or> sg = CHR ''-'') \<and> digits ds \<and> ds \<noteq> [])"

definition number_shape :: "string \<Rightarrow> bool" where
  "number_shape t \<longleftrightarrow>
     (\<exists>neg ip fp ex. t = (if neg then ''-'' else []) @ ip @ frac_text fp @ ex \<and>
        digits ip \<and> ip \<noteq> [] \<and> digits fp \<and> exp_shape ex)"

definition no_digit_head :: "string \<Rightarrow> bool" where
  "no_digit_head s \<longleftrightarrow> (case s of [] \<Rightarrow> True | c # _ \<Rightarrow> \<not> is_digit c)"

lemma digits_takeWhile:
  "digits ds \<Longrightarrow> no_digit_head s \<Longrightarrow> takeWhile is_digit (ds @ s) = ds \<and> dropWhile is_digit (ds @ s) = s"
  unfolding digits_def no_digit_head_def by (rule takeWhile_all)

lemma ends_number_heads:
  assumes "ends_number s"
  shows "no_digit_head s" "lex_exp s = ([], s)" "lex_frac s = ([], s)"
proof -
  have "word_char (CHR ''e'')" "word_char (CHR ''E'')" by (simp_all add: word_char_def word_start_def)
  with assms show "no_digit_head s" "lex_exp s = ([], s)" "lex_frac s = ([], s)"
    by (auto simp: ends_number_def no_digit_head_def lex_exp_def lex_frac_def word_char_def split: list.splits)
qed

lemma lex_exp_shape:
  assumes "exp_shape ex" "ends_number s"
  shows "lex_exp (ex @ s) = (ex, s)"
proof (cases "ex = []")
  case True
  then show ?thesis using ends_number_heads [OF assms(2)] by simp
next
  case False
  then obtain sg ds where "ex = CHR ''e'' # sg # ds" "sg = CHR ''+'' \<or> sg = CHR ''-''" "digits ds" "ds \<noteq> []"
    using assms(1) by (auto simp: exp_shape_def)
  then show ?thesis
    using digits_takeWhile [OF \<open>digits ds\<close> ends_number_heads(1) [OF assms(2)]]
    by (auto simp: lex_exp_def lex_sign_def)
qed

lemma exp_shape_heads:
  assumes "exp_shape ex" "ends_number s"
  shows "no_digit_head (ex @ s)" "lex_frac (ex @ s) = ([], ex @ s)"
proof -
  have "no_digit_head (ex @ s) \<and> lex_frac (ex @ s) = ([], ex @ s)"
  proof (cases "ex = []")
    case True
    then show ?thesis using ends_number_heads [OF assms(2)] by simp
  next
    case False
    then show ?thesis using assms(1) by (auto simp: exp_shape_def no_digit_head_def lex_frac_def is_digit_def)
  qed
  then show "no_digit_head (ex @ s)" "lex_frac (ex @ s) = ([], ex @ s)" by blast+
qed

lemma lex_frac_text:
  assumes "digits fp" "exp_shape ex" "ends_number s"
  shows "lex_frac (frac_text fp @ ex @ s) = (frac_text fp, ex @ s)" "no_digit_head (frac_text fp @ ex @ s)"
proof -
  show "lex_frac (frac_text fp @ ex @ s) = (frac_text fp, ex @ s)"
    using digits_takeWhile [OF assms(1) exp_shape_heads(1) [OF assms(2,3)]] exp_shape_heads(2) [OF assms(2,3)]
    by (cases "fp = []") (auto simp: frac_text_def lex_frac_def)
  show "no_digit_head (frac_text fp @ ex @ s)"
    using exp_shape_heads(1) [OF assms(2,3)] by (cases "fp = []") (auto simp: frac_text_def no_digit_head_def is_digit_def)
qed

lemma lex_unsigned_shape:
  assumes "digits ip" "ip \<noteq> []" "digits fp" "exp_shape ex" "ends_number s"
  shows "lex_unsigned (ip @ frac_text fp @ ex @ s) = Some (ip @ frac_text fp @ ex, s)"
  using digits_takeWhile [OF assms(1) lex_frac_text(2) [OF assms(3-5)]] lex_frac_text(1) [OF assms(3-5)]
    lex_exp_shape [OF assms(4,5)] assms(2,5)
  by (simp add: lex_unsigned_def)

lemma digit_plain: "is_digit c \<Longrightarrow> \<not> sql_space c \<and> c \<noteq> CHR ''('' \<and> c \<noteq> CHR '')'' \<and> c \<noteq> CHR '','' \<and> c \<noteq> CHR 0x27 \<and>
    \<not> word_start c \<and> c \<noteq> CHR ''-''"
  by (auto simp: is_digit_def sql_space_def word_start_def)

lemma lex_num:
  assumes "number_shape t" and "breaks s"
  shows "sql_lex (t @ s) = TNum t # sql_lex s"
proof -
  from assms(1) obtain neg ip fp ex where t: "t = (if neg then ''-'' else []) @ ip @ frac_text fp @ ex"
    and ok: "digits ip" "ip \<noteq> []" "digits fp" "exp_shape ex"
    unfolding number_shape_def by blast
  obtain c cs where ip: "ip = c # cs" "is_digit c" using ok(1,2) by (cases ip) auto
  note uns = lex_unsigned_shape [OF ok breaks_ends_number [OF assms(2)]]
  show ?thesis
  proof (cases neg)
    case True
    then have "lex_number (t @ s) = Some (t, s)" using uns t by (simp add: lex_number_def)
    with t True show ?thesis by (simp add: sql_lex.simps(2) sql_space_def word_start_def)
  next
    case False
    then have "lex_number (t @ s) = Some (t, s)" using uns t ip digit_plain [OF ip(2)] by (simp add: lex_number_def)
    with t False ip digit_plain [OF ip(2)] show ?thesis by (simp add: sql_lex.simps(2))
  qed
qed

lemma number_dec_int: "number_shape (dec_int i)"
  unfolding number_shape_def
  by (intro exI [of _ "i < 0"] exI [of _ "dec_nat (nat \<bar>i\<bar>)"] exI [of _ "[]"])
     (auto simp: dec_int_def frac_text_def exp_shape_def)

lemma exp_shape_suffix: "exp_shape (exp_suffix x)"
  by (auto simp: exp_shape_def exp_suffix_def)

lemma number_fmt_float: "number_shape (fmt_float x)"
proof (cases x)
  case (F64 neg m e)
  define ds where "ds = (if m = 0 then [] else dec_nat m)"
  define dp where "dp = (if m = 0 then 0 else int (length ds) + e)"
  have body: "fmt_float x = (if neg then ''-'' else []) @ (if dp - 1 < -4 \<or> 6 \<le> dp - 1 then fmt_e ds dp else fmt_f ds dp)"
    by (simp add: F64 fmt_float_def ds_def dp_def Let_def)
  have "\<exists>ip fp ex. (if dp - 1 < -4 \<or> 6 \<le> dp - 1 then fmt_e ds dp else fmt_f ds dp) = ip @ frac_text fp @ ex \<and>
      digits ip \<and> ip \<noteq> [] \<and> digits fp \<and> exp_shape ex"
  proof (cases "m = 0")
    case True
    then show ?thesis
      by (intro exI [of _ "''0''"] exI [of _ "[]"]) (simp add: ds_def dp_def fmt_f_def frac_text_def exp_shape_def)
  next
    case False
    then have ds: "ds \<noteq> []" "digits ds" "hd ds \<noteq> CHR ''0''" using dec_nat_head by (simp_all add: ds_def)
    show ?thesis
    proof (cases "dp - 1 < -4 \<or> 6 \<le> dp - 1")
      case True
      then show ?thesis
        using ds exp_shape_suffix
        by (intro exI [of _ "take 1 ds"] exI [of _ "drop 1 ds"] exI [of _ "exp_suffix (dp - 1)"])
           (simp add: fmt_e_def frac_text_def)
    next
      case False
      obtain ip fp where "fmt_f ds dp = ip @ frac_text fp" "digits ip" "digits fp" "ip \<noteq> []"
        using fmt_f_parts [OF ds, of dp] by metis
      with False show ?thesis
        by (intro exI [of _ ip] exI [of _ fp] exI [of _ "[]"]) (simp add: exp_shape_def)
    qed
  qed
  then show ?thesis unfolding body number_shape_def by blast
qed

definition operand_token :: "gval \<Rightarrow> token" where
  "operand_token v =
     (case v of VStr s \<Rightarrow> TQuoted s | VBool b \<Rightarrow> TWord (fmt_v v) | _ \<Rightarrow> TNum (fmt_v v))"

lemma lex_operand:
  assumes "sql_operand v" and "breaks s"
  shows "sql_lex (fmt_operand v @ s) = operand_token v # sql_lex s"
proof (cases v)
  case (VStr l)
  with assms lex_quoted_clean [of l s] breaks_no_quote [of s] show ?thesis
    by (simp add: fmt_operand_def sql_quote_def operand_token_def sql_lex.simps(2) sql_space_def)
next
  case (VBool b)
  have "is_word (if b then ''true'' else ''false'')"
    by (simp add: is_word_def word_char_def word_start_def)
  then show ?thesis
    using VBool lex_word assms breaks_ends_word
    by (simp add: fmt_operand_def operand_token_def)
next
  case (VInt i)
  then show ?thesis
    using lex_num [OF number_dec_int] assms
    by (simp add: fmt_operand_def operand_token_def)
next
  case (VFloat x)
  then show ?thesis
    using lex_num [OF number_fmt_float] assms
    by (simp add: fmt_operand_def operand_token_def)
qed (use assms in auto)

fun tjoin :: "token \<Rightarrow> token list list \<Rightarrow> token list" where
  "tjoin sep [] = []"
| "tjoin sep [x] = x"
| "tjoin sep (x # y # ys) = x @ sep # tjoin sep (y # ys)"

definition op_tokens :: "string \<Rightarrow> token list" where
  "op_tokens op =
     (if op = ''NOT LIKE'' then [TWord ''NOT'', TWord ''LIKE''] else if op = ''LIKE'' then [TWord ''LIKE''] else [TOp op])"

fun fe_tokens :: "fexpr \<Rightarrow> token list" where
  "fe_tokens NilE = []"
| "fe_tokens (SimpleE name op val) =
     TWord name # op_tokens op @ [operand_token val]"
| "fe_tokens (JunctionE op sub) =
     TLPar # tjoin (TWord op) (map (\<lambda>e. TLPar # fe_tokens e @ [TRPar]) (elems sub)) @ [TRPar]"
| "fe_tokens (NotE e) = TWord ''NOT'' # TLPar # fe_tokens e @ [TRPar]"
| "fe_tokens (InE name vals) = TWord name # TWord ''IN'' # TLPar #
     tjoin TComma (map (\<lambda>v. [operand_token v]) (elems vals)) @ [TRPar]"
| "fe_tokens (UnE name op) = TWord name # TWord ''IS'' #
     (if op = ''IS NULL'' then [TWord ''NULL''] else [TWord ''NOT'', TWord ''NULL''])"
| "fe_tokens (BetweenE name l r) =
     [TWord name, TWord ''BETWEEN'', operand_token l, TWord ''AND'',
      operand_token r]"

lemma is_word_keywords:
  "is_word ''NOT''" "is_word ''LIKE''" "is_word ''IN''" "is_word ''IS''" "is_word ''NULL''"
  "is_word ''BETWEEN''" "is_word ''AND''" "is_word ''OR''"
  by (simp_all add: is_word_def word_char_def word_start_def)

lemmas lex_keyword = is_word_keywords [THEN lex_word, simplified]

lemma lex_name: "is_word n \<Longrightarrow> breaks s \<Longrightarrow> sql_lex (n @ s) = TWord n # sql_lex s"
  by (auto intro: lex_word breaks_ends_word)

lemma sql_ops_chars: "list_all (\<lambda>op. op \<noteq> [] \<and> list_all op_char op) sql_ops"
  by (simp add: sql_ops_def op_char_def)

lemma lex_comparison:
  assumes "op \<in> set sql_ops" "breaks s"
  shows "sql_lex (op @ s) = TOp op # sql_lex s"
proof -
  have "op \<noteq> []" "list_all op_char op" using assms(1) sql_ops_chars by (simp_all add: list_all_iff)
  then obtain c cs where op: "op = c # cs" "op_char c" "list_all op_char cs" by (cases op) simp_all
  have "case s of [] \<Rightarrow> True | c # _ \<Rightarrow> \<not> op_char c"
    using assms(2) by (auto simp: breaks_def op_char_def split: list.splits)
  from takeWhile_all [OF op(3) this] op(2) have t: "takeWhile op_char (c # cs @ s) = op" "dropWhile op_char (cs @ s) = s"
    by (simp_all add: op(1))
  have "\<not> sql_space c \<and> c \<noteq> CHR ''('' \<and> c \<noteq> CHR '')'' \<and> c \<noteq> CHR '','' \<and> c \<noteq> CHR 0x27 \<and> \<not> word_start c \<and>
      \<not> is_digit c \<and> c \<noteq> CHR ''-''"
    using op(2) by (auto simp: op_char_def sql_space_def word_start_def is_digit_def)
  then have "sql_lex (c # cs @ s) = (if takeWhile op_char (c # cs @ s) \<in> set sql_ops
      then TOp (takeWhile op_char (c # cs @ s)) # sql_lex (dropWhile op_char (cs @ s)) else [TBad])"
    using op(2) by (simp add: sql_lex.simps(2))
  then show ?thesis unfolding t using assms(1) op(1) by simp
qed

lemma lex_op: "sql_op op \<Longrightarrow> breaks s \<Longrightarrow> sql_lex (op @ s) = op_tokens op @ sql_lex s"
proof -
  assume op: "sql_op op" and s: "breaks s"
  have plain: "''LIKE'' \<notin> set sql_ops" "''NOT LIKE'' \<notin> set sql_ops" by (simp_all add: sql_ops_def)
  consider "op \<in> set sql_ops" | "op = ''LIKE''" | "op = ''NOT LIKE''" using op by (auto simp: sql_op_def)
  then show ?thesis
  proof cases
    case 1
    with plain have "op \<noteq> ''LIKE''" "op \<noteq> ''NOT LIKE''" by auto
    with lex_comparison [OF 1 s] show ?thesis by (simp add: op_tokens_def)
  qed (use s lex_keyword(1) [of "'' LIKE'' @ s"] lex_keyword(2) [of s] in
      \<open>simp_all add: op_tokens_def breaks_ends_word\<close>)
qed

lemma lex_join:
  assumes item: "\<And>x s. x \<in> set xs \<Longrightarrow> breaks s \<Longrightarrow> sql_lex (f x @ s) = T x @ sql_lex s"
    and sep: "\<And>x s. x \<in> set xs \<Longrightarrow> sql_lex (sep @ f x @ s) = t # sql_lex (f x @ s)"
    and brk: "\<And>s. breaks (sep @ s)"
    and s: "breaks s"
  shows "sql_lex (join sep (map f xs) @ s) = tjoin t (map T xs) @ sql_lex s"
  using item sep
proof (induction xs rule: induct_list012)
  case (3 x y zs)
  obtain r where r: "join sep (map f (y # zs)) = f y @ r"
    by (cases zs) auto
  have "sql_lex (join sep (map f (x # y # zs)) @ s) = T x @ sql_lex (sep @ f y @ r @ s)"
    using "3.prems"(1) [of x] brk r by simp
  also have "\<dots> = T x @ t # sql_lex (join sep (map f (y # zs)) @ s)"
    using "3.prems"(2) [of y] r by simp
  also have "sql_lex (join sep (map f (y # zs)) @ s) = tjoin t (map T (y # zs)) @ sql_lex s"
    using "3.prems" by (intro "3.IH") auto
  finally show ?case by simp
qed (use s in auto)

definition fe_text :: "fexpr \<Rightarrow> string" where
  "fe_text e = (case fe_String e of Returns t \<Rightarrow> t | Panics _ \<Rightarrow> [])"

lemma fe_String_text: "fe_nil_free e \<Longrightarrow> fe_String e = Returns (fe_text e)"
  using fe_String_total [of e] by (auto simp: is_returns_iff fe_text_def)

lemma fe_sql_safe_nil_free: "fe_sql_safe rsv e \<Longrightarrow> fe_nil_free e"
  by (induction e) auto

lemma fe_text_simps:
  "fe_text (SimpleE name op val) = name @ '' '' @ op @ '' '' @ fmt_operand val"
  "fe_text (InE name vals) = name @ '' IN ('' @ join '','' (map fmt_operand (elems vals)) @ '')''"
  "fe_text (UnE name op) = name @ '' '' @ op"
  "fe_text (BetweenE name l r) =
     name @ '' BETWEEN '' @ fmt_operand l @ '' AND '' @ fmt_operand r"
  "fe_nil_free e \<Longrightarrow> fe_text (NotE e) = ''NOT ('' @ fe_text e @ '')''"
  "\<forall>e \<in> set (elems sub). fe_nil_free e \<Longrightarrow> fe_text (JunctionE op sub) =
     ''('' @ join ('' '' @ op @ '' '') (map (\<lambda>e. ''('' @ fe_text e @ '')'') (elems sub)) @ '')''"
proof -
  assume nf: "\<forall>e \<in> set (elems sub). fe_nil_free e"
  then have "traverse (\<lambda>item. obind (fe_String item) (\<lambda>s. Returns (''('' @ s @ '')''))) (elems sub)
      = Returns (map (\<lambda>e. ''('' @ fe_text e @ '')'') (elems sub))"
    by (intro traverse_Returns) (simp add: fe_String_text)
  then show "fe_text (JunctionE op sub) =
     ''('' @ join ('' '' @ op @ '' '') (map (\<lambda>e. ''('' @ fe_text e @ '')'') (elems sub)) @ '')''"
    by (simp add: fe_text_def [of "JunctionE op sub"])
qed (simp_all add: fe_text_def [of "NotE e"] fe_String_text, simp_all add: fe_text_def)

lemma lex_fe_text:
  "fe_sql_safe rsv e \<Longrightarrow> breaks s \<Longrightarrow> sql_lex (fe_text e @ s) = fe_tokens e @ sql_lex s"
proof (induction e arbitrary: s)
  case (SimpleE name op val)
  then show ?case by (simp add: fe_text_simps sql_name_def lex_name lex_op lex_operand)
next
  case (JunctionE op sub)
  let ?item = "\<lambda>e. ''('' @ fe_text e @ '')''"
  let ?tok = "\<lambda>e. TLPar # fe_tokens e @ [TRPar]"
  have nf: "\<forall>e \<in> set (elems sub). fe_nil_free e"
    using JunctionE.prems(1) fe_sql_safe_nil_free by fastforce
  have "sql_lex (join ('' '' @ op @ '' '') (map ?item (elems sub)) @ CHR '')'' # s)
      = tjoin (TWord op) (map ?tok (elems sub)) @ sql_lex (CHR '')'' # s)"
  proof (rule lex_join)
    fix e u
    assume "e \<in> set (elems sub)" and "breaks u"
    with JunctionE show "sql_lex (?item e @ u) = ?tok e @ sql_lex u" by simp
  next
    fix e u
    show "sql_lex (('' '' @ op @ '' '') @ ?item e @ u) = TWord op # sql_lex (?item e @ u)"
      using JunctionE.prems lex_keyword(7,8) [of "CHR '' '' # ?item e @ u"]
      by (auto simp: breaks_ends_word)
  qed simp_all
  with JunctionE.prems show ?case by (simp add: fe_text_simps nf)
next
  case (NotE e)
  then show ?case
    using lex_keyword(1) [of "'' ('' @ fe_text e @ '')'' @ s"] fe_sql_safe_nil_free
    by (simp add: fe_text_simps breaks_ends_word)
next
  case (InE name vals)
  have "sql_lex (join '','' (map fmt_operand (elems vals)) @ CHR '')'' # s)
      = tjoin TComma (map (\<lambda>v. [operand_token v]) (elems vals)) @ sql_lex (CHR '')'' # s)"
    using InE.prems by (intro lex_join) (auto simp: lex_operand list_all_iff)
  with InE.prems show ?case
    using lex_keyword(3) [of "'' ('' @ join '','' (map fmt_operand (elems vals)) @ '')'' @ s"]
    by (simp add: fe_text_simps sql_name_def lex_name breaks_ends_word)
next
  case (UnE name op)
  then show ?case
    using lex_keyword(4) [of "'' NULL'' @ s"] lex_keyword(4) [of "'' NOT NULL'' @ s"]
      lex_keyword(1) [of "'' NULL'' @ s"] lex_keyword(5) [of s]
    by (auto simp: fe_text_simps sql_name_def lex_name breaks_ends_word)
next
  case (BetweenE name l r)
  then show ?case
    using lex_keyword(6) [of "'' '' @ fmt_operand l @ '' AND '' @ fmt_operand r @ s"]
      lex_keyword(7) [of "'' '' @ fmt_operand r @ s"]
    by (simp add: fe_text_simps sql_name_def lex_name lex_operand breaks_ends_word)
qed simp

section \<open>Reading the tokens back\<close>

text \<open>\<open>reads p T c\<close>: with enough fuel, parser \<open>p\<close> takes exactly the tokens \<open>T\<close> and returns \<open>c\<close>.\<close>

definition reads :: "(nat \<Rightarrow> token list \<Rightarrow> (cond \<times> token list) option) \<Rightarrow> token list \<Rightarrow> cond \<Rightarrow>
    (token list \<Rightarrow> bool) \<Rightarrow> bool" where
  "reads p T c stop \<longleftrightarrow> (\<exists>n0. \<forall>n \<ge> n0. \<forall>ts. stop ts \<longrightarrow> p n (T @ ts) = Some (c, ts))"

definition anywhere :: "token list \<Rightarrow> bool" where
  "anywhere ts = True"

definition no_word :: "string set \<Rightarrow> token list \<Rightarrow> bool" where
  "no_word ws ts = (case ts of TWord w # _ \<Rightarrow> to_lower w \<notin> ws | _ \<Rightarrow> True)"

lemma lower_keywords:
  "to_lower ''NOT'' = ''not'' \<and> to_lower ''LIKE'' = ''like'' \<and> to_lower ''IN'' = ''in'' \<and> to_lower ''IS'' = ''is'' \<and>
   to_lower ''NULL'' = ''null'' \<and> to_lower ''BETWEEN'' = ''between'' \<and> to_lower ''AND'' = ''and'' \<and>
   to_lower ''OR'' = ''or'' \<and> to_lower ''true'' = ''true'' \<and> to_lower ''false'' = ''false''"
  by code_simp

lemmas keyword_tokens [simp] = lower_keywords [THEN conjunct1]
  lower_keywords [THEN conjunct2, THEN conjunct1]
  lower_keywords [THEN conjunct2, THEN conjunct2, THEN conjunct1]
  lower_keywords [THEN conjunct2, THEN conjunct2, THEN conjunct2, THEN conjunct1]
  lower_keywords [THEN conjunct2, THEN conjunct2, THEN conjunct2, THEN conjunct2, THEN conjunct1]
  lower_keywords [THEN conjunct2, THEN conjunct2, THEN conjunct2, THEN conjunct2, THEN conjunct2, THEN conjunct1]
  lower_keywords [THEN conjunct2, THEN conjunct2, THEN conjunct2, THEN conjunct2, THEN conjunct2, THEN conjunct2]

declare kw_def [simp]

lemma readsI:
  assumes "\<And>n ts. n \<ge> k \<Longrightarrow> stop ts \<Longrightarrow> p n (T @ ts) = Some (c, ts)"
  shows "reads p T c stop"
  using assms by (auto simp: reads_def)

lemma readsE:
  assumes "reads p T c stop"
  obtains k where "\<And>n ts. n \<ge> k \<Longrightarrow> stop ts \<Longrightarrow> p n (T @ ts) = Some (c, ts)"
  using assms by (auto simp: reads_def)

text \<open>Every parser spends one unit of fuel at once, so the interesting case is \<open>Suc n\<close>.\<close>

lemma reads_SucI:
  assumes "\<And>n ts. n \<ge> k \<Longrightarrow> stop ts \<Longrightarrow> p (Suc n) (T @ ts) = Some (c, ts)"
  shows "reads p T c stop"
  using assms by (intro readsI [where k = "Suc k"]) (metis Suc_le_D Suc_le_mono)

lemma no_word_simps [simp]:
  "no_word ws []" "no_word ws (TRPar # ts)" "no_word ws (TWord w # ts) \<longleftrightarrow> to_lower w \<notin> ws"
  by (simp_all add: no_word_def)

lemma reads_and_chain:
  assumes "xs \<noteq> []" and "\<forall>x \<in> set xs. reads (p_not rsv) (T x) (C x) anywhere"
  shows "reads (p_and rsv) (tjoin (TWord ''AND'') (map T xs)) (chain CAnd (map C xs)) (no_word {''and''})"
  using assms
proof (induction xs rule: induct_list012)
  case (2 x)
  then obtain n0 where n0: "\<And>n ts. n \<ge> n0 \<Longrightarrow> p_not rsv n (T x @ ts) = Some (C x, ts)"
    by (auto simp: reads_def anywhere_def)
  show ?case
  proof (rule reads_SucI [where k = n0])
    fix n ts
    assume "n0 \<le> n" and "no_word {''and''} ts"
    with n0 show "p_and rsv (Suc n) (tjoin (TWord ''AND'') (map T [x]) @ ts) = Some (chain CAnd (map C [x]), ts)"
      by (auto simp: no_word_def split: list.splits token.splits)
  qed
next
  case (3 x y zs)
  have "reads (p_not rsv) (T x) (C x) anywhere" using "3.prems" by simp
  then obtain n0 where n0: "\<And>n ts. n \<ge> n0 \<Longrightarrow> p_not rsv n (T x @ ts) = Some (C x, ts)"
    by (elim readsE) (simp add: anywhere_def, blast)
  have "reads (p_and rsv) (tjoin (TWord ''AND'') (map T (y # zs))) (chain CAnd (map C (y # zs)))
      (no_word {''and''})"
    using "3.prems" by (intro "3.IH"(2)) auto
  then obtain n1 where n1: "\<And>n ts. n \<ge> n1 \<Longrightarrow> no_word {''and''} ts \<Longrightarrow>
      p_and rsv n (tjoin (TWord ''AND'') (map T (y # zs)) @ ts) = Some (chain CAnd (map C (y # zs)), ts)"
    by (elim readsE) blast
  show ?case
  proof (rule reads_SucI [where k = "max n0 n1"])
    fix n ts
    assume "max n0 n1 \<le> n" and "no_word {''and''} ts"
    with n0 n1 show "p_and rsv (Suc n) (tjoin (TWord ''AND'') (map T (x # y # zs)) @ ts)
        = Some (chain CAnd (map C (x # y # zs)), ts)"
      by simp
  qed
qed simp

lemma reads_or_chain:
  assumes "xs \<noteq> []" and "\<forall>x \<in> set xs. reads (p_and rsv) (T x) (C x) (no_word {''and''})"
  shows "reads (p_or rsv) (tjoin (TWord ''OR'') (map T xs)) (chain COr (map C xs)) (no_word {''and'', ''or''})"
  using assms
proof (induction xs rule: induct_list012)
  case (2 x)
  then obtain n0 where
    n0: "\<And>n ts. n \<ge> n0 \<Longrightarrow> no_word {''and''} ts \<Longrightarrow> p_and rsv n (T x @ ts) = Some (C x, ts)"
    by (auto simp: reads_def)
  show ?case
  proof (rule reads_SucI [where k = n0])
    fix n ts
    assume n: "n0 \<le> n" and ts: "no_word {''and'', ''or''} ts"
    then have "p_and rsv n (T x @ ts) = Some (C x, ts)"
      by (intro n0) (auto simp: no_word_def split: list.splits token.splits)
    with ts show "p_or rsv (Suc n) (tjoin (TWord ''OR'') (map T [x]) @ ts) = Some (chain COr (map C [x]), ts)"
      by (auto simp: no_word_def split: list.splits token.splits)
  qed
next
  case (3 x y zs)
  have "reads (p_and rsv) (T x) (C x) (no_word {''and''})" using "3.prems" by simp
  then obtain n0 where
    n0: "\<And>n ts. n \<ge> n0 \<Longrightarrow> no_word {''and''} ts \<Longrightarrow> p_and rsv n (T x @ ts) = Some (C x, ts)"
    by (elim readsE) blast
  have "reads (p_or rsv) (tjoin (TWord ''OR'') (map T (y # zs))) (chain COr (map C (y # zs)))
      (no_word {''and'', ''or''})"
    using "3.prems" by (intro "3.IH"(2)) auto
  then obtain n1 where n1: "\<And>n ts. n \<ge> n1 \<Longrightarrow> no_word {''and'', ''or''} ts \<Longrightarrow>
      p_or rsv n (tjoin (TWord ''OR'') (map T (y # zs)) @ ts) = Some (chain COr (map C (y # zs)), ts)"
    by (elim readsE) blast
  show ?case
  proof (rule reads_SucI [where k = "max n0 n1"])
    fix n ts
    assume "max n0 n1 \<le> n" and "no_word {''and'', ''or''} ts"
    with n0 n1 show "p_or rsv (Suc n) (tjoin (TWord ''OR'') (map T (x # y # zs)) @ ts)
        = Some (chain COr (map C (x # y # zs)), ts)"
      by simp
  qed
qed simp

lemma reads_not_and: "reads (p_not rsv) T c anywhere \<Longrightarrow> reads (p_and rsv) T c (no_word {''and''})"
  using reads_and_chain [where xs = "[()]" and T = "\<lambda>_. T" and C = "\<lambda>_. c"] by simp

lemma reads_and_or: "reads (p_and rsv) T c (no_word {''and''}) \<Longrightarrow> reads (p_or rsv) T c (no_word {''and'', ''or''})"
  using reads_or_chain [where xs = "[()]" and T = "\<lambda>_. T" and C = "\<lambda>_. c"] by simp

lemma reads_group:
  assumes "reads (p_or rsv) T c (no_word {''and'', ''or''})"
  shows "reads (p_not rsv) (TLPar # T @ [TRPar]) c anywhere"
proof -
  from assms obtain n0 where
    n0: "\<And>n ts. n \<ge> n0 \<Longrightarrow> no_word {''and'', ''or''} ts \<Longrightarrow> p_or rsv n (T @ ts) = Some (c, ts)"
    by (auto simp: reads_def)
  show ?thesis
  proof (rule reads_SucI [where k = n0])
    fix n ts
    assume "n0 \<le> n"
    with n0 show "p_not rsv (Suc n) ((TLPar # T @ [TRPar]) @ ts) = Some (c, ts)" by simp
  qed
qed

lemma p_operand_token [simp]: "sql_operand v \<Longrightarrow> p_operand (operand_token v # ts) = Some (operand_of v, ts)"
  by (cases v) (auto simp: operand_token_def operand_of_def)

lemma p_operands_join:
  "vs \<noteq> [] \<Longrightarrow> list_all sql_operand vs \<Longrightarrow>
   p_operands (tjoin TComma (map (\<lambda>v. [operand_token v]) vs) @ TRPar # ts) = Some (map operand_of vs, ts)"
  by (induction vs rule: induct_list012) auto

lemma p_not_predicate:
  assumes "sql_name rsv name" and "n \<noteq> 0"
  shows "p_not rsv n (TWord name # ts) = p_predicate name ts"
  using assms by (cases n) (auto simp: sql_name_def name_word_def grammar_words_def)

lemma reads_fe_tokens: "fe_sql_safe rsv e \<Longrightarrow> reads (p_not rsv) (fe_tokens e) (fe_cond e) anywhere"
proof (induction e)
  case (SimpleE name op val)
  then show ?case
    by (intro readsI [where k = 1])
       (auto simp: p_not_predicate p_predicate_def op_tokens_def sql_op_def sql_ops_def)
next
  case (JunctionE op sub)
  let ?tok = "\<lambda>e. TLPar # fe_tokens e @ [TRPar]"
  have items: "\<forall>e \<in> set (elems sub). reads (p_not rsv) (?tok e) (fe_cond e) anywhere"
    using JunctionE by (auto intro!: reads_group reads_and_or reads_not_and)
  have "reads (p_or rsv) (tjoin (TWord op) (map ?tok (elems sub)))
     (chain (if op = ''OR'' then COr else CAnd) (map fe_cond (elems sub))) (no_word {''and'', ''or''})"
  proof (cases "op = ''OR''")
    case True
    with JunctionE.prems items show ?thesis
      by (auto intro!: reads_or_chain reads_not_and)
  next
    case False
    with JunctionE.prems items show ?thesis
      by (auto intro!: reads_and_or reads_and_chain)
  qed
  then show ?case by (auto dest: reads_group)
next
  case (NotE e)
  then have "reads (p_not rsv) (TLPar # fe_tokens e @ [TRPar]) (fe_cond e) anywhere"
    by (auto intro!: reads_group reads_and_or reads_not_and)
  then obtain n0 where
    n0: "\<And>n ts. n \<ge> n0 \<Longrightarrow> p_not rsv n (TLPar # fe_tokens e @ TRPar # ts) = Some (fe_cond e, ts)"
    by (auto simp: reads_def anywhere_def)
  show ?case
  proof (rule reads_SucI [where k = n0])
    fix n ts
    assume "n0 \<le> n"
    with n0 show "p_not rsv (Suc n) (fe_tokens (NotE e) @ ts) = Some (fe_cond (NotE e), ts)" by simp
  qed
next
  case (InE name vals)
  then have "p_operands (tjoin TComma (map (\<lambda>v. [operand_token v]) (elems vals)) @ TRPar # ts)
      = Some (map operand_of (elems vals), ts)" for ts
    using p_operands_join [of "elems vals" ts] by simp
  with InE show ?case
    by (intro readsI [where k = 1]) (auto simp: p_not_predicate p_predicate_def)
next
  case (UnE name op)
  then show ?case
    by (intro readsI [where k = 1]) (auto simp: p_not_predicate p_predicate_def)
next
  case (BetweenE name l r)
  then show ?case
    by (intro readsI [where k = 1]) (auto simp: p_not_predicate p_predicate_def)
qed simp

lemma read_cond_text:
  assumes "fe_sql_safe rsv e"
  shows "\<exists>n0. \<forall>n \<ge> n0. read_cond rsv n (fe_text e) = Some (fe_cond e)"
proof -
  have "reads (p_or rsv) (fe_tokens e) (fe_cond e) (no_word {''and'', ''or''})"
    using assms by (intro reads_and_or reads_not_and reads_fe_tokens)
  then obtain n0 where "\<forall>n \<ge> n0. p_or rsv n (fe_tokens e) = Some (fe_cond e, [])"
    by (force simp: reads_def dest: spec [where x = "[]"])
  moreover have "sql_lex (fe_text e) = fe_tokens e"
    using lex_fe_text [OF assms, of "[]"] by simp
  ultimately show ?thesis by (intro exI [of _ n0]) (simp add: read_cond_def)
qed

end
