(* ===== verification/Codec_Interface.thy ===== *)
theory Codec_Interface
  imports Bridge_Prelude
begin

text \<open>
  The contract between the two ends of the wire: what one side encodes, the other decodes to
  a normal form of it (operands lose their type on the way, so decoding is not always the
  inverse), and normal forms travel unchanged. The client and the server meet in this
  interface three times: order instructions, filters, paging.
\<close>

locale wire_codec =
  fixes enc :: "'a \<Rightarrow> 'b"
    and dec :: "'b \<Rightarrow> 'a outcome"
    and ok :: "'a \<Rightarrow> bool"
    and norm :: "'a \<Rightarrow> 'a"
  assumes dec_enc: "ok x \<Longrightarrow> dec (enc x) = Returns (norm x)"
    and ok_norm: "ok x \<Longrightarrow> ok (norm x)"
    and norm_norm: "ok x \<Longrightarrow> norm (norm x) = norm x"
begin

lemma dec_enc_norm: "ok x \<Longrightarrow> dec (enc (norm x)) = Returns (norm x)"
  using dec_enc [of "norm x"] ok_norm norm_norm by simp

lemma enc_determines_norm: "ok x \<Longrightarrow> ok y \<Longrightarrow> enc x = enc y \<Longrightarrow> norm x = norm y"
  using dec_enc [of x] dec_enc [of y] by simp

lemma dec_enc_list: "list_all ok xs \<Longrightarrow> traverse dec (map enc xs) = Returns (map norm xs)"
  by (simp add: traverse_map traverse_Returns [where g = norm] dec_enc list_all_iff)

lemma relay: "ok x \<Longrightarrow> obind (dec (enc x)) (\<lambda>y. dec (enc y)) = dec (enc x)"
  by (simp add: dec_enc dec_enc_norm)

end

text \<open>A codec that loses nothing.\<close>

locale exact_codec = wire_codec +
  assumes norm_id: "ok x \<Longrightarrow> norm x = x"
begin

lemma dec_enc_id: "ok x \<Longrightarrow> dec (enc x) = Returns x"
  using dec_enc norm_id by simp

lemma enc_inj: "ok x \<Longrightarrow> ok y \<Longrightarrow> enc x = enc y \<Longrightarrow> x = y"
  using enc_determines_norm norm_id by metis

lemma dec_enc_list_id: "list_all ok xs \<Longrightarrow> traverse dec (map enc xs) = Returns xs"
  using dec_enc_list [of xs] by (simp add: list_all_iff norm_id map_idI)

end

end
