(* ===== verification/Query.thy ===== *)
theory Query
  imports Filter_Sql Json_Roundtrip Codec_Interface "HOL-Library.Word"
begin

text \<open>
  Queries: \<^verbatim>\<open>pkg/query/query.go\<close> (orders, paging, the query and its SQL suffix),
  \<^verbatim>\<open>builder.go\<close>, and the rest of \<^verbatim>\<open>codec.go\<close> (request parameters to query and back). A Go
  \<^verbatim>\<open>int\<close> is an \<open>int\<close>, an \<^verbatim>\<open>uint64\<close> a \<open>64 word\<close>.
\<close>

section \<open>Orders\<close>

record order =
  order_name :: string
  order_asc :: bool

definition OrderBy :: "string \<Rightarrow> bool \<Rightarrow> order" where
  "OrderBy name asc = \<lparr>order_name = name, order_asc = asc\<rparr>"

definition ord2str :: "bool \<Rightarrow> string" where
  "ord2str asc = (if asc then ''asc'' else ''desc'')"

definition order_MarshalText :: "order \<Rightarrow> string" where
  "order_MarshalText ord = order_name ord @ ''='' @ ord2str (order_asc ord)"

text \<open>\<^verbatim>\<open>UnmarshalText\<close> writes into its receiver: the name always, \<^verbatim>\<open>asc\<close> only to set it. It never
  reports an error.\<close>

definition order_UnmarshalText :: "order \<Rightarrow> string \<Rightarrow> order" where
  "order_UnmarshalText ord text =
     (let parts = split_on (CHR ''='') text;
          ord = ord\<lparr>order_name := hd parts\<rparr>
      in if length parts > 1 \<and> to_lower (parts ! 1) = ''asc'' then ord\<lparr>order_asc := True\<rparr> else ord)"

definition zero_order :: order where
  "zero_order = \<lparr>order_name = [], order_asc = False\<rparr>"

definition Orders_String :: "order list \<Rightarrow> string" where
  "Orders_String ords =
     join '', '' (map (\<lambda>item. fmt_v (wrapStr (VStr (order_name item)) ''`'') @ '' '' @
       (if \<not> order_asc item then ''DESC'' else ''ASC'')) ords)"

section \<open>Paging\<close>

record page =
  page_offset :: "64 word"
  page_size :: int

definition Page :: "64 word \<Rightarrow> int \<Rightarrow> page" where
  "Page offset count = \<lparr>page_offset = offset, page_size = count\<rparr>"

definition page_String :: "page \<Rightarrow> string" where
  "page_String p = dec_nat (unat (page_offset p)) @ '', '' @ dec_int (page_size p)"

definition DefaultPageOffset :: int where [simp]: "DefaultPageOffset = 0"
definition DefaultPageSize :: int where [simp]: "DefaultPageSize = 20"

definition DefaultPaging :: page where
  "DefaultPaging = Page (word_of_int DefaultPageOffset) DefaultPageSize"

definition DefaultFilter :: fexpr where
  "DefaultFilter = SimpleExpr ''1'' OpAnd (VStr ''1'')"

section \<open>Queries\<close>

record qryData =
  qry_orders :: "order list"
  qry_paging :: "page option"
  qry_filter :: fexpr

definition DefaultQuery :: qryData where
  "DefaultQuery = \<lparr>qry_orders = [], qry_paging = Some DefaultPaging, qry_filter = NilE\<rparr>"

text \<open>\<^verbatim>\<open>String\<close>: the SQL that follows the table name.\<close>

definition qry_where :: "fexpr \<Rightarrow> string outcome" where
  "qry_where flt = (if flt \<noteq> NilE then omap (\<lambda>s. '' WHERE '' @ s) (fe_String flt) else Returns [])"

definition qry_String :: "qryData \<Rightarrow> string outcome" where
  "qry_String q =
     obind (qry_where (qry_filter q)) (\<lambda>w.
       Returns (w @
         (if length (qry_orders q) > 0 then '' ORDER BY '' @ Orders_String (qry_orders q) else []) @
         (case qry_paging q of Some p \<Rightarrow> '' LIMIT '' @ page_String p | None \<Rightarrow> [])))"

section \<open>The builder\<close>

record builder =
  ords :: "order list"
  fe :: fexpr
  pg :: page

definition NewBuilder :: builder where
  "NewBuilder = \<lparr>ords = [], fe = NilE,
     pg = \<lparr>page_offset = word_of_int DefaultPageOffset, page_size = DefaultPageSize\<rparr>\<rparr>"

definition builder_OrderBy :: "string \<Rightarrow> bool \<Rightarrow> builder \<Rightarrow> builder" where
  "builder_OrderBy name asc b = b\<lparr>ords := ords b @ [OrderBy name asc]\<rparr>"

definition builder_Paging :: "int \<Rightarrow> int \<Rightarrow> builder \<Rightarrow> builder" where
  "builder_Paging offset sz b =
     b\<lparr>pg := (pg b)\<lparr>page_offset := word_of_int offset, page_size := sz\<rparr>\<rparr>"

definition builder_Filter :: "fexpr \<Rightarrow> builder \<Rightarrow> builder" where
  "builder_Filter e b = b\<lparr>fe := e\<rparr>"

definition builder_Build :: "builder \<Rightarrow> qryData" where
  "builder_Build b = \<lparr>qry_orders = ords b, qry_paging = Some (pg b), qry_filter = fe b\<rparr>"

section \<open>Filters as text\<close>

datatype json_error = SyntaxError | UnmarshalTypeError

text \<open>\<^verbatim>\<open>json.Marshal(fe)\<close>, and \<^verbatim>\<open>EncodeFilter\<close>, whose encoder ends the text with a newline.\<close>

definition filter_json :: "(gval \<Rightarrow> string) \<Rightarrow> fexpr \<Rightarrow> string" where
  "filter_json enc e = json_enc enc (fe_MarshalJSON e)"

definition EncodeFilter :: "(gval \<Rightarrow> string) \<Rightarrow> fexpr \<Rightarrow> string" where
  "EncodeFilter enc e = filter_json enc e @ [CHR 0x0A]"

text \<open>
  \<^verbatim>\<open>DecodeFilter\<close> decodes into a nil map, so JSON \<^verbatim>\<open>null\<close> leaves it nil; the expression is built
  from whatever the map is, also when decoding reported an error. The map is nil then, unless the
  error is a number that no \<^verbatim>\<open>float64\<close> can hold: the decoder stores nil for it and goes on.
\<close>

definition DecodeFilter :: "string \<Rightarrow> (fexpr \<times> json_error option) outcome" where
  "DecodeFilter str =
     (case json_decode str of
        None \<Rightarrow> omap (\<lambda>e. (e, Some SyntaxError)) (decodeExprFromMap [])
      | Some VNil \<Rightarrow> omap (\<lambda>e. (e, None)) (decodeExprFromMap [])
      | Some (VMap m) \<Rightarrow>
          omap (\<lambda>e. (e, if json_finite (VMap m) then None else Some UnmarshalTypeError))
            (decodeExprFromMap (map (\<lambda>(k, v). (k, json_any v)) m))
      | Some v \<Rightarrow> omap (\<lambda>e. (e, Some UnmarshalTypeError)) (decodeExprFromMap []))"

section \<open>Request parameters\<close>

record ListItemsParams =
  PageOffset :: "int option"
  PageSize :: "int option"
  Order :: "string list option"
  Filter :: "string option"

text \<open>\<^verbatim>\<open>ToParams\<close>, run by the client. The conversion of the offset to \<^verbatim>\<open>int\<close> reads its bits as
  signed.\<close>

definition ToParams :: "(gval \<Rightarrow> string) \<Rightarrow> qryData \<Rightarrow> ListItemsParams" where
  "ToParams enc q =
     \<lparr>PageOffset = map_option (\<lambda>p. sint (page_offset p)) (qry_paging q),
      PageSize = map_option page_size (qry_paging q),
      Order = (if length (qry_orders q) > 0
               then Some (map order_MarshalText (qry_orders q)) else None),
      Filter = (if qry_filter q \<noteq> NilE then Some (filter_json enc (qry_filter q)) else None)\<rparr>"

text \<open>\<^verbatim>\<open>FromParams\<close>, run by the server: defaults for the paging, a fresh order per text, the filter
  decoded when there is one. The conversion of the offset to \<^verbatim>\<open>uint64\<close> wraps around.\<close>

definition FromParams :: "int option \<Rightarrow> int option \<Rightarrow> string list option \<Rightarrow> string option \<Rightarrow>
    (json_error + qryData) outcome" where
  "FromParams pPageOffset pPageSize pOrders pFilter =
     (let pageSize = (case pPageSize of Some n \<Rightarrow> n | None \<Rightarrow> DefaultPageSize);
          pageOffset = (case pPageOffset of Some n \<Rightarrow> n | None \<Rightarrow> DefaultPageOffset);
          orders = (case pOrders of Some texts \<Rightarrow> map (order_UnmarshalText zero_order) texts | None \<Rightarrow> []);
          qry = (\<lambda>flt. \<lparr>qry_orders = orders,
             qry_paging = Some (Page (word_of_int pageOffset) pageSize), qry_filter = flt\<rparr>)
      in (case pFilter of
            None \<Rightarrow> Returns (Inr (qry NilE))
          | Some str \<Rightarrow> obind (DecodeFilter str) (\<lambda>(flt, err).
              case err of Some x \<Rightarrow> Returns (Inl x) | None \<Rightarrow> Returns (Inr (qry flt)))))"

section \<open>Requests encoded by hand\<close>

text \<open>\<^verbatim>\<open>url.Values\<close>: a map from keys to lists of values; \<^verbatim>\<open>Set\<close> replaces, \<^verbatim>\<open>Add\<close> appends.\<close>

type_synonym url_values = "(string \<times> string list) list"

definition values_Set :: "string \<Rightarrow> string \<Rightarrow> url_values \<Rightarrow> url_values" where
  "values_Set k v q = AList.update k [v] q"

definition values_Add :: "string \<Rightarrow> string \<Rightarrow> url_values \<Rightarrow> url_values" where
  "values_Add k v q = AList.update k ((case map_of q k of Some vs \<Rightarrow> vs | None \<Rightarrow> []) @ [v]) q"

definition unreserved :: "char \<Rightarrow> bool" where
  "unreserved c \<longleftrightarrow>
     (let n = (of_char c :: nat) in
      48 \<le> n \<and> n \<le> 57 \<or> 65 \<le> n \<and> n \<le> 90 \<or> 97 \<le> n \<and> n \<le> 122 \<or>
      c \<in> {CHR ''-'', CHR ''_'', CHR ''.'', CHR ''~''})"

definition upper_hex :: "nat \<Rightarrow> char" where
  "upper_hex d = (if d < 10 then char_of (48 + d) else char_of (55 + d))"

definition QueryEscape :: "string \<Rightarrow> string" where
  "QueryEscape s = concat (map (\<lambda>c. if unreserved c then [c] else if c = CHR '' '' then ''+''
     else [CHR ''%'', upper_hex (of_char c div 16), upper_hex (of_char c mod 16)]) s)"

definition values_Encode :: "url_values \<Rightarrow> string" where
  "values_Encode q = join ''&'' (concat (map (\<lambda>(k, vs). map (\<lambda>v. QueryEscape k @ ''='' @ QueryEscape v) vs)
     (sort_key fst q)))"

text \<open>\<^verbatim>\<open>EncodeRequest\<close> starts from the query of the request's URL and gives its new raw query;
  \<^verbatim>\<open>None\<close> when the URL is left alone.\<close>

definition EncodeRequest :: "(gval \<Rightarrow> string) \<Rightarrow> url_values \<Rightarrow> qryData \<Rightarrow> string option" where
  "EncodeRequest enc q0 qry =
     (let q1 = (case qry_paging qry of
                  Some p \<Rightarrow> values_Set ''page-size'' (dec_int (page_size p))
                              (values_Set ''page-offset'' (dec_nat (unat (page_offset p))) q0)
                | None \<Rightarrow> q0);
          q2 = foldl (\<lambda>q ord. values_Add ''order[]'' (order_MarshalText ord) q) q1 (qry_orders qry);
          q3 = (if qry_filter qry \<noteq> NilE
                then values_Set ''filter'' (EncodeFilter enc (qry_filter qry)) q2 else q2)
      in if length q3 > 0 then Some (values_Encode q3) else None)"

end
