(* ===== verification/Query_Codec.thy ===== *)
theory Query_Codec
  imports Query
begin

text \<open>
  The three wire codecs of a query (orders, filters, paging) interpret the codec contract; the
  round trip of a whole query through the request parameters follows from their laws.
\<close>

section \<open>Orders\<close>

lemma to_lower_dir: "to_lower ''asc'' = ''asc''" "to_lower ''desc'' = ''desc''"
  by (simp_all add: to_lower_def to_lower_char_def)

definition order_ok :: "order \<Rightarrow> bool" where
  "order_ok ord \<longleftrightarrow> CHR ''='' \<notin> set (order_name ord)"

lemma order_roundtrip:
  "order_ok ord \<Longrightarrow> order_UnmarshalText zero_order (order_MarshalText ord) = ord"
  by (cases ord)
     (auto simp: order_ok_def order_UnmarshalText_def order_MarshalText_def split_on_first
        split_on_none ord2str_def zero_order_def to_lower_dir)

interpretation order_codec:
  exact_codec order_MarshalText "\<lambda>t. Returns (order_UnmarshalText zero_order t)" order_ok "\<lambda>x. x"
  by unfold_locales (simp_all add: order_roundtrip)

section \<open>Paging\<close>

interpretation offset_codec:
  exact_codec "sint :: 64 word \<Rightarrow> int" "\<lambda>i. Returns (word_of_int i)" "\<lambda>_. True" "\<lambda>x. x"
  by unfold_locales simp_all

section \<open>Filters\<close>

text \<open>The filter as the server holds it, and when its JSON text is read back faithfully.\<close>

definition filter_norm :: "(gval \<Rightarrow> string) \<Rightarrow> fexpr \<Rightarrow> fexpr" where
  "filter_norm enc e = fe_wire (fe_norm enc e)"

definition json_ok :: "gval \<Rightarrow> bool" where
  [simp]: "json_ok v \<longleftrightarrow> json_canon v \<and> json_finite v"

fun fe_canon :: "fexpr \<Rightarrow> bool" where
  "fe_canon (SimpleE name op val) = json_ok val"
| "fe_canon (JunctionE op sub) = (\<forall>e \<in> set (elems sub). fe_canon e)"
| "fe_canon (NotE e) = fe_canon e"
| "fe_canon (InE name vals) = list_all json_ok (elems vals)"
| "fe_canon (BetweenE name l r) = (json_ok l \<and> json_ok r)"
| "fe_canon e = True"

definition filter_ok :: "fexpr \<Rightarrow> bool" where
  "filter_ok e \<longleftrightarrow> fe_wf e \<and> fe_canon e"

definition filter_dec :: "string \<Rightarrow> fexpr outcome" where
  "filter_dec str = omap fst (DecodeFilter str)"

lemma less_key [simp]:
  "''name'' < ''op''" "''op'' < ''sub''" "''op'' < ''val''" "''name'' < ''val''"
  "''left'' < ''name''" "''left'' < ''right''" "''name'' < ''right''"
  by (simp_all add: less_char_def)

lemma json_ok_marshal: "fe_canon e \<Longrightarrow> json_ok (fe_MarshalJSON e)"
proof (induction e)
  case (JunctionE op sub)
  then show ?case by (cases sub) (auto simp: list_all_iff json_ok_def)
next
  case (InE name vals)
  then show ?case by (cases vals) (auto simp: slice_json_def list_all_iff json_ok_def)
qed (auto simp: json_ok_def)

lemma json_canon_marshal: "fe_canon e \<Longrightarrow> json_canon (fe_MarshalJSON e)"
  using json_ok_marshal by (simp add: json_ok_def)

lemma fe_canon_wf_norm: "fe_wf e \<Longrightarrow> fe_norm enc e \<noteq> NilE"
  by (cases e) auto

lemma DecodeFilter_json:
  assumes "filter_ok e" and "num_stop t"
  shows "DecodeFilter (filter_json enc e @ t) = Returns (filter_norm enc e, None)"
proof -
  have raw: "json_decode (filter_json enc e @ t) = Some (json_raw enc (fe_MarshalJSON e))"
    using assms by (simp add: filter_json_def filter_ok_def json_decode_enc json_canon_marshal)
  have wf: "fe_wf e" "fe_wf (fe_norm enc e)" using assms by (simp_all add: filter_ok_def)
  obtain m where m: "fe_MarshalJSON e = VMap m" using marshal_object [OF wf(1)] by auto
  let ?r = "map (\<lambda>(k, v). (k, json_raw enc v)) m"
  have "json_any (VMap ?r) = fe_MarshalJSON (fe_norm enc e)"
    unfolding json_norm_marshal [symmetric] m by (simp only: json_any_raw flip: json_raw.simps)
  then have any: "VMap (map (\<lambda>(k, v). (k, json_any v)) ?r) = fe_MarshalJSON (fe_norm enc e)" by simp
  have "json_finite (json_raw enc (fe_MarshalJSON e))"
    using assms json_ok_marshal by (simp add: json_finite_raw filter_ok_def json_ok_def)
  then have fin: "json_finite (VMap ?r)" by (simp only: m json_raw.simps)
  from raw m have "json_decode (filter_json enc e @ t) = Some (VMap ?r)" by simp
  with fin decode_marshal [OF wf(2)] any [symmetric] show ?thesis
    by (simp only: DecodeFilter_def filter_norm_def option.case gval.case if_True) simp
qed

lemma json_number_canon: "float_normal x \<Longrightarrow> json_canon (json_number x)"
  by (simp add: json_number_def)

lemma json_canon_norm: "json_canon v \<Longrightarrow> json_canon (json_norm enc v)"
proof (induction v)
  case (VMap m)
  let ?m = "map (\<lambda>(k, v). (k, json_norm enc v)) m"
  have keys: "map fst ?m = map fst m" by auto
  have vals: "list_all (\<lambda>(k, v). json_canon v) ?m"
    using VMap by (fastforce simp: list_all_iff prod_set_defs)
  from VMap.prems show ?case
    unfolding json_norm.simps json_canon.simps keys using vals by simp
qed (auto simp: list_all_iff json_number_canon)

lemma fe_canon_norm: "fe_canon e \<Longrightarrow> fe_canon (fe_norm enc e)"
  by (induction e) (auto simp: json_ok_def json_canon_norm json_norm_finite list_all_iff)

lemma fe_canon_wire: "fe_canon e \<Longrightarrow> fe_canon (fe_wire e)"
  by (induction e) (auto simp: json_ok_def)

lemma fe_wf_wire: "fe_wf e \<Longrightarrow> fe_wf (fe_wire e)"
proof (induction e)
  case (JunctionE op sub)
  then show ?case by (cases sub) auto
qed auto

lemma filter_norm_idem: "filter_norm enc (filter_norm enc e) = filter_norm enc e"
proof (induction e)
  case (JunctionE op sub)
  then show ?case by (cases sub) (simp_all add: filter_norm_def)
next
  case (InE name vals)
  then show ?case by (cases vals) (simp_all add: filter_norm_def json_norm_idem)
qed (simp_all add: filter_norm_def json_norm_idem)

lemma filter_ok_norm: "filter_ok e \<Longrightarrow> filter_ok (filter_norm enc e)"
  by (simp add: filter_ok_def filter_norm_def fe_canon_wire fe_canon_norm fe_wf_wire)

interpretation filter_codec:
  wire_codec "filter_json enc" filter_dec filter_ok "filter_norm enc" for enc
proof unfold_locales
  fix e
  assume "filter_ok e"
  then show "filter_dec (filter_json enc e) = Returns (filter_norm enc e)"
    using DecodeFilter_json [of e "[]" enc] by (simp add: filter_dec_def)
qed (simp_all add: filter_ok_norm filter_norm_idem)

section \<open>Whole queries\<close>

definition qry_ok :: "qryData \<Rightarrow> bool" where
  "qry_ok q \<longleftrightarrow> list_all order_ok (qry_orders q) \<and> (qry_filter q = NilE \<or> filter_ok (qry_filter q))"

definition qry_norm :: "(gval \<Rightarrow> string) \<Rightarrow> qryData \<Rightarrow> qryData" where
  "qry_norm enc q = q\<lparr>
     qry_paging := Some (case qry_paging q of Some p \<Rightarrow> p | None \<Rightarrow> DefaultPaging),
     qry_filter := filter_norm enc (qry_filter q)\<rparr>"

definition params_dec :: "ListItemsParams \<Rightarrow> qryData outcome" where
  "params_dec ps =
     obind (FromParams (PageOffset ps) (PageSize ps) (Order ps) (Filter ps)) (\<lambda>r.
       case r of Inr q \<Rightarrow> Returns q | Inl x \<Rightarrow> Panics ''error'')"

lemma FromParams_orders:
  "list_all order_ok os \<Longrightarrow> map (order_UnmarshalText zero_order) (map order_MarshalText os) = os"
  by (simp add: list_all_iff order_roundtrip map_idI)

lemma filter_norm_NilE [simp]: "filter_norm enc NilE = NilE"
  by (simp add: filter_norm_def)

lemma FromParams_ToParams:
  assumes "qry_ok q"
  shows "(let ps = ToParams enc q in
      FromParams (PageOffset ps) (PageSize ps) (Order ps) (Filter ps)) = Returns (Inr (qry_norm enc q))"
proof -
  have os: "map (order_UnmarshalText zero_order) (map order_MarshalText (qry_orders q)) = qry_orders q"
    using assms by (intro FromParams_orders) (simp add: qry_ok_def)
  have pg: "Page (page_offset p) (page_size p) = p" for p
    by (cases p) (simp add: Page_def)
  show ?thesis
  proof (cases "qry_filter q = NilE")
    case True
    with os show ?thesis
      by (cases q; cases "qry_paging q")
         (auto simp: ToParams_def FromParams_def Let_def qry_norm_def pg DefaultPaging_def)
  next
    case False
    then have "DecodeFilter (filter_json enc (qry_filter q)) = Returns (filter_norm enc (qry_filter q), None)"
      using assms DecodeFilter_json [of "qry_filter q" "[]" enc] by (simp add: qry_ok_def)
    with False os show ?thesis
      by (cases q; cases "qry_paging q")
         (auto simp: ToParams_def FromParams_def Let_def qry_norm_def pg DefaultPaging_def)
  qed
qed

lemma qry_norm_ok: "qry_ok q \<Longrightarrow> qry_ok (qry_norm enc q)"
  by (auto simp: qry_ok_def qry_norm_def filter_ok_norm)

lemma qry_norm_idem: "qry_norm enc (qry_norm enc q) = qry_norm enc q"
  by (simp add: qry_norm_def filter_norm_idem)

interpretation query_codec: wire_codec "ToParams enc" params_dec qry_ok "qry_norm enc" for enc
proof unfold_locales
  fix q
  assume "qry_ok q"
  then show "params_dec (ToParams enc q) = Returns (qry_norm enc q)"
    using FromParams_ToParams [of q enc] by (simp add: params_dec_def Let_def)
qed (simp_all add: qry_norm_ok qry_norm_idem)

end
