(* ===== verification/Sql_Builder.thy ===== *)
theory Sql_Builder
  imports Filter_Codec
begin

text \<open>
  The statement builders of \<^verbatim>\<open>pkg/crud/misc.go\<close>: their loops over the sorted columns as the
  source writes them, and the shape of the text and of the argument list they produce. A body
  (\<^verbatim>\<open>UntypedDto\<close>) is a Go map; its keys are sorted before use.
\<close>

section \<open>Columns of a body\<close>

text \<open>\<^verbatim>\<open>lo.Keys\<close> followed by \<^verbatim>\<open>slices.Sort\<close>.\<close>

definition sorted_cols :: "gmap \<Rightarrow> string list" where
  "sorted_cols body = sort (remdups (map fst body))"

lemma set_sorted_cols [simp]: "set (sorted_cols body) = fst ` set body"
  by (simp add: sorted_cols_def)

lemma distinct_sorted_cols [simp]: "distinct (sorted_cols body)"
  by (simp add: sorted_cols_def)

text \<open>Two bodies with the same contents list the same columns, whatever the iteration order.\<close>

lemma sorted_cols_cong:
  assumes "map_of b = map_of c"
  shows "sorted_cols b = sorted_cols c"
proof -
  have "fst ` set b = fst ` set c"
    using assms by (metis dom_map_of_conv_image_fst)
  then have "set (remdups (map fst b)) = set (remdups (map fst c))" by simp
  then show ?thesis
    unfolding sorted_cols_def by (intro sorted_distinct_set_unique) simp_all
qed

section \<open>Builders\<close>

definition bt :: string where
  "bt = ''`''"

definition quoted :: "string \<Rightarrow> string" where
  "quoted s = bt @ s @ bt"

text \<open>The loop of \<^verbatim>\<open>createInsertOrReplaceQuery\<close> over column index \<open>i\<close>, with its three
  accumulators \<^verbatim>\<open>csb\<close>, \<^verbatim>\<open>vsb\<close> and \<^verbatim>\<open>values\<close>.\<close>

function insert_loop :: "gmap \<Rightarrow> string list \<Rightarrow> nat \<Rightarrow> string \<Rightarrow> string \<Rightarrow> gval list \<Rightarrow>
    string \<times> string \<times> gval list" where
  "insert_loop body cols i csb vsb values =
     (if i < length cols then
        (let col = cols ! i;
             csb = csb @ bt @ col @ bt;
             vsb = vsb @ ''?'';
             (csb, vsb) = (if i < length cols - 1 then (csb @ '','', vsb @ '','') else (csb, vsb))
         in insert_loop body cols (Suc i) csb vsb (values @ [gmap_get body col]))
      else (csb, vsb, values))"
  by pat_completeness auto
termination
  by (relation "measure (\<lambda>(body, cols, i, csb, vsb, values). length cols - i)") auto

declare insert_loop.simps [simp del]

definition createInsertOrReplaceQuery :: "string \<Rightarrow> string \<Rightarrow> gmap \<Rightarrow> string \<times> gval list" where
  "createInsertOrReplaceQuery verb entity body =
     (let cols = sorted_cols body;
          (csb, vsb, values) = insert_loop body cols 0 ''('' '' VALUES('' []
      in (verb @ '' INTO `'' @ entity @ ''` '' @ (csb @ '')'') @ (vsb @ '')''), values))"

definition createReplaceQuery :: "string \<Rightarrow> gmap \<Rightarrow> string \<times> gval list" where
  "createReplaceQuery entity body = createInsertOrReplaceQuery ''REPLACE'' entity body"

definition createInsertQuery :: "string \<Rightarrow> gmap \<Rightarrow> string \<times> gval list" where
  "createInsertQuery entity body = createInsertOrReplaceQuery ''INSERT'' entity body"

definition createSingleItemFilter :: "string \<Rightarrow> string" where
  "createSingleItemFilter idColumn = ''WHERE '' @ bt @ idColumn @ bt @ '' = ?'' @ '' LIMIT 1''"

function update_loop :: "gmap \<Rightarrow> string list \<Rightarrow> nat \<Rightarrow> string \<Rightarrow> gval list \<Rightarrow> string \<times> gval list" where
  "update_loop body cols i sb values =
     (if i < length cols then
        (let col = cols ! i;
             sb = sb @ bt @ col @ ''` = ?'';
             values = values @ [gmap_get body col];
             sb = (if i < length cols - 1 then sb @ '', '' else sb)
         in update_loop body cols (Suc i) sb values)
      else (sb, values))"
  by pat_completeness auto
termination
  by (relation "measure (\<lambda>(body, cols, i, sb, values). length cols - i)") auto

declare update_loop.simps [simp del]

definition createUpdateQuery :: "string \<Rightarrow> string \<Rightarrow> gmap \<Rightarrow> string \<times> gval list" where
  "createUpdateQuery entity idColumn body =
     (let (sb, values) = update_loop body (sorted_cols body) 0 (''UPDATE `'' @ entity @ ''` SET '') []
      in (sb @ '' '' @ createSingleItemFilter idColumn, values))"

definition createDeleteQueryPrefix :: "string \<Rightarrow> string" where
  "createDeleteQueryPrefix entity = ''DELETE FROM `'' @ entity @ ''` ''"

definition createSingleDeleteQuery :: "string \<Rightarrow> string \<Rightarrow> string" where
  "createSingleDeleteQuery entity idColumn =
     createDeleteQueryPrefix entity @ createSingleItemFilter idColumn"

definition createMultiItemFilter :: "string \<Rightarrow> int \<Rightarrow> string outcome" where
  "createMultiItemFilter idColumn idsCount =
     obind (strings_Repeat ''?,'' (idsCount - 1)) (\<lambda>marks.
       Returns (''WHERE '' @ bt @ idColumn @ bt @ '' IN ('' @ marks @ ''?)''))"

definition createMultiDeleteQuery :: "string \<Rightarrow> string \<Rightarrow> int \<Rightarrow> string outcome" where
  "createMultiDeleteQuery entity idColumn idsCount =
     obind (createMultiItemFilter idColumn idsCount) (\<lambda>flt.
       Returns (createDeleteQueryPrefix entity @ flt))"

definition createSingleSelectQuery :: "string \<Rightarrow> string \<Rightarrow> string" where
  "createSingleSelectQuery entity idColumn =
     ''SELECT * FROM `'' @ entity @ ''` '' @ createSingleItemFilter idColumn"

section \<open>The shape of the statements\<close>

lemma join_snoc:
  "join sep (xs @ [x]) = (if xs = [] then x else join sep xs @ sep @ x)"
  by (induction xs rule: induct_list012) auto

lemma take_Suc_snoc: "i < length xs \<Longrightarrow> take (Suc i) xs = take i xs @ [xs ! i]"
  by (rule take_Suc_conv_app_nth)

lemma drop_nth: "i < length xs \<Longrightarrow> drop i xs = xs ! i # drop (Suc i) xs"
  by (rule Cons_nth_drop_Suc [symmetric])

text \<open>The loops compute what a join over the remaining columns gives.\<close>

lemma insert_loop_join:
  "i \<le> length cols \<Longrightarrow> insert_loop body cols i csb vsb values =
     (csb @ join '','' (map quoted (drop i cols)),
      vsb @ join '','' (replicate (length cols - i) ''?''),
      values @ map (gmap_get body) (drop i cols))"
proof (induction "length cols - i" arbitrary: i csb vsb "values")
  case 0
  then show ?case by (subst insert_loop.simps) simp
next
  case (Suc k)
  then have less: "i < length cols" and d: "drop i cols = cols ! i # drop (Suc i) cols"
    and n: "length cols - i = Suc (length cols - Suc i)"
    by (simp_all add: drop_nth)
  have IH: "insert_loop body cols (Suc i) c v w =
      (c @ join '','' (map quoted (drop (Suc i) cols)),
       v @ join '','' (replicate (length cols - Suc i) ''?''),
       w @ map (gmap_get body) (drop (Suc i) cols))" for c v w
    using Suc.hyps less by simp
  show ?case
  proof (cases "Suc i < length cols")
    case True
    then have "drop (Suc i) cols \<noteq> []" "replicate (length cols - Suc i) ''?'' \<noteq> []" by simp_all
    with True less show ?thesis
      by (subst insert_loop.simps) (simp add: Let_def IH d n join_Cons quoted_def del: drop_eq_Nil)
  next
    case False
    then have "drop (Suc i) cols = []" "length cols - Suc i = 0" "\<not> i < length cols - Suc 0" by simp_all
    with less show ?thesis
      by (subst insert_loop.simps) (simp add: Let_def IH d n quoted_def)
  qed
qed

lemma update_loop_join:
  "i \<le> length cols \<Longrightarrow> update_loop body cols i sb values =
     (sb @ join '', '' (map (\<lambda>c. quoted c @ '' = ?'') (drop i cols)),
      values @ map (gmap_get body) (drop i cols))"
proof (induction "length cols - i" arbitrary: i sb "values")
  case 0
  then show ?case by (subst update_loop.simps) simp
next
  case (Suc k)
  then have less: "i < length cols" and d: "drop i cols = cols ! i # drop (Suc i) cols"
    by (simp_all add: drop_nth)
  have IH: "update_loop body cols (Suc i) s w =
      (s @ join '', '' (map (\<lambda>c. quoted c @ '' = ?'') (drop (Suc i) cols)),
       w @ map (gmap_get body) (drop (Suc i) cols))" for s w
    using Suc.hyps less by simp
  show ?case
  proof (cases "Suc i < length cols")
    case True
    then have "drop (Suc i) cols \<noteq> []" by simp
    with True less show ?thesis
      by (subst update_loop.simps)
         (simp add: Let_def IH d join_Cons quoted_def bt_def del: drop_eq_Nil)
  next
    case False
    then have "drop (Suc i) cols = []" "\<not> i < length cols - Suc 0" by simp_all
    with less show ?thesis
      by (subst update_loop.simps) (simp add: Let_def IH d quoted_def bt_def)
  qed
qed

lemma insert_shape:
  "createInsertOrReplaceQuery verb entity body =
     (verb @ '' INTO `'' @ entity @ ''` ('' @ join '','' (map quoted (sorted_cols body)) @
        '') VALUES('' @ join '','' (replicate (length (sorted_cols body)) ''?'') @ '')'',
      map (gmap_get body) (sorted_cols body))"
  by (simp add: createInsertOrReplaceQuery_def insert_loop_join Let_def)

lemma update_shape:
  "createUpdateQuery entity idColumn body =
     (''UPDATE `'' @ entity @ ''` SET '' @ join '', '' (map (\<lambda>c. quoted c @ '' = ?'') (sorted_cols body)) @
        '' WHERE '' @ quoted idColumn @ '' = ? LIMIT 1'',
      map (gmap_get body) (sorted_cols body))"
  by (simp add: createUpdateQuery_def update_loop_join createSingleItemFilter_def quoted_def)

lemma gmap_get_cong: "map_of b = map_of c \<Longrightarrow> gmap_get b = gmap_get c"
  by (simp add: gmap_get_def fun_eq_iff)

lemma repeat_marks: "concat (replicate n ''?,'') @ ''?'' = join '','' (replicate (Suc n) ''?'')"
  by (induction n) (simp_all add: join_Cons)

lemma multi_filter_shape:
  "0 < idsCount \<Longrightarrow> createMultiItemFilter idColumn idsCount =
     Returns (''WHERE '' @ quoted idColumn @ '' IN ('' @ join '','' (replicate (nat idsCount) ''?'') @ '')'')"
proof -
  assume "0 < idsCount"
  then obtain n where n: "idsCount = int (Suc n)" by (metis Suc_pred' nat_0_le less_imp_le zero_less_nat_eq)
  then have nn: "nat idsCount = Suc n" "idsCount - 1 = int n" by simp_all
  have "concat (replicate n ''?,'') @ ''?)'' = (concat (replicate n ''?,'') @ ''?'') @ '')''" by simp
  also have "\<dots> = join '','' (replicate (Suc n) ''?'') @ '')''" by (simp only: repeat_marks)
  finally show ?thesis
    by (simp add: createMultiItemFilter_def strings_Repeat_def quoted_def nn)
qed

lemma multi_filter_panics: "idsCount \<le> 0 \<Longrightarrow> \<not> is_returns (createMultiItemFilter idColumn idsCount)"
  by (simp add: createMultiItemFilter_def strings_Repeat_def)

end
