(* ===== verification/Query_Properties.thy ===== *)
theory Query_Properties
  imports Query_Codec Filter_Sql Sql_Builder
begin

text \<open>
  Properties of the query language and of the statement builders: what a filter means once it is
  sent, decoded and rendered, and the shape of the statements.
\<close>

section \<open>Filters on the wire\<close>

text \<open>C3: A filter sent by the client (\<^verbatim>\<open>EncodeFilter\<close>, which ends the JSON text with a newline) and
  decoded by the server (\<^verbatim>\<open>DecodeFilter\<close>) is the same expression, except that the operands of
  simple comparisons have become strings and the other operands have made the trip through JSON: byte
  slices and times are strings and every number is the \<^verbatim>\<open>float64\<close> nearest to it, which is the number
  itself below \<open>2 ^ 53\<close> and may differ from it above. The precondition \<open>filter_ok\<close> excludes nil
  expressions and slices, numbers beyond the range of \<^verbatim>\<open>float64\<close>, and, to have one representation of
  each value, floats that are not in shortest form and maps that do not list their keys in order;
  \<open>json_utf8\<close> asks for strings in UTF-8.\<close>

theorem filter_wire_roundtrip:
  assumes "filter_ok e" and "json_utf8 enc (fe_MarshalJSON e)"
  shows "DecodeFilter (EncodeFilter enc e) = Returns (fe_wire (fe_norm enc e), None)"
  using DecodeFilter_json [OF assms(1), of "[CHR 0x0A]" enc]
  by (simp add: EncodeFilter_def filter_norm_def num_stop_def is_digit_def)

text \<open>An integer above \<open>2 ^ 53\<close> does not survive: 9007199254740993 is read as the even number before it.\<close>

lemma big_int_rounded:
  "f64_nearest 9007199254740993 0 = (4503599627370496, 1)"
  "f64_shortest 4503599627370496 1 = Some (9007199254740992, 0)"
  by (simp add: f64_nearest_numeral, simp add: f64_eval upt_rec)

lemma big_int_norm:
  "json_norm enc (VInt 9007199254740993) = VFloat (F64 False 9007199254740992 0)" "json_finite (VInt 9007199254740993)"
  by (simp_all add: decimal_of_int_def strip_zeros.simps [of 9007199254740993] json_number_def f64_finite.simps
      f64_round.simps big_int_rounded)

lemma strip_zeros_samples:
  "strip_zeros 7 0 = (7, 0)" "strip_zeros 40 0 = (4, 1)" "strip_zeros 0 0 = (0, 0)"
  by (simp_all add: strip_zeros.simps [of 7] strip_zeros.simps [of 40] strip_zeros.simps [of 4] strip_zeros.simps [of 0])

lemma small_int_norm:
  "json_norm enc (VInt 7) = VFloat (F64 False 7 0)" "json_norm enc (VInt 40) = VFloat (F64 False 4 1)"
  "json_finite (VInt 7)" "json_finite (VInt 40)"
  using json_small_int [of 7] json_small_int [of 40]
  by (simp_all add: decimal_of_int_def strip_zeros_samples del: json_norm.simps)

definition wire_sample :: fexpr where
  "wire_sample = Junction OpAnd (Slice [SimpleExpr ''name'' OpEq (VStr ''bob''),
     Not_expr (In ''age'' (Slice [VInt 40, VInt 9007199254740993]))])"

theorem filter_wire_roundtrip_witness:
  "DecodeFilter (EncodeFilter fmt_v wire_sample) =
     Returns (JunctionE ''AND'' (Slice [SimpleE ''name'' ''='' (VStr ''bob''),
       NotE (InE ''age'' (Slice [VFloat (F64 False 4 1), VFloat (F64 False 9007199254740992 0)]))]), None)"
proof -
  have "filter_ok wire_sample"
    using big_int_norm(2) small_int_norm(4)
    by (simp add: wire_sample_def filter_ok_def json_ok_def del: json_finite.simps(1))
  moreover have "json_utf8 fmt_v (fe_MarshalJSON wire_sample)"
    by (simp add: wire_sample_def) code_simp
  ultimately show ?thesis
    using filter_wire_roundtrip [of wire_sample fmt_v]
    by (simp add: wire_sample_def big_int_norm(1) small_int_norm(2) del: json_norm.simps(1))
qed

text \<open>C4: A whole query survives the request parameters: \<^verbatim>\<open>FromParams\<close> applied to what
  \<^verbatim>\<open>ToParams\<close> produced gives the query back, with the default paging filled in when there was none
  and with the filter in the form of C3, so a number in it is the \<^verbatim>\<open>float64\<close> nearest to the one that was
  asked for. Order names must not contain an equals sign, and the filter is subject to the conditions
  of C3.\<close>

theorem query_params_roundtrip:
  assumes "qry_ok q" and "json_utf8 enc (fe_MarshalJSON (qry_filter q))"
  shows "FromParams (PageOffset (ToParams enc q)) (PageSize (ToParams enc q)) (Order (ToParams enc q))
           (Filter (ToParams enc q)) =
         Returns (Inr (q\<lparr>qry_paging := Some (case qry_paging q of Some p \<Rightarrow> p | None \<Rightarrow> DefaultPaging),
           qry_filter := fe_wire (fe_norm enc (qry_filter q))\<rparr>))"
  using FromParams_ToParams [OF assms(1), of enc] by (simp add: Let_def qry_norm_def filter_norm_def)

definition sample_filter :: fexpr where
  "sample_filter = Junction OpAnd (Slice [SimpleExpr ''name'' OpEq (VStr ''bob''),
     Not_expr (In ''age'' (Slice [VInt 7, VInt 40]))])"

lemma sample_filter_ok: "filter_ok sample_filter"
  using small_int_norm(3,4) by (simp add: sample_filter_def filter_ok_def json_ok_def del: json_finite.simps(1))

definition sample_query :: qryData where
  "sample_query = \<lparr>qry_orders = [OrderBy ''name'' True, OrderBy ''id'' False], qry_paging = None,
     qry_filter = sample_filter\<rparr>"

theorem query_params_roundtrip_witness:
  "FromParams None None (Some [''name=asc'', ''id=desc'']) (Some (filter_json fmt_v sample_filter)) =
     Returns (Inr \<lparr>qry_orders = [OrderBy ''name'' True, OrderBy ''id'' False], qry_paging = Some DefaultPaging,
       qry_filter = fe_wire (fe_norm fmt_v sample_filter)\<rparr>)"
proof -
  have "qry_ok sample_query"
    using sample_filter_ok by (simp add: qry_ok_def sample_query_def order_ok_def OrderBy_def)
  moreover have "json_utf8 fmt_v (fe_MarshalJSON (qry_filter sample_query))"
    by (simp add: sample_query_def sample_filter_def) code_simp
  ultimately show ?thesis using query_params_roundtrip [of sample_query fmt_v]
    by (simp add: sample_query_def ToParams_def order_MarshalText_def OrderBy_def ord2str_def sample_filter_def)
qed

text \<open>C5: The SQL text of a filter says what the filter means: read with MySQL's lexical rules and
  its precedence of NOT, AND and OR, the text of \<^verbatim>\<open>String\<close> is the condition the expression tree
  denotes. Names must be unqualified identifiers that are not reserved (\<open>reserved\<close> is any set of further
  reserved words), operators are the comparisons (\<^verbatim>\<open>=\<close>, \<^verbatim>\<open><>\<close>, \<^verbatim>\<open>!=\<close>, \<^verbatim>\<open><\<close>, \<^verbatim>\<open>>\<close>, \<^verbatim>\<open><=\<close>, \<^verbatim>\<open>>=\<close>,
  LIKE and NOT LIKE), operands are numbers, booleans and strings without quotes and backslashes, and no
  junction is empty.\<close>

theorem filter_sql_means_filter:
  assumes "fe_sql_safe reserved e"
  shows "\<exists>txt k. fe_String e = Returns txt \<and> (\<forall>n \<ge> k. read_cond reserved n txt = Some (fe_cond e))"
  using read_cond_text [OF assms] fe_String_text [OF fe_sql_safe_nil_free [OF assms]] by auto

theorem filter_sql_means_filter_witness:
  "\<exists>txt k. fe_String sample_filter = Returns txt \<and>
     (\<forall>n \<ge> k. read_cond (\<lambda>w. w = ''select'') n txt = Some (CAnd (CCmp ''name'' ''='' (Quoted ''bob''))
       (CNot (CIn ''age'' [Bare ''7'', Bare ''40'']))))"
proof -
  have safe: "fe_sql_safe (\<lambda>w. w = ''select'') sample_filter"
    by (simp add: sample_filter_def) code_simp
  have "fe_cond sample_filter = CAnd (CCmp ''name'' ''='' (Quoted ''bob'')) (CNot (CIn ''age'' [Bare ''7'', Bare ''40'']))"
    by code_simp
  with filter_sql_means_filter [OF safe] show ?thesis by simp
qed

text \<open>Rendering a filter panics exactly when there is a nil expression somewhere in it.\<close>

theorem filter_renders_iff_no_nil: "is_returns (fe_String e) = fe_nil_free e"
  by (rule fe_String_total)

text \<open>C37: What the server decoded is stable: an expression without nil that came out of the
  decoder, whatever the input was, is encoded and decoded to itself.\<close>

theorem decoded_filter_is_stable:
  assumes "decodeExprFromMap m = Returns e" and "fe_nil_free e"
  shows "decodeExprFromMap (object_of (fe_MarshalJSON e)) = Returns e"
proof -
  have "fe_decoded e" using decode_decoded(1) assms(1) .
  then show ?thesis using assms(2) decode_marshal [OF fe_decoded_wf] by (simp add: fe_decoded_wire)
qed

theorem decoded_filter_is_stable_witness:
  "decodeExprFromMap (object_of (fe_MarshalJSON (SimpleE ''<nil>'' ''='' (VStr ''[a true]'')))) =
     Returns (SimpleE ''<nil>'' ''='' (VStr ''[a true]''))"
proof -
  have "decodeExprFromMap [(''simple'', VMap [(''op'', VStr ''=''), (''val'', VList [VStr ''a'', VBool True])])] =
      Returns (SimpleE ''<nil>'' ''='' (VStr ''[a true]''))"
    by (simp add: decodeExprFromMap.simps hasSubMap_def simpleExprFromMap_def gmap_get_def)
  from decoded_filter_is_stable [OF this] show ?thesis by simp
qed

text \<open>The typed wrapper and the interface type have the same JSON form exactly when no
  negation occurs; converting a wrapper back gives the expression it was made from.\<close>

theorem wrapper_agrees_iff_not_free:
  assumes "fe_wf e"
  shows "few_AsFilterExpression (few_of e) = e \<and> (few_json (few_of e) = fe_MarshalJSON e \<longleftrightarrow> fe_not_free e)"
  using few_of_roundtrip [OF assms] few_json_few_of [OF assms] by blast

theorem wrapper_agrees_iff_not_free_witness:
  "few_json (few_of (NotE (UnE ''a'' ''IS NULL''))) \<noteq> fe_MarshalJSON (NotE (UnE ''a'' ''IS NULL''))"
  using wrapper_agrees_iff_not_free [of "NotE (UnE ''a'' ''IS NULL'')"] by simp

text \<open>C38: A negation sent in the wrapper's JSON form is lost on the server: whatever is negated,
  the decoder builds a negation of nil without reporting an error, and rendering that panics.\<close>

theorem wrapper_negation_is_lost:
  "decodeExprFromMap (object_of (few_json (FilterExpressionWrapper None None None
       (Some (FilterNotExpression w)) None None))) = Returns (NotE NilE) \<and>
   \<not> is_returns (fe_String (NotE NilE))"
  using wrapper_not_decode [of w] by (simp add: opt_field_def object_of_def)

text \<open>C39: A filter of a known kind with an ill-typed operator makes the decoder panic: whatever else a
  simple, unary or junction object holds, an operator that is missing or not a string is a panic, where an
  error would be the answer to a malformed request. (The server goes on: \<^verbatim>\<open>net/http\<close> recovers the
  panic of a handler and closes its connection.)\<close>

theorem malformed_filter_panics:
  "(\<forall>s. gmap_get m ''op'' \<noteq> VStr s) \<Longrightarrow>
     \<not> is_returns (decodeExprFromMap [(''simple'', VMap m)]) \<and> \<not> is_returns (decodeExprFromMap [(''un'', VMap m)]) \<and>
     \<not> is_returns (decodeExprFromMap [(''junction'', VMap m)])"
  by (cases "gmap_get m ''op''")
     (auto simp: decodeExprFromMap.simps hasSubMap_def simpleExprFromMap_def unExprFromMap_def)

theorem malformed_filter_panics_witness:
  "\<not> is_returns (decodeExprFromMap [(''simple'', VMap [(''name'', VStr ''a''), (''op'', VFloat (F64 False 1 0))])])"
  using malformed_filter_panics [of "[(''name'', VStr ''a''), (''op'', VFloat (F64 False 1 0))]"]
  by (simp add: gmap_get_def)

text \<open>The client can encode filters that the decoder panics on: a junction built over a nil slice and
  an IN over a nil slice marshal their list as \<^verbatim>\<open>null\<close>, which the decoder's type assertion refuses
  with a panic.\<close>

theorem nil_slice_filter_panics:
  "\<not> is_returns (DecodeFilter (EncodeFilter enc (Junction op NilSlice))) \<and>
   \<not> is_returns (DecodeFilter (EncodeFilter enc (In name NilSlice)))"
proof -
  have 1: "json_decode (json_enc enc (fe_MarshalJSON e) @ [CHR 0x0A]) = Some (json_raw enc (fe_MarshalJSON e))"
    if "fe_canon e" for e
    using that by (intro json_decode_enc json_canon_marshal) (simp_all add: num_stop_def is_digit_def)
  from 1 [of "JunctionE op NilSlice"] 1 [of "InE name NilSlice"] show ?thesis
    by (simp add: DecodeFilter_def EncodeFilter_def filter_json_def slice_json_def
        decodeExprFromMap.simps hasSubMap_def inExprFromMap_def gmap_get_def)
qed

text \<open>A text that is not a filter is no error either: JSON \<^verbatim>\<open>null\<close> and any object without a known
  kind decode to no filter at all, and the query then has no WHERE clause.\<close>

theorem unknown_filter_selects_all:
  assumes "\<forall>k \<in> {''simple'', ''junction'', ''not'', ''in'', ''un'', ''between''}. hasSubMap k m = None"
  shows "decodeExprFromMap m = Returns NilE \<and> qry_where NilE = Returns []"
  using assms by (simp add: decodeExprFromMap.simps qry_where_def)

theorem unknown_filter_selects_all_witness:
  "decodeExprFromMap [(''Simple'', VMap [(''name'', VStr ''id''), (''op'', VStr ''='')])] = Returns NilE"
  using unknown_filter_selects_all [of "[(''Simple'', VMap [(''name'', VStr ''id''), (''op'', VStr ''='')])]"]
  by (simp add: hasSubMap_def)

section \<open>Orders, paging, the builder\<close>

text \<open>An order survives its text form, and a text without a direction (or with any direction
  but \<^verbatim>\<open>asc\<close>) means descending.\<close>

theorem order_text_meaning:
  assumes "CHR ''='' \<notin> set name"
  shows "order_UnmarshalText zero_order (order_MarshalText (OrderBy name asc)) = OrderBy name asc \<and>
         order_UnmarshalText zero_order name = OrderBy name False"
  using assms order_roundtrip [of "OrderBy name asc"]
  by (simp add: order_ok_def OrderBy_def order_UnmarshalText_def zero_order_def split_on_none)

theorem order_text_meaning_witness:
  "order_UnmarshalText zero_order ''name=asc'' = OrderBy ''name'' True \<and>
   order_UnmarshalText zero_order ''name'' = OrderBy ''name'' False"
  using order_text_meaning [of "''name''" True] by (simp add: order_MarshalText_def OrderBy_def ord2str_def)

text \<open>The page offset is a signed integer on the wire and unsigned in the query: a negative
  offset is not refused but wraps to the upper half of the 64-bit range, and that is what LIMIT
  receives.\<close>

theorem negative_offset_wraps:
  assumes "- (2 ^ 63) \<le> i" "i < 0"
  shows "\<exists>p. FromParams (Some i) (Some n) None None =
       Returns (Inr \<lparr>qry_orders = [], qry_paging = Some p, qry_filter = NilE\<rparr>) \<and>
     page_String p = dec_nat (nat (i + 2 ^ 64)) @ '', '' @ dec_int n"
proof -
  have "0 \<le> i + 2 ^ 64" "i + 2 ^ 64 < 2 ^ 64" using assms by simp_all
  then have "i mod 2 ^ 64 = i + 2 ^ 64"
    by (metis mod_add_self2 mod_pos_pos_trivial)
  then have "unat (word_of_int i :: 64 word) = nat (i + 2 ^ 64)"
    by (simp add: uint_word_of_int unat_eq_nat_uint)
  then show ?thesis
    by (simp add: FromParams_def page_String_def Page_def)
qed

theorem negative_offset_wraps_witness:
  "\<exists>p. FromParams (Some (- 1)) (Some 20) None None =
       Returns (Inr \<lparr>qry_orders = [], qry_paging = Some p, qry_filter = NilE\<rparr>) \<and>
     page_String p = dec_nat 18446744073709551615 @ '', '' @ dec_int 20"
  using negative_offset_wraps [of "- 1" 20] by simp

text \<open>The builder gathers orders in sequence and keeps the last filter and the last paging,
  whatever came before.\<close>

theorem builder_meaning:
  "builder_Build (builder_Paging off n (builder_Filter e
       (foldl (\<lambda>b (name, asc). builder_OrderBy name asc b) b specs))) =
   \<lparr>qry_orders = ords b @ map (\<lambda>(name, asc). OrderBy name asc) specs,
     qry_paging = Some (Page (word_of_int off) n), qry_filter = e\<rparr>"
proof -
  have "foldl (\<lambda>b (name, asc). builder_OrderBy name asc b) b specs =
      b\<lparr>ords := ords b @ map (\<lambda>(name, asc). OrderBy name asc) specs\<rparr>"
    by (induction specs arbitrary: b) (auto simp: builder_OrderBy_def)
  then show ?thesis
    by (cases "pg b") (simp add: builder_Build_def builder_Paging_def builder_Filter_def Page_def)
qed

section \<open>Statements\<close>

text \<open>C33: The INSERT or REPLACE of a body lists every column once, in sorted order, with one
  placeholder per column, and the arguments are the body's values in that order; the statement does
  not depend on the iteration order of the Go map.\<close>

theorem insert_statement:
  "createInsertOrReplaceQuery verb entity body =
     (verb @ '' INTO `'' @ entity @ ''` ('' @ join '','' (map quoted (sorted_cols body)) @ '') VALUES('' @
        join '','' (replicate (length (sorted_cols body)) ''?'') @ '')'',
      map (gmap_get body) (sorted_cols body)) \<and>
   distinct (sorted_cols body) \<and> set (sorted_cols body) = fst ` set body \<and>
   (map_of body = map_of body' \<longrightarrow>
      createInsertOrReplaceQuery verb entity body = createInsertOrReplaceQuery verb entity body')"
proof -
  have "map_of body = map_of body' \<Longrightarrow> sorted_cols body = sorted_cols body' \<and> gmap_get body = gmap_get body'"
    using sorted_cols_cong gmap_get_cong by blast
  then have "map_of body = map_of body' \<longrightarrow>
      createInsertOrReplaceQuery verb entity body = createInsertOrReplaceQuery verb entity body'"
    by (auto simp only: insert_shape)
  then show ?thesis by (simp only: insert_shape distinct_sorted_cols set_sorted_cols simp_thms)
qed

theorem insert_statement_witness:
  "createInsertOrReplaceQuery ''INSERT'' ''t'' [(''b'', VInt 2), (''a'', VInt 1)] =
   createInsertOrReplaceQuery ''INSERT'' ''t'' [(''a'', VInt 1), (''b'', VInt 2)]"
proof -
  have "map_of [(''b'', VInt 2), (''a'', VInt 1)] = map_of [(''a'', VInt 1), (''b'', VInt 2)]"
    by (rule ext) simp
  then show ?thesis using insert_statement by blast
qed

text \<open>The UPDATE of a body sets every column once, in sorted order, restricted to the row with
  the given id; together with the id that the caller appends there is one argument per placeholder.\<close>

theorem update_statement:
  "createUpdateQuery entity idColumn body =
     (''UPDATE `'' @ entity @ ''` SET '' @ join '', '' (map (\<lambda>c. quoted c @ '' = ?'') (sorted_cols body)) @
        '' WHERE '' @ quoted idColumn @ '' = ? LIMIT 1'',
      map (gmap_get body) (sorted_cols body)) \<and>
   distinct (sorted_cols body) \<and> set (sorted_cols body) = fst ` set body"
  by (simp add: update_shape)

end
