(* ===== verification/Go_Effects.thy ===== *)
theory Go_Effects
  imports Go_Values
begin

text \<open>
  Effects of the stateful code: Go's \<^verbatim>\<open>error\<close> values and programs over an explicit state that may
  panic. A function \<^verbatim>\<open>func(...) (T, error)\<close> that touches the outside world is a
  \<open>('s, goerr + 'a) prog\<close>: it maps the state to an outcome and the state it leaves behind, also
  when it panics.
\<close>

section \<open>Errors\<close>

text \<open>
  The errors the program tells apart: the MySQL driver's error (the server looks at its number),
  the program's own \<^verbatim>\<open>*types.ErrorWithStatus\<close>, the result of \<^verbatim>\<open>errors.Join\<close>, and any other
  error, known by its text.
\<close>

datatype goerr =
    MySQLError int string
  | ErrorWithStatus int string "goerr option"
  | PlainError string
  | Joined "goerr list"

text \<open>\<^verbatim>\<open>errors.Join\<close> drops nil errors and returns nil when nothing is left.\<close>

definition errors_Join :: "goerr option list \<Rightarrow> goerr option" where
  "errors_Join es =
     (case List.map_filter (\<lambda>e. e) es of [] \<Rightarrow> None | e # r \<Rightarrow> Some (Joined (e # r)))"

lemma errors_Join_None: "errors_Join es = None \<longleftrightarrow> (\<forall>e \<in> set es. e = None)"
  by (induction es) (auto simp: errors_Join_def List.map_filter_def split: option.splits list.splits)

section \<open>Programs\<close>

type_synonym ('s, 'a) prog = "'s \<Rightarrow> 'a outcome \<times> 's"

definition preturn :: "'a \<Rightarrow> ('s, 'a) prog" where
  "preturn x s = (Returns x, s)"

definition ppanic :: "string \<Rightarrow> ('s, 'a) prog" where
  "ppanic msg s = (Panics msg, s)"

definition pbind :: "('s, 'a) prog \<Rightarrow> ('a \<Rightarrow> ('s, 'b) prog) \<Rightarrow> ('s, 'b) prog" where
  "pbind m f s =
     (case m s of (Returns x, t) \<Rightarrow> f x t | (Panics msg, t) \<Rightarrow> (Panics msg, t))"

text \<open>A pure computation that may panic.\<close>

definition plift :: "'a outcome \<Rightarrow> ('s, 'a) prog" where
  "plift m s = (m, s)"

text \<open>\<^verbatim>\<open>if err != nil { return ..., wrap(err) }\<close> followed by the rest of the function.\<close>

definition ebind :: "('s, 'e + 'a) prog \<Rightarrow> ('e \<Rightarrow> ('s, 'c) prog) \<Rightarrow> ('a \<Rightarrow> ('s, 'c) prog) \<Rightarrow> ('s, 'c) prog" where
  "ebind m err ok = pbind m (\<lambda>r. case r of Inl e \<Rightarrow> err e | Inr x \<Rightarrow> ok x)"

named_theorems prog_simps

lemma pbind_simps [prog_simps]:
  "pbind (preturn x) f s = f x s"
  "pbind (ppanic msg) g s = (Panics msg, s)"
  "pbind (plift (Returns x)) f s = f x s"
  "pbind (plift (Panics msg)) g s = (Panics msg, s)"
  by (simp_all add: pbind_def preturn_def ppanic_def plift_def)

lemma pbind_Returns [prog_simps]: "m s = (Returns x, t) \<Longrightarrow> pbind m f s = f x t"
  by (simp add: pbind_def)

lemma pbind_Panics [prog_simps]: "m s = (Panics msg, t) \<Longrightarrow> pbind m f s = (Panics msg, t)"
  by (simp add: pbind_def)

lemma ebind_Inr [prog_simps]: "m s = (Returns (Inr x), t) \<Longrightarrow> ebind m err ok s = ok x t"
  by (simp add: ebind_def pbind_def)

lemma ebind_Inl [prog_simps]: "m s = (Returns (Inl e), t) \<Longrightarrow> ebind m err ok s = err e t"
  by (simp add: ebind_def pbind_def)

lemma ebind_Panics [prog_simps]: "m s = (Panics msg, t) \<Longrightarrow> ebind m err ok s = (Panics msg, t)"
  by (simp add: ebind_def pbind_def)

lemma ebind_simps [prog_simps]:
  "ebind (preturn (Inr x)) err ok s = ok x s"
  "ebind (preturn (Inl e)) err ok s = err e s"
  by (simp_all add: ebind_def pbind_def preturn_def)

lemma pbind_assoc: "pbind (pbind m f) g = pbind m (\<lambda>x. pbind (f x) g)"
  by (rule ext) (simp add: pbind_def split: prod.splits outcome.splits)

lemma pbind_preturn [simp]: "pbind (preturn x) f = f x"
  by (rule ext) (simp add: pbind_simps)

text \<open>
  A relation between the state before and the state after that holds whatever the program does:
  the form in which effects are tracked (which database calls a function may issue).
\<close>

definition keeps :: "('s \<Rightarrow> 's \<Rightarrow> bool) \<Rightarrow> ('s, 'a) prog \<Rightarrow> bool" where
  "keeps R m \<longleftrightarrow> (\<forall>s. R s (snd (m s)))"

lemma keeps_pure [intro]:
  assumes "reflp R"
  shows "keeps R (preturn x)" and "keeps R (ppanic msg)" and "keeps R (plift m)"
  using assms by (auto simp: keeps_def preturn_def ppanic_def plift_def reflp_def)

lemma keeps_pbind [intro]:
  assumes "transp R" "keeps R m" "\<And>x. keeps R (f x)"
  shows "keeps R (pbind m f)"
  unfolding keeps_def
proof
  fix s
  obtain o1 t where t: "m s = (o1, t)" by fastforce
  then have "R s t" using assms(2) by (metis keeps_def snd_conv)
  then show "R s (snd (pbind m f s))"
    using assms(1,3) t by (cases o1) (auto simp: pbind_def keeps_def dest: transpD)
qed

lemma keeps_ebind [intro]:
  assumes "transp R" "keeps R m" "\<And>e. keeps R (err e)" "\<And>x. keeps R (ok x)"
  shows "keeps R (ebind m err ok)"
  unfolding ebind_def using assms by (intro keeps_pbind) (auto split: sum.splits)

end
