(* ===== verification/Std_Codec.thy ===== *)
theory Std_Codec
  imports Go_Float
begin

text \<open>
  The text formats of Go's standard library that rows and bodies go through: base64
  (\<^verbatim>\<open>encoding/base64\<close>), points in time (\<^verbatim>\<open>time.Parse\<close> for the two layouts the program tries and the
  RFC 3339 text that JSON gives a time), and decimal numbers (\<^verbatim>\<open>strconv.ParseFloat\<close>). The local
  time zone of the process is taken to be UTC.
\<close>

section \<open>Base64\<close>

definition b64_char :: "nat \<Rightarrow> char" where
  "b64_char n =
     (if n < 26 then char_of (65 + n) else if n < 52 then char_of (71 + n)
      else if n < 62 then char_of (n - 4) else if n = 62 then CHR ''+'' else CHR ''/'')"

definition b64_val :: "char \<Rightarrow> nat option" where
  "b64_val c =
     (let k = (of_char c :: nat)
      in if 65 \<le> k \<and> k \<le> 90 then Some (k - 65)
         else if 97 \<le> k \<and> k \<le> 122 then Some (k - 71)
         else if 48 \<le> k \<and> k \<le> 57 then Some (k + 4)
         else if c = CHR ''+'' then Some 62
         else if c = CHR ''/'' then Some 63 else None)"

fun b64_encode :: "nat list \<Rightarrow> string" where
  "b64_encode [] = []"
| "b64_encode [a] = [b64_char (a div 4), b64_char (a mod 4 * 16), CHR ''='', CHR ''='']"
| "b64_encode [a, b] =
     [b64_char (a div 4), b64_char (a mod 4 * 16 + b div 16), b64_char (b mod 16 * 4), CHR ''='']"
| "b64_encode (a # b # c # rest) =
     b64_char (a div 4) # b64_char (a mod 4 * 16 + b div 16) #
     b64_char (b mod 16 * 4 + c div 64) # b64_char (c mod 64) # b64_encode rest"

text \<open>A quantum of four characters; padding may stand only in the last one.\<close>

fun b64_quanta :: "string \<Rightarrow> nat list option" where
  "b64_quanta [] = Some []"
| "b64_quanta (p # q # r # s # rest) =
     (case (b64_val p, b64_val q) of
        (Some x, Some y) \<Rightarrow>
          (if rest = [] \<and> r = CHR ''='' \<and> s = CHR ''='' then Some [x * 4 + y div 16]
           else (case b64_val r of
                   None \<Rightarrow> None
                 | Some z \<Rightarrow>
                     (if rest = [] \<and> s = CHR ''='' then Some [x * 4 + y div 16, y mod 16 * 16 + z div 4]
                      else (case (b64_val s, b64_quanta rest) of
                              (Some w, Some bytes) \<Rightarrow>
                                Some ((x * 4 + y div 16) # (y mod 16 * 16 + z div 4) # (z mod 4 * 64 + w) # bytes)
                            | _ \<Rightarrow> None))))
      | _ \<Rightarrow> None)"
| "b64_quanta _ = None"

text \<open>\<^verbatim>\<open>base64.StdEncoding.DecodeString\<close>; line breaks are skipped.\<close>

definition b64_decode :: "string \<Rightarrow> nat list option" where
  "b64_decode s = b64_quanta (filter (\<lambda>c. c \<noteq> CHR 0x0A \<and> c \<noteq> CHR 0x0D) s)"

lemma b64_char_facts:
  "n < 64 \<Longrightarrow> b64_val (b64_char n) = Some n \<and> b64_char n \<noteq> CHR ''='' \<and>
     b64_char n \<noteq> CHR 0x0A \<and> b64_char n \<noteq> CHR 0x0D"
  by (auto simp: b64_char_def b64_val_def Let_def of_char_of char_of_eq_iff take_bit_eq_mod)

lemma b64_quanta_encode:
  "\<forall>b \<in> set bytes. b < 256 \<Longrightarrow> b64_quanta (b64_encode bytes) = Some bytes"
proof (induction bytes rule: b64_encode.induct)
  case (4 a b c rest)
  have bounds: "a div 4 < 64" "a mod 4 * 16 + b div 16 < 64" "b mod 16 * 4 + c div 64 < 64" "c mod 64 < 64"
    using "4.prems" by auto
  have "a div 4 * 4 + (a mod 4 * 16 + b div 16) div 16 = a"
    "(a mod 4 * 16 + b div 16) mod 16 * 16 + (b mod 16 * 4 + c div 64) div 4 = b"
    "(b mod 16 * 4 + c div 64) mod 4 * 64 + c mod 64 = c"
    using "4.prems" by (auto, (presburger)?)
  with 4 bounds [THEN b64_char_facts] show ?case by simp
next
  case (2 a)
  have "a div 4 < 64" "a mod 4 * 16 < 64" using "2.prems" by auto
  moreover have "a div 4 * 4 + a mod 4 * 16 div 16 = a" by simp
  ultimately show ?case using b64_char_facts by simp
next
  case (3 a b)
  have "a div 4 < 64" "a mod 4 * 16 + b div 16 < 64" "b mod 16 * 4 < 64" using "3.prems" by auto
  moreover have "a div 4 * 4 + (a mod 4 * 16 + b div 16) div 16 = a"
    "(a mod 4 * 16 + b div 16) mod 16 * 16 + b mod 16 * 4 div 4 = b"
    using "3.prems" by (auto, (presburger)?)
  ultimately show ?case using b64_char_facts by simp
qed simp

lemma b64_encode_clean:
  "\<forall>b \<in> set bytes. b < 256 \<Longrightarrow> \<forall>c \<in> set (b64_encode bytes). c \<noteq> CHR 0x0A \<and> c \<noteq> CHR 0x0D"
proof (induction bytes rule: b64_encode.induct)
  case (4 a b c rest)
  have "a div 4 < 64" "a mod 4 * 16 + b div 16 < 64" "b mod 16 * 4 + c div 64 < 64" "c mod 64 < 64"
    using "4.prems" by auto
  with 4 show ?case using b64_char_facts by simp
next
  case (2 a)
  have "a div 4 < 64" "a mod 4 * 16 < 64" using "2.prems" by auto
  then show ?case using b64_char_facts by simp
next
  case (3 a b)
  have "a div 4 < 64" "a mod 4 * 16 + b div 16 < 64" "b mod 16 * 4 < 64" using "3.prems" by auto
  then show ?case using b64_char_facts by simp
qed simp

lemma b64_decode_encode:
  assumes "\<forall>b \<in> set bytes. b < 256"
  shows "b64_decode (b64_encode bytes) = Some bytes"
proof -
  have "filter (\<lambda>c. c \<noteq> CHR 0x0A \<and> c \<noteq> CHR 0x0D) (b64_encode bytes) = b64_encode bytes"
    using b64_encode_clean [OF assms] by (simp add: filter_id_conv)
  then show ?thesis using b64_quanta_encode [OF assms] by (simp add: b64_decode_def)
qed

section \<open>Points in time\<close>

text \<open>
  The fields of a time: \<open>t_frac\<close> holds the digits of the fraction of a second (at most nine,
  none at the end is 0) and \<open>t_off\<close> the zone offset in minutes. The value itself is the text
  that \<^verbatim>\<open>Time.String\<close> prints.
\<close>

record stamp =
  t_year :: nat
  t_month :: nat
  t_day :: nat
  t_hour :: nat
  t_min :: nat
  t_sec :: nat
  t_frac :: string
  t_off :: int

definition two_digits :: "nat \<Rightarrow> string" where
  "two_digits n = [digit_char (n div 10), digit_char (n mod 10)]"

definition four_digits :: "nat \<Rightarrow> string" where
  "four_digits n = two_digits (n div 100) @ two_digits (n mod 100)"

definition off_text :: "string \<Rightarrow> int \<Rightarrow> string" where
  "off_text sep off =
     (if off < 0 then ''-'' else ''+'') @ two_digits (nat \<bar>off\<bar> div 60) @ sep @ two_digits (nat \<bar>off\<bar> mod 60)"

definition clock_text :: "stamp \<Rightarrow> string" where
  "clock_text t =
     two_digits (t_hour t) @ '':'' @ two_digits (t_min t) @ '':'' @ two_digits (t_sec t) @
     (if t_frac t = [] then [] else ''.'' @ t_frac t)"

definition date_text :: "stamp \<Rightarrow> string" where
  "date_text t = four_digits (t_year t) @ ''-'' @ two_digits (t_month t) @ ''-'' @ two_digits (t_day t)"

definition time_String :: "stamp \<Rightarrow> string" where
  "time_String t =
     date_text t @ '' '' @ clock_text t @ '' '' @ off_text [] (t_off t) @ '' '' @
     (if t_off t = 0 then ''UTC'' else off_text [] (t_off t))"

text \<open>The RFC 3339 text of a time (\<^verbatim>\<open>time.RFC3339Nano\<close>, what \<^verbatim>\<open>encoding/json\<close> writes), from the
  text that \<^verbatim>\<open>Time.String\<close> prints.\<close>

definition rfc3339_of :: "string \<Rightarrow> string" where
  "rfc3339_of t =
     (let clock = takeWhile (\<lambda>c. c \<noteq> CHR '' '') (drop 11 t);
          zone = take 5 (drop (12 + length clock) t)
      in take 10 t @ ''T'' @ clock @ (if zone = ''+0000'' then ''Z'' else take 3 zone @ '':'' @ drop 3 zone))"

definition leap :: "nat \<Rightarrow> bool" where
  "leap y \<longleftrightarrow> y mod 4 = 0 \<and> (y mod 100 \<noteq> 0 \<or> y mod 400 = 0)"

definition daysIn :: "nat \<Rightarrow> nat \<Rightarrow> nat" where
  "daysIn m y =
     (if m = 2 then (if leap y then 29 else 28) else if m = 4 \<or> m = 6 \<or> m = 9 \<or> m = 11 then 30 else 31)"

text \<open>Parsing: each step returns the value and the rest of the text.\<close>

fun num2 :: "string \<Rightarrow> (nat \<times> string) option" where
  "num2 (a # b # s) = (if is_digit a \<and> is_digit b then Some (digit_val a * 10 + digit_val b, s) else None)"
| "num2 _ = None"

text \<open>The hour may have a single digit.\<close>

fun num12 :: "string \<Rightarrow> (nat \<times> string) option" where
  "num12 (a # b # s) =
     (if is_digit a then (if is_digit b then Some (digit_val a * 10 + digit_val b, s) else Some (digit_val a, b # s))
      else None)"
| "num12 [a] = (if is_digit a then Some (digit_val a, []) else None)"
| "num12 [] = None"

definition expect :: "char \<Rightarrow> string \<Rightarrow> string option" where
  "expect c s = (case s of x # r \<Rightarrow> (if x = c then Some r else None) | [] \<Rightarrow> None)"

definition parse_date :: "string \<Rightarrow> ((nat \<times> nat \<times> nat) \<times> string) option" where
  "parse_date s =
     Option.bind (num2 s) (\<lambda>(y1, s). Option.bind (num2 s) (\<lambda>(y2, s).
     Option.bind (expect (CHR ''-'') s) (\<lambda>s. Option.bind (num2 s) (\<lambda>(m, s).
     Option.bind (expect (CHR ''-'') s) (\<lambda>s. Option.bind (num2 s) (\<lambda>(d, s).
       if 1 \<le> m \<and> m \<le> 12 \<and> 1 \<le> d \<and> d \<le> daysIn m (y1 * 100 + y2)
       then Some ((y1 * 100 + y2, m, d), s) else None))))))"

text \<open>A fraction of a second, with a point or a comma, cut after nine digits.\<close>

definition trim_zeros :: "string \<Rightarrow> string" where
  "trim_zeros s = rev (dropWhile (\<lambda>c. c = CHR ''0'') (rev s))"

definition parse_frac :: "string \<Rightarrow> string \<times> string" where
  "parse_frac s =
     (case s of
        c # d # r \<Rightarrow>
          (if (c = CHR ''.'' \<or> c = CHR '','') \<and> is_digit d
           then (trim_zeros (take 9 (takeWhile is_digit (d # r))), dropWhile is_digit (d # r))
           else ([], s))
      | _ \<Rightarrow> ([], s))"

definition parse_clock :: "string \<Rightarrow> ((nat \<times> nat \<times> nat \<times> string) \<times> string) option" where
  "parse_clock s =
     Option.bind (num12 s) (\<lambda>(h, s). Option.bind (expect (CHR '':'') s) (\<lambda>s.
     Option.bind (num2 s) (\<lambda>(mi, s). Option.bind (expect (CHR '':'') s) (\<lambda>s.
     Option.bind (num2 s) (\<lambda>(sec, s).
       (let (fr, s) = parse_frac s
        in if h < 24 \<and> mi < 60 \<and> sec < 60 then Some ((h, mi, sec, fr), s) else None))))))"

definition parse_zone :: "string \<Rightarrow> (int \<times> string) option" where
  "parse_zone s =
     (if s \<noteq> [] \<and> hd s = CHR ''Z'' then Some (0, tl s)
      else if s \<noteq> [] \<and> (hd s = CHR ''+'' \<or> hd s = CHR ''-'') then
        Option.bind (num2 (tl s)) (\<lambda>(h, r). Option.bind (expect (CHR '':'') r) (\<lambda>r.
        Option.bind (num2 r) (\<lambda>(mi, r).
          if h \<le> 24 \<and> mi \<le> 60
          then Some ((if hd s = CHR ''-'' then - 1 else 1) * (int h * 60 + int mi), r) else None)))
      else None)"

datatype layout = RFC3339 | DateOnly

definition time_Parse :: "layout \<Rightarrow> string \<Rightarrow> string option" where
  "time_Parse layout s =
     Option.bind (parse_date s) (\<lambda>((y, m, d), s).
       case layout of
         DateOnly \<Rightarrow> (if s = [] then Some (time_String \<lparr>t_year = y, t_month = m, t_day = d, t_hour = 0,
                          t_min = 0, t_sec = 0, t_frac = [], t_off = 0\<rparr>) else None)
       | RFC3339 \<Rightarrow>
           Option.bind (expect (CHR ''T'') s) (\<lambda>s. Option.bind (parse_clock s) (\<lambda>((h, mi, sec, fr), s).
           Option.bind (parse_zone s) (\<lambda>(off, s).
             if s = [] then Some (time_String \<lparr>t_year = y, t_month = m, t_day = d, t_hour = h,
               t_min = mi, t_sec = sec, t_frac = fr, t_off = off\<rparr>) else None))))"

text \<open>The times whose text survives: all fields in range and an offset of less than a day.\<close>

definition stamp_ok :: "stamp \<Rightarrow> bool" where
  "stamp_ok t \<longleftrightarrow>
     t_year t < 10000 \<and> 1 \<le> t_month t \<and> t_month t \<le> 12 \<and> 1 \<le> t_day t \<and>
     t_day t \<le> daysIn (t_month t) (t_year t) \<and> t_hour t < 24 \<and> t_min t < 60 \<and> t_sec t < 60 \<and>
     (\<forall>c \<in> set (t_frac t). is_digit c) \<and> length (t_frac t) \<le> 9 \<and>
     (t_frac t = [] \<or> last (t_frac t) \<noteq> CHR ''0'') \<and> \<bar>t_off t\<bar> < 1440"

lemma num_two_digits [simp]:
  assumes "n < 100"
  shows "num2 (two_digits n @ s) = Some (n, s)" and "num12 (two_digits n @ s) = Some (n, s)"
proof -
  have "n div 10 < 10" "n mod 10 < 10" using assms by auto
  then show "num2 (two_digits n @ s) = Some (n, s)" and "num12 (two_digits n @ s) = Some (n, s)"
    by (simp_all add: two_digits_def)
qed

lemma expect_Cons [simp]: "expect c (c # s) = Some s"
  by (simp add: expect_def)

lemma daysIn_le: "daysIn m y \<le> 31"
  by (simp add: daysIn_def)

lemma parse_date_text:
  assumes "stamp_ok t"
  shows "parse_date (date_text t @ s) = Some ((t_year t, t_month t, t_day t), s)"
proof -
  have "t_year t div 100 < 100" "t_year t mod 100 < 100" "t_month t < 100" "t_day t < 100"
    using assms daysIn_le [of "t_month t" "t_year t"] by (auto simp: stamp_ok_def)
  then show ?thesis
    using assms by (simp add: parse_date_def date_text_def four_digits_def stamp_ok_def)
qed

lemma trim_zeros_id: "s = [] \<or> last s \<noteq> CHR ''0'' \<Longrightarrow> trim_zeros s = s"
  by (cases s rule: rev_cases) (auto simp: trim_zeros_def)

lemma takeWhile_digits:
  assumes "\<forall>c \<in> set f. is_digit c" and "s = [] \<or> \<not> is_digit (hd s)"
  shows "takeWhile is_digit (f @ s) = f \<and> dropWhile is_digit (f @ s) = s"
  using assms by (induction f) (cases s; auto)+

lemma parse_frac_text:
  assumes "stamp_ok t" and "s \<noteq> []" "\<not> is_digit (hd s)" "hd s \<noteq> CHR ''.''" "hd s \<noteq> CHR '',''"
  shows "parse_frac ((if t_frac t = [] then [] else ''.'' @ t_frac t) @ s) = (t_frac t, s)"
proof (cases "t_frac t")
  case Nil
  with assms(2-) show ?thesis by (cases s) (auto simp: parse_frac_def split: list.splits)
next
  case (Cons d r)
  with assms have "takeWhile is_digit (t_frac t @ s) = t_frac t \<and> dropWhile is_digit (t_frac t @ s) = s"
    by (intro takeWhile_digits) (auto simp: stamp_ok_def)
  moreover have "trim_zeros (take 9 (t_frac t)) = t_frac t"
    using assms(1) by (simp add: stamp_ok_def trim_zeros_id)
  ultimately show ?thesis
    using Cons assms(1) by (simp add: parse_frac_def stamp_ok_def)
qed

lemma parse_clock_text:
  assumes "stamp_ok t" and "s \<noteq> []" "\<not> is_digit (hd s)" "hd s \<noteq> CHR ''.''" "hd s \<noteq> CHR '',''"
  shows "parse_clock (clock_text t @ s) = Some ((t_hour t, t_min t, t_sec t, t_frac t), s)"
proof -
  have "t_hour t < 100" "t_min t < 100" "t_sec t < 100" using assms(1) by (auto simp: stamp_ok_def)
  then show ?thesis
    using assms(1) parse_frac_text [OF assms]
    by (cases "t_frac t = []") (simp_all add: parse_clock_def clock_text_def stamp_ok_def)
qed

lemma digit_char_no_space: "n < 10 \<Longrightarrow> digit_char n \<noteq> CHR '' ''"
  using digit_char_props(1) [of n] by (auto simp: is_digit_def)

lemma digit_no_space: "is_digit c \<Longrightarrow> c \<noteq> CHR '' ''"
  by (auto simp: is_digit_def)

lemma clock_no_space:
  assumes "stamp_ok t"
  shows "CHR '' '' \<notin> set (clock_text t)"
proof -
  have "t_hour t div 10 < 10" "t_min t div 10 < 10" "t_sec t div 10 < 10"
    using assms by (auto simp: stamp_ok_def)
  then show ?thesis
    using assms digit_char_no_space digit_char_no_space [symmetric] digit_no_space
    by (auto simp: clock_text_def two_digits_def stamp_ok_def)
qed

lemma off_text_zero: "\<bar>off\<bar> < 1440 \<Longrightarrow> off_text [] off = ''+0000'' \<longleftrightarrow> off = 0"
proof -
  assume less: "\<bar>off\<bar> < 1440"
  then have h: "nat \<bar>off\<bar> div 60 < 100" "nat \<bar>off\<bar> mod 60 < 100" by (auto simp: nat_less_iff)
  have zero: "two_digits n = ''00'' \<Longrightarrow> n = 0" if "n < 100" for n
    using num_two_digits(1) [OF that, of "[]"] by (auto simp: digit_val_def split: if_splits)
  show ?thesis
  proof
    assume eq: "off_text [] off = ''+0000''"
    then have "two_digits (nat \<bar>off\<bar> div 60) = ''00''" "two_digits (nat \<bar>off\<bar> mod 60) = ''00''"
      by (auto simp: off_text_def two_digits_def)
    then have "nat \<bar>off\<bar> div 60 = 0" "nat \<bar>off\<bar> mod 60 = 0" using zero h by blast+
    then have "nat \<bar>off\<bar> = 0" by (metis div_mult_mod_eq mult_0 add_0)
    then show "off = 0" by simp
  next
    assume "off = 0"
    moreover have "off_text [] 0 = ''+0000''" by code_simp
    ultimately show "off_text [] off = ''+0000''" by simp
  qed
qed

lemma rfc3339_of_text:
  assumes "stamp_ok t"
  shows "rfc3339_of (time_String t) = date_text t @ ''T'' @ clock_text t @
           (if t_off t = 0 then ''Z'' else off_text '':'' (t_off t))"
proof -
  have len: "length (date_text t) = 10" by (simp add: date_text_def four_digits_def two_digits_def)
  have tail: "drop 11 (time_String t) = clock_text t @ CHR '' '' #
      (off_text [] (t_off t) @ '' '' @ (if t_off t = 0 then ''UTC'' else off_text [] (t_off t)))"
    using len by (simp add: time_String_def)
  have clock: "takeWhile (\<lambda>c. c \<noteq> CHR '' '') (drop 11 (time_String t)) = clock_text t"
    unfolding tail using clock_no_space [OF assms] by (subst takeWhile_append2) auto
  have zone: "take 5 (drop (12 + length (clock_text t)) (time_String t)) = off_text [] (t_off t)"
    using len by (simp add: time_String_def off_text_def two_digits_def)
  have "take 3 (off_text [] off) @ '':'' @ drop 3 (off_text [] off) = off_text '':'' off" for off
    by (simp add: off_text_def two_digits_def)
  moreover have "\<bar>t_off t\<bar> < 1440" using assms by (simp add: stamp_ok_def)
  moreover have "take 10 (time_String t) = date_text t" using len by (simp add: time_String_def)
  ultimately show ?thesis
    unfolding rfc3339_of_def Let_def clock zone by (simp add: off_text_zero)
qed

lemma parse_zone_text:
  assumes "\<bar>off\<bar> < 1440"
  shows "parse_zone (off_text '':'' off) = Some (off, [])"
proof -
  define m where "m = nat \<bar>off\<bar>"
  have h: "m div 60 \<le> 24" "m mod 60 \<le> 60" "m div 60 < 100" "m mod 60 < 100"
    using assms by (auto simp: m_def nat_less_iff)
  have "int m = int (m div 60) * 60 + int (m mod 60)"
    by (metis div_mult_mod_eq of_nat_add of_nat_mult of_nat_numeral)
  then have off: "off < 0 \<Longrightarrow> off = - 1 * (int (m div 60) * 60 + int (m mod 60))"
    "\<not> off < 0 \<Longrightarrow> off = 1 * (int (m div 60) * 60 + int (m mod 60))"
    by (auto simp: m_def)
  have n: "num2 (two_digits (m div 60) @ r) = Some (m div 60, r)" "num2 (two_digits (m mod 60)) = Some (m mod 60, [])" for r
    using h num_two_digits(1) [of "m mod 60" "[]"] by simp_all
  have form: "off_text '':'' off = (if off < 0 then ''-'' else ''+'') @ two_digits (m div 60) @ '':'' @ two_digits (m mod 60)"
    by (simp add: off_text_def m_def)
  show ?thesis
  proof (cases "off < 0")
    case True
    then show ?thesis unfolding form using off(1) [OF True] h by (simp add: parse_zone_def n)
  next
    case False
    then show ?thesis unfolding form using off(2) [OF False] h by (simp add: parse_zone_def n)
  qed
qed

lemma rfc3339_roundtrip:
  assumes "stamp_ok t"
  shows "time_Parse RFC3339 (rfc3339_of (time_String t)) = Some (time_String t)"
proof -
  let ?z = "if t_off t = 0 then ''Z'' else off_text '':'' (t_off t)"
  have z: "?z \<noteq> []" "\<not> is_digit (hd ?z)" "hd ?z \<noteq> CHR ''.''" "hd ?z \<noteq> CHR '',''"
    by (auto simp: off_text_def is_digit_def)
  have "parse_zone ?z = Some (t_off t, [])"
  proof (cases "t_off t = 0")
    case True
    then show ?thesis by (simp add: parse_zone_def)
  next
    case False
    then show ?thesis using parse_zone_text [of "t_off t"] assms by (simp add: stamp_ok_def)
  qed
  moreover have "time_String \<lparr>t_year = t_year t, t_month = t_month t, t_day = t_day t, t_hour = t_hour t,
      t_min = t_min t, t_sec = t_sec t, t_frac = t_frac t, t_off = t_off t\<rparr> = time_String t"
    by (cases t) simp
  ultimately show ?thesis
    using assms parse_clock_text [OF assms z]
    by (simp add: rfc3339_of_text time_Parse_def parse_date_text)
qed

section \<open>Decimal numbers\<close>

text \<open>
  \<^verbatim>\<open>strconv.ParseFloat\<close> on decimal texts: sign, digits with a point, exponent. Hexadecimal
  floats, \<^verbatim>\<open>inf\<close> and \<^verbatim>\<open>nan\<close> have no counterpart in \<^typ>\<open>float64\<close> and are left out. The result is the
  nearest \<^verbatim>\<open>float64\<close>; a number beyond them is a range error.
\<close>

definition parse_float :: "string \<Rightarrow> float64 option" where
  "parse_float s =
     (let neg = (s \<noteq> [] \<and> hd s = CHR ''-'');
          s1 = (if s \<noteq> [] \<and> (hd s = CHR ''-'' \<or> hd s = CHR ''+'') then tl s else s);
          ip = takeWhile is_digit s1;
          s2 = dropWhile is_digit s1;
          fp = (if s2 \<noteq> [] \<and> hd s2 = CHR ''.'' then takeWhile is_digit (tl s2) else []);
          s3 = (if s2 \<noteq> [] \<and> hd s2 = CHR ''.'' then dropWhile is_digit (tl s2) else s2);
          num = (\<lambda>x. case strip_zeros (undec (ip @ fp)) (x - int (length fp)) of
                   (m, e) \<Rightarrow>
                     (let f = F64 neg m (if m = 0 then 0 else e)
                      in if f64_finite f then Some (f64_round f) else None))
      in if ip = [] \<and> fp = [] then None
         else if s3 = [] then num 0
         else if hd s3 = CHR ''e'' \<or> hd s3 = CHR ''E'' then
           (let sg = tl s3;
                ds = (if sg \<noteq> [] \<and> (hd sg = CHR ''-'' \<or> hd sg = CHR ''+'') then tl sg else sg)
            in if ds = [] \<or> \<not> list_all is_digit ds then None
               else num (if sg \<noteq> [] \<and> hd sg = CHR ''-'' then - int (undec ds) else int (undec ds)))
         else None)"

text \<open>\<^verbatim>\<open>strconv.ParseInt(s, 10, 64)\<close>\<close>

definition parse_int :: "string \<Rightarrow> int option" where
  "parse_int s =
     (let neg = (s \<noteq> [] \<and> hd s = CHR ''-'');
          ds = (if s \<noteq> [] \<and> (hd s = CHR ''-'' \<or> hd s = CHR ''+'') then tl s else s);
          i = (if neg then - int (undec ds) else int (undec ds))
      in if ds \<noteq> [] \<and> list_all is_digit ds \<and> - (2 ^ 63) \<le> i \<and> i < 2 ^ 63 then Some i else None)"

lemma dec_nat_digit_Cons: "\<exists>c cs. dec_nat n = c # cs \<and> is_digit c"
  using dec_nat_digits [of _ n] dec_nat_nonempty [of n] by (cases "dec_nat n") auto

lemma parse_int_dec:
  assumes "- (2 ^ 63) \<le> i" "i < 2 ^ 63"
  shows "parse_int (dec_int i) = Some i"
proof -
  have digits: "list_all is_digit (dec_nat n)" for n
    using dec_nat_digits by (simp add: list_all_iff)
  have start: "hd (dec_nat n) \<noteq> CHR ''-''" "hd (dec_nat n) \<noteq> CHR ''+''" for n
    using dec_nat_digit_Cons [of n] by (auto simp: is_digit_def)
  show ?thesis
    using assms by (auto simp: parse_int_def dec_int_def Let_def digits start)
qed

end
