(* ===== verification/Database.thy ===== *)
theory Database
  imports Go_Effects Std_Codec "HOL-Library.AList"
begin

text \<open>
  The database as the program sees it through \<^verbatim>\<open>database/sql\<close>: a driver (a parameter, with its own
  state), the rows it returns, the conversions that \<^verbatim>\<open>Scan\<close> makes, and the row mapping of
  \<^verbatim>\<open>pkg/crud/misc.go\<close>. Every call to the driver is recorded in the world's list of calls, so that
  theorems can speak about which statements were issued, in which order.
\<close>

section \<open>Rows\<close>

record coltype =
  ct_Name :: string
  ct_DatabaseTypeName :: string

text \<open>
  A result set: columns and column types (either may fail), the rows in order, each the values of
  its columns or the error that scanning it gives, and the error that ended the iteration.
\<close>

record rowset =
  rs_Columns :: "goerr + string list"
  rs_ColumnTypes :: "goerr + coltype list"
  rs_Rows :: "(goerr + gval list) list"
  rs_Err :: "goerr option"

text \<open>\<^verbatim>\<open>m[k] = v\<close>\<close>

definition gmap_put :: "string \<Rightarrow> gval \<Rightarrow> gmap \<Rightarrow> gmap" where
  "gmap_put k v m = AList.update k v m"

lemma map_of_gmap_put [simp]: "map_of (gmap_put k v m) = (map_of m)(k \<mapsto> v)"
  by (simp add: gmap_put_def AList.update_conv')

lemma keys_gmap_put [simp]: "fst ` set (gmap_put k v m) = insert k (fst ` set m)"
  by (simp add: gmap_put_def dom_update)

lemma distinct_gmap_put: "distinct (map fst m) \<Longrightarrow> distinct (map fst (gmap_put k v m))"
  by (simp add: gmap_put_def distinct_update)

section \<open>Conversions of Scan\<close>

definition bytes_text :: "nat list \<Rightarrow> string" where
  "bytes_text bs = map char_of bs"

text \<open>\<^verbatim>\<open>asString\<close> of \<^verbatim>\<open>database/sql\<close>, for the values a driver may return.\<close>

fun as_string :: "gval \<Rightarrow> string" where
  "as_string (VStr s) = s"
| "as_string (VBytes bs) = bytes_text bs"
| "as_string v = fmt_v v"

text \<open>\<^verbatim>\<open>convertAssign\<close> into \<^verbatim>\<open>*string\<close>, \<^verbatim>\<open>*float64\<close>, \<^verbatim>\<open>*int\<close> and \<^verbatim>\<open>*time.Time\<close>; \<open>None\<close> is an error.\<close>

fun scan_string :: "gval \<Rightarrow> string option" where
  "scan_string VNil = None"
| "scan_string (VTime t) = Some (rfc3339_of t)"
| "scan_string (VList vs) = None"
| "scan_string (VMap m) = None"
| "scan_string v = Some (as_string v)"

fun scan_float :: "gval \<Rightarrow> float64 option" where
  "scan_float VNil = None"
| "scan_float (VFloat x) = Some x"
| "scan_float v = parse_float (as_string v)"

fun scan_int :: "gval \<Rightarrow> int option" where
  "scan_int VNil = None"
| "scan_int v = parse_int (as_string v)"

fun scan_time :: "gval \<Rightarrow> string option" where
  "scan_time (VTime t) = Some t"
| "scan_time v = None"

text \<open>The zero values left in \<^verbatim>\<open>NullTime\<close>, \<^verbatim>\<open>NullFloat64\<close> and \<^verbatim>\<open>NullString\<close> when NULL is scanned.\<close>

definition zero_time :: string where
  "zero_time = ''0001-01-01 00:00:00 +0000 UTC''"

definition null_scan :: "'a \<Rightarrow> (gval \<Rightarrow> 'a option) \<Rightarrow> gval \<Rightarrow> 'a option" where
  "null_scan zero conv v = (if v = VNil then Some zero else conv v)"

section \<open>Row mapping\<close>

definition mapValue :: "coltype \<Rightarrow> gval \<Rightarrow> gval" where
  "mapValue ct v =
     (let ty = ct_DatabaseTypeName ct
      in if ty = ''DATETIME'' \<or> ty = ''TIMESTAMP'' then
           (case null_scan zero_time scan_time v of Some t \<Rightarrow> VTime t | None \<Rightarrow> v)
         else if ty = ''DECIMAL'' then
           (case null_scan (F64 False 0 0) scan_float v of Some x \<Rightarrow> VFloat x | None \<Rightarrow> v)
         else if ty = ''VARCHAR'' \<or> ty = ''ENUM'' \<or> ty = ''CHAR'' \<or> ty = ''TEXT'' then
           (case null_scan [] scan_string v of Some s \<Rightarrow> VStr s | None \<Rightarrow> v)
         else v)"

definition getRowMetadata :: "rowset \<Rightarrow> goerr + (string list \<times> coltype list)" where
  "getRowMetadata rows =
     (case rs_Columns rows of
        Inl e \<Rightarrow> Inl e
      | Inr cols \<Rightarrow>
          (case rs_ColumnTypes rows of Inl e \<Rightarrow> Inl e | Inr colTypes \<Rightarrow> Inr (cols, colTypes)))"

text \<open>
  \<^verbatim>\<open>rows.Scan(values...)\<close> into one \<^verbatim>\<open>interface{}\<close> per column, then the loop over the columns that
  fills the map; indexing past the column types panics.
\<close>

fun fill_entity :: "string list \<Rightarrow> coltype list \<Rightarrow> gval list \<Rightarrow> gmap \<Rightarrow> gmap outcome" where
  "fill_entity [] cts vs res = Returns res"
| "fill_entity (c # cols) (ct # cts) (v # vs) res = fill_entity cols cts vs (gmap_put c (mapValue ct v) res)"
| "fill_entity (c # cols) cts vs res = Panics ''runtime error: index out of range''"

definition mapEntity :: "(goerr + gval list) \<Rightarrow> string list \<Rightarrow> coltype list \<Rightarrow> (goerr + gmap) outcome" where
  "mapEntity row columns columnTypes =
     (case row of
        Inl e \<Rightarrow> Returns (Inl e)
      | Inr vs \<Rightarrow>
          (if length vs \<noteq> length columns then Returns (Inl (PlainError ''sql: wrong number of Scan destinations''))
           else omap Inr (fill_entity columns columnTypes vs [])))"

section \<open>The driver and the world\<close>

text \<open>
  The driver is not part of the program: its operations are a parameter. \<open>drv_Exec\<close> returns what
  \<^verbatim>\<open>LastInsertId\<close> will give, itself possibly an error.
\<close>

record 'd driver =
  drv_Query :: "string \<Rightarrow> gval list \<Rightarrow> 'd \<Rightarrow> (goerr + rowset) \<times> 'd"
  drv_Exec :: "string \<Rightarrow> gval list \<Rightarrow> 'd \<Rightarrow> (goerr + (goerr + int)) \<times> 'd"
  drv_Begin :: "'d \<Rightarrow> goerr option \<times> 'd"
  drv_TxExec :: "string \<Rightarrow> gval list \<Rightarrow> 'd \<Rightarrow> goerr option \<times> 'd"
  drv_Commit :: "'d \<Rightarrow> goerr option \<times> 'd"
  drv_Rollback :: "'d \<Rightarrow> goerr option \<times> 'd"
  drv_Close :: "'d \<Rightarrow> goerr option \<times> 'd"

datatype dbcall =
    CQuery string "gval list"
  | CExec string "gval list"
  | CBegin
  | CTxExec string "gval list"
  | CCommit
  | CRollback
  | CClose
  | CSet string int

record ('d, 'c) world =
  w_db :: 'd
  w_cache :: 'c
  w_calls :: "dbcall list"

definition db_call :: "dbcall \<Rightarrow> ('d \<Rightarrow> 'r \<times> 'd) \<Rightarrow> (('d, 'c) world, 'r) prog" where
  "db_call ev f w =
     (case f (w_db w) of (r, d) \<Rightarrow> (Returns r, w\<lparr>w_db := d, w_calls := w_calls w @ [ev]\<rparr>))"

lemma bind_db_call [prog_simps]:
  "pbind (db_call ev f) g w = (case f (w_db w) of (r, d) \<Rightarrow> g r (w\<lparr>w_db := d, w_calls := w_calls w @ [ev]\<rparr>))"
  "ebind (db_call ev h) err ok w =
     (case h (w_db w) of (r, d) \<Rightarrow>
        (case r of Inl e \<Rightarrow> err e (w\<lparr>w_db := d, w_calls := w_calls w @ [ev]\<rparr>)
         | Inr x \<Rightarrow> ok x (w\<lparr>w_db := d, w_calls := w_calls w @ [ev]\<rparr>)))"
  by (auto simp: ebind_def pbind_def db_call_def split: prod.splits sum.splits)

text \<open>
  The methods of a \<^verbatim>\<open>*sql.DB\<close>, which may be nil before the backend is opened: a method of a nil
  handle dereferences it.
\<close>

definition on_db :: "'d driver option \<Rightarrow> ('d driver \<Rightarrow> (('d, 'c) world, 'a) prog) \<Rightarrow> (('d, 'c) world, 'a) prog" where
  "on_db h f = (case h of None \<Rightarrow> ppanic nil_deref | Some drv \<Rightarrow> f drv)"

definition db_QueryContext :: "'d driver option \<Rightarrow> string \<Rightarrow> gval list \<Rightarrow> (('d, 'c) world, goerr + rowset) prog" where
  "db_QueryContext h qry args = on_db h (\<lambda>drv. db_call (CQuery qry args) (drv_Query drv qry args))"

definition db_ExecContext :: "'d driver option \<Rightarrow> string \<Rightarrow> gval list \<Rightarrow> (('d, 'c) world, goerr + (goerr + int)) prog" where
  "db_ExecContext h qry args = on_db h (\<lambda>drv. db_call (CExec qry args) (drv_Exec drv qry args))"

definition db_BeginTx :: "'d driver option \<Rightarrow> (('d, 'c) world, goerr option) prog" where
  "db_BeginTx h = on_db h (\<lambda>drv. db_call CBegin (drv_Begin drv))"

definition tx_ExecContext :: "'d driver option \<Rightarrow> string \<Rightarrow> gval list \<Rightarrow> (('d, 'c) world, goerr option) prog" where
  "tx_ExecContext h qry args = on_db h (\<lambda>drv. db_call (CTxExec qry args) (drv_TxExec drv qry args))"

definition tx_Commit :: "'d driver option \<Rightarrow> (('d, 'c) world, goerr option) prog" where
  "tx_Commit h = on_db h (\<lambda>drv. db_call CCommit (drv_Commit drv))"

definition tx_Rollback :: "'d driver option \<Rightarrow> (('d, 'c) world, goerr option) prog" where
  "tx_Rollback h = on_db h (\<lambda>drv. db_call CRollback (drv_Rollback drv))"

definition db_Close :: "'d driver option \<Rightarrow> (('d, 'c) world, goerr option) prog" where
  "db_Close h = on_db h (\<lambda>drv. db_call CClose (drv_Close drv))"

text \<open>
  \<^verbatim>\<open>QueryRowContext(...).Scan(&cnt)\<close>: the first row's only column as an int, \<^verbatim>\<open>ErrNoRows\<close> (or the
  error that ended the iteration) when there is none.
\<close>

definition ErrNoRows :: goerr where
  "ErrNoRows = PlainError ''sql: no rows in result set''"

definition scan_row_int :: "rowset \<Rightarrow> goerr + int" where
  "scan_row_int rows =
     (case rs_Rows rows of
        [] \<Rightarrow> Inl (case rs_Err rows of Some e \<Rightarrow> e | None \<Rightarrow> ErrNoRows)
      | Inl e # _ \<Rightarrow> Inl e
      | Inr [v] # _ \<Rightarrow> (case scan_int v of Some i \<Rightarrow> Inr i | None \<Rightarrow> Inl (PlainError ''sql: Scan error on column index 0''))
      | Inr _ # _ \<Rightarrow> Inl (PlainError ''sql: wrong number of Scan destinations''))"

definition db_QueryRow_int :: "'d driver option \<Rightarrow> string \<Rightarrow> gval list \<Rightarrow> (('d, 'c) world, goerr + int) prog" where
  "db_QueryRow_int h qry args =
     ebind (db_QueryContext h qry args) (\<lambda>e. preturn (Inl e)) (\<lambda>rows. preturn (scan_row_int rows))"

section \<open>Facts\<close>

lemma mapValue_total_bytes:
  "mapValue ct (VBytes bs) =
     (if ct_DatabaseTypeName ct = ''DECIMAL''
      then (case parse_float (bytes_text bs) of Some x \<Rightarrow> VFloat x | None \<Rightarrow> VBytes bs)
      else if ct_DatabaseTypeName ct \<in> {''VARCHAR'', ''ENUM'', ''CHAR'', ''TEXT''} then VStr (bytes_text bs)
      else VBytes bs)"
  by (auto simp: mapValue_def null_scan_def Let_def)

lemma fill_entity_Returns:
  assumes "length cts = length cols" "length vs = length cols"
  shows "\<exists>res. fill_entity cols cts vs m = Returns res \<and>
    map_of res = map_of m ++ map_of (rev (zip cols (map2 mapValue cts vs)))"
  using assms
proof (induction cols arbitrary: cts vs m)
  case Nil
  then show ?case by simp
next
  case (Cons c cols)
  then obtain ct cts' v vs' where eq: "cts = ct # cts'" "vs = v # vs'"
    by (metis length_Suc_conv)
  with Cons.prems have len: "length cts' = length cols" "length vs' = length cols" by simp_all
  from Cons.IH [OF len, of "gmap_put c (mapValue ct v) m"] obtain res
    where res: "fill_entity cols cts' vs' (gmap_put c (mapValue ct v) m) = Returns res"
    and "map_of res = map_of (gmap_put c (mapValue ct v) m) ++ map_of (rev (zip cols (map2 mapValue cts' vs')))"
    by blast
  then have "map_of res = map_of m ++ map_of (rev (zip (c # cols) (map2 mapValue cts vs)))"
    unfolding eq map_of_gmap_put by (simp only: list.map zip_Cons_Cons case_prod_conv rev.simps map_of_append
      map_of.simps fst_conv snd_conv map_add_assoc map_add_upd map_add_empty)
  with res eq show ?case by auto
qed

lemma fill_entity_keys:
  "fill_entity cols cts vs m = Returns res \<Longrightarrow> fst ` set res = set cols \<union> fst ` set m"
  by (induction cols cts vs m rule: fill_entity.induct) auto

end
