(* ===== verification/Backend_Config.thy ===== *)
theory Backend_Config
  imports Database
begin

text \<open>
  \<^verbatim>\<open>pkg/types/types.go\<close>: the configuration of a backend and of the server, its normalisation, the
  opening of a backend, and the program's error type. Optional fields are pointers in the source
  and \<open>option\<close> here; reading through a missing one panics.
\<close>

section \<open>ErrorWithStatus\<close>

definition StatusInternalServerError :: int where [simp]: "StatusInternalServerError = 500"
definition StatusBadRequest :: int where [simp]: "StatusBadRequest = 400"
definition StatusNotFound :: int where [simp]: "StatusNotFound = 404"
definition StatusMethodNotAllowed :: int where [simp]: "StatusMethodNotAllowed = 405"
definition StatusConflict :: int where [simp]: "StatusConflict = 409"
definition StatusOK :: int where [simp]: "StatusOK = 200"
definition StatusCreated :: int where [simp]: "StatusCreated = 201"
definition StatusAccepted :: int where [simp]: "StatusAccepted = 202"
definition StatusNoContent :: int where [simp]: "StatusNoContent = 204"

definition NewErrorWithStatus :: "string \<Rightarrow> int \<Rightarrow> goerr" where
  "NewErrorWithStatus msg status = ErrorWithStatus status msg None"

definition WrapError :: "string \<Rightarrow> goerr \<Rightarrow> goerr" where
  "WrapError msg err = ErrorWithStatus StatusInternalServerError msg (Some err)"

definition WrapErrorWithStatus :: "string \<Rightarrow> goerr \<Rightarrow> int \<Rightarrow> goerr" where
  "WrapErrorWithStatus msg err status = ErrorWithStatus status msg (Some err)"

text \<open>\<^verbatim>\<open>Unwrap\<close>: the wrapped error of an \<^verbatim>\<open>ErrorWithStatus\<close>, the list of a joined error, nothing else.\<close>

primrec Unwrap :: "goerr \<Rightarrow> goerr list" where
  "Unwrap (MySQLError n msg) = []"
| "Unwrap (ErrorWithStatus status msg wrapped) = (case wrapped of None \<Rightarrow> [] | Some e \<Rightarrow> [e])"
| "Unwrap (PlainError msg) = []"
| "Unwrap (Joined es) = es"

text \<open>\<^verbatim>\<open>Error()\<close>; the text of the driver's own error is a parameter.\<close>

fun error_text :: "(int \<Rightarrow> string \<Rightarrow> string) \<Rightarrow> goerr \<Rightarrow> string" where
  "error_text my (MySQLError n msg) = my n msg"
| "error_text my (ErrorWithStatus status msg wrapped) = msg"
| "error_text my (PlainError msg) = msg"
| "error_text my (Joined es) = join [CHR 0x0A] (map (error_text my) es)"

section \<open>BackendConfig\<close>

record 'd BackendConfig =
  be_Driver :: "string option"
  be_DSN :: string
  be_Create :: "bool option"
  be_Read :: "bool option"
  be_Update :: "bool option"
  be_Delete :: "bool option"
  be_IdMap :: "(string \<times> string) list option"
  be_Queries :: "(string \<times> string) list"
  be_InitDDLs :: "string list"
  be_MaxOpenConnections :: "int option"
  be_MaxIdleConnections :: "int option"
  be_ConnMaxLifetime :: "int option"
  be_ConnMaxIdleTime :: "int option"
  be_db :: "'d driver option"

definition IdColumn :: "'d BackendConfig \<Rightarrow> string \<Rightarrow> string outcome" where
  "IdColumn be ent =
     obind (deref (be_IdMap be)) (\<lambda>m.
       case map_of m ent of Some col \<Rightarrow> Returns col | None \<Rightarrow> Returns ''id'')"

definition DB :: "'d BackendConfig \<Rightarrow> 'd driver option" where
  "DB be = be_db be"

text \<open>A pool setting, made only when it is configured.\<close>

definition set_pool :: "string \<Rightarrow> int option \<Rightarrow> (('d, 'c) world, unit) prog" where
  "set_pool what v =
     (case v of None \<Rightarrow> preturn () | Some n \<Rightarrow> db_call (CSet what n) (\<lambda>d. ((), d)))"

text \<open>The loop over \<^verbatim>\<open>InitDDLs\<close>, which stops at the first error.\<close>

fun run_ddls :: "'d driver \<Rightarrow> string list \<Rightarrow> (('d, 'c) world, goerr option) prog" where
  "run_ddls drv [] = preturn None"
| "run_ddls drv (ddl # ddls) =
     ebind (db_ExecContext (Some drv) ddl []) (\<lambda>err. preturn (Some err)) (\<lambda>res. run_ddls drv ddls)"

text \<open>\<^verbatim>\<open>sql.Open\<close> finds the driver by name, or fails: a parameter. The handle is stored only when all
  DDLs have run.\<close>

definition Open :: "(string \<Rightarrow> string \<Rightarrow> goerr + 'd driver) \<Rightarrow> 'd BackendConfig \<Rightarrow>
    (('d, 'c) world, goerr option \<times> 'd BackendConfig) prog" where
  "Open sql_Open be =
     pbind (plift (deref (be_Driver be))) (\<lambda>name.
     case sql_Open name (be_DSN be) of
       Inl err \<Rightarrow> preturn (Some err, be)
     | Inr drv \<Rightarrow>
         pbind (set_pool ''MaxOpenConns'' (be_MaxOpenConnections be)) (\<lambda>_.
         pbind (set_pool ''MaxIdleConns'' (be_MaxIdleConnections be)) (\<lambda>_.
         pbind (set_pool ''ConnMaxLifetime'' (be_ConnMaxLifetime be)) (\<lambda>_.
         pbind (set_pool ''ConnMaxIdleTime'' (be_ConnMaxIdleTime be)) (\<lambda>_.
         pbind (run_ddls drv (be_InitDDLs be)) (\<lambda>r.
           case r of
             Some err \<Rightarrow> preturn (Some err, be)
           | None \<Rightarrow> preturn (None, be\<lparr>be_db := Some drv\<rparr>)))))))"

definition be_Close :: "'d BackendConfig \<Rightarrow> (('d, 'c) world, goerr option) prog" where
  "be_Close be = (if be_db be \<noteq> None then db_Close (be_db be) else preturn None)"

section \<open>Config\<close>

text \<open>The fields of the imported server configuration that the program reads and writes.\<close>

record CorsConfig =
  cors_MaxAge :: int
  cors_AllowedOrigins :: "string list"

record TelemetryConfig =
  tel_Enabled :: bool
  tel_Path :: string

record ServerConfig =
  srv_ListenAddress :: string
  srv_APIPrefix :: string
  srv_Cors :: "CorsConfig option"
  srv_Telemetry :: "TelemetryConfig option"

record LoggingConfig =
  log_Level :: "string option"
  log_Format :: "string option"

record 'd Config =
  cfg_Server :: ServerConfig
  cfg_Backends :: "(string \<times> 'd BackendConfig option) list"
  cfg_Logging :: "LoggingConfig option"

definition defCorsConfig :: CorsConfig where
  "defCorsConfig = \<lparr>cors_MaxAge = 600, cors_AllowedOrigins = [''*'']\<rparr>"

definition ErrNoBackend :: goerr where
  "ErrNoBackend = PlainError ''no backend configured''"

text \<open>\<^verbatim>\<open>^[\w-]{1,63}$\<close>\<close>

definition name_char :: "char \<Rightarrow> bool" where
  "name_char c \<longleftrightarrow>
     (let k = (of_char c :: nat)
      in is_digit c \<or> (65 \<le> k \<and> k \<le> 90) \<or> (97 \<le> k \<and> k \<le> 122) \<or> c = CHR ''_'' \<or> c = CHR ''-'')"

definition beNameRE :: "string \<Rightarrow> bool" where
  "beNameRE s \<longleftrightarrow> 1 \<le> length s \<and> length s \<le> 63 \<and> list_all name_char s"

text \<open>\<^verbatim>\<open>if p == nil { p = &dflt }\<close>\<close>

definition or_default :: "'a \<Rightarrow> 'a option \<Rightarrow> 'a option" where
  "or_default dflt p = (case p of None \<Rightarrow> Some dflt | Some x \<Rightarrow> Some x)"

definition normalize_backend :: "'d BackendConfig \<Rightarrow> 'd BackendConfig" where
  "normalize_backend v =
     v\<lparr>be_Driver := or_default ''mysql'' (be_Driver v),
       be_IdMap := or_default [] (be_IdMap v),
       be_Create := or_default False (be_Create v),
       be_Read := or_default True (be_Read v),
       be_Update := or_default False (be_Update v),
       be_Delete := or_default False (be_Delete v)\<rparr>"

text \<open>The loop over the backends: the first bad name ends it, the backends before it keep their
  normalised form. A nil backend panics when its first field is read.\<close>

fun normalize_backends :: "(string \<times> 'd BackendConfig option) list \<Rightarrow>
    (goerr option \<times> (string \<times> 'd BackendConfig option) list) outcome" where
  "normalize_backends [] = Returns (None, [])"
| "normalize_backends ((k, v) # rest) =
     (if \<not> beNameRE k then Returns (Some (PlainError (''invalid backend name: '' @ k)), (k, v) # rest)
      else obind (deref v) (\<lambda>be.
           obind (normalize_backends rest) (\<lambda>(err, rest').
             Returns (err, (k, Some (normalize_backend be)) # rest'))))"

definition default_logging :: "LoggingConfig option \<Rightarrow> LoggingConfig" where
  "default_logging lc =
     (let l = (case lc of None \<Rightarrow> \<lparr>log_Level = Some ''info'', log_Format = Some ''json''\<rparr> | Some l \<Rightarrow> l);
          l = (if log_Level l = None then l\<lparr>log_Level := Some ''info''\<rparr> else l)
      in (if log_Format l = None then l\<lparr>log_Format := Some ''json''\<rparr> else l))"

text \<open>
  \<^verbatim>\<open>CheckAndNormalize\<close>, on the pointer receiver: the error and the configuration it leaves behind.
  \<^verbatim>\<open>ServerConfig.Check\<close> and \<^verbatim>\<open>DefaultMetricPath\<close> belong to the imported package.
\<close>

definition CheckAndNormalize :: "(ServerConfig \<Rightarrow> goerr option \<times> ServerConfig) \<Rightarrow> string \<Rightarrow>
    'd Config \<Rightarrow> (goerr option \<times> 'd Config) outcome" where
  "CheckAndNormalize Check DefaultMetricPath c =
     (let s = cfg_Server c;
          s = (if srv_ListenAddress s = [] then s\<lparr>srv_ListenAddress := '':22001''\<rparr> else s);
          (err, s) = Check s;
          c = c\<lparr>cfg_Server := s\<rparr>
      in if err \<noteq> None then Returns (err, c)
         else (let s = s\<lparr>srv_Cors := or_default defCorsConfig (srv_Cors s)\<rparr>;
                   c = c\<lparr>cfg_Server := s\<rparr>
               in if cfg_Backends c = [] then Returns (Some ErrNoBackend, c)
                  else (let t = (case srv_Telemetry s of None \<Rightarrow> \<lparr>tel_Enabled = False, tel_Path = []\<rparr> | Some t \<Rightarrow> t);
                            t = (if tel_Path t = [] then t\<lparr>tel_Path := DefaultMetricPath\<rparr> else t);
                            s = s\<lparr>srv_Telemetry := Some t\<rparr>;
                            s = (if srv_APIPrefix s = [] then s\<lparr>srv_APIPrefix := ''/api/v1''\<rparr> else s);
                            c = c\<lparr>cfg_Server := s\<rparr>
                        in obind (normalize_backends (cfg_Backends c)) (\<lambda>(err, bes).
                             let c = c\<lparr>cfg_Backends := bes\<rparr>
                             in if err \<noteq> None then Returns (err, c)
                                else Returns (None, c\<lparr>cfg_Logging := Some (default_logging (cfg_Logging c))\<rparr>)))))"

section \<open>Well-formed configurations\<close>

definition backend_ok :: "'d BackendConfig \<Rightarrow> bool" where
  "backend_ok be \<longleftrightarrow>
     be_Driver be \<noteq> None \<and> be_IdMap be \<noteq> None \<and> be_Create be \<noteq> None \<and> be_Read be \<noteq> None \<and>
     be_Update be \<noteq> None \<and> be_Delete be \<noteq> None"

definition config_ok :: "'d Config \<Rightarrow> bool" where
  "config_ok c \<longleftrightarrow>
     cfg_Backends c \<noteq> [] \<and>
     (\<forall>(k, v) \<in> set (cfg_Backends c). beNameRE k \<and> (case v of None \<Rightarrow> False | Some be \<Rightarrow> backend_ok be)) \<and>
     srv_Cors (cfg_Server c) \<noteq> None \<and> srv_Telemetry (cfg_Server c) \<noteq> None \<and>
     srv_APIPrefix (cfg_Server c) \<noteq> [] \<and>
     (case cfg_Logging c of None \<Rightarrow> False | Some l \<Rightarrow> log_Level l \<noteq> None \<and> log_Format l \<noteq> None)"

lemma or_default_simps [simp]:
  "or_default d None = Some d" "or_default d (Some x) = Some x" "or_default d p \<noteq> None"
  by (auto simp: or_default_def split: option.splits)

lemma normalize_backend_ok: "backend_ok (normalize_backend be)"
  by (simp add: backend_ok_def normalize_backend_def)

lemma normalize_backend_id: "backend_ok be \<Longrightarrow> normalize_backend be = be"
  by (cases be) (auto simp: backend_ok_def normalize_backend_def)

lemma normalize_backends_Returns:
  assumes "normalize_backends bes = Returns (None, bes')"
  shows "(\<forall>(k, v) \<in> set bes'. beNameRE k \<and> (case v of None \<Rightarrow> False | Some be \<Rightarrow> backend_ok be)) \<and>
         map fst bes' = map fst bes \<and> length bes' = length bes"
  using assms
proof (induction bes arbitrary: bes')
  case (Cons kv rest)
  obtain k v where kv: "kv = (k, v)" by (cases kv)
  from Cons.prems kv obtain be rest' where "beNameRE k" "v = Some be"
    "normalize_backends rest = Returns (None, rest')" "bes' = (k, Some (normalize_backend be)) # rest'"
    by (cases v) (auto simp: outcome_simps split: if_splits)
  with Cons.IH [of rest'] kv show ?case by (auto simp: normalize_backend_ok)
qed simp

lemma normalize_backends_id:
  assumes "\<forall>(k, v) \<in> set bes. beNameRE k \<and> (case v of None \<Rightarrow> False | Some be \<Rightarrow> backend_ok be)"
  shows "normalize_backends bes = Returns (None, bes)"
  using assms
  by (induction bes rule: normalize_backends.induct)
     (auto simp: normalize_backend_id split: option.splits)

lemma normalize_backends_lookup:
  assumes "normalize_backends bes = Returns (None, bes')"
  shows "map_of bes' k = map_option (map_option normalize_backend) (map_of bes k)"
  using assms
proof (induction bes arbitrary: bes')
  case (Cons kv rest)
  obtain k' v where kv: "kv = (k', v)" by (cases kv)
  with Cons.prems Cons.IH show ?case
    by (cases v) (auto simp: outcome_simps split: if_splits)
qed simp

lemma default_logging_ok:
  "log_Level (default_logging lc) \<noteq> None \<and> log_Format (default_logging lc) \<noteq> None"
  by (auto simp: default_logging_def Let_def)

lemma default_logging_id:
  "log_Level l \<noteq> None \<Longrightarrow> log_Format l \<noteq> None \<Longrightarrow> default_logging (Some l) = l"
  by (simp add: default_logging_def Let_def)

text \<open>What an accepting run of \<^verbatim>\<open>CheckAndNormalize\<close> did.\<close>

lemma CheckAndNormalize_result:
  assumes "CheckAndNormalize Check mpath c = Returns (None, c')"
  shows "normalize_backends (cfg_Backends c) = Returns (None, cfg_Backends c') \<and> cfg_Backends c \<noteq> [] \<and>
    cfg_Logging c' = Some (default_logging (cfg_Logging c)) \<and>
    (\<exists>x. srv_Cors (cfg_Server c') = Some x) \<and>
    (\<exists>t. srv_Telemetry (cfg_Server c') = Some t \<and> (mpath \<noteq> [] \<longrightarrow> tel_Path t \<noteq> [])) \<and>
    srv_APIPrefix (cfg_Server c') \<noteq> []"
proof -
  have cors: "\<exists>x. or_default d p = Some x" for d :: "'b" and p by (cases p) simp_all
  define s0 where "s0 = (if srv_ListenAddress (cfg_Server c) = [] then (cfg_Server c)\<lparr>srv_ListenAddress := '':22001''\<rparr> else cfg_Server c)"
  obtain err s where chk: "Check s0 = (err, s)" by fastforce
  have "err = None" "cfg_Backends c \<noteq> []"
    using assms chk unfolding s0_def by (auto simp: CheckAndNormalize_def Let_def split: if_splits)
  note run = assms [unfolded CheckAndNormalize_def Let_def s0_def [symmetric] chk case_prod_conv this]
  show ?thesis
  proof (cases "normalize_backends (cfg_Backends c)")
    case (Returns r)
    obtain e bes where r: "r = (e, bes)" by (cases r)
    with run Returns \<open>cfg_Backends c \<noteq> []\<close> \<open>err = None\<close> have "e = None" by (auto split: if_splits)
    with run Returns r \<open>cfg_Backends c \<noteq> []\<close> \<open>err = None\<close> cors show ?thesis
      by (auto split: if_splits)
  next
    case (Panics msg)
    with run \<open>cfg_Backends c \<noteq> []\<close> \<open>err = None\<close> show ?thesis by (auto split: if_splits)
  qed
qed

lemma IdColumn_Returns: "backend_ok be \<Longrightarrow> is_returns (IdColumn be ent)"
  by (auto simp: backend_ok_def IdColumn_def split: option.splits)

end
