(* ===== verification/Crud_Ops.thy ===== *)
theory Crud_Ops
  imports Sql_Builder Backend_Config Query
begin

text \<open>
  \<^verbatim>\<open>pkg/crud/impl.go\<close> and \<^verbatim>\<open>types.go\<close>: the operations on one backend. Each is a program over the
  world of \<^verbatim>\<open>Database\<close>: it checks the permission of the configuration, builds its statement and
  calls the driver. The metadata cache is an imported package: its \<^verbatim>\<open>Get\<close>, which takes the
  program's \<^verbatim>\<open>Load\<close> as its loader, and its \<^verbatim>\<open>Set\<close> are parameters.
\<close>

section \<open>The implementation's state\<close>

type_synonym metadata = "(string \<times> coltype) list"

record ('d, 'c) cache_ops =
  cache_Get :: "(string \<Rightarrow> (('d, 'c) world, metadata option) prog) \<Rightarrow> string \<Rightarrow>
    (('d, 'c) world, metadata option) prog"
  cache_Set :: "string \<Rightarrow> metadata \<Rightarrow> 'c \<Rightarrow> 'c"

record ('d, 'c) impl =
  im_config :: "'d BackendConfig"
  im_mdCache :: "('d, 'c) cache_ops"

definition im_db :: "('d, 'c) impl \<Rightarrow> 'd driver option" where
  "im_db be = DB (im_config be)"

text \<open>The body of a result page; \<^verbatim>\<open>api.PagedResult\<close>. The offset is a \<^verbatim>\<open>float32\<close>, carried like a
  \<^typ>\<open>float64\<close> by its shortest decimal.\<close>

record PagedResult =
  pr_Data :: "gmap list option"
  pr_Offset :: "float64 option"
  pr_TotalCount :: "int option"

text \<open>\<^verbatim>\<open>float32(n)\<close>: 24 bits of mantissa, ties to even.\<close>

fun float32_shift :: "nat \<Rightarrow> nat" where
  "float32_shift n = (if n < 2 ^ 24 then 0 else Suc (float32_shift (n div 2)))"

declare float32_shift.simps [simp del]

definition float32_of_nat :: "nat \<Rightarrow> nat" where
  "float32_of_nat n =
     (let p = 2 ^ float32_shift n; q = n div p; r = n mod p
      in (if 2 * r > p \<or> (2 * r = p \<and> odd q) then q + 1 else q) * p)"

text \<open>The fewest digits that round to the same \<^verbatim>\<open>float32\<close>.\<close>

definition round_digits :: "nat \<Rightarrow> nat \<Rightarrow> nat" where
  "round_digits d n =
     (let p = 10 ^ (length (dec_nat n) - d)
      in (if 2 * (n mod p) \<ge> p then n div p + 1 else n div p) * p)"

definition float32_decimal :: "nat \<Rightarrow> nat" where
  "float32_decimal n =
     (case List.find (\<lambda>d. float32_of_nat (round_digits d n) = n) [1 ..< length (dec_nat n)] of
        Some d \<Rightarrow> round_digits d n | None \<Rightarrow> n)"

definition float32 :: "nat \<Rightarrow> float64" where
  "float32 n = decimal_of_int (int (float32_decimal (float32_of_nat n)))"

definition notAllowedSuffix :: string where
  "notAllowedSuffix = '' op is not allowed by configuration''"

definition errCreateNotAllowed :: goerr where
  "errCreateNotAllowed = NewErrorWithStatus (''create'' @ notAllowedSuffix) StatusMethodNotAllowed"

definition errReadNotAllowed :: goerr where
  "errReadNotAllowed = NewErrorWithStatus (''read'' @ notAllowedSuffix) StatusMethodNotAllowed"

definition errUpdateNotAllowed :: goerr where
  "errUpdateNotAllowed = NewErrorWithStatus (''update'' @ notAllowedSuffix) StatusMethodNotAllowed"

definition errDeleteNotAllowed :: goerr where
  "errDeleteNotAllowed = NewErrorWithStatus (''delete'' @ notAllowedSuffix) StatusMethodNotAllowed"

definition errNoObj :: goerr where
  "errNoObj = PlainError ''require at least one object''"

section \<open>Reading\<close>

text \<open>The loader: metadata of a row of the entity, whatever its id. A failed query loads nothing.\<close>

definition Load :: "('d, 'c) impl \<Rightarrow> string \<Rightarrow> (('d, 'c) world, metadata option) prog" where
  "Load be key =
     pbind (plift (IdColumn (im_config be) key)) (\<lambda>idc.
     ebind (db_QueryContext (im_db be) (createSingleSelectQuery key idc) [VStr ''0''])
       (\<lambda>err. preturn None)
       (\<lambda>rows. case getRowMetadata rows of
           Inl err \<Rightarrow> preturn None
         | Inr (cols, colTypes) \<Rightarrow>
             (let md = rev (map (\<lambda>ct. (ct_Name ct, ct)) colTypes)
              in (\<lambda>w. (Returns (Some md), w\<lparr>w_cache := cache_Set (im_mdCache be) key md (w_cache w)\<rparr>)))))"

definition mdCache_Get :: "('d, 'c) impl \<Rightarrow> string \<Rightarrow> (('d, 'c) world, metadata option) prog" where
  "mdCache_Get be = cache_Get (im_mdCache be) (Load be)"

text \<open>The row with an id, mapped when \<open>retrieve\<close> is set; without it only whether there is one. \<open>None\<close>
  is the nil map.\<close>

definition fetchOneItem :: "('d, 'c) impl \<Rightarrow> string \<Rightarrow> string \<Rightarrow> bool \<Rightarrow>
    (('d, 'c) world, goerr + gmap option) prog" where
  "fetchOneItem be entity oid retrieve =
     pbind (plift (IdColumn (im_config be) entity)) (\<lambda>idc.
     ebind (db_QueryContext (im_db be) (createSingleSelectQuery entity idc) [VStr oid])
       (\<lambda>err. preturn (Inl (WrapError ''failed to fetch single row'' err)))
       (\<lambda>rows. case rs_Rows rows of
           [] \<Rightarrow> preturn (Inr None)
         | row # _ \<Rightarrow>
             (if retrieve then
                (case getRowMetadata rows of
                   Inl err \<Rightarrow> preturn (Inl (WrapError ''failed to get row metadata'' err))
                 | Inr (cols, colTypes) \<Rightarrow>
                     ebind (plift (mapEntity row cols colTypes))
                       (\<lambda>err. preturn (Inl err)) (\<lambda>m. preturn (Inr (Some m))))
              else preturn (Inr (Some [])))))"

text \<open>The loop over the rows in \<^verbatim>\<open>fetchRows\<close>.\<close>

fun map_rows :: "(goerr + gval list) list \<Rightarrow> string list \<Rightarrow> coltype list \<Rightarrow> gmap list \<Rightarrow>
    (goerr + gmap list) outcome" where
  "map_rows [] cols colTypes res = Returns (Inr res)"
| "map_rows (row # rows) cols colTypes res =
     obind (mapEntity row cols colTypes) (\<lambda>r.
       case r of
         Inl err \<Rightarrow> Returns (Inl (WrapError ''failed to map row to entity'' err))
       | Inr item \<Rightarrow> map_rows rows cols colTypes (res @ [item]))"

definition fetchRows :: "('d, 'c) impl \<Rightarrow> string \<Rightarrow> gval list \<Rightarrow> (('d, 'c) world, goerr + gmap list) prog" where
  "fetchRows be qry args =
     ebind (db_QueryContext (im_db be) qry args)
       (\<lambda>err. preturn (Inl err))
       (\<lambda>rows. case getRowMetadata rows of
           Inl err \<Rightarrow> preturn (Inl (WrapError ''failed to get row metadata'' err))
         | Inr (cols, colTypes) \<Rightarrow> plift (map_rows (rs_Rows rows) cols colTypes []))"

text \<open>
  \<^verbatim>\<open>%v\<close> of a value with a \<^verbatim>\<open>String\<close> method: package \<^verbatim>\<open>fmt\<close> recovers from a panic of the method
  and prints it in place of the text.
\<close>

definition fmt_Stringer :: "string outcome \<Rightarrow> string" where
  "fmt_Stringer m =
     (case m of Returns s \<Rightarrow> s
      | Panics msg \<Rightarrow> ''%!v(PANIC=String method: runtime error: '' @ msg @ '')'')"

text \<open>The guard of an operation: \<^verbatim>\<open>if !*be.config.Read { return nil, errReadNotAllowed }\<close>.\<close>

definition guarded :: "bool option \<Rightarrow> 'r \<Rightarrow> (('d, 'c) world, 'r) prog \<Rightarrow> (('d, 'c) world, 'r) prog" where
  "guarded allowed denied m =
     pbind (plift (deref allowed)) (\<lambda>b. if \<not> b then preturn denied else m)"

definition ListItems :: "('d, 'c) impl \<Rightarrow> string \<Rightarrow> qryData option \<Rightarrow>
    (('d, 'c) world, goerr + PagedResult) prog" where
  "ListItems be entity qe0 =
     guarded (be_Read (im_config be)) (Inl errReadNotAllowed)
     (let qe = (case qe0 of None \<Rightarrow> DefaultQuery | Some q \<Rightarrow> q);
          flt = qry_filter qe;
          whereExpr = (if flt \<noteq> NilE then '' WHERE '' @ fmt_Stringer (fe_String flt) else []);
          qry = ''SELECT COUNT(1) FROM `'' @ entity @ ''`'' @ whereExpr
      in ebind (db_QueryRow_int (im_db be) qry [])
           (\<lambda>err. preturn (Inl (WrapError ''failed to determine resultset size'' err)))
           (\<lambda>cnt.
              ebind (if cnt > 0 then
                       pbind (plift (qry_String qe)) (\<lambda>tail.
                       ebind (fetchRows be (''SELECT * FROM `'' @ entity @ ''`'' @ tail) [])
                         (\<lambda>err. preturn (Inl (WrapError ''failed to fetch rows'' err)))
                         (\<lambda>items. preturn (Inr items)))
                     else preturn (Inr []))
                (\<lambda>err. preturn (Inl err))
                (\<lambda>res.
                   pbind (plift (deref (qry_paging qe))) (\<lambda>p.
                   preturn (Inr \<lparr>pr_Data = Some res,
                     pr_Offset = Some (float32 (unat (page_offset p))),
                     pr_TotalCount = Some cnt\<rparr>)))))"

definition QueryNamed :: "('d, 'c) impl \<Rightarrow> string \<Rightarrow> qryData option \<Rightarrow> gval list \<Rightarrow>
    (('d, 'c) world, goerr + PagedResult) prog" where
  "QueryNamed be name qry0 args =
     guarded (be_Read (im_config be)) (Inl errReadNotAllowed)
     (let qry = (case qry0 of None \<Rightarrow> DefaultQuery | Some q \<Rightarrow> q)
      in case map_of (be_Queries (im_config be)) name of
           None \<Rightarrow> preturn (Inl (NewErrorWithStatus (''no such query: '' @ name) StatusNotFound))
         | Some savedQry \<Rightarrow>
             ebind (db_QueryRow_int (im_db be) (''SELECT COUNT(1) FROM ('' @ savedQry @ '') AS wrapper'') args)
               (\<lambda>err. preturn (Inl (WrapError ''failed to determine resultset size'' err)))
               (\<lambda>cnt.
                  let (savedQry, offset) =
                        (case qry_paging qry of
                           None \<Rightarrow> (savedQry, 0)
                         | Some p \<Rightarrow> (savedQry @ '' LIMIT '' @ page_String p, page_offset p))
                  in ebind (fetchRows be savedQry args)
                       (\<lambda>err. preturn (Inl (WrapError (''failed to execute query '' @ name) err)))
                       (\<lambda>items. preturn (Inr \<lparr>pr_Data = Some items,
                          pr_Offset = Some (float32 (unat offset)),
                          pr_TotalCount = Some cnt\<rparr>))))"

fun scan_names :: "(goerr + gval list) list \<Rightarrow> string list \<Rightarrow> goerr + string list" where
  "scan_names [] res = Inr res"
| "scan_names (row # rows) res =
     (case row of
        Inl err \<Rightarrow> Inl (WrapError ''failed to scan table name'' err)
      | Inr [v] \<Rightarrow>
          (case scan_string v of
             Some t \<Rightarrow> scan_names rows (res @ [t])
           | None \<Rightarrow> Inl (WrapError ''failed to scan table name'' (PlainError ''sql: Scan error on column index 0'')))
      | Inr _ \<Rightarrow> Inl (WrapError ''failed to scan table name'' (PlainError ''sql: wrong number of Scan destinations'')))"

definition ListEntities :: "('d, 'c) impl \<Rightarrow> (('d, 'c) world, goerr + string list) prog" where
  "ListEntities be =
     guarded (be_Read (im_config be)) (Inl errReadNotAllowed)
     (ebind (db_QueryContext (im_db be) ''SHOW TABLES'' [])
        (\<lambda>err. preturn (Inl (WrapError ''failed to list entity tables'' err)))
        (\<lambda>rows. preturn (scan_names (rs_Rows rows) [])))"

definition Exists :: "('d, 'c) impl \<Rightarrow> string \<Rightarrow> string \<Rightarrow> (('d, 'c) world, goerr + bool) prog" where
  "Exists be entity oid =
     guarded (be_Read (im_config be)) (Inl errReadNotAllowed)
     (ebind (fetchOneItem be entity oid False)
        (\<lambda>err. preturn (Inl err)) (\<lambda>r. preturn (Inr (r \<noteq> None))))"

definition Get :: "('d, 'c) impl \<Rightarrow> string \<Rightarrow> string \<Rightarrow> (('d, 'c) world, goerr + gmap option) prog" where
  "Get be entity oid =
     guarded (be_Read (im_config be)) (Inl errReadNotAllowed) (fetchOneItem be entity oid True)"

section \<open>Writing one item\<close>

definition is_date_type :: "string \<Rightarrow> bool" where
  "is_date_type ty \<longleftrightarrow> ty = ''DATETIME'' \<or> ty = ''TIMESTAMP'' \<or> ty = ''DATE''"

text \<open>The layouts are tried in order; the first that parses wins.\<close>

fun first_layout :: "layout list \<Rightarrow> string \<Rightarrow> string option" where
  "first_layout [] s = None"
| "first_layout (l # ls) s = (case time_Parse l s of Some t \<Rightarrow> Some t | None \<Rightarrow> first_layout ls s)"

definition dateTimeLayouts :: "layout list" where
  "dateTimeLayouts = [RFC3339, DateOnly]"

fun remapValue :: "gval \<Rightarrow> coltype \<Rightarrow> gval" where
  "remapValue (VStr v) ct =
     (if is_date_type (ct_DatabaseTypeName ct) then
        (case first_layout dateTimeLayouts v of Some t \<Rightarrow> VTime t | None \<Rightarrow> VStr v)
      else if ct_DatabaseTypeName ct = ''BLOB'' then
        (case b64_decode v of Some bytes \<Rightarrow> VBytes bytes | None \<Rightarrow> VStr v)
      else VStr v)"
| "remapValue v ct = v"

definition remapBody :: "metadata \<Rightarrow> gmap \<Rightarrow> gmap" where
  "remapBody md body =
     map (\<lambda>(key, val). (key, case map_of md key of Some ct \<Rightarrow> remapValue val ct | None \<Rightarrow> val)) body"

text \<open>\<^verbatim>\<open>md := be.mdCache.Get(entity); if md != nil { body = remapBody(md, body) }\<close>\<close>

definition remapped :: "('d, 'c) impl \<Rightarrow> string \<Rightarrow> gmap \<Rightarrow> (('d, 'c) world, gmap) prog" where
  "remapped be entity body =
     pbind (mdCache_Get be entity) (\<lambda>md.
       preturn (case md of None \<Rightarrow> body | Some m \<Rightarrow> remapBody m body))"

definition Delete :: "('d, 'c) impl \<Rightarrow> string \<Rightarrow> string \<Rightarrow> (('d, 'c) world, goerr option) prog" where
  "Delete be entity oid =
     guarded (be_Delete (im_config be)) (Some errDeleteNotAllowed)
     (pbind (plift (IdColumn (im_config be) entity)) (\<lambda>idc.
      ebind (db_ExecContext (im_db be) (createSingleDeleteQuery entity idc) [VStr oid])
        (\<lambda>err. preturn (Some err)) (\<lambda>res. preturn None)))"

definition Update :: "('d, 'c) impl \<Rightarrow> string \<Rightarrow> string \<Rightarrow> gmap \<Rightarrow>
    (('d, 'c) world, goerr + gmap option) prog" where
  "Update be entity oid body0 =
     guarded (be_Update (im_config be)) (Inl errUpdateNotAllowed)
     (pbind (remapped be entity body0) (\<lambda>body.
      pbind (plift (IdColumn (im_config be) entity)) (\<lambda>idc.
      let (qry, vals) = createUpdateQuery entity idc body
      in ebind (db_ExecContext (im_db be) qry (vals @ [VStr oid]))
           (\<lambda>err. preturn (Inl (WrapError ''failed to update entity'' err)))
           (\<lambda>res. fetchOneItem be entity oid True))))"

definition Create :: "('d, 'c) impl \<Rightarrow> string \<Rightarrow> gmap \<Rightarrow> (('d, 'c) world, goerr + gmap option) prog" where
  "Create be entity body0 =
     guarded (be_Create (im_config be)) (Inl errCreateNotAllowed)
     (pbind (remapped be entity body0) (\<lambda>body.
      let (qry, vals) = createInsertQuery entity body
      in ebind (db_ExecContext (im_db be) qry vals)
           (\<lambda>err. preturn (Inl err))
           (\<lambda>res. case res of
               Inl err \<Rightarrow> preturn (Inl (WrapError ''failed to retrieve last insert ID'' err))
             | Inr oid \<Rightarrow> fetchOneItem be entity (dec_int oid) True)))"

section \<open>Writing many items\<close>

definition MultiDelete :: "('d, 'c) impl \<Rightarrow> string \<Rightarrow> gval list \<Rightarrow> (('d, 'c) world, goerr option) prog" where
  "MultiDelete be entity ids =
     guarded (be_Delete (im_config be)) (Some errDeleteNotAllowed)
     (let ic = length ids
      in if ic = 0 then preturn (Some errNoObj)
         else if ic = 1 then Delete be entity (fmt_v (ids ! 0))
         else
           pbind (plift (IdColumn (im_config be) entity)) (\<lambda>idc.
           pbind (plift (createMultiDeleteQuery entity idc (int ic))) (\<lambda>qry.
           ebind (db_ExecContext (im_db be) qry ids)
             (\<lambda>err. preturn (Some err)) (\<lambda>res. preturn None))))"

text \<open>The type assertion \<^verbatim>\<open>v.(string)\<close>.\<close>

definition as_go_string :: "gval \<Rightarrow> string outcome" where
  "as_go_string v = (case v of VStr s \<Rightarrow> Returns s | _ \<Rightarrow> Panics ''interface conversion: interface {} is not string'')"

fun multiUpdate_loop :: "('d, 'c) impl \<Rightarrow> string \<Rightarrow> gmap list \<Rightarrow> (('d, 'c) world, goerr option) prog" where
  "multiUpdate_loop be entity [] = tx_Commit (im_db be)"
| "multiUpdate_loop be entity (obj0 # objs) =
     pbind (plift (IdColumn (im_config be) entity)) (\<lambda>idCol.
     pbind (plift (as_go_string (gmap_get obj0 idCol))) (\<lambda>oid.
     pbind (remapped be entity obj0) (\<lambda>obj.
     let (qry, vals) = createUpdateQuery entity idCol obj
     in pbind (tx_ExecContext (im_db be) qry (vals @ [VStr oid])) (\<lambda>r.
          case r of
            Some err \<Rightarrow> pbind (tx_Rollback (im_db be)) (\<lambda>rb. preturn (errors_Join [Some err, rb]))
          | None \<Rightarrow> multiUpdate_loop be entity objs))))"

definition MultiUpdate :: "('d, 'c) impl \<Rightarrow> string \<Rightarrow> gmap list \<Rightarrow> (('d, 'c) world, goerr option) prog" where
  "MultiUpdate be entity objs =
     guarded (be_Update (im_config be)) (Some errUpdateNotAllowed)
     (pbind (db_BeginTx (im_db be)) (\<lambda>r.
        case r of Some err \<Rightarrow> preturn (Some err) | None \<Rightarrow> multiUpdate_loop be entity objs))"

fun multiCreate_loop :: "('d, 'c) impl \<Rightarrow> string \<Rightarrow> bool \<Rightarrow> gmap list \<Rightarrow> (('d, 'c) world, goerr option) prog" where
  "multiCreate_loop be entity replace [] = tx_Commit (im_db be)"
| "multiCreate_loop be entity replace (obj0 # objs) =
     pbind (remapped be entity obj0) (\<lambda>obj.
     let (qry, vals) = (if replace then createReplaceQuery entity obj else createInsertQuery entity obj)
     in pbind (tx_ExecContext (im_db be) qry vals) (\<lambda>r.
          case r of
            Some err \<Rightarrow>
              pbind (tx_Rollback (im_db be)) (\<lambda>rb.
                preturn (errors_Join [Some (WrapErrorWithStatus (''query failed: '' @ qry) err
                  StatusInternalServerError), rb]))
          | None \<Rightarrow> multiCreate_loop be entity replace objs))"

definition MultiCreate :: "('d, 'c) impl \<Rightarrow> string \<Rightarrow> bool \<Rightarrow> gmap list \<Rightarrow>
    (('d, 'c) world, goerr option) prog" where
  "MultiCreate be entity replace objs =
     guarded (be_Create (im_config be)) (Some errCreateNotAllowed)
     (pbind (db_BeginTx (im_db be)) (\<lambda>r.
        case r of Some err \<Rightarrow> preturn (Some err) | None \<Rightarrow> multiCreate_loop be entity replace objs))"

section \<open>The map of backends\<close>

text \<open>
  \<^verbatim>\<open>New\<close> wires the implementation. It embeds an \<^verbatim>\<open>io.Closer\<close> that is never set, so the \<^verbatim>\<open>Close\<close> it
  promotes is a call through a nil interface.
\<close>

definition crud_New :: "('d, 'c) cache_ops \<Rightarrow> 'd BackendConfig \<Rightarrow> ('d, 'c) impl" where
  "crud_New cache be = \<lparr>im_config = be, im_mdCache = cache\<rparr>"

definition impl_Close :: "('d, 'c) impl \<Rightarrow> goerr option outcome" where
  "impl_Close be = Panics nil_deref"

type_synonym ('d, 'c) NameToCrudMap = "(string \<times> ('d, 'c) impl) list"

fun close_all :: "('d, 'c) NameToCrudMap \<Rightarrow> goerr option list \<Rightarrow> goerr option list outcome" where
  "close_all [] errs = Returns errs"
| "close_all ((n, v) # m) errs =
     obind (impl_Close v) (\<lambda>err. close_all m (if err \<noteq> None then errs @ [err] else errs))"

definition NameToCrudMap_Close :: "('d, 'c) NameToCrudMap \<Rightarrow> goerr option outcome" where
  "NameToCrudMap_Close m = omap errors_Join (close_all m [])"

end
