(* ===== verification/Crud_Effects.thy ===== *)
theory Crud_Effects
  imports Crud_Ops
begin

text \<open>
  Which driver calls the operations of \<^verbatim>\<open>Crud_Ops\<close> issue, and what a batch in a transaction leaves
  behind. The contract of a batch is the locale \<open>tx_batch\<close>; the loops of \<^verbatim>\<open>MultiUpdate\<close> and
  \<^verbatim>\<open>MultiCreate\<close> are its instances.
\<close>

section \<open>Calls added by a program\<close>

definition adds :: "(dbcall \<Rightarrow> bool) \<Rightarrow> ('d, 'c) world \<Rightarrow> ('d, 'c) world \<Rightarrow> bool" where
  "adds P w w' \<longleftrightarrow> (\<exists>evs. w_calls w' = w_calls w @ evs \<and> list_all P evs)"

lemma adds_refl [simp]: "adds P w w"
  by (simp add: adds_def)

lemma adds_reflp [simp, intro]: "reflp (adds P)"
  by (simp add: reflp_def)

lemma adds_transp [simp, intro]: "transp (adds P)"
  by (rule transpI) (auto simp: adds_def)

lemma adds_mono: "adds P w w' \<Longrightarrow> (\<And>c. P c \<Longrightarrow> Q c) \<Longrightarrow> adds Q w w'"
  by (auto simp: adds_def list_all_iff)

lemma keeps_mono: "keeps (adds P) m \<Longrightarrow> (\<And>c. P c \<Longrightarrow> Q c) \<Longrightarrow> keeps (adds Q) m"
  by (auto simp: keeps_def intro: adds_mono)

primrec is_query :: "dbcall \<Rightarrow> bool" where
  "is_query (CQuery q a) = True"
| "is_query (CExec q a) = False"
| "is_query CBegin = False"
| "is_query (CTxExec q a) = False"
| "is_query CCommit = False"
| "is_query CRollback = False"
| "is_query CClose = False"
| "is_query (CSet s n) = False"

lemma keeps_db_call: "P ev \<Longrightarrow> keeps (adds P) (db_call ev f)"
  by (auto simp: keeps_def adds_def db_call_def split: prod.splits)

lemma keeps_preturn [intro!]: "keeps (adds P) (preturn x)"
  and keeps_plift [intro!]: "keeps (adds P) (plift m)"
  and keeps_ppanic [intro!]: "keeps (adds P) (ppanic msg)"
  by auto

lemma keeps_bind [intro!]:
  "keeps (adds P) m \<Longrightarrow> (\<And>x. keeps (adds P) (f x)) \<Longrightarrow> keeps (adds P) (pbind m f)"
  by (rule keeps_pbind) auto

lemma keeps_ebind2 [intro!]:
  "keeps (adds P) m \<Longrightarrow> (\<And>e. keeps (adds P) (err e)) \<Longrightarrow> (\<And>x. keeps (adds P) (ok x)) \<Longrightarrow>
   keeps (adds P) (ebind m err ok)"
  by (rule keeps_ebind) auto

lemma keeps_on_db: "(\<And>drv. keeps (adds P) (f drv)) \<Longrightarrow> keeps (adds P) (on_db h f)"
  by (cases h) (auto simp: on_db_def)

lemma keeps_db:
  "P (CQuery q a) \<Longrightarrow> keeps (adds P) (db_QueryContext h q a)"
  "P (CExec q a) \<Longrightarrow> keeps (adds P) (db_ExecContext h q a)"
  "P CBegin \<Longrightarrow> keeps (adds P) (db_BeginTx h)"
  "P (CTxExec q a) \<Longrightarrow> keeps (adds P) (tx_ExecContext h q a)"
  "P CCommit \<Longrightarrow> keeps (adds P) (tx_Commit h)"
  "P CRollback \<Longrightarrow> keeps (adds P) (tx_Rollback h)"
  by (simp_all add: db_QueryContext_def db_ExecContext_def db_BeginTx_def tx_ExecContext_def
      tx_Commit_def tx_Rollback_def keeps_on_db keeps_db_call)

lemma keeps_guarded:
  "(allowed \<noteq> Some False \<Longrightarrow> keeps (adds P) m) \<Longrightarrow> keeps (adds P) (guarded allowed denied m)"
  unfolding guarded_def
  by (cases allowed) (auto simp: keeps_def pbind_def plift_def preturn_def split: prod.splits if_splits)

text \<open>
  What the program relies on of the imported cache: \<^verbatim>\<open>Get\<close> either answers from its own state or
  runs the loader; its own bookkeeping does not touch the database.
\<close>

definition cache_lawful :: "('d, 'c) cache_ops \<Rightarrow> bool" where
  "cache_lawful ops \<longleftrightarrow>
     (\<forall>ld key w. let (r, w') = cache_Get ops ld key w; (lr, lw) = ld key w in
        (is_returns r \<and> w_db w' = w_db w \<and> w_calls w' = w_calls w) \<or>
        (is_returns r = is_returns lr \<and> w_db w' = w_db lw \<and> w_calls w' = w_calls lw))"

lemma keeps_Load: "(\<And>q a. P (CQuery q a)) \<Longrightarrow> keeps (adds P) (Load be key)"
proof -
  assume P: "\<And>q a. P (CQuery q a)"
  have set: "keeps (adds P) (\<lambda>w. (Returns x, w\<lparr>w_cache := f (w_cache w)\<rparr>))"
    for x :: "metadata option" and f :: "'b \<Rightarrow> 'b"
    by (simp add: keeps_def adds_def)
  show ?thesis
    unfolding Load_def Let_def by (auto intro!: keeps_db P set split: sum.splits)
qed

lemma keeps_mdCache_Get:
  assumes "cache_lawful (im_mdCache be)" and P: "\<And>q a. P (CQuery q a)"
  shows "keeps (adds P) (mdCache_Get be key)"
  unfolding keeps_def
proof
  fix w
  obtain r w' where g: "mdCache_Get be key w = (r, w')" by fastforce
  obtain lr lw where l: "Load be key w = (lr, lw)" by fastforce
  have "adds P w lw" using keeps_Load [of P be key] P l by (metis keeps_def snd_conv)
  moreover have "w_calls w' = w_calls w \<or> w_calls w' = w_calls lw"
    using assms(1) [unfolded cache_lawful_def, rule_format, of "Load be" key w] g l
    by (auto simp: mdCache_Get_def)
  ultimately show "adds P w (snd (mdCache_Get be key w))"
    using g by (auto simp: adds_def)
qed

lemma keeps_remapped:
  "cache_lawful (im_mdCache be) \<Longrightarrow> (\<And>q a. P (CQuery q a)) \<Longrightarrow> keeps (adds P) (remapped be entity body)"
  unfolding remapped_def by (intro keeps_bind keeps_mdCache_Get keeps_preturn) auto

lemma keeps_fetchOneItem: "(\<And>q a. P (CQuery q a)) \<Longrightarrow> keeps (adds P) (fetchOneItem be entity oid r)"
  unfolding fetchOneItem_def
  by (auto intro!: keeps_db split: list.splits sum.splits)

lemma keeps_fetchRows: "(\<And>q a. P (CQuery q a)) \<Longrightarrow> keeps (adds P) (fetchRows be qry args)"
  unfolding fetchRows_def by (auto intro!: keeps_db split: sum.splits)

lemma keeps_QueryRow: "P (CQuery q a) \<Longrightarrow> keeps (adds P) (db_QueryRow_int h q a)"
  unfolding db_QueryRow_int_def by (auto intro!: keeps_db)

lemmas keeps_reads = keeps_db keeps_QueryRow keeps_fetchOneItem keeps_fetchRows keeps_guarded

lemma keeps_ListItems: "(\<And>q a. P (CQuery q a)) \<Longrightarrow> keeps (adds P) (ListItems be entity qe)"
  unfolding ListItems_def Let_def by (intro keeps_reads) (auto intro!: keeps_reads)

lemma keeps_QueryNamed: "(\<And>q a. P (CQuery q a)) \<Longrightarrow> keeps (adds P) (QueryNamed be name qry args)"
  unfolding QueryNamed_def Let_def
  by (intro keeps_reads) (auto intro!: keeps_reads split: option.splits prod.splits)

lemma keeps_ListEntities: "(\<And>q a. P (CQuery q a)) \<Longrightarrow> keeps (adds P) (ListEntities be)"
  unfolding ListEntities_def by (intro keeps_reads) (auto intro!: keeps_reads)

lemma keeps_Exists: "(\<And>q a. P (CQuery q a)) \<Longrightarrow> keeps (adds P) (Exists be entity oid)"
  unfolding Exists_def by (intro keeps_reads) (auto intro!: keeps_reads)

lemma keeps_Get: "(\<And>q a. P (CQuery q a)) \<Longrightarrow> keeps (adds P) (Get be entity oid)"
  unfolding Get_def by (intro keeps_reads)

section \<open>The guards\<close>

lemma guarded_denied: "guarded (Some False) denied m w = (Returns denied, w)"
  by (simp add: guarded_def prog_simps preturn_def)

lemma guarded_allowed [prog_simps]: "guarded (Some True) denied m = m"
  by (rule ext) (simp add: guarded_def prog_simps)

lemma guarded_missing: "guarded None denied m w = (Panics nil_deref, w)"
  by (simp add: guarded_def prog_simps)

lemma keeps_write_denied:
  assumes "be_Update (im_config be) = Some False" "be_Create (im_config be) = Some False"
    "be_Delete (im_config be) = Some False"
  shows "keeps (adds P) (Update be entity oid body)" "keeps (adds P) (Create be entity body)"
    "keeps (adds P) (Delete be entity oid)" "keeps (adds P) (MultiDelete be entity ids)"
    "keeps (adds P) (MultiUpdate be entity objs)" "keeps (adds P) (MultiCreate be entity repl objs)"
  using assms
  by (simp_all add: Update_def Create_def Delete_def MultiDelete_def MultiUpdate_def MultiCreate_def
      keeps_def guarded_denied)

section \<open>Operations without a transaction\<close>

lemma keeps_single:
  assumes P: "\<And>q a. P (CQuery q a)" "\<And>q a. P (CExec q a)"
  shows "keeps (adds P) (Delete be entity oid)"
    and "cache_lawful (im_mdCache be) \<Longrightarrow> keeps (adds P) (Update be entity oid body)"
    and "cache_lawful (im_mdCache be) \<Longrightarrow> keeps (adds P) (Create be entity body)"
    and "keeps (adds P) (MultiDelete be entity ids)"
proof -
  show del: "keeps (adds P) (Delete be entity oid)" for oid
    unfolding Delete_def by (intro keeps_guarded) (auto intro!: keeps_reads P split: sum.splits)
  show "cache_lawful (im_mdCache be) \<Longrightarrow> keeps (adds P) (Update be entity oid body)"
    unfolding Update_def Let_def
    by (intro keeps_guarded) (auto intro!: keeps_reads keeps_remapped P split: prod.splits sum.splits)
  show "cache_lawful (im_mdCache be) \<Longrightarrow> keeps (adds P) (Create be entity body)"
    unfolding Create_def Let_def
    by (intro keeps_guarded) (auto intro!: keeps_reads keeps_remapped P split: prod.splits sum.splits)
  show "keeps (adds P) (MultiDelete be entity ids)"
    unfolding MultiDelete_def Let_def
    by (intro keeps_guarded) (auto intro!: keeps_reads del P split: sum.splits)
qed

end
