(* ===== verification/Crud_Tx.thy ===== *)
theory Crud_Tx
  imports Crud_Effects
begin

text \<open>
  Batches in a transaction. The locale \<open>tx_batch\<close> is the contract that \<^verbatim>\<open>MultiUpdate\<close> and
  \<^verbatim>\<open>MultiCreate\<close> share: objects are prepared and executed in turn, the first failing statement rolls
  back, and the end commits. Its lemmas give the trace of such a batch and its atomicity.
\<close>

section \<open>The contract of a batch\<close>

primrec is_txexec :: "dbcall \<Rightarrow> bool" where
  "is_txexec (CTxExec q a) = True"
| "is_txexec (CQuery q a) = False"
| "is_txexec (CExec q a) = False"
| "is_txexec CBegin = False"
| "is_txexec CCommit = False"
| "is_txexec CRollback = False"
| "is_txexec CClose = False"
| "is_txexec (CSet s n) = False"

text \<open>
  The calls of a batch over the objects \<open>xs\<close> that ended with \<open>r\<close>, queries aside, where \<open>P x c\<close> says
  that \<open>c\<close> is a statement for the object \<open>x\<close>: the statements are those of the objects at the front
  of \<open>xs\<close>, in their order and one for each. Success is a statement for every object and a commit; an
  error is a failing statement and a rollback, or a failed commit after all of them; a panic leaves
  an object without its statement, and neither commit nor rollback.
\<close>

definition batch_trace :: "('o \<Rightarrow> dbcall \<Rightarrow> bool) \<Rightarrow> 'o list \<Rightarrow> goerr option outcome \<Rightarrow> dbcall list \<Rightarrow> bool" where
  "batch_trace P xs r evs =
     (let txs = filter (\<lambda>c. \<not> is_query c) evs;
          stmts = takeWhile is_txexec txs;
          fin = dropWhile is_txexec txs
      in list_all2 P (take (length stmts) xs) stmts \<and>
         (case r of
            Returns None \<Rightarrow> length stmts = length xs \<and> fin = [CCommit]
          | Returns (Some e) \<Rightarrow> (stmts \<noteq> [] \<and> fin = [CRollback]) \<or> (length stmts = length xs \<and> fin = [CCommit])
          | Panics msg \<Rightarrow> length stmts < length xs \<and> fin = []))"

lemma filter_queries: "list_all is_query qs \<Longrightarrow> filter (\<lambda>c. \<not> is_query c) (qs @ evs) = filter (\<lambda>c. \<not> is_query c) evs"
  by (simp add: filter_empty_conv list_all_iff)

lemma batch_trace_step:
  assumes "list_all is_query qs" and "batch_trace P xs r evs" and "P x (CTxExec q a)"
  shows "batch_trace P (x # xs) r (qs @ CTxExec q a # evs)"
  using assms filter_queries [of qs "CTxExec q a # evs"]
  by (auto simp: batch_trace_def Let_def split: outcome.splits option.splits)

lemma batch_trace_ends:
  assumes "list_all is_query qs"
  shows "P x (CTxExec q a) \<Longrightarrow> batch_trace P (x # xs) (Returns (Some e)) (qs @ [CTxExec q a, CRollback])"
    and "batch_trace P [] (Returns r) [CCommit]"
    and "batch_trace P (x # xs) (Panics msg) qs"
  using assms filter_queries [of qs "[CTxExec q a, CRollback]"] filter_queries [of qs "[]"]
  by (auto simp: batch_trace_def Let_def split: option.splits)

text \<open>Programs that leave a view of the database state unchanged.\<close>

definition same_view :: "('d \<Rightarrow> 's) \<Rightarrow> ('d, 'c) world \<Rightarrow> ('d, 'c) world \<Rightarrow> bool" where
  "same_view view w w' \<longleftrightarrow> view (w_db w') = view (w_db w)"

text \<open>
  What a transactional database promises of its committed state: reading, starting a transaction,
  statements inside it, rolling back and a commit that fails leave it as it was.
\<close>

definition transactional :: "'d driver \<Rightarrow> ('d \<Rightarrow> 's) \<Rightarrow> bool" where
  "transactional drv view \<longleftrightarrow>
     (\<forall>q a d. view (snd (drv_Query drv q a d)) = view d) \<and>
     (\<forall>d. view (snd (drv_Begin drv d)) = view d) \<and>
     (\<forall>q a d. view (snd (drv_TxExec drv q a d)) = view d) \<and>
     (\<forall>d. view (snd (drv_Rollback drv d)) = view d) \<and>
     (\<forall>d. fst (drv_Commit drv d) \<noteq> None \<longrightarrow> view (snd (drv_Commit drv d)) = view d)"

lemma same_view_refl [simp]: "same_view view w w"
  by (simp add: same_view_def)

lemma same_view_reflp [simp, intro]: "reflp (same_view view)" and same_view_transp [simp, intro]: "transp (same_view view)"
  by (auto simp: same_view_def reflp_def transp_def)

locale tx_batch =
  fixes h :: "'d driver option"
    and prepare :: "'o \<Rightarrow> (('d, 'c) world, string \<times> gval list) prog"
    and wrap :: "string \<Rightarrow> goerr \<Rightarrow> goerr"
    and loop :: "'o list \<Rightarrow> (('d, 'c) world, goerr option) prog"
  assumes loop_Nil: "loop [] = tx_Commit h"
    and loop_Cons: "loop (x # xs) =
      pbind (prepare x) (\<lambda>(q, a). pbind (tx_ExecContext h q a) (\<lambda>r. case r of
        Some err \<Rightarrow> pbind (tx_Rollback h) (\<lambda>rb. preturn (errors_Join [Some (wrap q err), rb]))
      | None \<Rightarrow> loop xs))"
begin

lemma rollback_error: "errors_Join [Some e, rb] \<noteq> None"
  by (simp add: errors_Join_None)

text \<open>The three ways a step of the batch goes on: the preparation panics, the statement fails and
  is rolled back, or the rest of the batch runs.\<close>

lemma loop_step:
  assumes h: "h = Some drv" and run: "loop (x # xs) w = (r, w')"
  obtains msg where "prepare x w = (Panics msg, w')" "r = Panics msg"
  | q a w1 e d2 rb d3 where "prepare x w = (Returns (q, a), w1)"
      "drv_TxExec drv q a (w_db w1) = (Some e, d2)" "drv_Rollback drv d2 = (rb, d3)"
      "r = Returns (errors_Join [Some (wrap q e), rb])"
      "w' = w1\<lparr>w_db := d3, w_calls := w_calls w1 @ [CTxExec q a, CRollback]\<rparr>"
  | q a w1 d2 where "prepare x w = (Returns (q, a), w1)"
      "drv_TxExec drv q a (w_db w1) = (None, d2)"
      "loop xs (w1\<lparr>w_db := d2, w_calls := w_calls w1 @ [CTxExec q a]\<rparr>) = (r, w')"
proof (cases "prepare x w")
  case (Pair o1 w1)
  show ?thesis
  proof (cases o1)
    case (Panics msg)
    with Pair run show ?thesis by (intro that(1)) (auto simp: loop_Cons pbind_def)
  next
    case (Returns qa)
    obtain q a where qa: "qa = (q, a)" by (cases qa)
    obtain er d2 where ex: "drv_TxExec drv q a (w_db w1) = (er, d2)" by fastforce
    show ?thesis
    proof (cases er)
      case None
      with Pair Returns qa ex run h show ?thesis
        by (intro that(3)) (auto simp: loop_Cons pbind_def tx_ExecContext_def on_db_def db_call_def)
    next
      case (Some e)
      obtain rb d3 where rb: "drv_Rollback drv d2 = (rb, d3)" by fastforce
      with Some Pair Returns qa ex run h show ?thesis
        by (intro that(2)) (auto simp: loop_Cons pbind_def tx_ExecContext_def on_db_def db_call_def
            tx_Rollback_def preturn_def)
    qed
  qed
qed

lemma loop_end:
  assumes "h = Some drv" and "loop [] w = (r, w')"
  obtains e d1 where "drv_Commit drv (w_db w) = (e, d1)" "r = Returns e"
    "w' = w\<lparr>w_db := d1, w_calls := w_calls w @ [CCommit]\<rparr>"
proof -
  obtain e d1 where c: "drv_Commit drv (w_db w) = (e, d1)" by fastforce
  with assms show ?thesis
    by (intro that [OF c]) (auto simp: loop_Nil tx_Commit_def on_db_def db_call_def)
qed

lemma loop_trace:
  assumes h: "h = Some drv" and quiet: "\<And>x. keeps (adds is_query) (prepare x)"
    and stmt: "\<And>x w q a w1. prepare x w = (Returns (q, a), w1) \<Longrightarrow> P x (CTxExec q a)"
    and run: "loop xs w = (r, w')"
  shows "\<exists>evs. w_calls w' = w_calls w @ evs \<and> batch_trace P xs r evs"
  using run
proof (induction xs arbitrary: w)
  case Nil
  from h Nil show ?case by (rule loop_end) (auto intro!: batch_trace_ends(2) [of "[]"])
next
  case (Cons x xs)
  have quiet': "\<exists>qs. w_calls (snd (prepare x w)) = w_calls w @ qs \<and> list_all is_query qs"
    using quiet [of x] by (auto simp: keeps_def adds_def)
  from h Cons.prems show ?case
  proof (cases rule: loop_step)
    case (1 msg)
    with quiet' show ?thesis by (auto intro!: batch_trace_ends(3))
  next
    case (2 q a w1 e d2 rb d3)
    obtain e' where e': "errors_Join [Some (wrap q e), rb] = Some e'" using rollback_error by blast
    from 2 quiet' stmt [OF 2(1)] show ?thesis unfolding 2(4) e' by (auto intro!: batch_trace_ends(1))
  next
    case (3 q a w1 d2)
    with Cons.IH [OF 3(3)] quiet' stmt [OF 3(1)] show ?thesis by (auto intro!: batch_trace_step)
  qed
qed

lemma loop_atomic:
  assumes h: "h = Some drv" and tx: "transactional drv view"
    and quiet: "\<And>x. keeps (same_view view) (prepare x)"
    and run: "loop xs w = (r, w')" and failed: "r \<noteq> Returns None"
  shows "same_view view w w'"
  using run
proof (induction xs arbitrary: w)
  case Nil
  from h Nil show ?case
    by (rule loop_end) (use tx failed in \<open>auto simp: transactional_def same_view_def, metis fst_conv snd_conv option.distinct(1)\<close>)
next
  case (Cons x xs)
  have step: "same_view view w (snd (prepare x w))" using quiet [of x] by (auto simp: keeps_def)
  from h Cons.prems show ?case
  proof (cases rule: loop_step)
    case (1 msg)
    with step show ?thesis by simp
  next
    case (2 q a w1 e d2 rb d3)
    then have "view d2 = view (w_db w1)" "view d3 = view d2"
      using tx unfolding transactional_def by (metis snd_conv)+
    with 2 step show ?thesis by (simp add: same_view_def)
  next
    case (3 q a w1 d2)
    then have "view d2 = view (w_db w1)" using tx unfolding transactional_def by (metis snd_conv)
    with Cons.IH [OF 3(3)] 3 step show ?thesis by (simp add: same_view_def)
  qed
qed

end

section \<open>The batches of the program\<close>

definition prep_update :: "('d, 'c) impl \<Rightarrow> string \<Rightarrow> gmap \<Rightarrow> (('d, 'c) world, string \<times> gval list) prog" where
  "prep_update be entity obj0 =
     pbind (plift (IdColumn (im_config be) entity)) (\<lambda>idCol.
     pbind (plift (as_go_string (gmap_get obj0 idCol))) (\<lambda>oid.
     pbind (remapped be entity obj0) (\<lambda>obj.
       preturn (case createUpdateQuery entity idCol obj of (qry, vals) \<Rightarrow> (qry, vals @ [VStr oid])))))"

definition prep_create :: "('d, 'c) impl \<Rightarrow> string \<Rightarrow> bool \<Rightarrow> gmap \<Rightarrow> (('d, 'c) world, string \<times> gval list) prog" where
  "prep_create be entity replace obj0 =
     pbind (remapped be entity obj0) (\<lambda>obj.
       preturn (if replace then createReplaceQuery entity obj else createInsertQuery entity obj))"

interpretation mu: tx_batch "im_db be" "prep_update be entity" "\<lambda>qry err. err" "multiUpdate_loop be entity"
  for be entity
  by unfold_locales (simp_all add: prep_update_def pbind_assoc Let_def case_prod_beta)

interpretation mc: tx_batch "im_db be" "prep_create be entity replace"
    "\<lambda>qry err. WrapErrorWithStatus (''query failed: '' @ qry) err StatusInternalServerError"
    "multiCreate_loop be entity replace"
  for be entity replace
  by unfold_locales (simp_all add: prep_create_def pbind_assoc Let_def case_prod_beta)

lemma keeps_prep:
  assumes "cache_lawful (im_mdCache be)"
  shows "keeps (adds is_query) (prep_update be entity obj)" and "keeps (adds is_query) (prep_create be entity repl obj)"
  using assms unfolding prep_update_def prep_create_def
  by (auto intro!: keeps_remapped)

text \<open>The statement of an object: its body is the object as the metadata of the table converts it, or
  the object itself when there is no metadata; an UPDATE takes the id of the object last.\<close>

definition converted :: "('d, 'c) impl \<Rightarrow> string \<Rightarrow> gmap \<Rightarrow> gmap \<Rightarrow> bool" where
  "converted be entity obj body \<longleftrightarrow>
     (\<exists>w md. fst (mdCache_Get be entity w) = Returns md \<and>
        body = (case md of None \<Rightarrow> obj | Some m \<Rightarrow> remapBody m obj))"

definition update_stmt :: "('d, 'c) impl \<Rightarrow> string \<Rightarrow> gmap \<Rightarrow> dbcall \<Rightarrow> bool" where
  "update_stmt be entity obj c \<longleftrightarrow>
     (\<exists>idc oid body. IdColumn (im_config be) entity = Returns idc \<and> gmap_get obj idc = VStr oid \<and>
        converted be entity obj body \<and>
        c = CTxExec (fst (createUpdateQuery entity idc body)) (snd (createUpdateQuery entity idc body) @ [VStr oid]))"

definition create_stmt :: "('d, 'c) impl \<Rightarrow> string \<Rightarrow> bool \<Rightarrow> gmap \<Rightarrow> dbcall \<Rightarrow> bool" where
  "create_stmt be entity replace obj c \<longleftrightarrow>
     (\<exists>body. converted be entity obj body \<and>
        c = (if replace then CTxExec (fst (createReplaceQuery entity body)) (snd (createReplaceQuery entity body))
             else CTxExec (fst (createInsertQuery entity body)) (snd (createInsertQuery entity body))))"

lemma remapped_converted: "remapped be entity obj w = (Returns body, w1) \<Longrightarrow> converted be entity obj body"
  unfolding converted_def remapped_def
  by (intro exI [of _ w]) (auto simp: pbind_def preturn_def split: prod.splits outcome.splits)

lemma as_go_string_iff: "as_go_string v = Returns s \<longleftrightarrow> v = VStr s"
  by (cases v) (auto simp: as_go_string_def)

lemma prep_stmt:
  "prep_update be entity obj w = (Returns (q, a), w1) \<Longrightarrow> update_stmt be entity obj (CTxExec q a)"
  "prep_create be entity replace obj w = (Returns (q, a), w1) \<Longrightarrow> create_stmt be entity replace obj (CTxExec q a)"
proof -
  assume run: "prep_update be entity obj w = (Returns (q, a), w1)"
  then obtain idc where idc: "IdColumn (im_config be) entity = Returns idc"
    by (cases "IdColumn (im_config be) entity") (auto simp: prep_update_def pbind_def plift_def)
  from run idc obtain oid where oid: "as_go_string (gmap_get obj idc) = Returns oid"
    by (cases "as_go_string (gmap_get obj idc)") (auto simp: prep_update_def pbind_def plift_def)
  from run idc oid obtain body where body: "remapped be entity obj w = (Returns body, w1)"
      "(q, a) = (case createUpdateQuery entity idc body of (qry, vals) \<Rightarrow> (qry, vals @ [VStr oid]))"
    by (cases "remapped be entity obj w"; cases "fst (remapped be entity obj w)")
       (auto simp: prep_update_def pbind_def plift_def preturn_def)
  from idc oid remapped_converted [OF body(1)] body(2) show "update_stmt be entity obj (CTxExec q a)"
    unfolding update_stmt_def
    by (intro exI [of _ idc] exI [of _ oid] exI [of _ body]) (auto simp: as_go_string_iff split: prod.splits)
next
  assume run: "prep_create be entity replace obj w = (Returns (q, a), w1)"
  then obtain body where body: "remapped be entity obj w = (Returns body, w1)"
      "(q, a) = (if replace then createReplaceQuery entity body else createInsertQuery entity body)"
    by (cases "remapped be entity obj w"; cases "fst (remapped be entity obj w)")
       (auto simp: prep_create_def pbind_def preturn_def)
  from remapped_converted [OF body(1)] body(2) [symmetric] show "create_stmt be entity replace obj (CTxExec q a)"
    unfolding create_stmt_def by (intro exI [of _ body]) (auto split: if_splits)
qed

lemma batch_loop_trace:
  assumes "im_db be = Some drv" "cache_lawful (im_mdCache be)"
  shows "multiUpdate_loop be entity objs w = (r, w') \<Longrightarrow>
      \<exists>evs. w_calls w' = w_calls w @ evs \<and> batch_trace (update_stmt be entity) objs r evs"
    and "multiCreate_loop be entity repl objs w = (r, w') \<Longrightarrow>
      \<exists>evs. w_calls w' = w_calls w @ evs \<and> batch_trace (create_stmt be entity repl) objs r evs"
proof -
  assume "multiUpdate_loop be entity objs w = (r, w')"
  then show "\<exists>evs. w_calls w' = w_calls w @ evs \<and> batch_trace (update_stmt be entity) objs r evs"
    by (rule mu.loop_trace [OF assms(1) keeps_prep(1) [OF assms(2)], rotated]) (rule prep_stmt(1))
next
  assume "multiCreate_loop be entity repl objs w = (r, w')"
  then show "\<exists>evs. w_calls w' = w_calls w @ evs \<and> batch_trace (create_stmt be entity repl) objs r evs"
    by (rule mc.loop_trace [OF assms(1) keeps_prep(2) [OF assms(2)], rotated]) (rule prep_stmt(2))
qed

text \<open>Nothing but a commit changes the committed state, so the preparations keep it too.\<close>

lemma keeps_view_db:
  assumes "transactional drv view"
  shows "keeps (same_view view) (db_QueryContext (Some drv) q a)"
    and "keeps (same_view view) (db_BeginTx (Some drv))"
  using assms
  by (auto simp: keeps_def same_view_def db_QueryContext_def db_BeginTx_def on_db_def db_call_def
      transactional_def split: prod.splits) (metis snd_conv)+

lemma keeps_view_Load:
  assumes "transactional drv view" "im_db be = Some drv"
  shows "keeps (same_view view) (Load be key)"
proof -
  have set: "keeps (same_view view) (\<lambda>w. (Returns (Some md), w\<lparr>w_cache := cache_Set (im_mdCache be) key md (w_cache w)\<rparr>))"
    for md
    by (simp add: keeps_def same_view_def)
  show ?thesis
    unfolding Load_def Let_def assms(2)
    by (auto intro!: keeps_pbind keeps_ebind keeps_pure keeps_view_db assms(1) set split: sum.splits)
qed

lemma keeps_view_remapped:
  assumes "transactional drv view" "im_db be = Some drv" "cache_lawful (im_mdCache be)"
  shows "keeps (same_view view) (remapped be entity body)"
proof -
  have "keeps (same_view view) (mdCache_Get be entity)"
    unfolding keeps_def
  proof
    fix w
    obtain r w' where g: "mdCache_Get be entity w = (r, w')" by fastforce
    obtain lr lw where l: "Load be entity w = (lr, lw)" by fastforce
    have "same_view view w lw" using keeps_view_Load [OF assms(1,2), of entity] l by (metis keeps_def snd_conv)
    then show "same_view view w (snd (mdCache_Get be entity w))"
      using assms(3) [unfolded cache_lawful_def, rule_format, of "Load be" entity w] g l
      by (auto simp: mdCache_Get_def same_view_def)
  qed
  then show ?thesis unfolding remapped_def by (intro keeps_pbind keeps_pure) auto
qed

lemma keeps_view_prep:
  assumes "transactional drv view" "im_db be = Some drv" "cache_lawful (im_mdCache be)"
  shows "keeps (same_view view) (prep_update be entity obj)"
    and "keeps (same_view view) (prep_create be entity repl obj)"
  unfolding prep_update_def prep_create_def
  by (auto intro!: keeps_pbind keeps_pure keeps_view_remapped assms)

text \<open>A batch from the start of its transaction.\<close>

definition in_tx :: "'d driver option \<Rightarrow> (('d, 'c) world, goerr option) prog \<Rightarrow> (('d, 'c) world, goerr option) prog" where
  "in_tx h loop = pbind (db_BeginTx h) (\<lambda>r. case r of Some err \<Rightarrow> preturn (Some err) | None \<Rightarrow> loop)"

lemma in_tx_cases:
  assumes "in_tx (Some drv) loop w = (r, w')"
  obtains e d1 where "drv_Begin drv (w_db w) = (Some e, d1)" "r = Returns (Some e)"
      "w' = w\<lparr>w_db := d1, w_calls := w_calls w @ [CBegin]\<rparr>"
  | d1 where "drv_Begin drv (w_db w) = (None, d1)"
      "loop (w\<lparr>w_db := d1, w_calls := w_calls w @ [CBegin]\<rparr>) = (r, w')"
proof -
  obtain b d1 where b: "drv_Begin drv (w_db w) = (b, d1)" by fastforce
  with assms that show thesis
    by (cases b) (auto simp: in_tx_def pbind_def db_BeginTx_def on_db_def db_call_def preturn_def)
qed

text \<open>The trace of a whole batch: the start of the transaction, and then \<open>batch_trace\<close> unless
  starting failed.\<close>

definition tx_trace :: "('o \<Rightarrow> dbcall \<Rightarrow> bool) \<Rightarrow> 'o list \<Rightarrow> goerr option outcome \<Rightarrow> dbcall list \<Rightarrow> bool" where
  "tx_trace P xs r evs \<longleftrightarrow>
     (case evs of
        CBegin # rest \<Rightarrow> batch_trace P xs r rest \<or> (rest = [] \<and> (case r of Returns (Some e) \<Rightarrow> True | _ \<Rightarrow> False))
      | _ \<Rightarrow> False)"

lemma in_tx_trace:
  assumes "in_tx (Some drv) loop w = (r, w')"
    and "\<And>w. loop w = (r, w') \<Longrightarrow> \<exists>evs. w_calls w' = w_calls w @ evs \<and> batch_trace P xs r evs"
  shows "\<exists>evs. w_calls w' = w_calls w @ evs \<and> tx_trace P xs r evs"
  using assms(1)
proof (cases rule: in_tx_cases)
  case (1 e d1)
  then show ?thesis by (intro exI [of _ "[CBegin]"]) (simp add: tx_trace_def)
next
  case (2 d1)
  with assms(2) [OF 2(2)] show ?thesis by (auto simp: tx_trace_def)
qed

lemma in_tx_atomic:
  assumes "in_tx (Some drv) loop w = (r, w')" and "transactional drv view"
    and "\<And>w. loop w = (r, w') \<Longrightarrow> same_view view w w'"
  shows "same_view view w w'"
  using assms(1)
proof (cases rule: in_tx_cases)
  case (1 e d1)
  then show ?thesis using assms(2) by (auto simp: same_view_def transactional_def) (metis snd_conv)
next
  case (2 d1)
  then have "view d1 = view (w_db w)" using assms(2) unfolding transactional_def by (metis snd_conv)
  with assms(3) [OF 2(2)] show ?thesis by (simp add: same_view_def)
qed

lemma MultiUpdate_in_tx:
  "be_Update (im_config be) = Some True \<Longrightarrow>
     MultiUpdate be entity objs = in_tx (im_db be) (multiUpdate_loop be entity objs)"
  by (simp add: MultiUpdate_def in_tx_def guarded_allowed)

lemma MultiCreate_in_tx:
  "be_Create (im_config be) = Some True \<Longrightarrow>
     MultiCreate be entity repl objs = in_tx (im_db be) (multiCreate_loop be entity repl objs)"
  by (simp add: MultiCreate_def in_tx_def guarded_allowed)

end
