(* ===== verification/Crud_Properties.thy ===== *)
theory Crud_Properties
  imports Crud_Tx
begin

text \<open>
  Properties of the configuration, of the mapping of rows and of the CRUD operations, with a small
  concrete database that the witnesses run on.
\<close>

section \<open>Configuration\<close>

text \<open>C27: A configuration accepted by \<^verbatim>\<open>CheckAndNormalize\<close> is complete: at least one backend, every
  backend name matches the pattern, every optional field that is dereferenced later is set, and the
  logging, CORS and telemetry sections exist.\<close>

theorem normalize_establishes_config_ok:
  assumes "CheckAndNormalize Check mpath c = Returns (None, c')"
  shows "config_ok c'"
  using CheckAndNormalize_result [OF assms] default_logging_ok [of "cfg_Logging c"]
    normalize_backends_Returns [of "cfg_Backends c" "cfg_Backends c'"]
  by (auto simp: config_ok_def)

definition plain_server :: ServerConfig where
  "plain_server = \<lparr>srv_ListenAddress = '':22001'', srv_APIPrefix = ''/api/v1'', srv_Cors = None, srv_Telemetry = None\<rparr>"

definition plain_backend :: "unit BackendConfig" where
  "plain_backend = \<lparr>be_Driver = None, be_DSN = ''dsn'', be_Create = None, be_Read = None, be_Update = Some True,
     be_Delete = None, be_IdMap = None, be_Queries = [], be_InitDDLs = [], be_MaxOpenConnections = None,
     be_MaxIdleConnections = None, be_ConnMaxLifetime = None, be_ConnMaxIdleTime = None, be_db = None\<rparr>"

definition plain_config :: "unit Config" where
  "plain_config = \<lparr>cfg_Server = plain_server, cfg_Backends = [(''main'', Some plain_backend)], cfg_Logging = None\<rparr>"

lemma main_name: "beNameRE ''main''"
  by (simp add: beNameRE_def name_char_def)

lemma normalize_plain_config:
  "\<exists>c'. CheckAndNormalize (\<lambda>s. (None, s)) ''/metrics'' plain_config = Returns (None, c') \<and>
     cfg_Backends c' = [(''main'', Some (normalize_backend plain_backend))]"
  by (simp add: CheckAndNormalize_def plain_config_def plain_server_def main_name Let_def)

theorem normalize_establishes_config_ok_witness:
  "\<exists>c'. CheckAndNormalize (\<lambda>s. (None, s)) ''/metrics'' plain_config = Returns (None, c') \<and> config_ok c'"
  using normalize_plain_config normalize_establishes_config_ok by blast

text \<open>Normalisation only fills gaps: in an accepted configuration the backends have the same
  names, and every field of a backend that was set keeps its value; unset permissions default to
  reading only, the driver to mysql and the id map to the empty one.\<close>

theorem normalize_fills_gaps:
  assumes "CheckAndNormalize Check mpath c = Returns (None, c')"
  shows "map_of (cfg_Backends c') k = map_option (map_option (\<lambda>be. be\<lparr>
       be_Driver := Some (case be_Driver be of Some d \<Rightarrow> d | None \<Rightarrow> ''mysql''),
       be_IdMap := Some (case be_IdMap be of Some m \<Rightarrow> m | None \<Rightarrow> []),
       be_Create := Some (be_Create be = Some True), be_Read := Some (be_Read be \<noteq> Some False),
       be_Update := Some (be_Update be = Some True), be_Delete := Some (be_Delete be = Some True)\<rparr>))
     (map_of (cfg_Backends c) k)"
proof -
  have "normalize_backend be = be\<lparr>
       be_Driver := Some (case be_Driver be of Some d \<Rightarrow> d | None \<Rightarrow> ''mysql''),
       be_IdMap := Some (case be_IdMap be of Some m \<Rightarrow> m | None \<Rightarrow> []),
       be_Create := Some (be_Create be = Some True), be_Read := Some (be_Read be \<noteq> Some False),
       be_Update := Some (be_Update be = Some True), be_Delete := Some (be_Delete be = Some True)\<rparr>" for be :: "'a BackendConfig"
    by (cases be) (auto simp: normalize_backend_def or_default_def split: option.splits)
  then show ?thesis
    using normalize_backends_lookup [of "cfg_Backends c" "cfg_Backends c'" k] CheckAndNormalize_result [OF assms]
    by (simp add: fun_eq_iff cong: option.map_cong)
qed

theorem normalize_fills_gaps_witness:
  "\<exists>c' be. CheckAndNormalize (\<lambda>s. (None, s)) ''/metrics'' plain_config = Returns (None, c') \<and>
     map_of (cfg_Backends c') ''main'' = Some (Some be) \<and> be_Driver be = Some ''mysql'' \<and>
     be_Read be = Some True \<and> be_Update be = Some True \<and> be_Delete be = Some False"
proof -
  obtain c' where c': "CheckAndNormalize (\<lambda>s. (None, s)) ''/metrics'' plain_config = Returns (None, c')"
    using normalize_plain_config by blast
  have "\<exists>be. map_of (cfg_Backends c') ''main'' = Some (Some be) \<and> be_Driver be = Some ''mysql'' \<and>
     be_Read be = Some True \<and> be_Update be = Some True \<and> be_Delete be = Some False"
    using normalize_fills_gaps [OF c', of "''main''"] by (simp add: plain_config_def plain_backend_def)
  with c' show ?thesis by blast
qed

text \<open>Normalising an accepted configuration again changes nothing, given that the imported check
  of the server section accepts what it has accepted and that the default metrics path is not
  empty.\<close>

theorem normalize_idempotent:
  assumes "CheckAndNormalize Check mpath c = Returns (None, c')"
    and "\<And>s. Check s = (None, s)" and "mpath \<noteq> []"
  shows "CheckAndNormalize Check mpath c' = Returns (None, c')"
proof -
  from CheckAndNormalize_result [OF assms(1)] assms(3) obtain x t
    where bes: "normalize_backends (cfg_Backends c) = Returns (None, cfg_Backends c')" "cfg_Backends c \<noteq> []"
    and c': "cfg_Logging c' = Some (default_logging (cfg_Logging c))" "srv_Cors (cfg_Server c') = Some x"
      "srv_Telemetry (cfg_Server c') = Some t" "tel_Path t \<noteq> []" "srv_APIPrefix (cfg_Server c') \<noteq> []"
    by blast
  have addr: "srv_ListenAddress (cfg_Server c') \<noteq> []"
    using assms(1,2) by (auto simp: CheckAndNormalize_def Let_def outcome_simps split: prod.splits if_splits)
  have "normalize_backends (cfg_Backends c') = Returns (None, cfg_Backends c')" "cfg_Backends c' \<noteq> []"
    using normalize_backends_Returns [OF bes(1)] bes(2) normalize_backends_id [of "cfg_Backends c'"] by auto
  moreover have "default_logging (Some (default_logging lc)) = default_logging lc" for lc
    using default_logging_ok [of lc] by (intro default_logging_id) auto
  ultimately show ?thesis
    using c' addr assms(2) by (cases c'; cases "cfg_Server c'") (simp add: CheckAndNormalize_def Let_def)
qed

theorem normalize_idempotent_witness:
  "\<exists>c'. CheckAndNormalize (\<lambda>s. (None, s)) ''/metrics'' plain_config = Returns (None, c') \<and>
     CheckAndNormalize (\<lambda>s. (None, s)) ''/metrics'' c' = Returns (None, c')"
proof -
  obtain c' where c': "CheckAndNormalize (\<lambda>s. (None, s)) ''/metrics'' plain_config = Returns (None, c')"
    using normalize_plain_config by blast
  have "CheckAndNormalize (\<lambda>s. (None, s)) ''/metrics'' c' = Returns (None, c')"
    by (rule normalize_idempotent [OF c']) simp_all
  with c' show ?thesis by blast
qed

section \<open>Rows\<close>

text \<open>C25: A scanned row becomes an object with exactly the row's columns; each holds its converted
  value, the last one when a name occurs twice.\<close>

theorem row_becomes_object:
  assumes "length vs = length cols" "length cts = length cols"
  shows "\<exists>m. mapEntity (Inr vs) cols cts = Returns (Inr m) \<and> fst ` set m = set cols \<and>
     map_of m = map_of (rev (zip cols (map2 mapValue cts vs)))"
proof -
  obtain m where m: "fill_entity cols cts vs [] = Returns m"
    "map_of m = Map.empty ++ map_of (rev (zip cols (map2 mapValue cts vs)))"
    using fill_entity_Returns [OF assms(2,1), of "[]"] by auto
  with fill_entity_keys [OF m(1)] assms show ?thesis by (simp add: mapEntity_def)
qed

theorem row_becomes_object_witness:
  "\<exists>m. mapEntity (Inr [VInt 7, VBytes [98, 111, 98]]) [''id'', ''name'']
       [\<lparr>ct_Name = ''id'', ct_DatabaseTypeName = ''INT''\<rparr>, \<lparr>ct_Name = ''name'', ct_DatabaseTypeName = ''VARCHAR''\<rparr>] =
     Returns (Inr m) \<and> map_of m ''name'' = Some (VStr ''bob'')"
proof -
  have b: "bytes_text [98, 111, 98] = ''bob''" by code_simp
  let ?cts = "[\<lparr>ct_Name = ''id'', ct_DatabaseTypeName = ''INT''\<rparr>, \<lparr>ct_Name = ''name'', ct_DatabaseTypeName = ''VARCHAR''\<rparr>]"
  let ?vs = "[VInt 7, VBytes [98, 111, 98]]"
  have "length ?vs = length [''id'', ''name'']" "length ?cts = length [''id'', ''name'']" by simp_all
  from row_becomes_object [OF this] obtain m where
    m: "mapEntity (Inr ?vs) [''id'', ''name''] ?cts = Returns (Inr m)"
      "map_of m = map_of (rev (zip [''id'', ''name''] (map2 mapValue ?cts ?vs)))"
    by blast
  have "map_of m ''name'' = Some (VStr ''bob'')" by (simp add: m(2) mapValue_total_bytes b)
  with m(1) show ?thesis by blast
qed

text \<open>NULL is not always kept: in a text column it reads as the empty string, in a DECIMAL
  column as 0 and in a DATETIME or TIMESTAMP column as the zero time, and these cannot be told apart
  from the real values; in any other column it stays null.\<close>

theorem null_reads_as_zero:
  "mapValue ct VNil =
     (if ct_DatabaseTypeName ct \<in> {''VARCHAR'', ''ENUM'', ''CHAR'', ''TEXT''} then mapValue ct (VStr [])
      else if ct_DatabaseTypeName ct = ''DECIMAL'' then mapValue ct (VFloat (F64 False 0 0))
      else if ct_DatabaseTypeName ct \<in> {''DATETIME'', ''TIMESTAMP''} then mapValue ct (VTime zero_time)
      else VNil)"
  by (simp add: mapValue_def null_scan_def Let_def)

text \<open>C24: Binary data and times survive the way out and back: what a BLOB or DATETIME column was
  read as is sent in a JSON body as base64 or RFC 3339 text, and a client that writes the same text
  back makes the server store the same bytes or time.\<close>

theorem stored_value_roundtrip:
  assumes "ct_DatabaseTypeName ct = ''BLOB''" "\<forall>b \<in> set bytes. b < 256"
    and "ct_DatabaseTypeName dt = ''DATETIME''" "stamp_ok t"
  shows "remapValue (VStr (b64_encode bytes)) ct = mapValue ct (VBytes bytes) \<and>
    remapValue (VStr (rfc3339_of (time_String t))) dt = mapValue dt (VTime (time_String t))"
  using assms
  by (simp add: is_date_type_def b64_decode_encode dateTimeLayouts_def rfc3339_roundtrip mapValue_def
      null_scan_def)

definition sample_stamp :: stamp where
  "sample_stamp = \<lparr>t_year = 2024, t_month = 2, t_day = 29, t_hour = 13, t_min = 5, t_sec = 0, t_frac = ''25'', t_off = - 90\<rparr>"

theorem stored_value_roundtrip_witness:
  "remapValue (VStr ''aGk='') \<lparr>ct_Name = ''b'', ct_DatabaseTypeName = ''BLOB''\<rparr> = VBytes [104, 105] \<and>
   remapValue (VStr ''2024-02-29T13:05:00.25-01:30'') \<lparr>ct_Name = ''d'', ct_DatabaseTypeName = ''DATETIME''\<rparr> =
     VTime ''2024-02-29 13:05:00.25 -0130 -0130''"
proof -
  have "b64_encode [104, 105] = ''aGk=''" "stamp_ok sample_stamp"
    "time_String sample_stamp = ''2024-02-29 13:05:00.25 -0130 -0130''"
    "rfc3339_of ''2024-02-29 13:05:00.25 -0130 -0130'' = ''2024-02-29T13:05:00.25-01:30''"
    by code_simp+
  then show ?thesis
    using stored_value_roundtrip [of "\<lparr>ct_Name = ''b'', ct_DatabaseTypeName = ''BLOB''\<rparr>" "[104, 105]"
        "\<lparr>ct_Name = ''d'', ct_DatabaseTypeName = ''DATETIME''\<rparr>" sample_stamp]
    by (simp add: mapValue_total_bytes) (simp add: mapValue_def null_scan_def)
qed

section \<open>A small database\<close>

text \<open>
  For the witnesses: a database whose state is the list of statements that took effect and the list
  of those pending in the transaction; a statement inside a transaction fails when one of its
  arguments is NULL. Queries find nothing.
\<close>

definition small_driver :: "(string list \<times> string list) driver" where
  "small_driver = \<lparr>
     drv_Query = (\<lambda>q a d. (Inr \<lparr>rs_Columns = Inr [], rs_ColumnTypes = Inr [], rs_Rows = [], rs_Err = None\<rparr>, d)),
     drv_Exec = (\<lambda>q a d. (Inr (Inr 1), (fst d @ [q], snd d))),
     drv_Begin = (\<lambda>d. (None, (fst d, []))),
     drv_TxExec = (\<lambda>q a d. if VNil \<in> set a then (Some (MySQLError 1048 ''null''), d) else (None, (fst d, snd d @ [q]))),
     drv_Commit = (\<lambda>d. (None, (fst d @ snd d, []))),
     drv_Rollback = (\<lambda>d. (None, (fst d, []))),
     drv_Close = (\<lambda>d. (None, d))\<rparr>"

definition no_cache :: "('d, unit) cache_ops" where
  "no_cache = \<lparr>cache_Get = (\<lambda>ld key w. (Returns None, w)), cache_Set = (\<lambda>key md c. c)\<rparr>"

definition small_backend :: "(string list \<times> string list) BackendConfig" where
  "small_backend = \<lparr>be_Driver = Some ''mysql'', be_DSN = [], be_Create = Some True, be_Read = Some True,
     be_Update = Some True, be_Delete = Some True, be_IdMap = Some [], be_Queries = [], be_InitDDLs = [],
     be_MaxOpenConnections = None, be_MaxIdleConnections = None, be_ConnMaxLifetime = None,
     be_ConnMaxIdleTime = None, be_db = Some small_driver\<rparr>"

definition small_impl :: "((string list \<times> string list), unit) impl" where
  "small_impl = crud_New no_cache small_backend"

definition small_world :: "((string list \<times> string list), unit) world" where
  "small_world = \<lparr>w_db = ([], []), w_cache = (), w_calls = []\<rparr>"

lemma small_lawful: "cache_lawful no_cache"
  by (simp add: cache_lawful_def no_cache_def Let_def split: prod.splits)

lemma small_transactional: "transactional small_driver fst"
  by (simp add: transactional_def small_driver_def)

lemma small_fields [simp]:
  "im_config small_impl = small_backend" "im_mdCache small_impl = no_cache"
  "be_Create small_backend = Some True" "be_Update small_backend = Some True" "be_Delete small_backend = Some True"
  "be_Read small_backend = Some True" "be_db small_backend = Some small_driver" "be_IdMap small_backend = Some []"
  by (simp_all add: small_impl_def crud_New_def small_backend_def)

lemma small_id [simp]: "IdColumn small_backend ent = Returns ''id''"
  by (simp add: IdColumn_def)

lemma small_remapped [simp]: "remapped small_impl ent body = preturn body"
  by (rule ext) (simp add: remapped_def mdCache_Get_def no_cache_def pbind_def preturn_def)

lemma small_db [simp]: "im_db small_impl = Some small_driver"
  by (simp add: im_db_def DB_def)

lemmas small_runs = guarded_allowed prog_simps db_BeginTx_def tx_ExecContext_def tx_Commit_def tx_Rollback_def
  db_ExecContext_def db_QueryContext_def on_db_def bind_db_call db_call_def pbind_def preturn_def plift_def

section \<open>Batches\<close>

text \<open>C9: A batch update or insert that the configuration allows runs in one transaction: the driver
  sees the start, then one statement per object in the order of the objects, each the UPDATE (with the
  object's id as its last argument), INSERT or REPLACE of that object's body, then exactly one commit when
  all went well; a failing statement ends the batch and is followed by a rollback; only a panic leaves the
  transaction open, before its last statement. Metadata queries may come in between. A batch that the
  configuration forbids makes no call.\<close>

theorem batch_is_one_transaction:
  assumes "im_db be = Some drv" "cache_lawful (im_mdCache be)"
  shows "(be_Update (im_config be) = Some True \<longrightarrow>
           (\<exists>evs. w_calls (snd (MultiUpdate be entity objs w)) = w_calls w @ evs \<and>
              tx_trace (update_stmt be entity) objs (fst (MultiUpdate be entity objs w)) evs)) \<and>
         (be_Create (im_config be) = Some True \<longrightarrow>
           (\<exists>evs. w_calls (snd (MultiCreate be entity repl objs w)) = w_calls w @ evs \<and>
              tx_trace (create_stmt be entity repl) objs (fst (MultiCreate be entity repl objs w)) evs)) \<and>
         (be_Update (im_config be) = Some False \<longrightarrow> MultiUpdate be entity objs w = (Returns (Some errUpdateNotAllowed), w)) \<and>
         (be_Create (im_config be) = Some False \<longrightarrow> MultiCreate be entity repl objs w = (Returns (Some errCreateNotAllowed), w))"
proof -
  have trace: "\<exists>evs. w_calls (snd (in_tx (Some drv) loop w)) = w_calls w @ evs \<and>
      tx_trace P objs (fst (in_tx (Some drv) loop w)) evs"
    if "\<And>w r w'. loop w = (r, w') \<Longrightarrow> \<exists>evs. w_calls w' = w_calls w @ evs \<and> batch_trace P objs r evs" for loop and P :: "gmap \<Rightarrow> _"
    by (cases "in_tx (Some drv) loop w") (use in_tx_trace [OF _ that] in simp)
  show ?thesis
    using trace [OF batch_loop_trace(1) [OF assms]] trace [OF batch_loop_trace(2) [OF assms]]
      MultiUpdate_in_tx [of be] MultiCreate_in_tx [of be] assms(1)
    by (simp add: MultiUpdate_def [of be] MultiCreate_def [of be] guarded_denied)
qed

definition good_obj :: gmap where
  "good_obj = [(''id'', VStr ''1''), (''a'', VBool True)]"

definition bad_obj :: gmap where
  "bad_obj = [(''id'', VStr ''2''), (''a'', VNil)]"

lemma small_columns:
  "sorted_cols good_obj = [''a'', ''id'']" "sorted_cols bad_obj = [''a'', ''id'']"
  by (simp_all add: sorted_cols_def good_obj_def bad_obj_def less_char_def)

lemma small_update: "\<exists>e w'. MultiUpdate small_impl ''t'' [good_obj, bad_obj] small_world = (Returns (Some e), w')"
  by (simp add: MultiUpdate_def small_runs small_world_def small_driver_def update_shape small_columns
      good_obj_def bad_obj_def gmap_get_def as_go_string_def errors_Join_def List.map_filter_def)

lemma small_create: "\<exists>e w'. MultiCreate small_impl ''t'' False [good_obj, bad_obj] small_world = (Returns (Some e), w')"
  by (simp add: MultiCreate_def small_runs small_world_def small_driver_def createInsertQuery_def insert_shape small_columns
      good_obj_def bad_obj_def gmap_get_def errors_Join_def List.map_filter_def)

theorem batch_is_one_transaction_witness:
  "\<exists>e w'. MultiUpdate small_impl ''t'' [good_obj, bad_obj] small_world = (Returns (Some e), w') \<and>
     tx_trace (update_stmt small_impl ''t'') [good_obj, bad_obj] (Returns (Some e)) (w_calls w')"
proof -
  obtain e w' where u: "MultiUpdate small_impl ''t'' [good_obj, bad_obj] small_world = (Returns (Some e), w')"
    using small_update by blast
  have "cache_lawful (im_mdCache small_impl)" by (simp add: small_lawful)
  from batch_is_one_transaction [OF small_db this, of "''t''" "[good_obj, bad_obj]" small_world False] u
  show ?thesis by (auto simp: small_world_def)
qed

text \<open>C8: A batch is atomic: over a transactional database, when \<^verbatim>\<open>MultiUpdate\<close> or \<^verbatim>\<open>MultiCreate\<close>
  ends in any way but success, the committed state is what it was before.\<close>

theorem batch_is_atomic:
  assumes "im_db be = Some drv" "cache_lawful (im_mdCache be)" "transactional drv view"
  shows "(fst (MultiUpdate be entity objs w) \<noteq> Returns None \<longrightarrow>
           view (w_db (snd (MultiUpdate be entity objs w))) = view (w_db w)) \<and>
         (fst (MultiCreate be entity repl objs w) \<noteq> Returns None \<longrightarrow>
           view (w_db (snd (MultiCreate be entity repl objs w))) = view (w_db w))"
proof -
  note prep = keeps_view_prep [OF assms(3,1,2)]
  have guard: "view (w_db (snd (guarded a denied m w))) = view (w_db w)"
    if "m = in_tx (Some drv) loop" "fst (guarded a denied m w) \<noteq> Returns None"
      "\<And>w r w'. loop w = (r, w') \<Longrightarrow> r \<noteq> Returns None \<Longrightarrow> same_view view w w'" for a denied m loop
  proof (cases a)
    case None
    then show ?thesis by (simp add: guarded_missing)
  next
    case (Some b)
    obtain r w' where run: "in_tx (Some drv) loop w = (r, w')" by fastforce
    show ?thesis
    proof (cases b)
      case True
      with Some that(1,2) run have "r \<noteq> Returns None" by (simp add: guarded_allowed)
      from in_tx_atomic [OF run assms(3) that(3) [OF _ this]] Some True that(1) run show ?thesis
        by (simp add: guarded_allowed same_view_def)
    qed (simp add: Some guarded_denied)
  qed
  have "MultiUpdate be entity objs = guarded (be_Update (im_config be)) (Some errUpdateNotAllowed)
      (in_tx (Some drv) (multiUpdate_loop be entity objs))"
    "MultiCreate be entity repl objs = guarded (be_Create (im_config be)) (Some errCreateNotAllowed)
      (in_tx (Some drv) (multiCreate_loop be entity repl objs))"
    using assms(1) by (simp_all add: MultiUpdate_def MultiCreate_def in_tx_def)
  then show ?thesis
    using guard [OF refl _ mu.loop_atomic [OF assms(1,3) prep(1)]]
      guard [OF refl _ mc.loop_atomic [OF assms(1,3) prep(2)]] by simp
qed

theorem batch_is_atomic_witness:
  "\<exists>e w'. MultiUpdate small_impl ''t'' [good_obj, bad_obj] small_world = (Returns (Some e), w') \<and> fst (w_db w') = []"
proof -
  obtain e w' where u: "MultiUpdate small_impl ''t'' [good_obj, bad_obj] small_world = (Returns (Some e), w')"
    using small_update by blast
  have "cache_lawful (im_mdCache small_impl)" by (simp add: small_lawful)
  from batch_is_atomic [OF small_db this small_transactional, of "''t''" "[good_obj, bad_obj]" small_world] u
  show ?thesis by (simp add: small_world_def)
qed

text \<open>\<^verbatim>\<open>MultiUpdate\<close> asserts that the id of every object is a string. An object whose id is
  anything else (a JSON number, or missing) makes it panic after the transaction was started: the
  driver sees the start and neither a statement, nor a commit, nor a rollback.\<close>

theorem multi_update_numeric_id_panics:
  assumes "im_db be = Some drv" "be_Update (im_config be) = Some True"
    and "IdColumn (im_config be) entity = Returns idc" "\<forall>s. gmap_get obj idc \<noteq> VStr s"
    and "fst (drv_Begin drv (w_db w)) = None"
  shows "\<exists>msg w'. MultiUpdate be entity (obj # objs) w = (Panics msg, w') \<and> w_calls w' = w_calls w @ [CBegin]"
proof -
  obtain d1 where "drv_Begin drv (w_db w) = (None, d1)" using assms(5) by (cases "drv_Begin drv (w_db w)") auto
  moreover obtain msg where "as_go_string (gmap_get obj idc) = Panics msg"
    using assms(4) by (cases "gmap_get obj idc") (auto simp: as_go_string_def)
  ultimately show ?thesis
    using assms(1-3) by (simp add: MultiUpdate_def small_runs)
qed

theorem multi_update_numeric_id_panics_witness:
  "\<exists>msg w'. MultiUpdate small_impl ''t'' [[(''id'', VFloat (F64 False 5 0))]] small_world = (Panics msg, w') \<and>
     w_calls w' = [CBegin]"
  using multi_update_numeric_id_panics [OF small_db, of "''t''" "''id''" "[(''id'', VFloat (F64 False 5 0))]" small_world "[]"]
  by (simp add: gmap_get_def small_world_def small_driver_def)

text \<open>\<^verbatim>\<open>MultiDelete\<close> of no ids is an error without a statement, of one id the single-row DELETE
  with the id printed as text, and of more one DELETE with as many placeholders as ids and the ids
  themselves as arguments.\<close>

theorem multi_delete_statement:
  assumes "im_db be = Some drv" "be_Delete (im_config be) = Some True"
    and "IdColumn (im_config be) entity = Returns idc"
  shows "w_calls (snd (MultiDelete be entity ids w)) = w_calls w @
    (if ids = [] then []
     else if length ids = 1 then
       [CExec (''DELETE FROM `'' @ entity @ ''` WHERE `'' @ idc @ ''` = ? LIMIT 1'') [VStr (fmt_v (hd ids))]]
     else [CExec (''DELETE FROM `'' @ entity @ ''` WHERE `'' @ idc @ ''` IN ('' @
             join '','' (replicate (length ids) ''?'') @ '')'') ids]) \<and>
    (ids = [] \<longrightarrow> MultiDelete be entity ids w = (Returns (Some errNoObj), w))"
proof (cases ids)
  case Nil
  then show ?thesis using assms by (simp add: MultiDelete_def small_runs)
next
  case (Cons x xs)
  show ?thesis
  proof (cases xs)
    case Nil
    with Cons assms show ?thesis
      by (simp add: MultiDelete_def Delete_def small_runs createSingleDeleteQuery_def createDeleteQueryPrefix_def
          createSingleItemFilter_def bt_def split: prod.splits sum.splits)
  next
    case (Cons y ys)
    note Cons' = this
    have pos: "0 < int (length ids)" using \<open>ids = x # xs\<close> by simp
    have "createMultiDeleteQuery entity idc (int (length ids)) = Returns (''DELETE FROM `'' @ entity @ ''` WHERE `'' @
        idc @ ''` IN ('' @ join '','' (replicate (length ids) ''?'') @ '')'')"
      by (simp add: createMultiDeleteQuery_def multi_filter_shape [OF pos] createDeleteQueryPrefix_def
          quoted_def bt_def)
    with \<open>ids = x # xs\<close> Cons' assms show ?thesis
      by (simp add: MultiDelete_def small_runs split: prod.splits sum.splits del: replicate.simps)
  qed
qed

theorem multi_delete_statement_witness:
  "w_calls (snd (MultiDelete small_impl ''t'' [VInt 1, VStr ''x''] small_world)) =
     [CExec ''DELETE FROM `t` WHERE `id` IN (?,?)'' [VInt 1, VStr ''x'']]"
  using multi_delete_statement [OF small_db, of "''t''" "''id''" "[VInt 1, VStr ''x'']" small_world]
  by (simp add: small_world_def)

section \<open>Reading\<close>

text \<open>C32: \<^verbatim>\<open>ListItems\<close> first counts the matching rows and, only when there are any, selects the page;
  both statements carry the same condition. The total it reports is the count, however many rows
  the page has.\<close>

theorem list_items_statements:
  assumes "im_db be = Some drv" "be_Read (im_config be) = Some True"
    and "qry_where (qry_filter q) = Returns cond" "qry_String q = Returns tail"
    and "drv_Query drv (''SELECT COUNT(1) FROM `'' @ entity @ ''`'' @ cond) [] (w_db w) = (Inr crows, d1)"
    and "scan_row_int crows = Inr cnt"
  shows "w_calls (snd (ListItems be entity (Some q) w)) = w_calls w @
      CQuery (''SELECT COUNT(1) FROM `'' @ entity @ ''`'' @ cond) [] #
      (if cnt > 0 then [CQuery (''SELECT * FROM `'' @ entity @ ''`'' @ tail) []] else []) \<and>
    (\<exists>more. tail = cond @ more) \<and>
    (\<forall>pr w'. ListItems be entity (Some q) w = (Returns (Inr pr), w') \<longrightarrow> pr_TotalCount pr = Some cnt)"
proof -
  have whereExpr: "(if qry_filter q \<noteq> NilE then '' WHERE '' @ fmt_Stringer (fe_String (qry_filter q)) else []) = cond"
    using assms(3) by (auto simp: qry_where_def omap_Returns_iff fmt_Stringer_def split: if_splits)
  have more: "\<exists>more. tail = cond @ more"
    using assms(3,4) by (auto simp: qry_String_def outcome_simps)
  let ?w1 = "w\<lparr>w_db := d1, w_calls := w_calls w @ [CQuery (''SELECT COUNT(1) FROM `'' @ entity @ ''`'' @ cond) []]\<rparr>"
  have count: "db_QueryRow_int (Some drv) (''SELECT COUNT(1) FROM `'' @ entity @ ''`'' @ cond) [] w = (Returns (Inr cnt), ?w1)"
    using assms(5,6) by (simp add: db_QueryRow_int_def ebind_def small_runs)
  obtain fr w2 where fetch: "fetchRows be (''SELECT * FROM `'' @ entity @ ''`'' @ tail) [] ?w1 = (fr, w2)" by fastforce
  have calls: "w_calls w2 = w_calls ?w1 @ [CQuery (''SELECT * FROM `'' @ entity @ ''`'' @ tail) []]"
    using fetch assms(1) by (auto simp: fetchRows_def ebind_def small_runs split: prod.splits sum.splits)
  show ?thesis
    using whereExpr more count fetch calls assms(1,2,4)
    by (cases fr; cases "qry_paging q")
       (auto simp: ListItems_def Let_def ebind_def small_runs split: sum.splits outcome.splits)
qed

definition counting_driver :: "(string list \<times> string list) driver" where
  "counting_driver = small_driver\<lparr>drv_Query := (\<lambda>q a d. (Inr \<lparr>rs_Columns = Inr [''n''],
     rs_ColumnTypes = Inr [\<lparr>ct_Name = ''n'', ct_DatabaseTypeName = ''INT''\<rparr>], rs_Rows = [Inr [VStr ''3'']], rs_Err = None\<rparr>, d))\<rparr>"

definition counting_impl :: "((string list \<times> string list), unit) impl" where
  "counting_impl = crud_New no_cache (small_backend\<lparr>be_db := Some counting_driver\<rparr>)"

lemma counting_fields [simp]:
  "im_db counting_impl = Some counting_driver" "be_Read (im_config counting_impl) = Some True"
  "IdColumn (im_config counting_impl) ent = Returns ''id''"
  by (simp_all add: counting_impl_def crud_New_def im_db_def DB_def IdColumn_def)

theorem list_items_statements_witness:
  "w_calls (snd (ListItems counting_impl ''t'' (Some DefaultQuery) small_world)) =
     [CQuery ''SELECT COUNT(1) FROM `t`'' [], CQuery ''SELECT * FROM `t` LIMIT 0, 20'' []]"
proof -
  have n: "dec_nat 0 = ''0''" "dec_nat 20 = ''20''" by code_simp+
  have tail: "qry_String DefaultQuery = Returns '' LIMIT 0, 20''"
    by (simp add: qry_String_def qry_where_def DefaultQuery_def DefaultPaging_def Page_def page_String_def dec_int_def n)
  have three: "parse_int ''3'' = Some 3" by code_simp
  have "\<exists>crows d1. drv_Query counting_driver ''SELECT COUNT(1) FROM `t`'' [] (w_db small_world) = (Inr crows, d1) \<and>
      scan_row_int crows = Inr 3"
    by (simp add: counting_driver_def small_driver_def scan_row_int_def three)
  then obtain crows d1 where "drv_Query counting_driver (''SELECT COUNT(1) FROM `'' @ ''t'' @ ''`'' @ []) [] (w_db small_world) = (Inr crows, d1)"
    "scan_row_int crows = Inr 3"
    by auto
  moreover have "qry_where (qry_filter DefaultQuery) = Returns []" by (simp add: qry_where_def DefaultQuery_def)
  ultimately have "w_calls (snd (ListItems counting_impl ''t'' (Some DefaultQuery) small_world)) = w_calls small_world @
      CQuery (''SELECT COUNT(1) FROM `'' @ ''t'' @ ''`'' @ []) [] #
      (if (3 :: int) > 0 then [CQuery (''SELECT * FROM `'' @ ''t'' @ ''`'' @ '' LIMIT 0, 20'') []] else [])"
    using list_items_statements [OF counting_fields(1,2) _ tail] by blast
  then show ?thesis by (simp add: small_world_def)
qed

text \<open>An error that ends the iteration over the rows is lost: the operations never ask for it,
  so a failed read of one item is reported as the item not existing, and a listing that broke off is
  returned as if it were complete.\<close>

theorem iteration_error_is_lost:
  assumes "im_db be = Some drv" "be_Read (im_config be) = Some True" "IdColumn (im_config be) entity = Returns idc"
    and "drv_Query drv (createSingleSelectQuery entity idc) [VStr oid] (w_db w) = (Inr rows, d1)" "rs_Rows rows = []"
    and "drv_Query drv qry args (w_db w) = (Inr rows', d2)" "getRowMetadata rows' = Inr (cols, cts)"
  shows "fst (Get be entity oid w) = Returns (Inr None) \<and> fst (Exists be entity oid w) = Returns (Inr False) \<and>
    fst (fetchRows be qry args w) = map_rows (rs_Rows rows') cols cts []"
  using assms by (simp add: Get_def Exists_def fetchOneItem_def fetchRows_def small_runs ebind_def)

theorem iteration_error_is_lost_witness:
  "fst (Get small_impl ''t'' ''1'' small_world) = Returns (Inr None) \<and>
   fst (fetchRows counting_impl ''q'' [] small_world) = Returns (Inr [[(''n'', VStr ''3'')]])"
proof -
  have q: "drv_Query small_driver s a (w_db small_world) =
      (Inr \<lparr>rs_Columns = Inr [], rs_ColumnTypes = Inr [], rs_Rows = [], rs_Err = None\<rparr>, w_db small_world)" for s a
    by (simp add: small_driver_def)
  have "fst (Get small_impl ''t'' ''1'' small_world) = Returns (Inr None)"
    using iteration_error_is_lost [OF small_db _ _ q _ q] by (simp add: getRowMetadata_def)
  moreover have "fst (fetchRows counting_impl ''q'' [] small_world) = Returns (Inr [[(''n'', VStr ''3'')]])"
    by (simp add: fetchRows_def small_runs ebind_def counting_driver_def getRowMetadata_def mapEntity_def
        mapValue_def gmap_put_def Let_def)
  ultimately show ?thesis by blast
qed

text \<open>Creating and updating do not look at the read permission: both answer with the stored row
  whatever it is, so a backend configured for writing only still gives out the rows it writes.\<close>

theorem write_results_ignore_read_permission:
  "Update (be\<lparr>im_config := (im_config be)\<lparr>be_Read := b\<rparr>\<rparr>) = Update be \<and>
   Create (be\<lparr>im_config := (im_config be)\<lparr>be_Read := b\<rparr>\<rparr>) = Create be"
proof -
  let ?be = "be\<lparr>im_config := (im_config be)\<lparr>be_Read := b\<rparr>\<rparr>"
  have idc: "IdColumn (im_config ?be) = IdColumn (im_config be)" by (rule ext) (simp add: IdColumn_def)
  have db: "im_db ?be = im_db be" by (simp add: im_db_def DB_def)
  have cache: "im_mdCache ?be = im_mdCache be" by simp
  have "Load ?be = Load be" by (intro ext) (unfold Load_def idc db cache, rule refl)
  then have re: "remapped ?be = remapped be"
    by (intro ext) (unfold remapped_def mdCache_Get_def cache, simp)
  have fo: "fetchOneItem ?be = fetchOneItem be" by (intro ext) (unfold fetchOneItem_def idc db, rule refl)
  have "be_Update (im_config ?be) = be_Update (im_config be)" "be_Create (im_config ?be) = be_Create (im_config be)" by simp_all
  then show ?thesis by (intro conjI ext) (unfold Update_def Create_def idc db re fo, simp_all)
qed

end
