(* ===== verification/Client_Filter.thy ===== *)
theory Client_Filter
  imports Query
begin

text \<open>
  \<^verbatim>\<open>pkg/client/filter.go\<close>: filter expressions as predicates on items in memory, and paging of a
  slice. Package \<^verbatim>\<open>dom\<close>, which turns an item into a tree of nodes, and \<^verbatim>\<open>cmp.Equal\<close> are imported:
  parameters \<open>dm\<close> and \<open>eq\<close>. An item is what a pointer points to, nothing for a nil pointer.
\<close>

section \<open>Properties of items\<close>

text \<open>
  What the program calls of package \<^verbatim>\<open>dom\<close>: \<^verbatim>\<open>DecodeAnyToNode\<close>, \<^verbatim>\<open>AsContainer\<close> of a node (which panics
  on a node that is no container; its result is known by its method \<^verbatim>\<open>Child\<close>), \<^verbatim>\<open>IsLeaf\<close>, and
  \<^verbatim>\<open>AsLeaf().Value()\<close>.
\<close>

record ('t, 'n) dom_ops =
  dom_DecodeAnyToNode :: "'t option \<Rightarrow> 'n outcome"
  dom_AsContainer :: "'n \<Rightarrow> (string \<Rightarrow> 'n option) outcome"
  dom_IsLeaf :: "'n \<Rightarrow> bool"
  dom_Value :: "'n \<Rightarrow> gval outcome"

definition extractItemProperty :: "('t, 'n) dom_ops \<Rightarrow> string \<Rightarrow> 't option \<Rightarrow> gval outcome" where
  "extractItemProperty dm propName item =
     obind (dom_DecodeAnyToNode dm item) (\<lambda>n.
     obind (dom_AsContainer dm n) (\<lambda>child.
       case child propName of
         Some node \<Rightarrow> if dom_IsLeaf dm node then dom_Value dm node else Returns VNil
       | None \<Rightarrow> Returns VNil))"

text \<open>An item that \<^verbatim>\<open>dom\<close> decodes to a container whose leaves have values (a struct or a map, for
  instance, but not a nil pointer): its properties can be looked up.\<close>

definition container_item :: "('t, 'n) dom_ops \<Rightarrow> 't option \<Rightarrow> bool" where
  "container_item dm item \<longleftrightarrow>
     (\<exists>n child. dom_DecodeAnyToNode dm item = Returns n \<and> dom_AsContainer dm n = Returns child \<and>
        (\<forall>name node. child name = Some node \<longrightarrow> dom_IsLeaf dm node \<longrightarrow> is_returns (dom_Value dm node)))"

text \<open>An item that is no container (a number or a nil pointer, say): \<^verbatim>\<open>AsContainer\<close> panics.\<close>

definition no_container :: "('t, 'n) dom_ops \<Rightarrow> 't option \<Rightarrow> bool" where
  "no_container dm item \<longleftrightarrow>
     (\<exists>n. dom_DecodeAnyToNode dm item = Returns n \<and> \<not> is_returns (dom_AsContainer dm n))"

text \<open>Whether a property of the item equals a value.\<close>

definition item_has :: "('t, 'n) dom_ops \<Rightarrow> (gval \<Rightarrow> gval \<Rightarrow> bool) \<Rightarrow> 't option \<Rightarrow> string \<Rightarrow> gval \<Rightarrow> bool" where
  "item_has dm eq item name val \<longleftrightarrow> omap (eq val) (extractItemProperty dm name item) = Returns True"

lemma container_property: "container_item dm item \<Longrightarrow> is_returns (extractItemProperty dm name item)"
  by (auto simp: container_item_def extractItemProperty_def split: option.splits)

lemma no_container_property: "no_container dm item \<Longrightarrow> \<not> is_returns (extractItemProperty dm name item)"
  by (auto simp: no_container_def extractItemProperty_def is_returns_iff obind_Returns_iff)

section \<open>Predicates\<close>

definition InExpressionAsPredicate :: "('t, 'n) dom_ops \<Rightarrow> (gval \<Rightarrow> gval \<Rightarrow> bool) \<Rightarrow>
    string \<Rightarrow> gval list \<Rightarrow> 't option \<Rightarrow> bool outcome" where
  "InExpressionAsPredicate dm eq name vals item =
     obind (extractItemProperty dm name item) (\<lambda>v. Returns (list_ex (\<lambda>val. eq val v) vals))"

definition SimpleExpressionPredicate :: "('t, 'n) dom_ops \<Rightarrow> (gval \<Rightarrow> gval \<Rightarrow> bool) \<Rightarrow>
    string \<Rightarrow> string \<Rightarrow> gval \<Rightarrow> 't option \<Rightarrow> bool outcome" where
  "SimpleExpressionPredicate dm eq name op val item =
     obind (extractItemProperty dm name item) (\<lambda>v.
       if op = OpEq then Returns (eq val v)
       else if op = ''!='' \<or> op = ''<>'' then Returns (\<not> eq val v)
       else Panics (''unsupported op for binary expression: '' @ op))"

text \<open>The loops \<^verbatim>\<open>out = out && p(se)\<close> and \<^verbatim>\<open>out = out || p(se)\<close>: the operand is not evaluated once the
  result is known.\<close>

fun and_loop :: "('a \<Rightarrow> bool outcome) \<Rightarrow> bool \<Rightarrow> 'a list \<Rightarrow> bool outcome" where
  "and_loop f res [] = Returns res"
| "and_loop f res (x # xs) = obind (if res then f x else Returns False) (\<lambda>b. and_loop f b xs)"

fun or_loop :: "('a \<Rightarrow> bool outcome) \<Rightarrow> bool \<Rightarrow> 'a list \<Rightarrow> bool outcome" where
  "or_loop f res [] = Returns res"
| "or_loop f res (x # xs) = obind (if res then Returns True else f x) (\<lambda>b. or_loop f b xs)"

lemma and_loop_cong [fundef_cong]:
  assumes "a = b" "xs = ys" "\<And>x. x \<in> set ys \<Longrightarrow> f x = g x"
  shows "and_loop f a xs = and_loop g b ys"
proof -
  have "\<forall>x \<in> set ys. f x = g x \<Longrightarrow> and_loop f b ys = and_loop g b ys" for b
  proof (induction ys arbitrary: b)
    case (Cons y ys)
    then show ?case by (cases b; cases "g y") auto
  qed simp
  then show ?thesis using assms by blast
qed

lemma or_loop_cong [fundef_cong]:
  assumes "a = b" "xs = ys" "\<And>x. x \<in> set ys \<Longrightarrow> f x = g x"
  shows "or_loop f a xs = or_loop g b ys"
proof -
  have "\<forall>x \<in> set ys. f x = g x \<Longrightarrow> or_loop f b ys = or_loop g b ys" for b
  proof (induction ys arbitrary: b)
    case (Cons y ys)
    then show ?case by (cases b; cases "g y") auto
  qed simp
  then show ?thesis using assms by blast
qed

text \<open>
  \<^verbatim>\<open>FilterExpressionAsPredicate\<close> with \<^verbatim>\<open>JunctionExpressionPredicate\<close> and \<^verbatim>\<open>NotExpressionAsPredicate\<close>
  as its cases; kinds other than these panic with the text of the expression.
\<close>

fun FilterExpressionAsPredicate :: "('t, 'n) dom_ops \<Rightarrow> (gval \<Rightarrow> gval \<Rightarrow> bool) \<Rightarrow>
    fexpr \<Rightarrow> 't option \<Rightarrow> bool outcome" where
  "FilterExpressionAsPredicate dm eq NilE item = Returns True"
| "FilterExpressionAsPredicate dm eq (InE name vals) item =
     InExpressionAsPredicate dm eq name (elems vals) item"
| "FilterExpressionAsPredicate dm eq (SimpleE name op val) item =
     SimpleExpressionPredicate dm eq name op val item"
| "FilterExpressionAsPredicate dm eq (NotE e) item =
     omap Not (FilterExpressionAsPredicate dm eq e item)"
| "FilterExpressionAsPredicate dm eq (JunctionE op sub) item =
     (if op = OpAnd then and_loop (\<lambda>se. FilterExpressionAsPredicate dm eq se item) True (elems sub)
      else if op = OpOr then or_loop (\<lambda>se. FilterExpressionAsPredicate dm eq se item) False (elems sub)
      else Panics (''unsupported op for junction: '' @ op))"
| "FilterExpressionAsPredicate dm eq e item =
     obind (fe_String e) (\<lambda>s. Panics (''unsupported filter expression: '' @ s))"

section \<open>The logic of a filter\<close>

text \<open>Expressions the in-memory predicate covers, and their truth without evaluation order.\<close>

fun fe_supported :: "fexpr \<Rightarrow> bool" where
  "fe_supported NilE = True"
| "fe_supported (SimpleE name op val) \<longleftrightarrow> op = OpEq \<or> op = ''!='' \<or> op = ''<>''"
| "fe_supported (JunctionE op sub) \<longleftrightarrow> (op = OpAnd \<or> op = OpOr) \<and> list_all fe_supported (elems sub)"
| "fe_supported (NotE e) = fe_supported e"
| "fe_supported (InE name vals) = True"
| "fe_supported (UnE name op) = False"
| "fe_supported (BetweenE name l r) = False"

fun fe_holds :: "(string \<Rightarrow> gval \<Rightarrow> bool) \<Rightarrow> fexpr \<Rightarrow> bool" where
  "fe_holds has NilE = True"
| "fe_holds has (SimpleE name op val) = (if op = OpEq then has name val else \<not> has name val)"
| "fe_holds has (JunctionE op sub) =
     (if op = OpAnd then list_all (fe_holds has) (elems sub) else list_ex (fe_holds has) (elems sub))"
| "fe_holds has (NotE e) = (\<not> fe_holds has e)"
| "fe_holds has (InE name vals) = list_ex (has name) (elems vals)"
| "fe_holds has (UnE name op) = False"
| "fe_holds has (BetweenE name l r) = False"

lemma and_loop_total:
  "(\<And>x. x \<in> set xs \<Longrightarrow> f x = Returns (p x)) \<Longrightarrow> and_loop f b xs = Returns (b \<and> list_all p xs)"
  by (induction xs arbitrary: b) auto

lemma or_loop_total:
  "(\<And>x. x \<in> set xs \<Longrightarrow> f x = Returns (p x)) \<Longrightarrow> or_loop f b xs = Returns (b \<or> list_ex p xs)"
  by (induction xs arbitrary: b) auto

lemma predicate_holds:
  "container_item dm item \<Longrightarrow> fe_supported e \<Longrightarrow> FilterExpressionAsPredicate dm eq e item =
     Returns (fe_holds (item_has dm eq item) e)"
proof (induction dm eq e item rule: FilterExpressionAsPredicate.induct)
  case (2 dm eq name vals item)
  then obtain v where "extractItemProperty dm name item = Returns v"
    using container_property [of dm item name] by (auto simp: is_returns_iff)
  then show ?case by (simp add: InExpressionAsPredicate_def item_has_def)
next
  case (3 dm eq name op val item)
  then obtain v where "extractItemProperty dm name item = Returns v"
    using container_property [of dm item name] by (auto simp: is_returns_iff)
  with 3 show ?case by (auto simp: SimpleExpressionPredicate_def item_has_def)
next
  case (5 dm eq op sub item)
  let ?p = "fe_holds (item_has dm eq item)"
  have sup: "fe_supported se" if "se \<in> set_gslice sub" for se
    using 5(4) that by (auto simp: list_all_iff)
  show ?case
  proof (cases "op = OpAnd")
    case True
    then have "FilterExpressionAsPredicate dm eq se item = Returns (?p se)" if "se \<in> set (elems sub)" for se
      using 5(1,3) sup that by simp
    from and_loop_total [of "elems sub" _ ?p, OF this] True show ?thesis by simp
  next
    case False
    then have "op = OpOr" using 5(4) by simp
    with False have "FilterExpressionAsPredicate dm eq se item = Returns (?p se)" if "se \<in> set (elems sub)" for se
      using 5(2,3) sup that by simp
    from or_loop_total [of "elems sub" _ ?p, OF this] \<open>op = OpOr\<close> show ?thesis by simp
  qed
qed auto

text \<open>Without a container the first comparison that is evaluated panics, whatever its operator.\<close>

lemma comparison_panics:
  assumes "no_container dm item"
  shows "\<not> is_returns (FilterExpressionAsPredicate dm eq (SimpleE name op val) item)"
    and "\<not> is_returns (FilterExpressionAsPredicate dm eq (InE name vals) item)"
  using no_container_property [OF assms, of name]
  by (cases "extractItemProperty dm name item";
      simp add: SimpleExpressionPredicate_def InExpressionAsPredicate_def)+

section \<open>Paging\<close>

text \<open>
  \<^verbatim>\<open>xs[lo:hi]\<close> of a slice with elements \<open>xs\<close> and, behind them in its array, \<open>spare\<close>: Go checks the
  bounds against the capacity, not against the length.
\<close>

definition slice_expr :: "'a list \<Rightarrow> 'a list \<Rightarrow> int \<Rightarrow> int \<Rightarrow> 'a list outcome" where
  "slice_expr xs spare lo hi =
     (if 0 \<le> lo \<and> lo \<le> hi \<and> hi \<le> int (length xs + length spare)
      then Returns (take (nat (hi - lo)) (drop (nat lo) (xs @ spare)))
      else Panics ''slice bounds out of range'')"

definition ApplyPaging :: "'a list \<Rightarrow> 'a list \<Rightarrow> page \<Rightarrow> 'a list outcome" where
  "ApplyPaging items spare paging =
     (let offset = sint (page_offset paging)
      in if offset > int (length items) then Returns []
         else (let n = min (page_size paging) (offset + int (length items))
               in slice_expr items spare offset (offset + n)))"

text \<open>What a page of a list is.\<close>

definition page_of :: "nat \<Rightarrow> nat \<Rightarrow> 'a list \<Rightarrow> 'a list" where
  "page_of offset n xs = take n (drop offset xs)"

lemma sint_small: "i < 2 ^ 63 \<Longrightarrow> sint (word_of_nat i :: 64 word) = int i"
  by (simp add: signed_of_nat signed_take_bit_int_eq_self)

lemma ApplyPaging_fits:
  assumes "sint (page_offset p) = int off" "page_size p = int n" "off = 0 \<or> off + n \<le> length items"
  shows "ApplyPaging items spare p = Returns (page_of off n items)"
proof (cases "off = 0")
  case True
  with assms(1,2) show ?thesis
    by (auto simp: ApplyPaging_def Let_def slice_expr_def page_of_def min_def)
next
  case False
  with assms show ?thesis
    by (auto simp: ApplyPaging_def Let_def slice_expr_def page_of_def min_def)
qed

lemma ApplyPaging_overshoots:
  assumes "sint (page_offset p) = int off" "page_size p = int n"
    and "0 < off" "off \<le> length items" "length items < off + n"
  shows "ApplyPaging items spare p =
     (if off + min n (off + length items) \<le> length items + length spare
      then Returns (drop off items @ take (off + min n (off + length items) - length items) spare)
      else Panics ''slice bounds out of range'')"
proof -
  let ?m = "min n (off + length items)"
  have m: "min (int n) (int off + int (length items)) = int ?m" by simp
  have "drop (off - length items) spare = spare" using assms(4) by simp
  moreover have "length items - off \<le> ?m" using assms(3-5) by (auto simp: min_def)
  moreover have "?m - (length items - off) = off + ?m - length items" using assms(4) by simp
  ultimately show ?thesis
    using assms(1,2,4) unfolding ApplyPaging_def Let_def slice_expr_def
    by (auto simp: m nat_add_distrib)
qed

lemma ApplyPaging_beyond:
  assumes "sint (page_offset p) > int (length items)"
  shows "ApplyPaging items spare p = Returns []"
  using assms by (simp add: ApplyPaging_def)

lemma ApplyPaging_negative:
  assumes "sint (page_offset p) < 0 \<or> sint (page_offset p) \<le> int (length items) \<and> page_size p < 0"
  shows "ApplyPaging items spare p = Panics ''slice bounds out of range''"
  using assms by (auto simp: ApplyPaging_def Let_def slice_expr_def min_def)

end
