(* ===== verification/Client_Memory.thy ===== *)
theory Client_Memory
  imports Client_Filter Go_Effects
begin

text \<open>
  \<^verbatim>\<open>pkg/client/inmemory.go\<close> and the batch loader of \<^verbatim>\<open>misc.go\<close>. The in-memory client keeps a slice
  of pointers; what they point to is in a heap, because \<^verbatim>\<open>Update\<close> writes through a pointer that
  callers also hold.
\<close>

section \<open>State\<close>

text \<open>\<open>None\<close> is the nil pointer.\<close>

type_synonym ptr = "nat option"

record 't store =
  heap :: "nat \<Rightarrow> 't option"
  im_items :: "ptr list"

definition load_ptr :: "'t store \<Rightarrow> ptr \<Rightarrow> 't option" where
  "load_ptr s p = (case p of None \<Rightarrow> None | Some a \<Rightarrow> heap s a)"

text \<open>The key function is the caller's; it may panic, for instance on a nil pointer.\<close>

type_synonym 't key_fn = "string \<Rightarrow> 't option \<Rightarrow> bool outcome"

definition NewInMemory :: "(nat \<Rightarrow> 't option) \<Rightarrow> ptr list \<Rightarrow> 't store" where
  "NewInMemory h initData = \<lparr>heap = h, im_items = initData\<rparr>"

text \<open>\<^verbatim>\<open>lo.Filter\<close> and \<^verbatim>\<open>lo.Find\<close> with a callback that may panic.\<close>

fun filterM :: "('a \<Rightarrow> bool outcome) \<Rightarrow> 'a list \<Rightarrow> 'a list outcome" where
  "filterM f [] = Returns []"
| "filterM f (x # xs) = obind (f x) (\<lambda>b. obind (filterM f xs) (\<lambda>ys. Returns (if b then x # ys else ys)))"

fun findM :: "('a \<Rightarrow> bool outcome) \<Rightarrow> 'a list \<Rightarrow> 'a option outcome" where
  "findM f [] = Returns None"
| "findM f (x # xs) = obind (f x) (\<lambda>b. if b then Returns (Some x) else findM f xs)"

section \<open>Operations\<close>

text \<open>
  \<^verbatim>\<open>List\<close>: filter, cut the page, and report the length of the page as the total. How much spare
  capacity \<^verbatim>\<open>lo.Filter\<close> leaves behind its result is a parameter; the spare elements are nil pointers.
\<close>

definition im_List :: "('t, 'n) dom_ops \<Rightarrow> (gval \<Rightarrow> gval \<Rightarrow> bool) \<Rightarrow> (nat \<Rightarrow> nat \<Rightarrow> nat) \<Rightarrow>
    qryData \<Rightarrow> ('t store, goerr + (ptr list \<times> int)) prog" where
  "im_List dm eq spare q s =
     (let m = obind (filterM (\<lambda>item. FilterExpressionAsPredicate dm eq (qry_filter q) (load_ptr s item)) (im_items s))
                (\<lambda>kept. obind (deref (qry_paging q)) (\<lambda>p.
                   obind (ApplyPaging kept (replicate (spare (length (im_items s)) (length kept)) None) p) (\<lambda>page.
                     Returns (Inr (page, int (length page))))))
      in (m, s))"

definition im_Create :: "ptr \<Rightarrow> ('t store, goerr + ptr) prog" where
  "im_Create t s = (Returns (Inr t), s\<lparr>im_items := im_items s @ [t]\<rparr>)"

definition im_Get :: "'t key_fn \<Rightarrow> string \<Rightarrow> ('t store, goerr + ptr) prog" where
  "im_Get isKeyFn key s =
     (omap (\<lambda>r. Inr (case r of None \<Rightarrow> None | Some p \<Rightarrow> p))
        (findM (\<lambda>item. isKeyFn key (load_ptr s item)) (im_items s)), s)"

definition im_Delete :: "'t key_fn \<Rightarrow> string \<Rightarrow> ('t store, goerr option) prog" where
  "im_Delete isKeyFn key s =
     (case filterM (\<lambda>item. omap Not (isKeyFn key (load_ptr s item))) (im_items s) of
        Returns kept \<Rightarrow> (Returns None, s\<lparr>im_items := kept\<rparr>)
      | Panics msg \<Rightarrow> (Panics msg, s))"

text \<open>\<^verbatim>\<open>*item = *t\<close>\<close>

definition im_Update :: "'t key_fn \<Rightarrow> string \<Rightarrow> ptr \<Rightarrow> ('t store, goerr + ptr) prog" where
  "im_Update isKeyFn key t s =
     (case findM (\<lambda>item. isKeyFn key (load_ptr s item)) (im_items s) of
        Panics msg \<Rightarrow> (Panics msg, s)
      | Returns None \<Rightarrow> (Returns (Inr t), s)
      | Returns (Some item) \<Rightarrow>
          (case (item, t) of
             (Some a, Some b) \<Rightarrow> (Returns (Inr t), s\<lparr>heap := (heap s)(a := heap s b)\<rparr>)
           | _ \<Rightarrow> (Panics nil_deref, s)))"

definition im_BulkUpdate :: "ptr list \<Rightarrow> string \<Rightarrow> ('t store, goerr option) prog" where
  "im_BulkUpdate objs mode = ppanic ''implement me''"

definition im_Query :: "string \<Rightarrow> qryData option \<Rightarrow> string list \<Rightarrow> ('t store, goerr + 'r) prog" where
  "im_Query name qry args = ppanic ''implement me''"

section \<open>Loading all items in batches\<close>

definition batch_query :: "fexpr \<Rightarrow> order list \<Rightarrow> int \<Rightarrow> int \<Rightarrow> qryData" where
  "batch_query e orders loaded batchSize =
     (let qb = builder_Paging loaded batchSize (builder_Filter e NewBuilder);
          qb = foldl (\<lambda>b ord. builder_OrderBy (order_name ord) (order_asc ord) b) qb orders
      in builder_Build qb)"

text \<open>The loop may run for ever, in which case the result is \<open>None\<close>.\<close>

partial_function (option) load_loop ::
  "(qryData \<Rightarrow> ('s, goerr + ('r list \<times> int)) prog) \<Rightarrow> fexpr \<Rightarrow> int \<Rightarrow> order list \<Rightarrow> int \<Rightarrow> 'r list \<Rightarrow> 's \<Rightarrow>
     ((goerr + 'r list) outcome \<times> 's) option" where
  "load_loop c e batchSize orders loaded results s =
     (case c (batch_query e orders loaded batchSize) s of
        (Panics msg, t) \<Rightarrow> Some (Panics msg, t)
      | (Returns r, t) \<Rightarrow>
          (case r of
             Inl err \<Rightarrow> Some (Returns (Inl err), t)
           | Inr (rows, tot) \<Rightarrow>
               (let loaded = loaded + int (length rows); results = results @ rows
                in if loaded = tot then Some (Returns (Inr results), t)
                   else load_loop c e batchSize orders loaded results t)))"

definition LoadAllInBatch :: "(qryData \<Rightarrow> ('s, goerr + ('r list \<times> int)) prog) \<Rightarrow> fexpr \<Rightarrow> int \<Rightarrow> order list \<Rightarrow> 's \<Rightarrow>
     ((goerr + 'r list) outcome \<times> 's) option" where
  "LoadAllInBatch c e batchSize orders = load_loop c e batchSize orders 0 []"

definition LoadAll :: "(qryData \<Rightarrow> ('s, goerr + ('r list \<times> int)) prog) \<Rightarrow> fexpr \<Rightarrow> order list \<Rightarrow> 's \<Rightarrow>
     ((goerr + 'r list) outcome \<times> 's) option" where
  "LoadAll c e orders = LoadAllInBatch c e 20 orders"

section \<open>Facts\<close>

lemma filterM_Returns:
  "(\<And>x. x \<in> set xs \<Longrightarrow> f x = Returns (p x)) \<Longrightarrow> filterM f xs = Returns (filter p xs)"
  by (induction xs) auto

lemma findM_Returns:
  "(\<And>x. x \<in> set xs \<Longrightarrow> f x = Returns (p x)) \<Longrightarrow> findM f xs = Returns (List.find p xs)"
  by (induction xs) auto

lemma order_record: "\<lparr>order_name = order_name x, order_asc = order_asc x\<rparr> = x"
  by (cases x) simp

lemma batch_query_fields:
  "batch_query e orders loaded n =
     \<lparr>qry_orders = orders, qry_paging = Some \<lparr>page_offset = word_of_int loaded, page_size = n\<rparr>, qry_filter = e\<rparr>"
proof -
  have "foldl (\<lambda>b ord. builder_OrderBy (order_name ord) (order_asc ord) b) b os = b\<lparr>ords := ords b @ os\<rparr>" for b os
    by (induction os arbitrary: b) (simp_all add: builder_OrderBy_def OrderBy_def order_record)
  then show ?thesis
    by (simp add: batch_query_def builder_Build_def builder_Paging_def builder_Filter_def NewBuilder_def)
qed

text \<open>
  What a well-behaved \<^verbatim>\<open>List\<close> does: it returns the requested page of a fixed list of matches with
  the number of all matches, and leaves its state alone.
\<close>

definition lists_pages :: "(qryData \<Rightarrow> ('s, goerr + ('r list \<times> int)) prog) \<Rightarrow> fexpr \<Rightarrow> order list \<Rightarrow> nat \<Rightarrow> 'r list \<Rightarrow> 's \<Rightarrow> bool" where
  "lists_pages c e orders n items s \<longleftrightarrow>
     (\<forall>off \<le> length items. c (batch_query e orders (int off) (int n)) s =
        (Returns (Inr (page_of off n items, int (length items))), s))"

lemma load_loop_pages:
  assumes "lists_pages c e orders n items s" "0 < n" "off \<le> length items"
  shows "load_loop c e (int n) orders (int off) (take off items) s = Some (Returns (Inr items), s)"
  using assms(3)
proof (induction "length items - off" arbitrary: off rule: less_induct)
  case less
  let ?page = "page_of off n items"
  have call: "c (batch_query e orders (int off) (int n)) s = (Returns (Inr (?page, int (length items))), s)"
    using assms(1) less.prems by (simp add: lists_pages_def)
  have app: "take off items @ ?page = take (off + length ?page) items" and le: "off + length ?page \<le> length items"
    using less.prems by (auto simp: page_of_def take_add min_def)
  show ?case
  proof (cases "off + length ?page = length items")
    case True
    then show ?thesis
      by (subst load_loop.simps) (simp add: call app Let_def flip: of_nat_add)
  next
    case False
    then have "off < off + length ?page" using assms(2) le by (auto simp: page_of_def min_def)
    then have "length items - (off + length ?page) < length items - off" using le by linarith
    then have IH: "load_loop c e (int n) orders (int (off + length ?page)) (take (off + length ?page) items) s =
        Some (Returns (Inr items), s)"
      using less.hyps [of "off + length ?page"] le by blast
    show ?thesis
      using False IH by (subst load_loop.simps) (simp add: call app Let_def flip: of_nat_add)
  qed
qed

text \<open>With an empty page that is not the end, the loop asks the same question for ever.\<close>

lemma load_loop_stuck:
  assumes "c (batch_query e orders loaded n) s = (Returns (Inr ([], tot)), s)" "loaded \<noteq> tot"
  shows "load_loop c e n orders loaded results s = None"
proof -
  have "load_loop c e n orders loaded results s = Some y \<Longrightarrow>
     c (batch_query e orders loaded n) s = (Returns (Inr ([], tot)), s) \<longrightarrow> loaded = tot" for y
    by (erule load_loop.raw_induct [rotated]) (auto split: prod.splits outcome.splits sum.splits if_splits)
  with assms show ?thesis by (cases "load_loop c e n orders loaded results s") auto
qed

end
