(* ===== verification/Api_Client.thy ===== *)
theory Api_Client
  imports Json Crud_Ops
begin

text \<open>
  The generated client of \<^verbatim>\<open>pkg/api/gen.go\<close>: the API's types, the requests (as the operation and
  its parameters; their HTTP form is in \<^theory_text>\<open>Api_Requests\<close>) and the parsing of responses. The HTTP transport
  (\<^verbatim>\<open>HttpRequestDoer\<close>) is a parameter.
\<close>

section \<open>Types\<close>

definition DELETE :: string where [simp]: "DELETE = ''DELETE''"
definition INSERT :: string where [simp]: "INSERT = ''INSERT''"
definition REPLACE :: string where [simp]: "REPLACE = ''REPLACE''"
definition UPDATE :: string where [simp]: "UPDATE = ''UPDATE''"

definition BulkUpdateMode_Valid :: "string \<Rightarrow> bool" where
  "BulkUpdateMode_Valid e \<longleftrightarrow> e = DELETE \<or> e = INSERT \<or> e = REPLACE \<or> e = UPDATE"

record BulkUpdateRequest =
  bu_Mode :: string
  bu_Objects :: "gmap list"

record ErrorObject =
  eo_Code :: "int option"
  eo_Data :: "gmap option"
  eo_Message :: string

record QueryNamedParams =
  qn_PageOffset :: "int option"
  qn_PageSize :: "int option"
  qn_Arg :: "string list option"

text \<open>The requests a client can send, one for each operation of the API.\<close>

datatype api_request =
    ReqListBackends
  | ReqListEntities string
  | ReqQueryNamed string string QueryNamedParams
  | ReqListItems string string ListItemsParams
  | ReqCreateItem string string gmap
  | ReqBulkUpdate string string BulkUpdateRequest
  | ReqDeleteItemById string string string
  | ReqGetItemById string string string
  | ReqExistsItemById string string string
  | ReqUpdateItemById string string string gmap

text \<open>The bodies of requests, as JSON text.\<close>

definition request_text :: "(gval \<Rightarrow> string) \<Rightarrow> gval \<Rightarrow> goerr + string" where
  "request_text enc v = Inr (json_enc enc v)"

definition BulkUpdateRequest_json :: "BulkUpdateRequest \<Rightarrow> gval" where
  "BulkUpdateRequest_json r =
     VMap [(''mode'', VStr (bu_Mode r)), (''objects'', VList (map VMap (bu_Objects r)))]"

text \<open>A response as the transport hands it over; reading its body may fail.\<close>

record http_response =
  hr_StatusCode :: int
  hr_ContentType :: string
  hr_Body :: "goerr + string"

section \<open>Decoding of bodies\<close>

text \<open>\<^verbatim>\<open>json.Unmarshal\<close> of a whole text; unlike a decoder it refuses trailing data.\<close>

definition json_unmarshal :: "string \<Rightarrow> gval option" where
  "json_unmarshal s =
     (case p_value (2 * length s + 2) s of
        Some (v, r) \<Rightarrow> (if skip_ws r = [] then Some v else None)
      | None \<Rightarrow> None)"

text \<open>A field of a struct, found by its JSON name without regard to letter case; the last one counts.\<close>

definition json_field :: "gmap \<Rightarrow> string \<Rightarrow> gval" where
  "json_field m name =
     (case filter (\<lambda>(k, v). to_lower k = name) m of [] \<Rightarrow> VNil | kvs \<Rightarrow> snd (last kvs))"

text \<open>Conversions of decoded values; \<open>None\<close> is a type error. JSON \<^verbatim>\<open>null\<close> leaves the zero value.
  The values of an \<^verbatim>\<open>UntypedDto\<close>, a map to \<^verbatim>\<open>interface{}\<close>, are \<^verbatim>\<open>float64\<close> where they are numbers, and a
  number out of range is an error; the fields of a struct are read from the decimal of the number (which does not tell
  \<^verbatim>\<open>1e2\<close>, that Go refuses for an integer, from \<^verbatim>\<open>100\<close>; the server writes integers without exponent).\<close>

fun as_struct :: "gval \<Rightarrow> gmap option" where
  "as_struct (VMap m) = Some m"
| "as_struct VNil = Some []"
| "as_struct v = None"

fun as_dto :: "gval \<Rightarrow> gmap option" where
  "as_dto (VMap m) = (if json_finite (VMap m) then Some (map (\<lambda>(k, v). (k, json_any v)) m) else None)"
| "as_dto VNil = Some []"
| "as_dto v = None"

fun as_text :: "gval \<Rightarrow> string option" where
  "as_text (VStr s) = Some s"
| "as_text VNil = Some []"
| "as_text v = None"

fun as_list :: "(gval \<Rightarrow> 'a option) \<Rightarrow> gval \<Rightarrow> 'a list option" where
  "as_list f (VList vs) = those (map f vs)"
| "as_list f VNil = Some []"
| "as_list f v = None"

definition as_ptr :: "(gval \<Rightarrow> 'a option) \<Rightarrow> gval \<Rightarrow> 'a option option" where
  "as_ptr f v = (if v = VNil then Some None else map_option Some (f v))"

fun as_int :: "gval \<Rightarrow> int option" where
  "as_int (VFloat (F64 neg m e)) =
     (let i = (if neg then - 1 else 1) * int m * 10 ^ nat e
      in if 0 \<le> e \<and> - (2 ^ 63) \<le> i \<and> i < 2 ^ 63 then Some i else None)"
| "as_int v = None"

fun as_float :: "gval \<Rightarrow> float64 option" where
  "as_float (VFloat x) = Some x"
| "as_float v = None"

definition as_PagedResult :: "gval \<Rightarrow> PagedResult option" where
  "as_PagedResult v =
     Option.bind (as_struct v) (\<lambda>m.
     Option.bind (as_ptr (as_list as_dto) (json_field m ''data'')) (\<lambda>data.
     Option.bind (as_ptr as_float (json_field m ''offset'')) (\<lambda>offset.
     Option.bind (as_ptr as_int (json_field m ''total_count'')) (\<lambda>cnt.
       Some \<lparr>pr_Data = data, pr_Offset = offset, pr_TotalCount = cnt\<rparr>))))"

definition as_ErrorObject :: "gval \<Rightarrow> ErrorObject option" where
  "as_ErrorObject v =
     Option.bind (as_struct v) (\<lambda>m.
     Option.bind (as_ptr as_int (json_field m ''code'')) (\<lambda>code.
     Option.bind (as_ptr as_dto (json_field m ''data'')) (\<lambda>data.
     Option.bind (as_text (json_field m ''message'')) (\<lambda>msg.
       Some \<lparr>eo_Code = code, eo_Data = data, eo_Message = msg\<rparr>))))"

definition as_BulkUpdateRequest :: "gval \<Rightarrow> BulkUpdateRequest option" where
  "as_BulkUpdateRequest v =
     Option.bind (as_struct v) (\<lambda>m.
     Option.bind (as_text (json_field m ''mode'')) (\<lambda>mode.
     Option.bind (as_list as_dto (json_field m ''objects'')) (\<lambda>objs.
       Some \<lparr>bu_Mode = mode, bu_Objects = objs\<rparr>)))"

section \<open>Responses\<close>

record 'p api_response =
  rs_HTTP :: http_response
  rs_BodyText :: string
  rs_JSON :: "(int \<times> 'p) option"

text \<open>The JSON payloads of the responses: what a status with a JSON body was parsed to.\<close>

datatype payload =
    JNames "string list"
  | JPaged PagedResult
  | JDto gmap
  | JError ErrorObject

definition contains_json :: "string \<Rightarrow> bool" where
  "contains_json s \<longleftrightarrow> list_ex (\<lambda>i. take 4 (drop i s) = ''json'') [0 ..< length s]"

text \<open>
  The common shape of the generated \<^verbatim>\<open>Parse...Response\<close> functions: the cases of their \<^verbatim>\<open>switch\<close> in
  order, each a status and what its body is decoded to. A case is taken when the content type
  mentions JSON; a case without a decoder needs no content type and only ends the switch.
\<close>

fun parse_cases :: "string \<Rightarrow> int \<Rightarrow> string \<Rightarrow> (int \<times> (gval \<Rightarrow> 'p option) option) list \<Rightarrow>
    goerr + (int \<times> 'p) option" where
  "parse_cases ct code body [] = Inr None"
| "parse_cases ct code body ((status, dec) # cases) =
     (case dec of
        None \<Rightarrow> (if code = status then Inr None else parse_cases ct code body cases)
      | Some f \<Rightarrow>
          (if contains_json ct \<and> code = status then
             (case json_unmarshal body of
                None \<Rightarrow> Inl (PlainError ''invalid JSON'')
              | Some v \<Rightarrow> (case f v of None \<Rightarrow> Inl (PlainError ''json: cannot unmarshal'') | Some p \<Rightarrow> Inr (Some (status, p))))
           else parse_cases ct code body cases))"

definition parse_response :: "(int \<times> (gval \<Rightarrow> 'p option) option) list \<Rightarrow> http_response \<Rightarrow>
    goerr + 'p api_response" where
  "parse_response cases rsp =
     (case hr_Body rsp of
        Inl err \<Rightarrow> Inl err
      | Inr body \<Rightarrow>
          (case parse_cases (hr_ContentType rsp) (hr_StatusCode rsp) body cases of
             Inl err \<Rightarrow> Inl err
           | Inr j \<Rightarrow> Inr \<lparr>rs_HTTP = rsp, rs_BodyText = body, rs_JSON = j\<rparr>))"

definition dec_names :: "(gval \<Rightarrow> payload option) option" where
  "dec_names = Some (\<lambda>v. map_option JNames (as_list as_text v))"

definition dec_paged :: "(gval \<Rightarrow> payload option) option" where
  "dec_paged = Some (\<lambda>v. map_option JPaged (as_PagedResult v))"

definition dec_dto :: "(gval \<Rightarrow> payload option) option" where
  "dec_dto = Some (\<lambda>v. map_option JDto (as_dto v))"

definition dec_error :: "(gval \<Rightarrow> payload option) option" where
  "dec_error = Some (\<lambda>v. map_option JError (as_ErrorObject v))"

definition ParseListBackendsResponse :: "http_response \<Rightarrow> goerr + payload api_response" where
  "ParseListBackendsResponse = parse_response [(200, dec_names)]"

text \<open>The decoder of the imported \<^verbatim>\<open>SystemVersionInfo\<close> is a parameter.\<close>

definition ParseGetVersionInfoResponse :: "(gval \<Rightarrow> 'v option) \<Rightarrow> http_response \<Rightarrow> goerr + 'v api_response" where
  "ParseGetVersionInfoResponse dec_version = parse_response [(200, Some dec_version)]"

definition ParseQueryNamedResponse :: "http_response \<Rightarrow> goerr + payload api_response" where
  "ParseQueryNamedResponse = parse_response [(200, dec_paged), (404, dec_error)]"

definition ParseListEntitiesResponse :: "http_response \<Rightarrow> goerr + payload api_response" where
  "ParseListEntitiesResponse = parse_response [(200, dec_names)]"

definition ParseListItemsResponse :: "http_response \<Rightarrow> goerr + payload api_response" where
  "ParseListItemsResponse = parse_response [(200, dec_paged)]"

definition ParseCreateItemResponse :: "http_response \<Rightarrow> goerr + payload api_response" where
  "ParseCreateItemResponse = parse_response [(201, dec_dto), (405, None), (500, dec_error)]"

definition ParseBulkUpdateResponse :: "http_response \<Rightarrow> goerr + payload api_response" where
  "ParseBulkUpdateResponse = parse_response []"

definition ParseDeleteItemByIdResponse :: "http_response \<Rightarrow> goerr + payload api_response" where
  "ParseDeleteItemByIdResponse = parse_response []"

definition ParseGetItemByIdResponse :: "http_response \<Rightarrow> goerr + payload api_response" where
  "ParseGetItemByIdResponse = parse_response [(200, dec_dto), (404, dec_error), (405, None)]"

definition ParseExistsItemByIdResponse :: "http_response \<Rightarrow> goerr + payload api_response" where
  "ParseExistsItemByIdResponse = parse_response []"

definition ParseUpdateItemByIdResponse :: "http_response \<Rightarrow> goerr + payload api_response" where
  "ParseUpdateItemByIdResponse = parse_response [(202, dec_dto), (404, dec_error), (405, None)]"

text \<open>The payload of a status, as the field \<^verbatim>\<open>JSON<status>\<close> of the response: nil when it was not parsed.\<close>

definition json_for :: "int \<Rightarrow> payload api_response \<Rightarrow> payload option" where
  "json_for status r =
     (case rs_JSON r of Some (s, p) \<Rightarrow> if s = status then Some p else None | None \<Rightarrow> None)"

text \<open>The \<^verbatim>\<open>...WithResponse\<close> methods: send, then parse.\<close>

type_synonym 's transport = "api_request \<Rightarrow> ('s, goerr + http_response) prog"

definition with_response :: "'s transport \<Rightarrow> (http_response \<Rightarrow> goerr + payload api_response) \<Rightarrow> api_request \<Rightarrow>
    ('s, goerr + payload api_response) prog" where
  "with_response do parse req =
     ebind (do req) (\<lambda>err. preturn (Inl err)) (\<lambda>rsp. preturn (parse rsp))"

definition ListBackendsWithResponse :: "'s transport \<Rightarrow> ('s, goerr + payload api_response) prog" where
  "ListBackendsWithResponse do = with_response do ParseListBackendsResponse ReqListBackends"

definition ListEntitiesWithResponse :: "'s transport \<Rightarrow> string \<Rightarrow> ('s, goerr + payload api_response) prog" where
  "ListEntitiesWithResponse do be = with_response do ParseListEntitiesResponse (ReqListEntities be)"

definition ExistsItemByIdWithResponse :: "'s transport \<Rightarrow> string \<Rightarrow> string \<Rightarrow> string \<Rightarrow>
    ('s, goerr + payload api_response) prog" where
  "ExistsItemByIdWithResponse do be ent oid =
     with_response do ParseExistsItemByIdResponse (ReqExistsItemById be ent oid)"

definition ListItemsWithResponse :: "'s transport \<Rightarrow> string \<Rightarrow> string \<Rightarrow> ListItemsParams \<Rightarrow>
    ('s, goerr + payload api_response) prog" where
  "ListItemsWithResponse do be ent params =
     with_response do ParseListItemsResponse (ReqListItems be ent params)"

definition CreateItemWithResponse :: "'s transport \<Rightarrow> string \<Rightarrow> string \<Rightarrow> gmap \<Rightarrow>
    ('s, goerr + payload api_response) prog" where
  "CreateItemWithResponse do be ent body =
     with_response do ParseCreateItemResponse (ReqCreateItem be ent body)"

definition GetItemByIdWithResponse :: "'s transport \<Rightarrow> string \<Rightarrow> string \<Rightarrow> string \<Rightarrow>
    ('s, goerr + payload api_response) prog" where
  "GetItemByIdWithResponse do be ent oid =
     with_response do ParseGetItemByIdResponse (ReqGetItemById be ent oid)"

definition DeleteItemByIdWithResponse :: "'s transport \<Rightarrow> string \<Rightarrow> string \<Rightarrow> string \<Rightarrow>
    ('s, goerr + payload api_response) prog" where
  "DeleteItemByIdWithResponse do be ent oid =
     with_response do ParseDeleteItemByIdResponse (ReqDeleteItemById be ent oid)"

definition UpdateItemByIdWithResponse :: "'s transport \<Rightarrow> string \<Rightarrow> string \<Rightarrow> string \<Rightarrow> gmap \<Rightarrow>
    ('s, goerr + payload api_response) prog" where
  "UpdateItemByIdWithResponse do be ent oid body =
     with_response do ParseUpdateItemByIdResponse (ReqUpdateItemById be ent oid body)"

definition BulkUpdateWithResponse :: "'s transport \<Rightarrow> string \<Rightarrow> string \<Rightarrow> BulkUpdateRequest \<Rightarrow>
    ('s, goerr + payload api_response) prog" where
  "BulkUpdateWithResponse do be ent body =
     with_response do ParseBulkUpdateResponse (ReqBulkUpdate be ent body)"

definition QueryNamedWithResponse :: "'s transport \<Rightarrow> string \<Rightarrow> string \<Rightarrow> QueryNamedParams \<Rightarrow>
    ('s, goerr + payload api_response) prog" where
  "QueryNamedWithResponse do be name params =
     with_response do ParseQueryNamedResponse (ReqQueryNamed be name params)"

section \<open>Facts\<close>

lemma parse_cases_not_json:
  "\<not> contains_json ct \<Longrightarrow> parse_cases ct code body cases = Inr None"
  by (induction cases) (auto split: option.splits)

lemma json_for_not_json:
  assumes "\<not> contains_json (hr_ContentType rsp)" "hr_Body rsp = Inr body"
  shows "parse_response cases rsp = Inr \<lparr>rs_HTTP = rsp, rs_BodyText = body, rs_JSON = None\<rparr>"
  using assms by (simp add: parse_response_def parse_cases_not_json)

lemma parse_response_HTTP: "parse_response cases rsp = Inr r \<Longrightarrow> rs_HTTP r = rsp"
  by (auto simp: parse_response_def split: sum.splits)

end
