(* ===== verification/Client_Ops.thy ===== *)
theory Client_Ops
  imports Api_Client
begin

text \<open>
  \<^verbatim>\<open>pkg/client/ops.go\<close>, \<^verbatim>\<open>impl.go\<close> and the helpers of \<^verbatim>\<open>misc.go\<close>: the typed client over the
  generated one. The encoder and decoder of items are fields of the client; the transport is a
  parameter. Reading a JSON field that the response does not have dereferences nil.
\<close>

section \<open>Helpers\<close>

definition excludeProps :: "gmap \<Rightarrow> string list \<Rightarrow> gmap" where
  "excludeProps m props = filter (\<lambda>(key, v). \<not> key \<in> set props) m"

definition onlyProps :: "gmap \<Rightarrow> string list \<Rightarrow> gmap" where
  "onlyProps m props = filter (\<lambda>(key, v). \<not> key \<notin> set props) m"

text \<open>\<^verbatim>\<open>bytes.TrimSpace\<close>, for the ASCII spaces.\<close>

definition space_char :: "char \<Rightarrow> bool" where
  "space_char c \<longleftrightarrow> c \<in> {CHR '' '', CHR 0x09, CHR 0x0A, CHR 0x0B, CHR 0x0C, CHR 0x0D}"

definition trim_space :: "string \<Rightarrow> string" where
  "trim_space s = rev (dropWhile space_char (rev (dropWhile space_char s)))"

definition ensureResponseCode :: "http_response \<Rightarrow> int \<Rightarrow> string \<Rightarrow> goerr option" where
  "ensureResponseCode r code body =
     (if hr_StatusCode r \<noteq> code
      then Some (ErrorWithStatus code (''unexpected error code: '' @ dec_int (hr_StatusCode r) @
             '', wanted: '' @ dec_int code @ '', body: '' @ trim_space body) None)
      else None)"

definition errorFromResponseWithMsg :: "http_response \<Rightarrow> string \<Rightarrow> goerr" where
  "errorFromResponseWithMsg r msg = ErrorWithStatus (hr_StatusCode r) msg None"

definition errorFromResponse :: "http_response \<Rightarrow> goerr" where
  "errorFromResponse r =
     errorFromResponseWithMsg r (''unexpected error code: '' @ dec_int (hr_StatusCode r))"

section \<open>The client\<close>

record 't generic =
  g_be :: string
  g_ent :: string
  g_decFn :: "gmap \<Rightarrow> goerr + 't"
  g_encFn :: "'t \<Rightarrow> goerr + gmap"
  g_roProps :: "string list"
  g_idProp :: string

text \<open>Options, applied in order after the defaults; the default codec is imported.\<close>

definition ReadOnlyProperties :: "string list \<Rightarrow> 't generic \<Rightarrow> 't generic" where
  "ReadOnlyProperties props g = g\<lparr>g_roProps := props\<rparr>"

definition SkipProperties :: "string list \<Rightarrow> 't generic \<Rightarrow> 't generic" where
  "SkipProperties props = ReadOnlyProperties props"

definition IdProperty :: "string \<Rightarrow> 't generic \<Rightarrow> 't generic" where
  "IdProperty p g = g\<lparr>g_idProp := p\<rparr>"

definition WithPayloadEncoder :: "('t \<Rightarrow> goerr + gmap) \<Rightarrow> 't generic \<Rightarrow> 't generic" where
  "WithPayloadEncoder f g = g\<lparr>g_encFn := f\<rparr>"

definition WithPayloadDecoder :: "(gmap \<Rightarrow> goerr + 't) \<Rightarrow> 't generic \<Rightarrow> 't generic" where
  "WithPayloadDecoder f g = g\<lparr>g_decFn := f\<rparr>"

definition client_New :: "('t \<Rightarrow> goerr + gmap) \<Rightarrow> (gmap \<Rightarrow> goerr + 't) \<Rightarrow> string \<Rightarrow> string \<Rightarrow>
    ('t generic \<Rightarrow> 't generic) list \<Rightarrow> 't generic" where
  "client_New defaultEncoderFn defaultDecoderFn backend entity opts =
     foldl (\<lambda>g opt. opt g)
       \<lparr>g_be = backend, g_ent = entity, g_decFn = (\<lambda>m. Inl (PlainError nil_deref)),
         g_encFn = (\<lambda>t. Inl (PlainError nil_deref)), g_roProps = [], g_idProp = []\<rparr>
       ([WithPayloadDecoder defaultDecoderFn, WithPayloadEncoder defaultEncoderFn,
         ReadOnlyProperties [], IdProperty ''id''] @ opts)"

section \<open>Reading payloads\<close>

definition get_paged :: "int \<Rightarrow> payload api_response \<Rightarrow> PagedResult outcome" where
  "get_paged status r = (case json_for status r of Some (JPaged p) \<Rightarrow> Returns p | _ \<Rightarrow> Panics nil_deref)"

definition get_dto :: "int \<Rightarrow> payload api_response \<Rightarrow> gmap outcome" where
  "get_dto status r = (case json_for status r of Some (JDto m) \<Rightarrow> Returns m | _ \<Rightarrow> Panics nil_deref)"

definition get_message :: "int \<Rightarrow> payload api_response \<Rightarrow> string outcome" where
  "get_message status r = (case json_for status r of Some (JError e) \<Rightarrow> Returns (eo_Message e) | _ \<Rightarrow> Panics nil_deref)"

definition status_of :: "payload api_response \<Rightarrow> int" where
  "status_of r = hr_StatusCode (rs_HTTP r)"

fun decode_all :: "(gmap \<Rightarrow> goerr + 't) \<Rightarrow> gmap list \<Rightarrow> 't list \<Rightarrow> goerr + 't list" where
  "decode_all dec [] res = Inr res"
| "decode_all dec (m # ms) res =
     (case dec m of Inl err \<Rightarrow> Inl err | Inr dto \<Rightarrow> decode_all dec ms (res @ [dto]))"

section \<open>Operations\<close>

definition client_List :: "'s transport \<Rightarrow> (gval \<Rightarrow> string) \<Rightarrow> 't generic \<Rightarrow> qryData option \<Rightarrow>
    ('s, goerr + ('t list \<times> int)) prog" where
  "client_List do enc g qry0 =
     (let qry = (case qry0 of None \<Rightarrow> DefaultQuery | Some q \<Rightarrow> q)
      in pbind (plift (qry_String qry)) (\<lambda>logged.
         ebind (ListItemsWithResponse do (g_be g) (g_ent g) (ToParams enc qry))
           (\<lambda>err. preturn (Inl err))
           (\<lambda>resp. case ensureResponseCode (rs_HTTP resp) StatusOK (rs_BodyText resp) of
               Some err \<Rightarrow> preturn (Inl err)
             | None \<Rightarrow>
                 pbind (plift (get_paged 200 resp)) (\<lambda>pr.
                 pbind (plift (deref (pr_Data pr))) (\<lambda>data.
                 case decode_all (g_decFn g) data [] of
                   Inl err \<Rightarrow> preturn (Inl err)
                 | Inr res \<Rightarrow>
                     pbind (plift (deref (pr_TotalCount pr))) (\<lambda>cnt. preturn (Inr (res, cnt))))))))"

definition client_Create :: "'s transport \<Rightarrow> 't generic \<Rightarrow> 't \<Rightarrow> ('s, goerr + 't) prog" where
  "client_Create do g t =
     (case g_encFn g t of
        Inl err \<Rightarrow> preturn (Inl err)
      | Inr m \<Rightarrow>
          ebind (CreateItemWithResponse do (g_be g) (g_ent g) (excludeProps m (g_roProps g)))
            (\<lambda>err. preturn (Inl err))
            (\<lambda>cir.
               if status_of cir = StatusCreated then
                 pbind (plift (get_dto 201 cir)) (\<lambda>d. preturn (g_decFn g d))
               else if status_of cir = StatusInternalServerError then
                 pbind (plift (get_message 500 cir)) (\<lambda>msg.
                   preturn (Inl (ErrorWithStatus StatusInternalServerError msg None)))
               else preturn (Inl (errorFromResponse (rs_HTTP cir)))))"

definition client_Get :: "'s transport \<Rightarrow> 't generic \<Rightarrow> string \<Rightarrow> ('s, goerr + 't) prog" where
  "client_Get do g oid =
     ebind (GetItemByIdWithResponse do (g_be g) (g_ent g) oid)
       (\<lambda>err. preturn (Inl err))
       (\<lambda>resp.
          if status_of resp = StatusOK then
            pbind (plift (get_dto 200 resp)) (\<lambda>d. preturn (g_decFn g d))
          else if status_of resp = StatusNotFound then
            pbind (plift (get_message 404 resp)) (\<lambda>msg.
              preturn (Inl (errorFromResponseWithMsg (rs_HTTP resp) msg)))
          else preturn (Inl (errorFromResponse (rs_HTTP resp))))"

definition client_Delete :: "'s transport \<Rightarrow> 't generic \<Rightarrow> string \<Rightarrow> ('s, goerr option) prog" where
  "client_Delete do g oid =
     ebind (DeleteItemByIdWithResponse do (g_be g) (g_ent g) oid)
       (\<lambda>err. preturn (Some err))
       (\<lambda>resp.
          if status_of resp = StatusNoContent then preturn None
          else preturn (Some (errorFromResponse (rs_HTTP resp))))"

definition client_Update :: "'s transport \<Rightarrow> 't generic \<Rightarrow> string \<Rightarrow> 't \<Rightarrow> ('s, goerr + 't) prog" where
  "client_Update do g oid obj =
     (case g_encFn g obj of
        Inl err \<Rightarrow> preturn (Inl err)
      | Inr m \<Rightarrow>
          ebind (UpdateItemByIdWithResponse do (g_be g) (g_ent g) oid (excludeProps m (g_roProps g)))
            (\<lambda>err. preturn (Inl err))
            (\<lambda>resp.
               if status_of resp = StatusAccepted then
                 pbind (plift (get_dto 202 resp)) (\<lambda>d. preturn (g_decFn g d))
               else if status_of resp = StatusNotFound then
                 pbind (plift (get_message 404 resp)) (\<lambda>msg.
                   preturn (Inl (errorFromResponseWithMsg (rs_HTTP resp) msg)))
               else preturn (Inl (errorFromResponse (rs_HTTP resp)))))"

fun encode_objs :: "'t generic \<Rightarrow> string \<Rightarrow> 't list \<Rightarrow> gmap list \<Rightarrow> goerr + gmap list" where
  "encode_objs g mode [] encObjs = Inr encObjs"
| "encode_objs g mode (obj # objs) encObjs =
     (case g_encFn g obj of
        Inl err \<Rightarrow> Inl err
      | Inr m \<Rightarrow>
          encode_objs g mode objs
            (encObjs @ [if mode = DELETE then onlyProps m [g_idProp g] else excludeProps m (g_roProps g)]))"

definition client_BulkUpdate :: "'s transport \<Rightarrow> 't generic \<Rightarrow> 't list \<Rightarrow> string \<Rightarrow> ('s, goerr option) prog" where
  "client_BulkUpdate do g objs mode =
     (case encode_objs g mode objs [] of
        Inl err \<Rightarrow> preturn (Some err)
      | Inr encObjs \<Rightarrow>
          ebind (BulkUpdateWithResponse do (g_be g) (g_ent g) \<lparr>bu_Mode = mode, bu_Objects = encObjs\<rparr>)
            (\<lambda>err. preturn (Some err))
            (\<lambda>resp. preturn (ensureResponseCode (rs_HTTP resp) StatusOK (rs_BodyText resp))))"

text \<open>\<^verbatim>\<open>Query\<close>: the query must not be nil, its paging may be.\<close>

definition client_Query :: "'s transport \<Rightarrow> 't generic \<Rightarrow> string \<Rightarrow> qryData option \<Rightarrow> string list \<Rightarrow>
    ('s, goerr + PagedResult option) prog" where
  "client_Query do g name qry0 args =
     pbind (plift (deref qry0)) (\<lambda>q.
     let qry = (if qry_paging q = None then DefaultQuery else q)
     in pbind (plift (deref (qry_paging qry))) (\<lambda>p.
        ebind (QueryNamedWithResponse do (g_be g) name
                 \<lparr>qn_PageOffset = Some (sint (page_offset p)), qn_PageSize = Some (page_size p), qn_Arg = Some args\<rparr>)
          (\<lambda>err. preturn (Inl err))
          (\<lambda>resp.
             if status_of resp = StatusOK then
               preturn (Inr (case json_for 200 resp of Some (JPaged r) \<Rightarrow> Some r | _ \<Rightarrow> None))
             else if status_of resp = StatusNotFound then
               pbind (plift (get_message 404 resp)) (\<lambda>msg.
                 preturn (Inl (errorFromResponseWithMsg (rs_HTTP resp) msg)))
             else preturn (Inl (errorFromResponse (rs_HTTP resp))))))"

end
