(* ===== verification/Client_Properties.thy ===== *)
theory Client_Properties
  imports Client_Memory Client_Ops
begin

text \<open>
  Properties of the clients: the in-memory predicate, paging, the in-memory store, the batch loader
  and the error paths of the HTTP client.
\<close>

section \<open>Filtering and paging in memory\<close>

text \<open>C28: On the expressions it covers (comparisons with =, != and <>, IN, NOT, and AND or OR
  junctions over them) and an item that package \<^verbatim>\<open>dom\<close> decodes to a container, the in-memory predicate
  returns, never panics, and computes the truth of the expression; short-circuit evaluation makes no
  difference. For an item that is no container (a nil pointer, a number) every comparison and every IN
  panics instead.\<close>

theorem memory_predicate_is_logical:
  assumes "fe_supported e"
  shows "(container_item dm item \<longrightarrow>
            FilterExpressionAsPredicate dm eq e item = Returns (fe_holds (item_has dm eq item) e)) \<and>
         (no_container dm item \<longrightarrow>
            \<not> is_returns (FilterExpressionAsPredicate dm eq (SimpleE name op val) item) \<and>
            \<not> is_returns (FilterExpressionAsPredicate dm eq (InE name vals) item))"
  using assms predicate_holds [of dm item e eq] comparison_panics [of dm item eq] by blast

text \<open>Items that are maps, as nodes of package \<^verbatim>\<open>dom\<close>.\<close>

definition map_dom :: "(gmap, gval) dom_ops" where
  "map_dom = \<lparr>
     dom_DecodeAnyToNode = (\<lambda>item. Returns (case item of None \<Rightarrow> VNil | Some m \<Rightarrow> VMap m)),
     dom_AsContainer = (\<lambda>n. case n of VMap m \<Rightarrow> Returns (map_of m) | _ \<Rightarrow> Panics ''not a container''),
     dom_IsLeaf = (\<lambda>n. case n of VMap m \<Rightarrow> False | VList vs \<Rightarrow> False | _ \<Rightarrow> True),
     dom_Value = Returns\<rparr>"

lemma map_dom_items: "container_item map_dom (Some m)" "no_container map_dom None"
  by (simp_all add: container_item_def no_container_def map_dom_def)

theorem memory_predicate_is_logical_witness:
  "FilterExpressionAsPredicate map_dom (=) (JunctionE ''OR'' (Slice [SimpleE ''a'' ''='' (VInt 1),
     NotE (InE ''b'' (Slice [VInt 2]))])) (Some [(''a'', VInt 5), (''b'', VInt 2)]) = Returns False \<and>
   \<not> is_returns (FilterExpressionAsPredicate map_dom (=) (SimpleE ''a'' ''='' (VInt 1)) None)"
proof -
  have sup: "fe_supported (JunctionE ''OR'' (Slice [SimpleE ''a'' ''='' (VInt 1), NotE (InE ''b'' (Slice [VInt 2]))]))"
    by simp
  show ?thesis
    using memory_predicate_is_logical [OF sup, of map_dom "Some [(''a'', VInt 5), (''b'', VInt 2)]" "(=)"]
      memory_predicate_is_logical [OF sup, of map_dom None "(=)" "''a''" "''=''" "VInt 1"]
    by (simp add: map_dom_items item_has_def extractItemProperty_def)
       (simp add: map_dom_def)
qed

text \<open>C30: \<^verbatim>\<open>ApplyPaging\<close> returns the requested page when the offset is 0 or the whole page lies within
  the list. A later, shorter page is wrong: its size is computed from offset plus length, so the
  slice expression reaches behind the list, which panics, or returns spare elements of the array as
  if they were items when the capacity allows it.\<close>

theorem paging_result:
  assumes "sint (page_offset p) = int off" "page_size p = int n" "off \<le> length items"
  shows "ApplyPaging items spare p =
     (if off = 0 \<or> off + n \<le> length items then Returns (page_of off n items)
      else if off + min n (off + length items) \<le> length items + length spare
      then Returns (page_of off n items @ take (off + min n (off + length items) - length items) spare)
      else Panics ''slice bounds out of range'')"
proof (cases "off = 0 \<or> off + n \<le> length items")
  case True
  then show ?thesis using ApplyPaging_fits [OF assms(1,2) True] by simp
next
  case False
  then have "length items - off \<le> n" by linarith
  then have "page_of off n items = drop off items" by (simp add: page_of_def)
  with False show ?thesis using ApplyPaging_overshoots [OF assms(1,2) _ assms(3)] by simp
qed

theorem paging_result_witness:
  "ApplyPaging [10 :: nat, 20, 30] [] \<lparr>page_offset = 2, page_size = 2\<rparr> = Panics ''slice bounds out of range'' \<and>
   ApplyPaging [10 :: nat, 20, 30] [40] \<lparr>page_offset = 2, page_size = 2\<rparr> = Returns [30, 40]"
  using paging_result [of "\<lparr>page_offset = 2, page_size = 2\<rparr>" 2 2 "[10 :: nat, 20, 30]" "[]"]
    paging_result [of "\<lparr>page_offset = 2, page_size = 2\<rparr>" 2 2 "[10 :: nat, 20, 30]" "[40]"]
  by (simp add: page_of_def)

section \<open>Loading in batches\<close>

text \<open>C29: Against a \<^verbatim>\<open>List\<close> that returns the pages of a fixed list and its length, \<^verbatim>\<open>LoadAllInBatch\<close>
  with a positive batch size returns, and returns exactly the list; with batch size 0 it returns
  only for the empty list and otherwise asks for ever.\<close>

theorem load_all_in_batch:
  assumes "lists_pages c e orders n items s"
  shows "LoadAllInBatch c e (int n) orders s =
     (if n = 0 \<and> items \<noteq> [] then None else Some (Returns (Inr items), s))"
proof (cases "n = 0")
  case True
  have page: "c (batch_query e orders 0 (int n)) s = (Returns (Inr ([], int (length items))), s)"
    using assms True by (auto simp: lists_pages_def page_of_def dest: spec [where x = 0])
  show ?thesis
  proof (cases "items = []")
    case True
    with page show ?thesis by (simp add: LoadAllInBatch_def) (subst load_loop.simps, simp)
  next
    case False
    with page True load_loop_stuck [of c e orders 0 "int n" s "int (length items)" "[]"] show ?thesis
      by (simp add: LoadAllInBatch_def)
  qed
next
  case False
  then show ?thesis
    using load_loop_pages [OF assms, of 0] by (simp add: LoadAllInBatch_def)
qed

definition three_pages :: "qryData \<Rightarrow> (unit, goerr + (nat list \<times> int)) prog" where
  "three_pages q s =
     (case qry_paging q of
        None \<Rightarrow> (Panics nil_deref, s)
      | Some p \<Rightarrow> (Returns (Inr (page_of (unat (page_offset p)) (nat (page_size p)) [10, 20, 30], 3)), s))"

lemma three_pages_lawful: "lists_pages three_pages e orders n [10, 20, 30] ()"
proof -
  have "unat (word_of_int (int off) :: 64 word) = off" if "off \<le> 3" for off
    using that by (simp add: unat_of_nat)
  then show ?thesis by (simp add: lists_pages_def three_pages_def batch_query_fields)
qed

theorem load_all_in_batch_witness:
  "LoadAllInBatch three_pages NilE 2 [] () = Some (Returns (Inr [10, 20, 30]), ()) \<and>
   LoadAllInBatch three_pages NilE 0 [] () = None"
  using load_all_in_batch [OF three_pages_lawful [of NilE "[]" 2]] load_all_in_batch [OF three_pages_lawful [of NilE "[]" 0]]
  by simp

text \<open>The in-memory client reports the length of the page as the total, so loading everything
  from it stops after the first batch: of the matching items only the first ones are returned, and
  no error is reported.\<close>

theorem memory_load_all_truncates:
  assumes "fe_supported e" "\<forall>p \<in> set (im_items s). container_item dm (load_ptr s p)"
  shows "LoadAllInBatch (im_List dm eq spare) e (int n) orders s =
     Some (Returns (Inr (take n (filter (\<lambda>p. fe_holds (item_has dm eq (load_ptr s p)) e) (im_items s)))), s)"
proof -
  let ?kept = "filter (\<lambda>p. fe_holds (item_has dm eq (load_ptr s p)) e) (im_items s)"
  have "filterM (\<lambda>item. FilterExpressionAsPredicate dm eq e (load_ptr s item)) (im_items s) = Returns ?kept"
    using assms by (intro filterM_Returns) (simp add: predicate_holds)
  then have "im_List dm eq spare (batch_query e orders 0 (int n)) s =
      (Returns (Inr (take n ?kept, int (length (take n ?kept)))), s)"
    using ApplyPaging_fits [of "\<lparr>page_offset = 0, page_size = int n\<rparr>" 0 n ?kept]
    by (simp add: im_List_def Let_def batch_query_fields page_of_def)
  then show ?thesis by (simp add: LoadAllInBatch_def) (subst load_loop.simps, simp)
qed

theorem memory_load_all_truncates_witness:
  "LoadAllInBatch (im_List map_dom (=) (\<lambda>n m. 0)) NilE 1 [] (NewInMemory (\<lambda>a. Some []) [Some 1, Some 2]) =
     Some (Returns (Inr [Some 1]), NewInMemory (\<lambda>a. Some []) [Some 1, Some 2])"
  using memory_load_all_truncates [of NilE "NewInMemory (\<lambda>a. Some []) [Some 1, Some 2]" map_dom "(=)" "\<lambda>n m. 0" 1 "[]"]
  by (simp add: NewInMemory_def load_ptr_def map_dom_items)

section \<open>The in-memory store\<close>

text \<open>C31: The in-memory store is a list of items with keys: \<^verbatim>\<open>Get\<close> finds the first item with the key
  or nothing, an item created last is found when nothing before it has the key, and after \<^verbatim>\<open>Delete\<close>
  no item with the key is left while all others stay. The key function must not panic.\<close>

theorem memory_store_operations:
  assumes "\<And>key t. isKeyFn key t = Returns (has key t)"
  shows "im_Get isKeyFn key s = (Returns (Inr (case List.find (\<lambda>p. has key (load_ptr s p)) (im_items s) of
           None \<Rightarrow> None | Some p \<Rightarrow> p)), s) \<and>
     (filter (\<lambda>p. has key (load_ptr s p)) (im_items s) = [] \<longrightarrow> has key (load_ptr s t) \<longrightarrow>
        fst (im_Get isKeyFn key (snd (im_Create t s))) = Returns (Inr t)) \<and>
     (let s' = snd (im_Delete isKeyFn key s) in
        fst (im_Get isKeyFn key s') = Returns (Inr None) \<and>
        im_items s' = filter (\<lambda>p. \<not> has key (load_ptr s p)) (im_items s) \<and> heap s' = heap s)"
proof -
  have get: "im_Get isKeyFn key s = (Returns (Inr (case List.find (\<lambda>p. has key (load_ptr s p)) (im_items s) of
           None \<Rightarrow> None | Some p \<Rightarrow> p)), s)" for s
    using findM_Returns [of "im_items s" "\<lambda>p. isKeyFn key (load_ptr s p)" "\<lambda>p. has key (load_ptr s p)"] assms
    by (simp add: im_Get_def)
  have del: "im_Delete isKeyFn key s = (Returns None, s\<lparr>im_items := filter (\<lambda>p. \<not> has key (load_ptr s p)) (im_items s)\<rparr>)"
    using filterM_Returns [of "im_items s" "\<lambda>p. omap Not (isKeyFn key (load_ptr s p))" "\<lambda>p. \<not> has key (load_ptr s p)"] assms
    by (simp add: im_Delete_def)
  have same: "load_ptr (s\<lparr>im_items := xs\<rparr>) p = load_ptr s p" for xs p by (simp add: load_ptr_def split: option.split)
  have none: "List.find P xs = None" if "filter P xs = []" for P and xs :: "ptr list"
    using that by (simp add: find_None_iff filter_empty_conv)
  have app: "List.find P (xs @ [t]) = Some t" if "filter P xs = []" "P t" for P and xs :: "ptr list"
    using that by (induction xs) (auto split: if_splits)
  show ?thesis
    by (auto simp: get del same im_Create_def Let_def none app filter_empty_conv)
qed

definition nat_key :: "nat key_fn" where
  "nat_key key t = Returns (t = Some (length key))"

theorem memory_store_operations_witness:
  "fst (im_Get nat_key ''ab'' (snd (im_Create (Some 7) (NewInMemory (\<lambda>a. Some 2) [])))) = Returns (Inr (Some 7))"
  using memory_store_operations [where isKeyFn = nat_key and has = "\<lambda>k t. t = Some (length k)" and key = "''ab''"
      and s = "NewInMemory (\<lambda>a. Some 2) []" and t = "Some 7"]
  by (simp add: nat_key_def NewInMemory_def load_ptr_def)

text \<open>\<^verbatim>\<open>Update\<close> writes through the pointer of the first item with the key, so every holder of that
  pointer sees the new content; when there is no such item it changes nothing and still returns the
  argument without an error.\<close>

theorem memory_update_through_pointer:
  assumes "\<And>key t. isKeyFn key t = Returns (has key t)"
  shows "im_Update isKeyFn key (Some b) s =
    (case List.find (\<lambda>p. has key (load_ptr s p)) (im_items s) of
       None \<Rightarrow> (Returns (Inr (Some b)), s)
     | Some None \<Rightarrow> (Panics nil_deref, s)
     | Some (Some a) \<Rightarrow> (Returns (Inr (Some b)), s\<lparr>heap := (heap s)(a := heap s b)\<rparr>))"
  using findM_Returns [of "im_items s" "\<lambda>p. isKeyFn key (load_ptr s p)" "\<lambda>p. has key (load_ptr s p)"] assms
  by (simp add: im_Update_def split: option.splits)

theorem memory_update_through_pointer_witness:
  "heap (snd (im_Update nat_key ''ab'' (Some 9) (NewInMemory (\<lambda>a. if a = 9 then Some 5 else Some 2) [Some 3]))) 3 = Some 5"
  using memory_update_through_pointer [where isKeyFn = nat_key and has = "\<lambda>k t. t = Some (length k)" and key = "''ab''"
      and b = 9 and s = "NewInMemory (\<lambda>a. if a = 9 then Some 5 else Some 2) [Some 3]"]
  by (simp add: nat_key_def NewInMemory_def load_ptr_def)

section \<open>The HTTP client\<close>

text \<open>The client dereferences the parsed error object of a response without looking whether there
  is one. A response whose content type is not JSON (which is what the server's error mapper sends)
  makes \<^verbatim>\<open>Create\<close> panic on status 500 and \<^verbatim>\<open>Get\<close> and \<^verbatim>\<open>Update\<close> on status 404.\<close>

theorem text_error_panics_client:
  assumes "\<not> contains_json (hr_ContentType rsp)" "hr_Body rsp = Inr txt"
    and "\<And>req. do req s = (Returns (Inr rsp), s)" "g_encFn g t = Inr m"
  shows "(hr_StatusCode rsp = 500 \<longrightarrow> client_Create do g t s = (Panics nil_deref, s)) \<and>
         (hr_StatusCode rsp = 404 \<longrightarrow> client_Get do g oid s = (Panics nil_deref, s) \<and>
            client_Update do g oid t s = (Panics nil_deref, s))"
proof -
  have p: "parse_response cases rsp = Inr \<lparr>rs_HTTP = rsp, rs_BodyText = txt, rs_JSON = None\<rparr>" for cases
    using assms(1,2) by (rule json_for_not_json)
  show ?thesis
    using assms(3,4)
    by (simp add: client_Create_def client_Get_def client_Update_def CreateItemWithResponse_def
        GetItemByIdWithResponse_def UpdateItemByIdWithResponse_def with_response_def ebind_def pbind_def preturn_def
        ParseCreateItemResponse_def ParseGetItemByIdResponse_def ParseUpdateItemByIdResponse_def p
        status_of_def get_message_def json_for_def plift_def)
qed

definition id_client :: "gmap generic" where
  "id_client = client_New Inr Inr ''be'' ''ent'' []"

definition text_error :: "int \<Rightarrow> http_response" where
  "text_error code = \<lparr>hr_StatusCode = code, hr_ContentType = ''text/plain; charset=utf-8'', hr_Body = Inr ''failed''\<rparr>"

lemma text_not_json: "\<not> contains_json (hr_ContentType (text_error code))"
  unfolding text_error_def http_response.simps by code_simp

theorem text_error_panics_client_witness:
  "client_Create (\<lambda>req s. (Returns (Inr (text_error 500)), s)) id_client [] () = (Panics nil_deref, ())"
proof -
  have "hr_Body (text_error 500) = Inr ''failed''" "g_encFn id_client [] = Inr []"
    by (simp_all add: text_error_def id_client_def client_New_def WithPayloadEncoder_def WithPayloadDecoder_def
        ReadOnlyProperties_def IdProperty_def)
  from text_error_panics_client [OF text_not_json this(1) _ this(2), of "\<lambda>req s. (Returns (Inr (text_error 500)), s)" "()"]
  show ?thesis by (simp add: text_error_def)
qed

text \<open>What a bulk request carries: for a deletion each object is cut down to the id property, for
  every other mode the read-only properties are left out and all others kept with their values, in
  the order of the given items.\<close>

theorem bulk_payload:
  assumes "\<And>t. g_encFn g t = Inr (f t)"
  shows "encode_objs g mode objs [] = Inr (map (\<lambda>t.
      if mode = ''DELETE'' then filter (\<lambda>(k, v). k = g_idProp g) (f t)
      else filter (\<lambda>(k, v). k \<notin> set (g_roProps g)) (f t)) objs)"
proof -
  have only: "onlyProps m [p] = filter (\<lambda>(k, v). k = p) m" and excl: "excludeProps m ps = filter (\<lambda>(k, v). k \<notin> set ps) m" for m p ps
    by (auto simp: onlyProps_def excludeProps_def intro!: filter_cong)
  have "encode_objs g mode objs acc = Inr (acc @ map (\<lambda>t.
      if mode = ''DELETE'' then filter (\<lambda>(k, v). k = g_idProp g) (f t)
      else filter (\<lambda>(k, v). k \<notin> set (g_roProps g)) (f t)) objs)" for acc
    by (induction objs arbitrary: acc) (auto simp: assms only excl)
  from this [of "[]"] show ?thesis by simp
qed

theorem bulk_payload_witness:
  "encode_objs (id_client\<lparr>g_roProps := [''ts'']\<rparr>) ''UPDATE'' [[(''id'', VStr ''1''), (''ts'', VNil)]] [] =
     Inr [[(''id'', VStr ''1'')]]"
proof -
  have "g_encFn (id_client\<lparr>g_roProps := [''ts'']\<rparr>) t = Inr ((\<lambda>t. t) t)" for t
    by (simp add: id_client_def client_New_def WithPayloadEncoder_def WithPayloadDecoder_def
        ReadOnlyProperties_def IdProperty_def)
  from bulk_payload [OF this, of "''UPDATE''" "[[(''id'', VStr ''1''), (''ts'', VNil)]]"] show ?thesis by simp
qed

end
