(* ===== verification/Server.thy ===== *)
theory Server
  imports Api_Client
begin

text \<open>
  \<^verbatim>\<open>pkg/server\<close> and \<^verbatim>\<open>pkg/cmd\<close>: the HTTP handlers over the CRUD operations, the mapping of errors
  to statuses, and start and stop of the server. Every backend has a world of its own. Sending a
  response goes through an imported output builder (\<open>send\<close>), which is given the program's error
  mapper; routing, middlewares and telemetry are imported too.
\<close>

section \<open>Response writers\<close>

text \<open>What was written so far; body parts are texts or JSON values. The status is fixed by the first
  \<^verbatim>\<open>WriteHeader\<close> or, as 200, by the first \<^verbatim>\<open>Write\<close>.\<close>

datatype body_part = WText string | WJson gval

record writer =
  wr_Status :: "int option"
  wr_ContentType :: "string option"
  wr_Body :: "body_part list"

definition fresh_writer :: writer where
  "fresh_writer = \<lparr>wr_Status = None, wr_ContentType = None, wr_Body = []\<rparr>"

definition WriteHeader :: "int \<Rightarrow> writer \<Rightarrow> writer" where
  "WriteHeader code w = (if wr_Status w = None then w\<lparr>wr_Status := Some code\<rparr> else w)"

definition SetContentType :: "string \<Rightarrow> writer \<Rightarrow> writer" where
  "SetContentType ct w = (if wr_Status w = None then w\<lparr>wr_ContentType := Some ct\<rparr> else w)"

definition WriteBody :: "body_part \<Rightarrow> writer \<Rightarrow> writer" where
  "WriteBody b w = (let w = WriteHeader StatusOK w in w\<lparr>wr_Body := wr_Body w @ [b]\<rparr>)"

text \<open>The status a client sees: 200 when the handler wrote none.\<close>

definition final_status :: "writer \<Rightarrow> int" where
  "final_status w = (case wr_Status w of Some c \<Rightarrow> c | None \<Rightarrow> StatusOK)"

text \<open>\<^verbatim>\<open>http.Error\<close>\<close>

definition http_Error :: "string \<Rightarrow> int \<Rightarrow> writer \<Rightarrow> writer" where
  "http_Error msg code w =
     WriteBody (WText (msg @ [CHR 0x0A])) (WriteHeader code (SetContentType ''text/plain; charset=utf-8'' w))"

section \<open>Errors\<close>

text \<open>\<^verbatim>\<open>errors.AsType\<close>: the first error of a kind, going through wrapped and joined errors.\<close>

fun as_MySQLError :: "goerr \<Rightarrow> (int \<times> string) option" where
  "as_MySQLError (MySQLError n msg) = Some (n, msg)"
| "as_MySQLError (ErrorWithStatus status msg wrapped) =
     (case wrapped of None \<Rightarrow> None | Some e \<Rightarrow> as_MySQLError e)"
| "as_MySQLError (PlainError msg) = None"
| "as_MySQLError (Joined []) = None"
| "as_MySQLError (Joined (e # es)) =
     (case as_MySQLError e of Some r \<Rightarrow> Some r | None \<Rightarrow> as_MySQLError (Joined es))"

fun as_ErrorWithStatus :: "goerr \<Rightarrow> (int \<times> string) option" where
  "as_ErrorWithStatus (ErrorWithStatus status msg wrapped) = Some (status, msg)"
| "as_ErrorWithStatus (MySQLError n msg) = None"
| "as_ErrorWithStatus (PlainError msg) = None"
| "as_ErrorWithStatus (Joined []) = None"
| "as_ErrorWithStatus (Joined (e # es)) =
     (case as_ErrorWithStatus e of Some r \<Rightarrow> Some r | None \<Rightarrow> as_ErrorWithStatus (Joined es))"

definition mysqlError2status :: "int \<Rightarrow> int option" where
  "mysqlError2status n =
     map_of [(1062, StatusConflict), (1364, StatusBadRequest), (1451, StatusConflict), (1452, StatusConflict)] n"

text \<open>The error mapper: what it wrote and whether it handled the error.\<close>

definition error_mapper :: "(int \<Rightarrow> string \<Rightarrow> string) \<Rightarrow> writer \<Rightarrow> goerr \<Rightarrow> writer \<times> bool" where
  "error_mapper my w err =
     (case as_MySQLError err of
        Some (n, msg) \<Rightarrow>
          (WriteBody (WText msg)
             (WriteHeader (case mysqlError2status n of Some x \<Rightarrow> x | None \<Rightarrow> StatusInternalServerError) w), True)
      | None \<Rightarrow>
          (case as_ErrorWithStatus err of
             Some (status, _) \<Rightarrow>
               (let w = SetContentType ''text/plain; charset=utf-8'' w;
                    w = (if status \<noteq> 0 then WriteHeader status w else w)
                in (WriteBody (WText (error_text my err)) w, True))
           | None \<Rightarrow> (w, False)))"

text \<open>\<^verbatim>\<open>out.SendWithStatus\<close>: given a value to send as JSON, or an error.\<close>

datatype send_payload = PErr goerr | PVal gval

type_synonym sender = "(writer \<Rightarrow> goerr \<Rightarrow> writer \<times> bool) \<Rightarrow> send_payload \<Rightarrow> int \<Rightarrow> writer \<Rightarrow> writer"

record ('d, 'c) restServer =
  sv_cfg :: "'d Config"
  sv_crudMap :: "('d, 'c) NameToCrudMap"
  sv_send :: sender
  sv_my :: "int \<Rightarrow> string \<Rightarrow> string"

definition SendWithStatus :: "('d, 'c) restServer \<Rightarrow> send_payload \<Rightarrow> int \<Rightarrow> writer \<Rightarrow> writer" where
  "SendWithStatus rs = sv_send rs (error_mapper (sv_my rs))"

section \<open>JSON of the results\<close>

definition dto_json :: "gmap option \<Rightarrow> gval" where
  "dto_json m = (case m of None \<Rightarrow> VNil | Some kvs \<Rightarrow> VMap kvs)"

definition opt_member :: "string \<Rightarrow> gval option \<Rightarrow> gmap" where
  "opt_member k v = (case v of None \<Rightarrow> [] | Some x \<Rightarrow> [(k, x)])"

definition ErrorObject_json :: "ErrorObject \<Rightarrow> gval" where
  "ErrorObject_json e =
     VMap (opt_member ''code'' (map_option VInt (eo_Code e)) @
           opt_member ''data'' (map_option VMap (eo_Data e)) @ [(''message'', VStr (eo_Message e))])"

definition PagedResult_json :: "PagedResult \<Rightarrow> gval" where
  "PagedResult_json p =
     VMap (opt_member ''data'' (map_option (\<lambda>ms. VList (map VMap ms)) (pr_Data p)) @
           opt_member ''offset'' (map_option VFloat (pr_Offset p)) @
           opt_member ''total_count'' (map_option VInt (pr_TotalCount p)))"

definition names_json :: "string list \<Rightarrow> gval" where
  "names_json ns = VList (map VStr ns)"

text \<open>A slice that only \<^verbatim>\<open>append\<close> has touched is nil while it is empty, and nil is \<^verbatim>\<open>null\<close>.\<close>

definition appended_names_json :: "string list \<Rightarrow> gval" where
  "appended_names_json ns = (if ns = [] then VNil else names_json ns)"

definition not_found_msg :: "string \<Rightarrow> string \<Rightarrow> string" where
  "not_found_msg entity oid =
     ''entity of type '' @ [CHR 0x27] @ entity @ [CHR 0x27] @ '' with id '' @ [CHR 0x27] @ oid @ [CHR 0x27] @ '' was not found''"

definition not_found_object :: "string \<Rightarrow> string \<Rightarrow> ErrorObject" where
  "not_found_object entity oid = \<lparr>eo_Code = None, eo_Data = None, eo_Message = not_found_msg entity oid\<rparr>"

section \<open>Dispatch to a backend\<close>

type_synonym ('d, 'c) worlds = "string \<Rightarrow> ('d, 'c) world"

text \<open>Runs a program in the world of one backend.\<close>

definition in_backend :: "string \<Rightarrow> (('d, 'c) world, 'a) prog \<Rightarrow> (('d, 'c) worlds, 'a) prog" where
  "in_backend n m ws = (case m (ws n) of (r, w) \<Rightarrow> (r, ws(n := w)))"

type_synonym ('d, 'c) BackendHandler = "('d, 'c) impl \<Rightarrow> writer \<Rightarrow> (('d, 'c) world, writer) prog"

definition handleBackend :: "('d, 'c) restServer \<Rightarrow> string \<Rightarrow> ('d, 'c) BackendHandler \<Rightarrow> writer \<Rightarrow>
    (('d, 'c) worlds, writer) prog" where
  "handleBackend rs backend handler w =
     (case map_of (sv_crudMap rs) backend of
        None \<Rightarrow> preturn (http_Error (''no such backend: '' @ backend) StatusBadRequest w)
      | Some c \<Rightarrow> in_backend backend (handler c w))"

definition handleEntity :: "('d, 'c) restServer \<Rightarrow> string \<Rightarrow> string \<Rightarrow>
    (('d, 'c) impl \<Rightarrow> string \<Rightarrow> writer \<Rightarrow> (('d, 'c) world, writer) prog) \<Rightarrow> writer \<Rightarrow> (('d, 'c) worlds, writer) prog" where
  "handleEntity rs backend entity handler w = handleBackend rs backend (\<lambda>c w. handler c entity w) w"

definition handleItem :: "('d, 'c) restServer \<Rightarrow> string \<Rightarrow> string \<Rightarrow> string \<Rightarrow>
    (('d, 'c) impl \<Rightarrow> string \<Rightarrow> string \<Rightarrow> writer \<Rightarrow> (('d, 'c) world, writer) prog) \<Rightarrow> writer \<Rightarrow>
    (('d, 'c) worlds, writer) prog" where
  "handleItem rs backend entity item handler w =
     handleEntity rs backend entity (\<lambda>c entity w. handler c entity item w) w"

text \<open>\<^verbatim>\<open>json.NewDecoder(request.Body).Decode(&body)\<close>; reading the body may fail.\<close>

definition decode_body :: "(gval \<Rightarrow> 'a option) \<Rightarrow> goerr + string \<Rightarrow> goerr + 'a" where
  "decode_body conv body =
     (case body of
        Inl err \<Rightarrow> Inl err
      | Inr txt \<Rightarrow>
          (case json_decode txt of
             None \<Rightarrow> Inl (PlainError ''invalid JSON'')
           | Some v \<Rightarrow> (case conv v of None \<Rightarrow> Inl (PlainError ''json: cannot unmarshal'') | Some x \<Rightarrow> Inr x)))"

section \<open>Handlers\<close>

definition srv_ListBackends :: "('d, 'c) restServer \<Rightarrow> writer \<Rightarrow> (('d, 'c) worlds, writer) prog" where
  "srv_ListBackends rs w =
     (let bes = sort (map fst (cfg_Backends (sv_cfg rs)))
      in preturn (SendWithStatus rs (PVal (names_json bes)) StatusOK w))"

definition srv_ListEntities :: "('d, 'c) restServer \<Rightarrow> string \<Rightarrow> writer \<Rightarrow> (('d, 'c) worlds, writer) prog" where
  "srv_ListEntities rs backend = handleBackend rs backend (\<lambda>c w.
     ebind (ListEntities c)
       (\<lambda>err. preturn (SendWithStatus rs (PErr err) StatusInternalServerError w))
       (\<lambda>entities. preturn (SendWithStatus rs (PVal (appended_names_json (sort entities))) StatusOK w)))"

definition srv_ListItems :: "('d, 'c) restServer \<Rightarrow> string \<Rightarrow> string \<Rightarrow> ListItemsParams \<Rightarrow> writer \<Rightarrow>
    (('d, 'c) worlds, writer) prog" where
  "srv_ListItems rs backend entity params = handleEntity rs backend entity (\<lambda>c entity w.
     ebind (plift (FromParams (PageOffset params) (PageSize params) (Order params) (Filter params)))
       (\<lambda>err. preturn (SendWithStatus rs (PErr (PlainError ''invalid filter'')) StatusBadRequest w))
       (\<lambda>qry. ebind (ListItems c entity (Some qry))
          (\<lambda>err. preturn (SendWithStatus rs (PErr err) StatusInternalServerError w))
          (\<lambda>res. preturn (SendWithStatus rs (PVal (PagedResult_json res)) StatusOK w))))"

definition srv_CreateItem :: "('d, 'c) restServer \<Rightarrow> string \<Rightarrow> string \<Rightarrow> goerr + string \<Rightarrow> writer \<Rightarrow>
    (('d, 'c) worlds, writer) prog" where
  "srv_CreateItem rs backend entity reqBody = handleEntity rs backend entity (\<lambda>c entity w.
     case decode_body as_dto reqBody of
       Inl err \<Rightarrow> preturn (SendWithStatus rs (PErr err) StatusBadRequest w)
     | Inr body \<Rightarrow>
         ebind (Create c entity body)
           (\<lambda>err. preturn (SendWithStatus rs (PErr err) StatusInternalServerError w))
           (\<lambda>res. preturn (SendWithStatus rs (PVal (dto_json res)) StatusCreated w)))"

definition srv_GetItemById :: "('d, 'c) restServer \<Rightarrow> string \<Rightarrow> string \<Rightarrow> string \<Rightarrow> writer \<Rightarrow>
    (('d, 'c) worlds, writer) prog" where
  "srv_GetItemById rs backend entity item = handleItem rs backend entity item (\<lambda>c entity oid w.
     ebind (Get c entity oid)
       (\<lambda>err. preturn (SendWithStatus rs (PErr err) StatusInternalServerError w))
       (\<lambda>obj. preturn
          (if obj \<noteq> None then SendWithStatus rs (PVal (dto_json obj)) StatusOK w
           else SendWithStatus rs (PVal (ErrorObject_json (not_found_object entity oid))) StatusNotFound w)))"

definition srv_ExistsItemById :: "('d, 'c) restServer \<Rightarrow> string \<Rightarrow> string \<Rightarrow> string \<Rightarrow> writer \<Rightarrow>
    (('d, 'c) worlds, writer) prog" where
  "srv_ExistsItemById rs backend entity item = handleItem rs backend entity item (\<lambda>c entity oid w.
     ebind (Exists c entity oid)
       (\<lambda>err. preturn (SendWithStatus rs (PErr err) StatusInternalServerError w))
       (\<lambda>ex. preturn (if ex then WriteHeader StatusNoContent w else WriteHeader StatusNotFound w)))"

definition srv_UpdateItemById :: "('d, 'c) restServer \<Rightarrow> string \<Rightarrow> string \<Rightarrow> string \<Rightarrow> goerr + string \<Rightarrow> writer \<Rightarrow>
    (('d, 'c) worlds, writer) prog" where
  "srv_UpdateItemById rs backend entity item reqBody = handleItem rs backend entity item (\<lambda>c entity oid w.
     case decode_body as_dto reqBody of
       Inl err \<Rightarrow> preturn (SendWithStatus rs (PErr err) StatusBadRequest w)
     | Inr body \<Rightarrow>
         ebind (Exists c entity oid)
           (\<lambda>err. preturn (SendWithStatus rs (PErr err) StatusInternalServerError w))
           (\<lambda>ex.
              if \<not> ex then
                preturn (SendWithStatus rs (PVal (ErrorObject_json (not_found_object entity oid))) StatusNotFound w)
              else
                ebind (Update c entity oid body)
                  (\<lambda>err. preturn (SendWithStatus rs (PErr err) StatusInternalServerError w))
                  (\<lambda>res. preturn (SendWithStatus rs (PVal (dto_json res)) StatusAccepted w))))"

definition srv_DeleteItemById :: "('d, 'c) restServer \<Rightarrow> string \<Rightarrow> string \<Rightarrow> string \<Rightarrow> writer \<Rightarrow>
    (('d, 'c) worlds, writer) prog" where
  "srv_DeleteItemById rs backend entity item = handleItem rs backend entity item (\<lambda>c entity oid w.
     pbind (Delete c entity oid) (\<lambda>r.
       case r of
         Some err \<Rightarrow> preturn (SendWithStatus rs (PErr err) StatusInternalServerError w)
       | None \<Rightarrow> preturn (WriteHeader StatusNoContent w)))"

text \<open>The loop of \<^verbatim>\<open>extractIds\<close>; a null id counts as present.\<close>

fun extractIds :: "string \<Rightarrow> (string \<Rightarrow> gmap \<Rightarrow> string) \<Rightarrow> gmap list \<Rightarrow> gval list \<Rightarrow> goerr + gval list" where
  "extractIds idCol msg [] ids = Inr ids"
| "extractIds idCol msg (obj # objs) ids =
     (case map_of obj idCol of
        Some oid \<Rightarrow> extractIds idCol msg objs (ids @ [oid])
      | None \<Rightarrow> Inl (PlainError (msg idCol obj)))"

definition no_id_msg :: "string \<Rightarrow> gmap \<Rightarrow> string" where
  "no_id_msg idCol obj =
     (''can'' @ [CHR 0x27] @ ''t extract ID column ('' @ idCol @ '') value from object '' @ fmt_v (VMap obj))"

text \<open>The configuration of a backend, reached again through the map of backends for its id column.\<close>

definition srv_IdColumn :: "('d, 'c) restServer \<Rightarrow> string \<Rightarrow> string \<Rightarrow> string outcome" where
  "srv_IdColumn rs backend entity =
     (case map_of (cfg_Backends (sv_cfg rs)) backend of
        Some (Some be) \<Rightarrow> IdColumn be entity
      | _ \<Rightarrow> Panics nil_deref)"

definition srv_BulkUpdate :: "('d, 'c) restServer \<Rightarrow> string \<Rightarrow> string \<Rightarrow> goerr + string \<Rightarrow> writer \<Rightarrow>
    (('d, 'c) worlds, writer) prog" where
  "srv_BulkUpdate rs backend entity reqBody = handleEntity rs backend entity (\<lambda>c entity w.
     case decode_body as_BulkUpdateRequest reqBody of
       Inl err \<Rightarrow> preturn (SendWithStatus rs (PErr err) StatusBadRequest w)
     | Inr body \<Rightarrow>
         pbind (plift (srv_IdColumn rs backend entity)) (\<lambda>idCol.
         pbind (if bu_Mode body = DELETE then
                  (case extractIds idCol no_id_msg (bu_Objects body) [] of
                     Inl err \<Rightarrow> preturn (Some err)
                   | Inr ids \<Rightarrow> MultiDelete c entity ids)
                else if bu_Mode body = UPDATE then MultiUpdate c entity (bu_Objects body)
                else if bu_Mode body = REPLACE \<or> bu_Mode body = INSERT then
                  MultiCreate c entity (bu_Mode body = REPLACE) (bu_Objects body)
                else preturn None)
           (\<lambda>r. case r of
                Some err \<Rightarrow> preturn (SendWithStatus rs (PErr err) StatusInternalServerError w)
              | None \<Rightarrow> preturn w)))"

definition srv_QueryNamed :: "('d, 'c) restServer \<Rightarrow> string \<Rightarrow> string \<Rightarrow> QueryNamedParams \<Rightarrow> writer \<Rightarrow>
    (('d, 'c) worlds, writer) prog" where
  "srv_QueryNamed rs backend name params = handleBackend rs backend (\<lambda>c w.
     let args = (case qn_Arg params of None \<Rightarrow> [] | Some xs \<Rightarrow> map VStr xs)
     in ebind (plift (FromParams (qn_PageOffset params) (qn_PageSize params) None None))
          (\<lambda>err. preturn (SendWithStatus rs (PErr (PlainError ''invalid filter'')) StatusBadRequest w))
          (\<lambda>qry. ebind (QueryNamed c name (Some qry) args)
             (\<lambda>err. preturn (SendWithStatus rs (PErr err) StatusInternalServerError w))
             (\<lambda>res. preturn (SendWithStatus rs (PVal (PagedResult_json res)) StatusOK w))))"

text \<open>All operations of the API by request; bodies are the JSON text the client sends.\<close>

fun serve :: "('d, 'c) restServer \<Rightarrow> (gval \<Rightarrow> string) \<Rightarrow> api_request \<Rightarrow> (('d, 'c) worlds, writer) prog" where
  "serve rs enc ReqListBackends = srv_ListBackends rs fresh_writer"
| "serve rs enc (ReqListEntities be) = srv_ListEntities rs be fresh_writer"
| "serve rs enc (ReqQueryNamed be name params) = srv_QueryNamed rs be name params fresh_writer"
| "serve rs enc (ReqListItems be ent params) = srv_ListItems rs be ent params fresh_writer"
| "serve rs enc (ReqCreateItem be ent body) =
     srv_CreateItem rs be ent (request_text enc (VMap body)) fresh_writer"
| "serve rs enc (ReqBulkUpdate be ent body) =
     srv_BulkUpdate rs be ent (request_text enc (BulkUpdateRequest_json body)) fresh_writer"
| "serve rs enc (ReqDeleteItemById be ent oid) = srv_DeleteItemById rs be ent oid fresh_writer"
| "serve rs enc (ReqGetItemById be ent oid) = srv_GetItemById rs be ent oid fresh_writer"
| "serve rs enc (ReqExistsItemById be ent oid) = srv_ExistsItemById rs be ent oid fresh_writer"
| "serve rs enc (ReqUpdateItemById be ent oid body) =
     srv_UpdateItemById rs be ent oid (request_text enc (VMap body)) fresh_writer"

section \<open>Start and stop\<close>

text \<open>The loop of \<^verbatim>\<open>Run\<close> that opens the backends and fills the map; it stops at the first error.\<close>

fun open_backends :: "(string \<Rightarrow> string \<Rightarrow> goerr + 'd driver) \<Rightarrow> ('d, 'c) cache_ops \<Rightarrow>
    (string \<times> 'd BackendConfig option) list \<Rightarrow> ('d, 'c) NameToCrudMap \<Rightarrow>
    (('d, 'c) worlds, goerr option \<times> (string \<times> 'd BackendConfig option) list \<times> ('d, 'c) NameToCrudMap) prog" where
  "open_backends sql_Open cache [] m = preturn (None, [], m)"
| "open_backends sql_Open cache ((n, be) # rest) m =
     pbind (plift (deref be)) (\<lambda>b.
     pbind (in_backend n (Open sql_Open b)) (\<lambda>(err, b').
       if err \<noteq> None then preturn (err, (n, Some b') # rest, m)
       else pbind (open_backends sql_Open cache rest (m @ [(n, crud_New cache b')])) (\<lambda>(err, rest', m').
         preturn (err, (n, Some b') # rest', m'))))"

text \<open>\<^verbatim>\<open>Run\<close> up to the point where the imported HTTP server takes over (\<open>serve_http\<close>).\<close>

definition Run :: "(string \<Rightarrow> string \<Rightarrow> goerr + 'd driver) \<Rightarrow> ('d, 'c) cache_ops \<Rightarrow>
    (('d, 'c) restServer \<Rightarrow> (('d, 'c) worlds, goerr option) prog) \<Rightarrow> ('d, 'c) restServer \<Rightarrow>
    (('d, 'c) worlds, goerr option \<times> ('d, 'c) restServer) prog" where
  "Run sql_Open cache serve_http rs =
     pbind (open_backends sql_Open cache (cfg_Backends (sv_cfg rs)) []) (\<lambda>(err, bes, m).
       let rs' = rs\<lparr>sv_cfg := (sv_cfg rs)\<lparr>cfg_Backends := bes\<rparr>, sv_crudMap := m\<rparr>
       in if err \<noteq> None then preturn (err, rs')
          else pbind (serve_http rs') (\<lambda>e. preturn (e, rs')))"

definition srv_Close :: "('d, 'c) restServer \<Rightarrow> goerr option outcome" where
  "srv_Close rs = NameToCrudMap_Close (sv_crudMap rs)"

text \<open>
  \<^verbatim>\<open>main\<close> after the configuration was read: it panics on a bad configuration or when \<^verbatim>\<open>Run\<close> fails
  with anything but \<^verbatim>\<open>ErrServerClosed\<close>, and closes the server when it leaves.
\<close>

definition ErrServerClosed :: goerr where
  "ErrServerClosed = PlainError ''http: Server closed''"

definition main_run :: "(('d, 'c) worlds, goerr option \<times> ('d, 'c) restServer) prog \<Rightarrow> (('d, 'c) worlds, unit) prog" where
  "main_run run =
     pbind run (\<lambda>(err, rs).
     pbind (plift (srv_Close rs)) (\<lambda>ignored.
       if err \<noteq> None \<and> err \<noteq> Some ErrServerClosed then ppanic ''main: error'' else preturn ()))"

text \<open>\<^verbatim>\<open>New\<close> reads the level and format of the logging section through their pointers.\<close>

definition server_New :: "sender \<Rightarrow> (int \<Rightarrow> string \<Rightarrow> string) \<Rightarrow> 'd Config \<Rightarrow> ('d, 'c) restServer outcome" where
  "server_New send my cfg =
     obind (deref (cfg_Logging cfg)) (\<lambda>lc.
     obind (deref (log_Level lc)) (\<lambda>level.
     obind (deref (log_Format lc)) (\<lambda>format.
       Returns \<lparr>sv_cfg = cfg, sv_crudMap = [], sv_send = send, sv_my = my\<rparr>)))"

definition main :: "(ServerConfig \<Rightarrow> goerr option \<times> ServerConfig) \<Rightarrow> string \<Rightarrow> sender \<Rightarrow> (int \<Rightarrow> string \<Rightarrow> string) \<Rightarrow>
    (string \<Rightarrow> string \<Rightarrow> goerr + 'd driver) \<Rightarrow> ('d, 'c) cache_ops \<Rightarrow>
    (('d, 'c) restServer \<Rightarrow> (('d, 'c) worlds, goerr option) prog) \<Rightarrow> 'd Config \<Rightarrow> (('d, 'c) worlds, unit) prog" where
  "main Check mpath send my sql_Open cache serve_http cfg0 =
     pbind (plift (CheckAndNormalize Check mpath cfg0)) (\<lambda>(err, cfg).
       if err \<noteq> None then ppanic ''main: configuration''
       else pbind (plift (server_New send my cfg)) (\<lambda>rs. main_run (Run sql_Open cache serve_http rs)))"

text \<open>An accepted configuration never makes \<^verbatim>\<open>New\<close> panic.\<close>

lemma server_New_Returns: "config_ok cfg \<Longrightarrow> is_returns (server_New send my cfg)"
  by (auto simp: config_ok_def server_New_def split: option.splits)

text \<open>The labels of a request in the metrics: the first two segments behind the API prefix.\<close>

definition telemetry_labels :: "string \<Rightarrow> string \<Rightarrow> (string \<times> string) option" where
  "telemetry_labels prefix path =
     (let p = (if take (length prefix) path = prefix then drop (length prefix) path else path);
          p = (if take 1 p = ''/'' then drop 1 p else p);
          parts = split_on (CHR ''/'') p
      in if length parts > 1 then Some (parts ! 0, parts ! 1) else None)"

end
