(* ===== verification/Server_Properties.thy ===== *)
theory Server_Properties
  imports Server Crud_Properties
begin

text \<open>
  Properties of the HTTP server as a whole: what requests can do to the databases, which status an
  error becomes, and how the server stops.
\<close>

section \<open>Effects of requests\<close>

definition all_adds :: "(dbcall \<Rightarrow> bool) \<Rightarrow> ('d, 'c) worlds \<Rightarrow> ('d, 'c) worlds \<Rightarrow> bool" where
  "all_adds P ws ws' \<longleftrightarrow> (\<forall>n. adds P (ws n) (ws' n))"

lemma keeps_handleBackend:
  assumes "\<And>c w. (backend, c) \<in> set (sv_crudMap rs) \<Longrightarrow> keeps (adds P) (handler c w)"
  shows "keeps (all_adds P) (handleBackend rs backend handler w)"
proof (cases "map_of (sv_crudMap rs) backend")
  case None
  then show ?thesis by (simp add: handleBackend_def keeps_def preturn_def all_adds_def)
next
  case (Some c)
  then have "keeps (adds P) (handler c w)" using assms by (simp add: map_of_SomeD)
  with Some show ?thesis
    by (auto simp: handleBackend_def keeps_def in_backend_def all_adds_def split: prod.splits) (metis snd_conv)
qed

text \<open>A server whose backends all forbid writing.\<close>

definition read_only_server :: "('d, 'c) restServer \<Rightarrow> bool" where
  "read_only_server rs \<longleftrightarrow>
     (\<forall>(n, c) \<in> set (sv_crudMap rs). be_Update (im_config c) = Some False \<and>
        be_Create (im_config c) = Some False \<and> be_Delete (im_config c) = Some False \<and> cache_lawful (im_mdCache c))"

lemma read_only_impl:
  assumes "read_only_server rs" "(n, c) \<in> set (sv_crudMap rs)"
  shows "be_Update (im_config c) = Some False" "be_Create (im_config c) = Some False"
    "be_Delete (im_config c) = Some False"
  using assms by (auto simp: read_only_server_def)

lemmas handler_defs = srv_ListEntities_def srv_ListItems_def srv_CreateItem_def srv_GetItemById_def
  srv_ExistsItemById_def srv_UpdateItemById_def srv_DeleteItemById_def srv_BulkUpdate_def srv_QueryNamed_def
  handleItem_def handleEntity_def

lemmas keeps_crud = keeps_ListItems keeps_QueryNamed keeps_ListEntities keeps_Exists keeps_Get

text \<open>No request can write to a read-only server: whatever operation is requested on whatever
  backend, with whatever body, every database only sees queries.\<close>

theorem read_only_server_never_writes:
  assumes "read_only_server rs" and "serve rs enc req ws = (r, ws')"
  shows "\<exists>evs. w_calls (ws' n) = w_calls (ws n) @ evs \<and> list_all is_query evs"
proof -
  have "keeps (all_adds is_query) (serve rs enc req)"
  proof (cases req)
    case ReqListBackends
    then show ?thesis by (simp add: srv_ListBackends_def keeps_def preturn_def all_adds_def Let_def)
  next
    case (ReqCreateItem be ent body)
    show ?thesis unfolding ReqCreateItem serve.simps handler_defs
      by (rule keeps_handleBackend)
        (auto intro!: keeps_crud keeps_write_denied read_only_impl [OF assms(1)] split: sum.splits)
  next
    case (ReqBulkUpdate be ent body)
    show ?thesis unfolding ReqBulkUpdate serve.simps handler_defs
      by (rule keeps_handleBackend)
        (auto intro!: keeps_crud keeps_write_denied read_only_impl [OF assms(1)] split: sum.splits option.splits)
  next
    case (ReqUpdateItemById be ent oid body)
    show ?thesis unfolding ReqUpdateItemById serve.simps handler_defs
      by (rule keeps_handleBackend)
        (auto intro!: keeps_crud keeps_write_denied read_only_impl [OF assms(1)] split: sum.splits)
  next
    case (ReqDeleteItemById be ent oid)
    show ?thesis unfolding ReqDeleteItemById serve.simps handler_defs
      by (rule keeps_handleBackend)
        (auto intro!: keeps_crud keeps_write_denied read_only_impl [OF assms(1)] split: option.splits)
  qed (simp only: serve.simps handler_defs Let_def, rule keeps_handleBackend, auto intro!: keeps_crud)+
  then show ?thesis using assms(2) by (metis keeps_def all_adds_def adds_def snd_conv)
qed

definition read_only_demo :: "((string list \<times> string list), unit) restServer" where
  "read_only_demo = \<lparr>sv_cfg = \<lparr>cfg_Server = plain_server, cfg_Backends = [], cfg_Logging = None\<rparr>,
     sv_crudMap = [(''main'', crud_New no_cache (small_backend\<lparr>be_Update := Some False, be_Create := Some False,
       be_Delete := Some False\<rparr>))],
     sv_send = (\<lambda>m p st w. WriteHeader st w), sv_my = (\<lambda>n msg. msg)\<rparr>"

theorem read_only_server_never_writes_witness:
  "\<exists>evs. w_calls (snd (serve read_only_demo fmt_v (ReqDeleteItemById ''main'' ''t'' ''1'') (\<lambda>n. small_world)) ''main'') = evs \<and>
     list_all is_query evs"
proof -
  have ro: "read_only_server read_only_demo"
    by (simp add: read_only_server_def read_only_demo_def crud_New_def small_lawful)
  obtain r ws' where s: "serve read_only_demo fmt_v (ReqDeleteItemById ''main'' ''t'' ''1'') (\<lambda>n. small_world) = (r, ws')"
    by fastforce
  from read_only_server_never_writes [OF ro s, of "''main''"] s show ?thesis by (simp add: small_world_def)
qed

section \<open>Errors as statuses\<close>

text \<open>What the program relies on of the imported output builder: an error the mapper handles is
  answered by what the mapper wrote, any other error and every value with the given status.\<close>

definition sender_lawful :: "sender \<Rightarrow> bool" where
  "sender_lawful send \<longleftrightarrow>
     (\<forall>mapper e st w. snd (mapper w e) \<longrightarrow> send mapper (PErr e) st w = fst (mapper w e)) \<and>
     (\<forall>mapper e st w. \<not> snd (mapper w e) \<longrightarrow> wr_Status w = None \<longrightarrow> wr_Status (send mapper (PErr e) st w) = Some st) \<and>
     (\<forall>mapper v st w. wr_Status w = None \<longrightarrow> wr_Status (send mapper (PVal v) st w) = Some st)"

text \<open>C26: The status of an error: a MySQL error anywhere in the chain decides, duplicate keys and
  violated foreign keys giving 409, a missing value 400 and all others 500; otherwise the outermost
  status the program attached counts (200 when that is 0), and an error without one gets the status
  the handler passed.\<close>

theorem error_status:
  assumes "sender_lawful (sv_send rs)"
  shows "final_status (SendWithStatus rs (PErr e) st fresh_writer) =
    (case as_MySQLError e of
       Some (n, msg) \<Rightarrow> (if n = 1062 \<or> n = 1451 \<or> n = 1452 then 409 else if n = 1364 then 400 else 500)
     | None \<Rightarrow> (case as_ErrorWithStatus e of
         Some (s, msg) \<Rightarrow> (if s = 0 then 200 else s)
       | None \<Rightarrow> st))"
proof -
  let ?m = "error_mapper (sv_my rs)"
  have wr: "wr_Status fresh_writer = None" by (simp add: fresh_writer_def)
  show ?thesis
  proof (cases "snd (?m fresh_writer e)")
    case True
    then have "SendWithStatus rs (PErr e) st fresh_writer = fst (?m fresh_writer e)"
      using assms by (simp add: SendWithStatus_def sender_lawful_def)
    with True show ?thesis
      by (auto simp: error_mapper_def mysqlError2status_def final_status_def WriteBody_def WriteHeader_def
          SetContentType_def fresh_writer_def Let_def split: option.splits prod.splits)
  next
    case False
    then have "wr_Status (SendWithStatus rs (PErr e) st fresh_writer) = Some st"
      using assms wr by (simp add: SendWithStatus_def sender_lawful_def)
    moreover have "as_MySQLError e = None" "as_ErrorWithStatus e = None"
      using False by (auto simp: error_mapper_def Let_def split: option.splits)
    ultimately show ?thesis by (simp add: final_status_def)
  qed
qed

definition plain_sender :: sender where
  "plain_sender mapper p st w =
     (case p of
        PErr e \<Rightarrow> (case mapper w e of (w', handled) \<Rightarrow> if handled then w' else WriteHeader st w)
      | PVal v \<Rightarrow> WriteBody (WJson v) (WriteHeader st w))"

lemma plain_sender_lawful: "sender_lawful plain_sender"
  by (auto simp: sender_lawful_def plain_sender_def WriteHeader_def WriteBody_def Let_def split: prod.splits)

theorem error_status_witness:
  "final_status (SendWithStatus (read_only_demo\<lparr>sv_send := plain_sender\<rparr>)
     (PErr (Joined [WrapErrorWithStatus ''query failed'' (MySQLError 1062 ''dup'') 500])) 500 fresh_writer) = 409"
  using error_status [of "read_only_demo\<lparr>sv_send := plain_sender\<rparr>"
      "Joined [WrapErrorWithStatus ''query failed'' (MySQLError 1062 ''dup'') 500]" 500]
  by (simp add: plain_sender_lawful WrapErrorWithStatus_def)

text \<open>A bulk request with a mode the API does not know is accepted: nothing is done, no error is
  reported, and the client sees status 200.\<close>

theorem bulk_unknown_mode_is_ok:
  assumes "map_of (sv_crudMap rs) backend = Some c" "srv_IdColumn rs backend entity = Returns idc"
    and "decode_body as_BulkUpdateRequest reqBody = Inr body" "\<not> BulkUpdateMode_Valid (bu_Mode body)"
  shows "srv_BulkUpdate rs backend entity reqBody fresh_writer ws = (Returns fresh_writer, ws) \<and>
    final_status fresh_writer = 200"
  using assms
  by (auto simp: srv_BulkUpdate_def handleEntity_def handleBackend_def in_backend_def BulkUpdateMode_Valid_def
      pbind_def plift_def preturn_def final_status_def fresh_writer_def)

definition bulk_demo :: "((string list \<times> string list), unit) restServer" where
  "bulk_demo = read_only_demo\<lparr>sv_cfg := \<lparr>cfg_Server = plain_server, cfg_Backends = [(''main'', Some small_backend)],
     cfg_Logging = None\<rparr>\<rparr>"

theorem bulk_unknown_mode_is_ok_witness:
  "srv_BulkUpdate bulk_demo ''main'' ''t'' (Inr ''{}'') fresh_writer (\<lambda>n. small_world) =
     (Returns fresh_writer, \<lambda>n. small_world)"
proof -
  have "json_decode ''{}'' = Some (VMap [])" by code_simp
  then have "decode_body as_BulkUpdateRequest (Inr ''{}'') = Inr \<lparr>bu_Mode = [], bu_Objects = []\<rparr>"
    by (simp add: decode_body_def as_BulkUpdateRequest_def json_field_def)
  then show ?thesis
    using bulk_unknown_mode_is_ok [of bulk_demo "''main''" _ "''t''" "''id''" "Inr ''{}''"]
    by (simp add: bulk_demo_def read_only_demo_def srv_IdColumn_def BulkUpdateMode_Valid_def)
qed

section \<open>Stopping\<close>

text \<open>The server cannot be closed once it has a backend: the implementation embeds a closer that
  is never set, so \<^verbatim>\<open>Close\<close> panics, and with it the program when \<^verbatim>\<open>Run\<close> has returned, whether the
  server was shut down cleanly or not.\<close>

theorem close_panics:
  assumes "run ws = (Returns (err, rs), ws')" "sv_crudMap rs \<noteq> []"
  shows "srv_Close rs = Panics nil_deref \<and> main_run run ws = (Panics nil_deref, ws')"
proof -
  have "srv_Close rs = Panics nil_deref"
    using assms(2) by (cases "sv_crudMap rs") (auto simp: srv_Close_def NameToCrudMap_Close_def impl_Close_def)
  then show ?thesis using assms(1) by (simp add: main_run_def pbind_def plift_def)
qed

theorem close_panics_witness:
  "fst (main_run (\<lambda>ws. (Returns (Some ErrServerClosed, bulk_demo), ws)) (\<lambda>n. small_world)) = Panics nil_deref"
  using close_panics [of "\<lambda>ws. (Returns (Some ErrServerClosed, bulk_demo), ws)" "\<lambda>n. small_world"]
  by (simp add: bulk_demo_def read_only_demo_def)

end
