(* ===== verification/Net_Url.thy ===== *)
theory Net_Url
  imports Query
begin

text \<open>
  What the generated client and server use of \<^verbatim>\<open>net/url\<close>: escaping, parsing, resolving a relative
  reference, printing, and query strings. A path is carried in its escaped form
  (\<^verbatim>\<open>EscapedPath()\<close>), from which \<^verbatim>\<open>Path\<close> and \<^verbatim>\<open>RawPath\<close> follow; fragments, which are never sent, are
  cut off; authorities with user information or an IPv6 literal are taken as they are.
\<close>

section \<open>Escaping\<close>

datatype url_mode = PathSegment | WholePath | QueryComponent

definition reserved_chars :: string where
  "reserved_chars = ''$&+,/:;=?@''"

definition should_escape :: "url_mode \<Rightarrow> char \<Rightarrow> bool" where
  "should_escape mode c =
     (if unreserved c then False
      else if c \<in> set reserved_chars then
        (case mode of
           WholePath \<Rightarrow> c = CHR ''?''
         | PathSegment \<Rightarrow> c \<in> {CHR ''/'', CHR '';'', CHR '','', CHR ''?''}
         | QueryComponent \<Rightarrow> True)
      else True)"

definition hex_escape :: "char \<Rightarrow> string" where
  "hex_escape c = [CHR ''%'', upper_hex (of_char c div 16), upper_hex (of_char c mod 16)]"

definition url_escape :: "url_mode \<Rightarrow> string \<Rightarrow> string" where
  "url_escape mode s =
     concat (map (\<lambda>c. if should_escape mode c
       then (if c = CHR '' '' \<and> mode = QueryComponent then ''+'' else hex_escape c) else [c]) s)"

text \<open>\<^verbatim>\<open>url.PathEscape\<close>\<close>

definition PathEscape :: "string \<Rightarrow> string" where
  "PathEscape = url_escape PathSegment"

text \<open>Unescaping fails on a percent sign that two hexadecimal digits do not follow; in a query a plus
  sign is a blank.\<close>

fun url_unescape :: "bool \<Rightarrow> string \<Rightarrow> string option" where
  "url_unescape inq [] = Some []"
| "url_unescape inq (c # cs) =
     (if c = CHR ''%'' then
        (case cs of
           a # b # ds \<Rightarrow>
             (case (hex_val a, hex_val b) of
                (Some i, Some j) \<Rightarrow> map_option (\<lambda>t. char_of (16 * i + j) # t) (url_unescape inq ds)
              | _ \<Rightarrow> None)
         | _ \<Rightarrow> None)
      else map_option (\<lambda>t. (if inq \<and> c = CHR ''+'' then CHR '' '' else c) # t) (url_unescape inq cs))"

definition PathUnescape :: "string \<Rightarrow> string option" where
  "PathUnescape = url_unescape False"

definition QueryUnescape :: "string \<Rightarrow> string option" where
  "QueryUnescape = url_unescape True"

section \<open>URLs\<close>

record url =
  u_Scheme :: string
  u_Opaque :: string
  u_Host :: string
  u_OmitHost :: bool
  u_EPath :: string
  u_RawQuery :: string

definition valid_encoded_char :: "char \<Rightarrow> bool" where
  "valid_encoded_char c \<longleftrightarrow>
     c \<in> set ''!$&()*+,;=:@[]%'' \<or> c = CHR 0x27 \<or> \<not> should_escape WholePath c"

text \<open>\<^verbatim>\<open>setPath\<close> followed by \<^verbatim>\<open>EscapedPath\<close>\<close>

definition set_path :: "string \<Rightarrow> string option" where
  "set_path p =
     (case PathUnescape p of
        None \<Rightarrow> None
      | Some d \<Rightarrow> Some (if list_all valid_encoded_char p then p else url_escape WholePath d))"

definition letter :: "char \<Rightarrow> bool" where
  "letter c \<longleftrightarrow> (let n = (of_char c :: nat) in 65 \<le> n \<and> n \<le> 90 \<or> 97 \<le> n \<and> n \<le> 122)"

definition scheme_char :: "char \<Rightarrow> bool" where
  "scheme_char c \<longleftrightarrow> letter c \<or> is_digit c \<or> c \<in> {CHR ''+'', CHR ''-'', CHR ''.''}"

definition get_scheme :: "string \<Rightarrow> (string \<times> string) option" where
  "get_scheme s =
     (let n = takeWhile scheme_char s
      in case dropWhile scheme_char s of
           [] \<Rightarrow> Some ([], s)
         | c # rest \<Rightarrow>
             (if c \<noteq> CHR '':'' then Some ([], s)
              else if n = [] then None
              else if \<not> letter (hd n) then Some ([], s)
              else Some (to_lower n, rest)))"

definition ctl_char :: "char \<Rightarrow> bool" where
  "ctl_char c \<longleftrightarrow> of_char c < (32 :: nat) \<or> c = CHR 0x7F"

definition host_char :: "char \<Rightarrow> bool" where
  "host_char c \<longleftrightarrow>
     unreserved c \<or> c \<in> set ''!$&()*+,;=:[]<>'' \<or> c = CHR 0x27 \<or> c = CHR 0x22 \<or> (128 :: nat) \<le> of_char c"

definition bad_authority :: "string \<Rightarrow> bool" where
  "bad_authority a \<longleftrightarrow>
     CHR ''@'' \<notin> set a \<and> CHR ''['' \<notin> set a \<and>
     (\<not> list_all host_char a \<or>
      (CHR '':'' \<in> set a \<and> \<not> list_all is_digit (rev (takeWhile (\<lambda>c. c \<noteq> CHR '':'') (rev a)))))"

definition cut :: "char \<Rightarrow> string \<Rightarrow> string \<times> string" where
  "cut sep s = (takeWhile (\<lambda>c. c \<noteq> sep) s, drop 1 (dropWhile (\<lambda>c. c \<noteq> sep) s))"

text \<open>\<^verbatim>\<open>url.Parse\<close>\<close>

definition url_Parse :: "string \<Rightarrow> url option" where
  "url_Parse raw =
     (let s = fst (cut (CHR ''#'') raw) in
      if list_ex ctl_char s then None
      else (case get_scheme s of
          None \<Rightarrow> None
        | Some (scheme, rest0) \<Rightarrow>
            (let (rest, query) = cut (CHR ''?'') rest0;
                 mk = (\<lambda>host omit path. map_option (\<lambda>p. \<lparr>u_Scheme = scheme, u_Opaque = [], u_Host = host,
                   u_OmitHost = omit, u_EPath = p, u_RawQuery = query\<rparr>) (set_path path))
             in if take 1 rest \<noteq> ''/'' then
                  (if scheme \<noteq> [] then
                     Some \<lparr>u_Scheme = scheme, u_Opaque = rest, u_Host = [], u_OmitHost = False, u_EPath = [],
                       u_RawQuery = query\<rparr>
                   else if CHR '':'' \<in> set (fst (cut (CHR ''/'') rest)) then None
                   else mk [] False rest)
                else if take 2 rest = ''//'' \<and> (scheme \<noteq> [] \<or> take 3 rest \<noteq> ''///'') then
                  (let authority = takeWhile (\<lambda>c. c \<noteq> CHR ''/'') (drop 2 rest);
                       path = dropWhile (\<lambda>c. c \<noteq> CHR ''/'') (drop 2 rest)
                   in if bad_authority authority then None else mk authority False path)
                else mk [] (scheme \<noteq> []) rest)))"

text \<open>The removal of dot segments; \<open>dst\<close> is what was written behind the leading slash.\<close>

fun resolve_step :: "string \<times> bool \<Rightarrow> string \<Rightarrow> string \<times> bool" where
  "resolve_step (dst, first) el =
     (if el = ''.'' then (dst, False)
      else if el = ''..'' then
        (if CHR ''/'' \<in> set dst
         then (rev (drop 1 (dropWhile (\<lambda>c. c \<noteq> CHR ''/'') (rev dst))), first) else ([], True))
      else ((if first then dst else dst @ ''/'') @ el, False))"

definition resolve_path :: "string \<Rightarrow> string \<Rightarrow> string" where
  "resolve_path base ref =
     (let full = (if ref = [] then base
                  else if take 1 ref \<noteq> ''/'' then rev (dropWhile (\<lambda>c. c \<noteq> CHR ''/'') (rev base)) @ ref
                  else ref)
      in if full = [] then []
         else (let parts = split_on (CHR ''/'') full;
                   dst = fst (foldl resolve_step ([], True) parts);
                   dst = (if last parts \<in> {''.'', ''..''} then dst @ ''/'' else dst)
               in if take 1 dst = ''/'' then dst else ''/'' @ dst))"

text \<open>\<^verbatim>\<open>u.Parse(ref)\<close>: parse the reference and resolve it against \<open>u\<close>.\<close>

definition reset_path :: "string \<Rightarrow> string \<Rightarrow> string" where
  "reset_path old p = (case set_path p of Some q \<Rightarrow> q | None \<Rightarrow> old)"

definition url_resolve :: "url \<Rightarrow> url \<Rightarrow> url" where
  "url_resolve u ref =
     (let scheme = (if u_Scheme ref = [] then u_Scheme u else u_Scheme ref);
          r = ref\<lparr>u_Scheme := scheme\<rparr>
      in if u_Scheme ref \<noteq> [] \<or> u_Host ref \<noteq> [] then
           r\<lparr>u_EPath := reset_path (u_EPath ref) (resolve_path (u_EPath ref) [])\<rparr>
         else if u_Opaque ref \<noteq> [] then r\<lparr>u_EPath := []\<rparr>
         else (let r = (if u_EPath ref = [] \<and> u_RawQuery ref = [] then r\<lparr>u_RawQuery := u_RawQuery u\<rparr> else r)
               in if u_EPath ref = [] \<and> u_Opaque u \<noteq> [] then r\<lparr>u_Opaque := u_Opaque u\<rparr>
                  else r\<lparr>u_Host := u_Host u,
                    u_EPath := reset_path (u_EPath ref) (resolve_path (u_EPath u) (u_EPath ref))\<rparr>))"

definition url_Parse_ref :: "url \<Rightarrow> string \<Rightarrow> url option" where
  "url_Parse_ref u ref = map_option (url_resolve u) (url_Parse ref)"

definition url_String :: "url \<Rightarrow> string" where
  "url_String u =
     (if u_Scheme u \<noteq> [] then u_Scheme u @ '':'' else []) @
     (if u_Opaque u \<noteq> [] then u_Opaque u
      else (if u_Scheme u \<noteq> [] \<or> u_Host u \<noteq> [] then
              (if u_OmitHost u \<and> u_Host u = [] then []
               else (if u_Host u \<noteq> [] \<or> u_EPath u \<noteq> [] then ''//'' else []) @ u_Host u)
            else []) @
           (if u_EPath u \<noteq> [] \<and> take 1 (u_EPath u) \<noteq> ''/'' \<and> u_Host u \<noteq> [] then ''/'' else []) @
           (if u_Scheme u = [] \<and> u_Host u = [] \<and> CHR '':'' \<in> set (fst (cut (CHR ''/'') (u_EPath u)))
            then ''./'' else []) @
           u_EPath u) @
     (if u_RawQuery u \<noteq> [] then ''?'' @ u_RawQuery u else [])"

section \<open>Query strings\<close>

text \<open>One piece between ampersands; \<open>None\<close> when it is skipped.\<close>

definition query_pair :: "string \<Rightarrow> (string \<times> string) option" where
  "query_pair p =
     (if CHR '';'' \<in> set p \<or> p = [] then None
      else (case cut (CHR ''='') p of (k, v) \<Rightarrow>
        (case (QueryUnescape k, QueryUnescape v) of
           (Some k', Some v') \<Rightarrow> Some (k', v')
         | _ \<Rightarrow> None)))"

definition add_piece :: "url_values \<Rightarrow> string \<Rightarrow> url_values" where
  "add_piece m p = (case query_pair p of None \<Rightarrow> m | Some (k, v) \<Rightarrow> values_Add k v m)"

text \<open>\<^verbatim>\<open>u.Query()\<close>\<close>

definition url_Query :: "url \<Rightarrow> url_values" where
  "url_Query u = foldl add_piece [] (split_on (CHR ''&'') (u_RawQuery u))"

end
