(* ===== verification/Url_Facts.thy ===== *)
theory Url_Facts
  imports Net_Url
begin

text \<open>
  Facts about URLs: unescaping undoes escaping, an absolute URL is printed and parsed back
  unchanged, and a relative reference made of path segments is appended to the base.
\<close>

section \<open>Escaping and unescaping\<close>

lemma hex_val_upper: "d < 16 \<Longrightarrow> hex_val (upper_hex d) = Some d"
  by (auto simp: hex_val_def upper_hex_def of_char_of Let_def)

lemma char_digits: "(of_char c :: nat) div 16 < 16"
  by (rule less_mult_imp_div_less) simp

lemma unescape_hex: "url_unescape inq (hex_escape c @ s) = map_option (\<lambda>t. c # t) (url_unescape inq s)"
  by (simp add: hex_escape_def hex_val_upper char_digits)

lemma percent_escaped: "should_escape mode (CHR ''%'')"
  by (simp add: should_escape_def unreserved_def reserved_chars_def)

lemma plus_escaped: "should_escape QueryComponent (CHR ''+'')"
  by (simp add: should_escape_def unreserved_def reserved_chars_def)

definition esc_piece :: "url_mode \<Rightarrow> char \<Rightarrow> string" where
  "esc_piece mode c =
     (if should_escape mode c
      then (if c = CHR '' '' \<and> mode = QueryComponent then ''+'' else hex_escape c) else [c])"

lemma url_escape_Cons: "url_escape mode (c # s) = esc_piece mode c @ url_escape mode s"
  by (simp add: url_escape_def esc_piece_def)

lemma unescape_piece:
  "url_unescape (mode = QueryComponent) (esc_piece mode c @ s) =
     map_option (\<lambda>t. c # t) (url_unescape (mode = QueryComponent) s)"
proof (cases "should_escape mode c")
  case True
  then show ?thesis by (auto simp: esc_piece_def unescape_hex)
next
  case False
  then have "c \<noteq> CHR ''%''" "mode = QueryComponent \<Longrightarrow> c \<noteq> CHR ''+''"
    using percent_escaped [of mode] plus_escaped by auto
  with False show ?thesis by (auto simp: esc_piece_def)
qed

lemma unescape_escape:
  "url_unescape (mode = QueryComponent) (url_escape mode s @ t) =
     map_option (\<lambda>r. s @ r) (url_unescape (mode = QueryComponent) t)"
proof (induction s)
  case Nil
  then show ?case by (simp add: url_escape_def option.map_ident)
next
  case (Cons c s)
  then show ?case
    by (simp only: url_escape_Cons append_assoc unescape_piece option.map_comp comp_def append_Cons)
qed

lemma PathUnescape_PathEscape [simp]: "PathUnescape (PathEscape s) = Some s"
  using unescape_escape [of PathSegment s "[]"] by (simp add: PathUnescape_def PathEscape_def)

lemma QueryUnescape_escape: "QueryUnescape (url_escape QueryComponent s) = Some s"
  using unescape_escape [of QueryComponent s "[]"] by (simp add: QueryUnescape_def)

text \<open>Characters that can stand in an escaped path segment.\<close>

definition seg_char :: "char \<Rightarrow> bool" where
  "seg_char c \<longleftrightarrow> valid_encoded_char c \<and> c \<notin> {CHR ''/'', CHR ''?'', CHR ''#''} \<and> \<not> ctl_char c"

lemma unreserved_seg_char: "unreserved c \<Longrightarrow> seg_char c"
  by (auto simp: seg_char_def valid_encoded_char_def should_escape_def ctl_char_def unreserved_def Let_def)

lemma upper_hex_unreserved: "d < 16 \<Longrightarrow> unreserved (upper_hex d)"
  by (auto simp: upper_hex_def unreserved_def of_char_of Let_def)

lemma seg_char_hex: "list_all seg_char (hex_escape c)"
proof -
  have "seg_char (CHR ''%'')" by (simp add: seg_char_def valid_encoded_char_def ctl_char_def)
  then show ?thesis
    by (simp add: hex_escape_def unreserved_seg_char upper_hex_unreserved char_digits)
qed

lemma seg_char_kept:
  assumes "\<not> should_escape PathSegment c"
  shows "seg_char c"
proof (cases "unreserved c")
  case False
  with assms have "c \<in> {CHR ''$'', CHR ''&'', CHR ''+'', CHR '':'', CHR ''='', CHR ''@''}"
    by (simp add: should_escape_def reserved_chars_def split: if_splits)
  then show ?thesis
    by (elim insertE emptyE) (simp_all add: seg_char_def valid_encoded_char_def ctl_char_def)
qed (rule unreserved_seg_char)

lemma seg_char_PathEscape: "list_all seg_char (PathEscape s)"
proof (induction s)
  case (Cons c s)
  have "list_all seg_char (esc_piece PathSegment c)"
    by (simp add: esc_piece_def seg_char_hex seg_char_kept)
  with Cons show ?case by (simp add: PathEscape_def url_escape_Cons)
qed (simp add: PathEscape_def url_escape_def)

lemma url_unescape_append:
  "url_unescape inq s = Some d \<Longrightarrow> url_unescape inq (s @ t) = map_option (\<lambda>r. d @ r) (url_unescape inq t)"
proof (induction inq s arbitrary: d rule: url_unescape.induct)
  case (1 inq)
  then show ?case by (simp add: option.map_ident)
next
  case (2 inq c cs)
  show ?case
  proof (cases "c = CHR ''%''")
    case True
    with "2.prems" obtain a b ds i j where cs: "cs = a # b # ds" "hex_val a = Some i" "hex_val b = Some j"
      by (auto split: list.splits option.splits)
    with True "2.prems" obtain t' where t': "url_unescape inq ds = Some t'" "d = char_of (16 * i + j) # t'" by auto
    have "url_unescape inq (ds @ t) = map_option (\<lambda>r. t' @ r) (url_unescape inq t)"
      using "2.IH"(1) [OF True cs(1) refl refl cs(2) cs(3) t'(1)] .
    with cs True t' show ?thesis
      by (simp add: option.map_comp comp_def)
  next
    case False
    with "2.prems" obtain t' where t': "url_unescape inq cs = Some t'"
      "d = (if inq \<and> c = CHR ''+'' then CHR '' '' else c) # t'" by auto
    from "2.IH"(2) [OF False t'(1)] False t' show ?thesis by (simp add: option.map_comp comp_def)
  qed
qed

section \<open>Paths made of segments\<close>

definition join_path :: "string list \<Rightarrow> string" where
  "join_path segs = concat (map (\<lambda>s. CHR ''/'' # s) segs)"

lemma join_path_simps [simp]:
  "join_path [] = []" "join_path (s # ss) = CHR ''/'' # s @ join_path ss"
  "join_path (xs @ ys) = join_path xs @ join_path ys"
  by (simp_all add: join_path_def)

lemma split_join_path:
  "CHR ''/'' \<notin> set x \<Longrightarrow> \<forall>s \<in> set segs. CHR ''/'' \<notin> set s \<Longrightarrow>
   split_on (CHR ''/'') (x @ join_path segs) = x # segs"
proof (induction segs arbitrary: x)
  case (Cons s segs)
  then show ?case using split_on_first [of "CHR ''/''" x "s @ join_path segs"] by simp
qed (simp add: split_on_none)

definition seg_ok :: "string \<Rightarrow> bool" where
  "seg_ok s \<longleftrightarrow> list_all seg_char s \<and> PathUnescape s \<noteq> None \<and> s \<noteq> ''.'' \<and> s \<noteq> ''..''"

lemma seg_ok_PathEscape:
  "s \<noteq> ''.'' \<Longrightarrow> s \<noteq> ''..'' \<Longrightarrow> seg_ok (PathEscape s)"
  using PathUnescape_PathEscape [of s]
  by (auto simp: seg_ok_def seg_char_PathEscape PathUnescape_def)

lemma seg_ok_slash: "seg_ok s \<Longrightarrow> CHR ''/'' \<notin> set s"
  by (auto simp: seg_ok_def list_all_iff seg_char_def)

lemma PathUnescape_join_path:
  "list_all2 (\<lambda>s d. PathUnescape s = Some d) segs ds \<Longrightarrow> PathUnescape (join_path segs) = Some (join_path ds)"
proof (induction segs arbitrary: ds)
  case (Cons s segs)
  then obtain d ds' where ds: "ds = d # ds'" "PathUnescape s = Some d"
    "list_all2 (\<lambda>s d. PathUnescape s = Some d) segs ds'"
    by (cases ds) auto
  with Cons.IH [OF ds(3)] url_unescape_append [of False s d "join_path segs"]
  show ?case by (simp add: PathUnescape_def)
qed (simp add: PathUnescape_def)

lemma seg_ok_unescape: "list_all seg_ok segs \<Longrightarrow> PathUnescape (join_path segs) \<noteq> None"
proof -
  assume "list_all seg_ok segs"
  then have "list_all2 (\<lambda>s d. PathUnescape s = Some d) segs (map (\<lambda>s. the (PathUnescape s)) segs)"
    by (auto simp: list_all2_conv_all_nth list_all_length seg_ok_def)
  from PathUnescape_join_path [OF this] show ?thesis by simp
qed

text \<open>Characters of a whole escaped path.\<close>

definition path_char :: "char \<Rightarrow> bool" where
  "path_char c \<longleftrightarrow> seg_char c \<or> c = CHR ''/''"

lemma path_char_join: "list_all seg_ok segs \<Longrightarrow> list_all path_char (join_path segs)"
  by (induction segs) (auto simp: seg_ok_def list_all_iff path_char_def)

lemma path_char_props:
  assumes "path_char c"
  shows "valid_encoded_char c" "c \<noteq> CHR ''?''" "c \<noteq> CHR ''#''" "\<not> ctl_char c"
  using assms
  by (auto simp: path_char_def seg_char_def valid_encoded_char_def should_escape_def reserved_chars_def ctl_char_def)

lemma set_path_ok: "list_all path_char p \<Longrightarrow> PathUnescape p \<noteq> None \<Longrightarrow> set_path p = Some p"
  by (auto simp: set_path_def list_all_iff path_char_props)

lemma foldl_resolve_segs:
  "list_all seg_ok segs \<Longrightarrow> foldl resolve_step (dst, False) segs = (dst @ join_path segs, False)"
  by (induction segs arbitrary: dst) (auto simp: seg_ok_def)

lemma resolve_path_segs:
  assumes "list_all seg_ok psegs" "list_all seg_ok segs" "segs \<noteq> []"
  shows "resolve_path (join_path psegs @ ''/'') (''.'' @ join_path segs) = join_path (psegs @ segs)"
proof -
  have base: "rev (dropWhile (\<lambda>c. c \<noteq> CHR ''/'') (rev (join_path psegs @ ''/''))) = join_path psegs @ ''/''"
    by simp
  have parts: "split_on (CHR ''/'') ((join_path psegs @ ''/'') @ ''.'' @ join_path segs) = [] # psegs @ [''.''] @ segs"
  proof -
    have "\<forall>s \<in> set (psegs @ [''.''] @ segs). CHR ''/'' \<notin> set s"
      using assms by (auto simp: list_all_iff dest: seg_ok_slash)
    then have "split_on (CHR ''/'') ([] @ join_path (psegs @ [''.''] @ segs)) = [] # psegs @ [''.''] @ segs"
      by (intro split_join_path) auto
    then show ?thesis by simp
  qed
  have last: "last ([] # psegs @ [''.''] @ segs) \<notin> {''.'', ''..''}"
    using assms last_in_set [of segs] by (auto simp: list_all_iff seg_ok_def)
  have fold: "fst (foldl resolve_step ([], True) ([] # psegs @ [''.''] @ segs)) = join_path (psegs @ segs)"
    using assms by (simp add: foldl_resolve_segs)
  have head: "take 1 (join_path (psegs @ segs)) = ''/''"
    using assms(3) by (cases "psegs @ segs") auto
  have ref: "take 1 (''.'' @ join_path segs) \<noteq> ''/''" "''.'' @ join_path segs \<noteq> []" by simp_all
  show ?thesis
    unfolding resolve_path_def Let_def base
    using ref parts last head by (simp only: if_True if_False fold simp_thms) simp
qed


section \<open>Absolute URLs and relative references\<close>

lemma cut_simps [simp]:
  "cut sep [] = ([], [])"
  "cut sep (c # cs) = (if c = sep then ([], cs) else (case cut sep cs of (a, b) \<Rightarrow> (c # a, b)))"
  by (simp_all add: cut_def)

lemma cut_none: "sep \<notin> set s \<Longrightarrow> cut sep s = (s, [])"
  by (induction s) auto

lemma cut_first: "sep \<notin> set s \<Longrightarrow> cut sep (s @ sep # t) = (s, t)"
  by (induction s) auto

text \<open>A base of a server: a scheme, an authority and path segments.\<close>

definition scheme_ok :: "string \<Rightarrow> bool" where
  "scheme_ok s \<longleftrightarrow> s \<noteq> [] \<and> list_all scheme_char s \<and> letter (hd s) \<and> to_lower s = s"

definition authority_ok :: "string \<Rightarrow> bool" where
  "authority_ok a \<longleftrightarrow>
     a \<noteq> [] \<and> \<not> bad_authority a \<and> list_all (\<lambda>c. c \<notin> {CHR ''/'', CHR ''?'', CHR ''#''} \<and> \<not> ctl_char c) a"

definition query_ok :: "string \<Rightarrow> bool" where
  "query_ok q \<longleftrightarrow> list_all (\<lambda>c. c \<noteq> CHR ''#'' \<and> \<not> ctl_char c) q"

definition query_suffix :: "string \<Rightarrow> string" where
  "query_suffix q = (if q = [] then [] else CHR ''?'' # q)"

definition absolute_url :: "string \<Rightarrow> string \<Rightarrow> string \<Rightarrow> string \<Rightarrow> url" where
  "absolute_url scheme authority path query =
     \<lparr>u_Scheme = scheme, u_Opaque = [], u_Host = authority, u_OmitHost = False, u_EPath = path, u_RawQuery = query\<rparr>"

lemma takeWhile_scheme: "list_all scheme_char s \<Longrightarrow> \<not> scheme_char c \<Longrightarrow>
   takeWhile scheme_char (s @ c # t) = s \<and> dropWhile scheme_char (s @ c # t) = c # t"
  by (induction s) auto

lemma get_scheme_absolute: "scheme_ok s \<Longrightarrow> get_scheme (s @ '':'' @ t) = Some (s, t)"
  using takeWhile_scheme [of s "CHR '':''" t]
  by (auto simp: get_scheme_def scheme_ok_def scheme_char_def letter_def is_digit_def)

definition plain_char :: "char \<Rightarrow> bool" where
  "plain_char c \<longleftrightarrow> c \<noteq> CHR ''#'' \<and> \<not> ctl_char c"

lemma plain_scheme: "scheme_char c \<Longrightarrow> plain_char c"
  by (auto simp: plain_char_def scheme_char_def letter_def is_digit_def ctl_char_def Let_def)

lemma plain_path: "path_char c \<Longrightarrow> plain_char c"
  by (auto simp: plain_char_def dest: path_char_props)

lemma plain_punct [simp]: "plain_char (CHR '':'')" "plain_char (CHR ''/'')" "plain_char (CHR ''?'')"
  by (simp_all add: plain_char_def ctl_char_def)

lemma plain_scheme_ok: "scheme_ok s \<Longrightarrow> list_all plain_char s"
  unfolding scheme_ok_def by (elim conjE list.pred_mono_strong) (rule plain_scheme)

lemma plain_authority: "authority_ok a \<Longrightarrow> list_all plain_char a"
  unfolding authority_ok_def by (elim conjE list.pred_mono_strong) (simp add: plain_char_def)

lemma plain_query: "query_ok q \<Longrightarrow> list_all plain_char (query_suffix q)"
  by (simp add: query_ok_def query_suffix_def plain_char_def [symmetric])

lemma plain_path_all: "list_all path_char p \<Longrightarrow> list_all plain_char p"
  by (erule list.pred_mono_strong) (rule plain_path)

lemma plain_frag:
  assumes "list_all plain_char s"
  shows "fst (cut (CHR ''#'') s) = s" "\<not> list_ex ctl_char s"
proof -
  have "CHR ''#'' \<notin> set s" using assms by (auto simp: list_all_iff plain_char_def)
  then show "fst (cut (CHR ''#'') s) = s" by (simp add: cut_none)
  show "\<not> list_ex ctl_char s" using assms by (auto simp: list_all_iff list_ex_iff plain_char_def)
qed

lemma takeWhile_authority:
  "list_all (\<lambda>c. c \<notin> {CHR ''/'', CHR ''?'', CHR ''#''} \<and> \<not> ctl_char c) a \<Longrightarrow> p = [] \<or> hd p = CHR ''/'' \<Longrightarrow>
   takeWhile (\<lambda>c. c \<noteq> CHR ''/'') (a @ p) = a \<and> dropWhile (\<lambda>c. c \<noteq> CHR ''/'') (a @ p) = p"
  by (induction a) (cases p; auto)+

lemma url_Parse_absolute:
  assumes "scheme_ok s" "authority_ok a" "list_all path_char p" "PathUnescape p \<noteq> None"
    and "p = [] \<or> hd p = CHR ''/''" "query_ok q"
  shows "url_Parse (s @ '':'' @ ''//'' @ a @ p @ query_suffix q) = Some (absolute_url s a p q)"
proof -
  let ?raw = "s @ '':'' @ ''//'' @ a @ p @ query_suffix q"
  have "list_all plain_char ?raw"
    using plain_scheme_ok [OF assms(1)] plain_authority [OF assms(2)] plain_path_all [OF assms(3)]
      plain_query [OF assms(6)]
    by simp
  note frag = plain_frag [OF this]
  have q: "cut (CHR ''?'') (''//'' @ a @ p @ query_suffix q) = (''//'' @ a @ p, q)"
  proof -
    have "CHR ''?'' \<notin> set a" using assms(2) by (auto simp: authority_ok_def list_all_iff)
    moreover have "CHR ''?'' \<notin> set p" using assms(3) path_char_props(2) by (fastforce simp: list_all_iff)
    ultimately have "CHR ''?'' \<notin> set (''//'' @ a @ p)" by simp
    then show ?thesis
      using cut_none [of "CHR ''?''" "''//'' @ a @ p"] cut_first [of "CHR ''?''" "''//'' @ a @ p" q]
      by (simp add: query_suffix_def)
  qed
  have sch: "get_scheme ?raw = Some (s, ''//'' @ a @ p @ query_suffix q)"
    using get_scheme_absolute [OF assms(1), of "''//'' @ a @ p @ query_suffix q"] by simp
  have auth: "takeWhile (\<lambda>c. c \<noteq> CHR ''/'') (a @ p) = a" "dropWhile (\<lambda>c. c \<noteq> CHR ''/'') (a @ p) = p"
    using takeWhile_authority [of a p] assms(2,5) by (auto simp: authority_ok_def)
  have sp: "set_path p = Some p" using assms(3,4) by (rule set_path_ok)
  have "s \<noteq> []" "\<not> bad_authority a" using assms(1,2) by (auto simp: scheme_ok_def authority_ok_def)
  then show ?thesis
    unfolding url_Parse_def Let_def frag(1) if_not_P [OF frag(2)] sch option.case prod.case q
    by (simp add: auth sp absolute_url_def)
qed

lemma url_String_absolute:
  assumes "s \<noteq> []" "a \<noteq> []" "p = [] \<or> hd p = CHR ''/''"
  shows "url_String (absolute_url s a p q) = s @ '':'' @ ''//'' @ a @ p @ query_suffix q"
  using assms by (cases p) (auto simp: url_String_def absolute_url_def query_suffix_def)

lemma url_Parse_String:
  assumes "scheme_ok s" "authority_ok a" "list_all path_char p" "PathUnescape p \<noteq> None"
    and "p = [] \<or> hd p = CHR ''/''" "query_ok q"
  shows "url_Parse (url_String (absolute_url s a p q)) = Some (absolute_url s a p q)"
  using url_Parse_absolute [OF assms] url_String_absolute [of s a p q] assms
  by (auto simp: scheme_ok_def authority_ok_def)

lemma url_Parse_relative:
  assumes "list_all seg_ok segs" "segs \<noteq> []"
  shows "url_Parse (''.'' @ join_path segs) =
    Some \<lparr>u_Scheme = [], u_Opaque = [], u_Host = [], u_OmitHost = False, u_EPath = ''.'' @ join_path segs,
      u_RawQuery = []\<rparr>"
proof -
  let ?raw = "''.'' @ join_path segs"
  have dot: "path_char (CHR ''.'')"
    by (simp add: path_char_def unreserved_seg_char unreserved_def)
  have chars: "list_all path_char ?raw" using path_char_join [OF assms(1)] dot by simp
  then have plain: "CHR ''#'' \<notin> set ?raw" "CHR ''?'' \<notin> set ?raw" "\<not> list_ex ctl_char ?raw"
    by (auto simp: list_all_iff list_ex_iff dest: path_char_props)
  have sch: "get_scheme ?raw = Some ([], ?raw)"
    using assms(2) by (cases segs) (auto simp: get_scheme_def scheme_char_def letter_def is_digit_def)
  have "PathUnescape ?raw \<noteq> None" using seg_ok_unescape [OF assms(1)] by (auto simp: PathUnescape_def)
  with chars have sp: "set_path ?raw = Some ?raw" by (rule set_path_ok)
  have "cut (CHR ''/'') ?raw = (''.'', drop 1 (join_path segs))" using assms(2) by (cases segs) auto
  with sch sp plain(3) show ?thesis
    unfolding url_Parse_def Let_def cut_none [OF plain(1)] fst_conv
    by (simp add: cut_none [OF plain(2), simplified])
qed

text \<open>What the generated client does with the address of the server: the operation's path, with a dot
  in front, is appended to the base.\<close>

lemma url_Parse_ref_segs:
  assumes "list_all seg_ok psegs" "list_all seg_ok segs" "segs \<noteq> []"
  shows "url_Parse_ref (absolute_url s a (join_path psegs @ ''/'') []) (''.'' @ join_path segs) =
    Some (absolute_url s a (join_path (psegs @ segs)) [])"
proof -
  have "set_path (join_path (psegs @ segs)) = Some (join_path (psegs @ segs))"
    using assms seg_ok_unescape [of "psegs @ segs"] path_char_join [of "psegs @ segs"]
    by (intro set_path_ok) auto
  then show ?thesis
    unfolding url_Parse_ref_def url_Parse_relative [OF assms(2,3)]
    using resolve_path_segs [OF assms] by (simp add: url_resolve_def absolute_url_def reset_path_def)
qed

section \<open>Query strings\<close>

text \<open>A query made of given pieces: every piece is one pair.\<close>

lemma split_on_append:
  "split_on sep (s @ sep # t) = split_on sep s @ split_on sep t"
proof (induction s)
  case (Cons c s)
  then show ?case by (cases "split_on sep s") auto
qed simp

lemma split_on_join:
  "xs \<noteq> [] \<Longrightarrow> split_on (CHR ''&'') (join ''&'' xs) = concat (map (split_on (CHR ''&'')) xs)"
proof (induction xs rule: induct_list012)
  case (3 x y zs)
  then show ?case using split_on_append [of "CHR ''&''" x "join ''&'' (y # zs)"] by simp
qed auto

lemma join_split_on: "join ''&'' (split_on (CHR ''&'') s) = s"
proof (induction s)
  case (Cons c s)
  then show ?case
    by (cases "split_on (CHR ''&'') s"; cases "tl (split_on (CHR ''&'') s)") (auto split: list.splits)
qed simp

end
