(* ===== verification/Api_Requests.thy ===== *)
theory Api_Requests
  imports Api_Client Url_Facts
begin

text \<open>
  The client half of \<^verbatim>\<open>pkg/api/gen.go\<close> below the typed calls: building of HTTP requests, the
  \<^verbatim>\<open>Client\<close> with its options and request editors, and its methods. The parameter styling of the
  imported runtime (\<^verbatim>\<open>github.com/oapi-codegen/runtime\<close>) is a parameter, and so is the \<^verbatim>\<open>Doer\<close>.
\<close>

section \<open>Imported code\<close>

datatype styled_value = SStr string | SInt int | SStrs "string list"

datatype param_location = ParamLocationPath | ParamLocationQuery

type_synonym style_param = "string \<Rightarrow> bool \<Rightarrow> string \<Rightarrow> styled_value \<Rightarrow> param_location \<Rightarrow> string \<Rightarrow> goerr + string"

record http_request =
  rq_Method :: string
  rq_URL :: url
  rq_ContentType :: "string option"
  rq_Body :: "string option"

text \<open>\<^verbatim>\<open>if err != nil { return nil, err }\<close> between steps without effects.\<close>

fun rbind :: "'e + 'a \<Rightarrow> ('a \<Rightarrow> 'e + 'b) \<Rightarrow> 'e + 'b" where
  "rbind (Inl e) f = Inl e"
| "rbind (Inr x) f = f x"

definition url_result :: "url option \<Rightarrow> goerr + url" where
  "url_result u = (case u of None \<Rightarrow> Inl (PlainError ''parse: invalid URL'') | Some x \<Rightarrow> Inr x)"

definition http_NewRequest :: "string \<Rightarrow> string \<Rightarrow> string option \<Rightarrow> goerr + http_request" where
  "http_NewRequest meth txt body =
     rbind (url_result (url_Parse txt)) (\<lambda>u.
       Inr \<lparr>rq_Method = meth, rq_URL = u, rq_ContentType = None, rq_Body = body\<rparr>)"

section \<open>Building requests\<close>

definition path_param :: "style_param \<Rightarrow> string \<Rightarrow> string \<Rightarrow> goerr + string" where
  "path_param style name v = style ''simple'' False name (SStr v) ParamLocationPath ''string''"

text \<open>From \<^verbatim>\<open>url.Parse(server)\<close> to \<^verbatim>\<open>queryURL\<close>, the same in every builder.\<close>

definition operation_url :: "string \<Rightarrow> string \<Rightarrow> goerr + url" where
  "operation_url server operationPath =
     rbind (url_result (url_Parse server)) (\<lambda>serverURL.
       url_result (url_Parse_ref serverURL
         (if take 1 operationPath = ''/'' then ''.'' @ operationPath else operationPath)))"

text \<open>One optional query parameter: its styled text is cut at the ampersands and appended.\<close>

definition query_param :: "style_param \<Rightarrow> string \<Rightarrow> string \<Rightarrow> styled_value option \<Rightarrow> string list \<Rightarrow> goerr + string list" where
  "query_param style name typ v frags =
     (case v of
        None \<Rightarrow> Inr frags
      | Some x \<Rightarrow> rbind (style ''form'' True name x ParamLocationQuery typ)
          (\<lambda>queryFrag. Inr (frags @ split_on (CHR ''&'') queryFrag)))"

definition set_query :: "url \<Rightarrow> string list \<Rightarrow> url" where
  "set_query queryURL frags =
     (let encoded = values_Encode (url_Query queryURL)
      in queryURL\<lparr>u_RawQuery := join ''&'' (if encoded \<noteq> [] then frags @ [encoded] else frags)\<rparr>)"

definition NewListBackendsRequest :: "string \<Rightarrow> goerr + http_request" where
  "NewListBackendsRequest server =
     rbind (operation_url server ''/backends'') (\<lambda>queryURL.
       http_NewRequest ''GET'' (url_String queryURL) None)"

definition NewGetVersionInfoRequest :: "string \<Rightarrow> goerr + http_request" where
  "NewGetVersionInfoRequest server =
     rbind (operation_url server ''/version'') (\<lambda>queryURL.
       http_NewRequest ''GET'' (url_String queryURL) None)"

definition NewQueryNamedRequest :: "style_param \<Rightarrow> string \<Rightarrow> string \<Rightarrow> string \<Rightarrow> QueryNamedParams option \<Rightarrow>
    goerr + http_request" where
  "NewQueryNamedRequest style server backend name params =
     rbind (path_param style ''backend'' backend) (\<lambda>pathParam0.
     rbind (path_param style ''name'' name) (\<lambda>pathParam1.
     rbind (operation_url server (''/'' @ pathParam0 @ ''/_query/'' @ pathParam1)) (\<lambda>queryURL.
     rbind (case params of
         None \<Rightarrow> Inr queryURL
       | Some ps \<Rightarrow>
           rbind (query_param style ''page-offset'' ''integer'' (map_option SInt (qn_PageOffset ps)) []) (\<lambda>frags.
           rbind (query_param style ''page-size'' ''integer'' (map_option SInt (qn_PageSize ps)) frags) (\<lambda>frags.
           rbind (query_param style ''arg'' ''array'' (map_option SStrs (qn_Arg ps)) frags) (\<lambda>frags.
             Inr (set_query queryURL frags))))) (\<lambda>queryURL.
       http_NewRequest ''GET'' (url_String queryURL) None))))"

definition NewListEntitiesRequest :: "style_param \<Rightarrow> string \<Rightarrow> string \<Rightarrow> goerr + http_request" where
  "NewListEntitiesRequest style server backend =
     rbind (path_param style ''backend'' backend) (\<lambda>pathParam0.
     rbind (operation_url server (''/'' @ pathParam0 @ ''/entities'')) (\<lambda>queryURL.
       http_NewRequest ''GET'' (url_String queryURL) None))"

definition NewListItemsRequest :: "style_param \<Rightarrow> string \<Rightarrow> string \<Rightarrow> string \<Rightarrow> ListItemsParams option \<Rightarrow>
    goerr + http_request" where
  "NewListItemsRequest style server backend entity params =
     rbind (path_param style ''backend'' backend) (\<lambda>pathParam0.
     rbind (path_param style ''entity'' entity) (\<lambda>pathParam1.
     rbind (operation_url server (''/'' @ pathParam0 @ ''/'' @ pathParam1)) (\<lambda>queryURL.
     rbind (case params of
         None \<Rightarrow> Inr queryURL
       | Some ps \<Rightarrow>
           rbind (query_param style ''page-offset'' ''integer'' (map_option SInt (PageOffset ps)) []) (\<lambda>frags.
           rbind (query_param style ''page-size'' ''integer'' (map_option SInt (PageSize ps)) frags) (\<lambda>frags.
           rbind (query_param style ''order[]'' ''array'' (map_option SStrs (Order ps)) frags) (\<lambda>frags.
           rbind (query_param style ''filter'' ''string'' (map_option SStr (Filter ps)) frags) (\<lambda>frags.
             Inr (set_query queryURL frags)))))) (\<lambda>queryURL.
       http_NewRequest ''GET'' (url_String queryURL) None))))"

definition NewCreateItemRequestWithBody :: "style_param \<Rightarrow> string \<Rightarrow> string \<Rightarrow> string \<Rightarrow> string \<Rightarrow> string \<Rightarrow>
    goerr + http_request" where
  "NewCreateItemRequestWithBody style server backend entity contentType body =
     rbind (path_param style ''backend'' backend) (\<lambda>pathParam0.
     rbind (path_param style ''entity'' entity) (\<lambda>pathParam1.
     rbind (operation_url server (''/'' @ pathParam0 @ ''/'' @ pathParam1)) (\<lambda>queryURL.
     rbind (http_NewRequest ''POST'' (url_String queryURL) (Some body)) (\<lambda>req.
       Inr (req\<lparr>rq_ContentType := Some contentType\<rparr>)))))"

text \<open>Marshalling of the values the model has cannot fail.\<close>

definition NewCreateItemRequest :: "style_param \<Rightarrow> (gval \<Rightarrow> string) \<Rightarrow> string \<Rightarrow> string \<Rightarrow> string \<Rightarrow> gmap \<Rightarrow>
    goerr + http_request" where
  "NewCreateItemRequest style enc server backend entity body =
     NewCreateItemRequestWithBody style server backend entity ''application/json'' (json_enc enc (VMap body))"

definition NewBulkUpdateRequestWithBody :: "style_param \<Rightarrow> string \<Rightarrow> string \<Rightarrow> string \<Rightarrow> string \<Rightarrow> string \<Rightarrow>
    goerr + http_request" where
  "NewBulkUpdateRequestWithBody style server backend entity contentType body =
     rbind (path_param style ''backend'' backend) (\<lambda>pathParam0.
     rbind (path_param style ''entity'' entity) (\<lambda>pathParam1.
     rbind (operation_url server (''/'' @ pathParam0 @ ''/'' @ pathParam1 @ ''/bulk'')) (\<lambda>queryURL.
     rbind (http_NewRequest ''POST'' (url_String queryURL) (Some body)) (\<lambda>req.
       Inr (req\<lparr>rq_ContentType := Some contentType\<rparr>)))))"

definition NewBulkUpdateRequest :: "style_param \<Rightarrow> (gval \<Rightarrow> string) \<Rightarrow> string \<Rightarrow> string \<Rightarrow> string \<Rightarrow>
    BulkUpdateRequest \<Rightarrow> goerr + http_request" where
  "NewBulkUpdateRequest style enc server backend entity body =
     NewBulkUpdateRequestWithBody style server backend entity ''application/json''
       (json_enc enc (BulkUpdateRequest_json body))"

text \<open>The requests on one item differ in their method only.\<close>

definition item_url :: "style_param \<Rightarrow> string \<Rightarrow> string \<Rightarrow> string \<Rightarrow> string \<Rightarrow> goerr + url" where
  "item_url style server backend entity item =
     rbind (path_param style ''backend'' backend) (\<lambda>pathParam0.
     rbind (path_param style ''entity'' entity) (\<lambda>pathParam1.
     rbind (path_param style ''id'' item) (\<lambda>pathParam2.
       operation_url server (''/'' @ pathParam0 @ ''/'' @ pathParam1 @ ''/'' @ pathParam2))))"

definition NewDeleteItemByIdRequest :: "style_param \<Rightarrow> string \<Rightarrow> string \<Rightarrow> string \<Rightarrow> string \<Rightarrow> goerr + http_request" where
  "NewDeleteItemByIdRequest style server backend entity item =
     rbind (item_url style server backend entity item) (\<lambda>queryURL.
       http_NewRequest ''DELETE'' (url_String queryURL) None)"

definition NewGetItemByIdRequest :: "style_param \<Rightarrow> string \<Rightarrow> string \<Rightarrow> string \<Rightarrow> string \<Rightarrow> goerr + http_request" where
  "NewGetItemByIdRequest style server backend entity item =
     rbind (item_url style server backend entity item) (\<lambda>queryURL.
       http_NewRequest ''GET'' (url_String queryURL) None)"

definition NewExistsItemByIdRequest :: "style_param \<Rightarrow> string \<Rightarrow> string \<Rightarrow> string \<Rightarrow> string \<Rightarrow> goerr + http_request" where
  "NewExistsItemByIdRequest style server backend entity item =
     rbind (item_url style server backend entity item) (\<lambda>queryURL.
       http_NewRequest ''HEAD'' (url_String queryURL) None)"

definition NewUpdateItemByIdRequestWithBody :: "style_param \<Rightarrow> string \<Rightarrow> string \<Rightarrow> string \<Rightarrow> string \<Rightarrow> string \<Rightarrow>
    string \<Rightarrow> goerr + http_request" where
  "NewUpdateItemByIdRequestWithBody style server backend entity item contentType body =
     rbind (item_url style server backend entity item) (\<lambda>queryURL.
     rbind (http_NewRequest ''PUT'' (url_String queryURL) (Some body)) (\<lambda>req.
       Inr (req\<lparr>rq_ContentType := Some contentType\<rparr>)))"

definition NewUpdateItemByIdRequest :: "style_param \<Rightarrow> (gval \<Rightarrow> string) \<Rightarrow> string \<Rightarrow> string \<Rightarrow> string \<Rightarrow> string \<Rightarrow>
    gmap \<Rightarrow> goerr + http_request" where
  "NewUpdateItemByIdRequest style enc server backend entity item body =
     NewUpdateItemByIdRequestWithBody style server backend entity item ''application/json'' (json_enc enc (VMap body))"

section \<open>The client\<close>

type_synonym 's doer = "http_request \<Rightarrow> ('s, goerr + http_response) prog"

text \<open>A request editor may change the request before it is sent, or refuse it.\<close>

type_synonym request_editor = "http_request \<Rightarrow> goerr option \<times> http_request"

record 's Client =
  c_Server :: string
  c_Client :: "'s doer option"
  c_RequestEditors :: "request_editor list"

type_synonym 's client_option = "'s Client \<Rightarrow> goerr + 's Client"

definition WithHTTPClient :: "'s doer \<Rightarrow> 's client_option" where
  "WithHTTPClient doer c = Inr (c\<lparr>c_Client := Some doer\<rparr>)"

definition WithRequestEditorFn :: "request_editor \<Rightarrow> 's client_option" where
  "WithRequestEditorFn fn c = Inr (c\<lparr>c_RequestEditors := c_RequestEditors c @ [fn]\<rparr>)"

definition WithBaseURL :: "string \<Rightarrow> 's client_option" where
  "WithBaseURL baseURL c =
     rbind (url_result (url_Parse baseURL)) (\<lambda>newBaseURL. Inr (c\<lparr>c_Server := url_String newBaseURL\<rparr>))"

fun apply_options :: "'s client_option list \<Rightarrow> 's client_option" where
  "apply_options [] c = Inr c"
| "apply_options (opt # opts) c = rbind (opt c) (apply_options opts)"

text \<open>\<^verbatim>\<open>NewClient\<close>; \<open>default_doer\<close> is \<^verbatim>\<open>&http.Client{}\<close>.\<close>

definition NewClient :: "'s doer \<Rightarrow> string \<Rightarrow> 's client_option list \<Rightarrow> goerr + 's Client" where
  "NewClient default_doer server opts =
     rbind (apply_options opts \<lparr>c_Server = server, c_Client = None, c_RequestEditors = []\<rparr>) (\<lambda>client.
       let client = (if \<not> (c_Server client \<noteq> [] \<and> last (c_Server client) = CHR ''/'')
                     then client\<lparr>c_Server := c_Server client @ ''/''\<rparr> else client);
           client = (if c_Client client = None then client\<lparr>c_Client := Some default_doer\<rparr> else client)
       in Inr client)"

definition NewClientWithResponses :: "'s doer \<Rightarrow> string \<Rightarrow> 's client_option list \<Rightarrow> goerr + 's Client" where
  "NewClientWithResponses default_doer server opts = rbind (NewClient default_doer server opts) (\<lambda>client. Inr client)"

fun editor_loop :: "request_editor list \<Rightarrow> request_editor" where
  "editor_loop [] req = (None, req)"
| "editor_loop (r # rs) req =
     (case r req of (Some err, req') \<Rightarrow> (Some err, req') | (None, req') \<Rightarrow> editor_loop rs req')"

definition applyEditors :: "'s Client \<Rightarrow> request_editor list \<Rightarrow> request_editor" where
  "applyEditors c additionalEditors req =
     (case editor_loop (c_RequestEditors c) req of
        (Some err, req') \<Rightarrow> (Some err, req')
      | (None, req') \<Rightarrow> editor_loop additionalEditors req')"

text \<open>The body of every method of \<^verbatim>\<open>Client\<close> once its request is built.\<close>

definition client_do :: "'s Client \<Rightarrow> request_editor list \<Rightarrow> goerr + http_request \<Rightarrow> ('s, goerr + http_response) prog" where
  "client_do c eds built =
     (case built of
        Inl err \<Rightarrow> preturn (Inl err)
      | Inr req \<Rightarrow>
          (case applyEditors c eds req of
             (Some err, _) \<Rightarrow> preturn (Inl err)
           | (None, req') \<Rightarrow> pbind (plift (deref (c_Client c))) (\<lambda>doer. doer req')))"

definition Client_ListBackends where
  "Client_ListBackends c eds = client_do c eds (NewListBackendsRequest (c_Server c))"

definition Client_GetVersionInfo where
  "Client_GetVersionInfo c eds = client_do c eds (NewGetVersionInfoRequest (c_Server c))"

definition Client_QueryNamed where
  "Client_QueryNamed style c backend name params eds =
     client_do c eds (NewQueryNamedRequest style (c_Server c) backend name params)"

definition Client_ListEntities where
  "Client_ListEntities style c backend eds = client_do c eds (NewListEntitiesRequest style (c_Server c) backend)"

definition Client_ListItems where
  "Client_ListItems style c backend entity params eds =
     client_do c eds (NewListItemsRequest style (c_Server c) backend entity params)"

definition Client_CreateItemWithBody where
  "Client_CreateItemWithBody style c backend entity contentType body eds =
     client_do c eds (NewCreateItemRequestWithBody style (c_Server c) backend entity contentType body)"

definition Client_CreateItem where
  "Client_CreateItem style enc c backend entity body eds =
     client_do c eds (NewCreateItemRequest style enc (c_Server c) backend entity body)"

definition Client_BulkUpdateWithBody where
  "Client_BulkUpdateWithBody style c backend entity contentType body eds =
     client_do c eds (NewBulkUpdateRequestWithBody style (c_Server c) backend entity contentType body)"

definition Client_BulkUpdate where
  "Client_BulkUpdate style enc c backend entity body eds =
     client_do c eds (NewBulkUpdateRequest style enc (c_Server c) backend entity body)"

definition Client_DeleteItemById where
  "Client_DeleteItemById style c backend entity item eds =
     client_do c eds (NewDeleteItemByIdRequest style (c_Server c) backend entity item)"

definition Client_GetItemById where
  "Client_GetItemById style c backend entity item eds =
     client_do c eds (NewGetItemByIdRequest style (c_Server c) backend entity item)"

definition Client_ExistsItemById where
  "Client_ExistsItemById style c backend entity item eds =
     client_do c eds (NewExistsItemByIdRequest style (c_Server c) backend entity item)"

definition Client_UpdateItemByIdWithBody where
  "Client_UpdateItemByIdWithBody style c backend entity item contentType body eds =
     client_do c eds (NewUpdateItemByIdRequestWithBody style (c_Server c) backend entity item contentType body)"

definition Client_UpdateItemById where
  "Client_UpdateItemById style enc c backend entity item body eds =
     client_do c eds (NewUpdateItemByIdRequest style enc (c_Server c) backend entity item body)"

text \<open>The transport under the typed calls: each request goes to the client's method for it.\<close>

fun api_transport :: "style_param \<Rightarrow> (gval \<Rightarrow> string) \<Rightarrow> 's Client \<Rightarrow> 's transport" where
  "api_transport style enc c ReqListBackends = Client_ListBackends c []"
| "api_transport style enc c (ReqListEntities be) = Client_ListEntities style c be []"
| "api_transport style enc c (ReqQueryNamed be name params) = Client_QueryNamed style c be name (Some params) []"
| "api_transport style enc c (ReqListItems be ent params) = Client_ListItems style c be ent (Some params) []"
| "api_transport style enc c (ReqCreateItem be ent body) = Client_CreateItem style enc c be ent body []"
| "api_transport style enc c (ReqBulkUpdate be ent body) = Client_BulkUpdate style enc c be ent body []"
| "api_transport style enc c (ReqDeleteItemById be ent oid) = Client_DeleteItemById style c be ent oid []"
| "api_transport style enc c (ReqGetItemById be ent oid) = Client_GetItemById style c be ent oid []"
| "api_transport style enc c (ReqExistsItemById be ent oid) = Client_ExistsItemById style c be ent oid []"
| "api_transport style enc c (ReqUpdateItemById be ent oid body) = Client_UpdateItemById style enc c be ent oid body []"

text \<open>The calls that the requests above do not cover: bodies given by the caller, and the version.\<close>

definition parse_sent :: "('s, goerr + http_response) prog \<Rightarrow> (http_response \<Rightarrow> goerr + 'p api_response) \<Rightarrow>
    ('s, goerr + 'p api_response) prog" where
  "parse_sent sent parse = ebind sent (\<lambda>err. preturn (Inl err)) (\<lambda>rsp. preturn (parse rsp))"

definition GetVersionInfoWithResponse where
  "GetVersionInfoWithResponse dec_version c eds =
     parse_sent (Client_GetVersionInfo c eds) (ParseGetVersionInfoResponse dec_version)"

definition CreateItemWithBodyWithResponse where
  "CreateItemWithBodyWithResponse style c backend entity contentType body eds =
     parse_sent (Client_CreateItemWithBody style c backend entity contentType body eds) ParseCreateItemResponse"

definition BulkUpdateWithBodyWithResponse where
  "BulkUpdateWithBodyWithResponse style c backend entity contentType body eds =
     parse_sent (Client_BulkUpdateWithBody style c backend entity contentType body eds) ParseBulkUpdateResponse"

definition UpdateItemByIdWithBodyWithResponse where
  "UpdateItemByIdWithBodyWithResponse style c backend entity item contentType body eds =
     parse_sent (Client_UpdateItemByIdWithBody style c backend entity item contentType body eds) ParseUpdateItemByIdResponse"

end
