(* ===== verification/Api_Server.thy ===== *)
theory Api_Server
  imports Server Api_Requests
begin

text \<open>
  The server half of \<^verbatim>\<open>pkg/api/gen.go\<close>: the \<^verbatim>\<open>ServerInterface\<close>, the wrapper that binds the
  parameters of a request, the routes; and the part of \<^verbatim>\<open>Run\<close> that puts them together. The router
  (\<^verbatim>\<open>gorilla/mux\<close>), the binding functions of the runtime and the middlewares are imported code and
  parameters.
\<close>

section \<open>Imported code\<close>

type_synonym 's http_handler = "writer \<Rightarrow> http_request \<Rightarrow> ('s, writer) prog"

type_synonym 's middleware = "'s http_handler \<Rightarrow> 's http_handler"

type_synonym mux_vars = "(string \<times> string) list"

text \<open>The router is given the templates and methods in the order of registration, and the method and
  path of a request; it picks a route and the values of its variables, or answers itself.\<close>

datatype mux_answer = MuxRoute nat mux_vars | MuxReply "writer \<Rightarrow> writer"

type_synonym mux_router = "(string \<times> string option) list \<Rightarrow> string \<Rightarrow> string \<Rightarrow> mux_answer"

datatype bind_error = RequiredParameter | BindError goerr

record param_binder =
  bind_path :: "string \<Rightarrow> string \<Rightarrow> string \<Rightarrow> goerr + string"
  bind_int :: "string \<Rightarrow> bool \<Rightarrow> bool \<Rightarrow> string \<Rightarrow> url_values \<Rightarrow> string \<Rightarrow> bind_error + int option"
  bind_str :: "string \<Rightarrow> bool \<Rightarrow> bool \<Rightarrow> string \<Rightarrow> url_values \<Rightarrow> string \<Rightarrow> bind_error + string option"
  bind_strs :: "string \<Rightarrow> bool \<Rightarrow> bool \<Rightarrow> string \<Rightarrow> url_values \<Rightarrow> string \<Rightarrow> bind_error + string list option"

text \<open>\<^verbatim>\<open>r.URL.Path\<close>, and the body as a reader.\<close>

definition request_path :: "http_request \<Rightarrow> string" where
  "request_path r = (case PathUnescape (u_EPath (rq_URL r)) of Some p \<Rightarrow> p | None \<Rightarrow> [])"

definition request_body :: "http_request \<Rightarrow> goerr + string" where
  "request_body r = Inr (case rq_Body r of None \<Rightarrow> [] | Some b \<Rightarrow> b)"

section \<open>The server interface\<close>

record 's ServerInterface =
  si_ListBackends :: "'s http_handler"
  si_GetVersionInfo :: "'s http_handler"
  si_QueryNamed :: "string \<Rightarrow> string \<Rightarrow> QueryNamedParams \<Rightarrow> 's http_handler"
  si_ListEntities :: "string \<Rightarrow> 's http_handler"
  si_ListItems :: "string \<Rightarrow> string \<Rightarrow> ListItemsParams \<Rightarrow> 's http_handler"
  si_CreateItem :: "string \<Rightarrow> string \<Rightarrow> 's http_handler"
  si_BulkUpdate :: "string \<Rightarrow> string \<Rightarrow> 's http_handler"
  si_DeleteItemById :: "string \<Rightarrow> string \<Rightarrow> string \<Rightarrow> 's http_handler"
  si_GetItemById :: "string \<Rightarrow> string \<Rightarrow> string \<Rightarrow> 's http_handler"
  si_ExistsItemById :: "string \<Rightarrow> string \<Rightarrow> string \<Rightarrow> 's http_handler"
  si_UpdateItemById :: "string \<Rightarrow> string \<Rightarrow> string \<Rightarrow> 's http_handler"

text \<open>\<^verbatim>\<open>GetVersionInfo\<close> sends a value of imported build data.\<close>

definition srv_GetVersionInfo :: "gval \<Rightarrow> ('d, 'c) restServer \<Rightarrow> writer \<Rightarrow> (('d, 'c) worlds, writer) prog" where
  "srv_GetVersionInfo version rs w = preturn (SendWithStatus rs (PVal version) StatusOK w)"

definition rest_handlers :: "gval \<Rightarrow> ('d, 'c) restServer \<Rightarrow> ('d, 'c) worlds ServerInterface" where
  "rest_handlers version rs =
     \<lparr>si_ListBackends = (\<lambda>w r. srv_ListBackends rs w),
      si_GetVersionInfo = (\<lambda>w r. srv_GetVersionInfo version rs w),
      si_QueryNamed = (\<lambda>backend name params w r. srv_QueryNamed rs backend name params w),
      si_ListEntities = (\<lambda>backend w r. srv_ListEntities rs backend w),
      si_ListItems = (\<lambda>backend entity params w r. srv_ListItems rs backend entity params w),
      si_CreateItem = (\<lambda>backend entity w r. srv_CreateItem rs backend entity (request_body r) w),
      si_BulkUpdate = (\<lambda>backend entity w r. srv_BulkUpdate rs backend entity (request_body r) w),
      si_DeleteItemById = (\<lambda>backend entity item w r. srv_DeleteItemById rs backend entity item w),
      si_GetItemById = (\<lambda>backend entity item w r. srv_GetItemById rs backend entity item w),
      si_ExistsItemById = (\<lambda>backend entity item w r. srv_ExistsItemById rs backend entity item w),
      si_UpdateItemById = (\<lambda>backend entity item w r. srv_UpdateItemById rs backend entity item (request_body r) w)\<rparr>"

section \<open>The wrapper\<close>

text \<open>The errors of the wrapper; \<^verbatim>\<open>%s\<close> of the wrapped error is its text. Only two of them are ever
  created by these routes.\<close>

datatype param_error =
    UnescapedCookieParamError string goerr
  | UnmarshalingParamError string goerr
  | RequiredParamError string
  | RequiredHeaderError string goerr
  | InvalidParamFormatError string goerr
  | TooManyValuesForParamError string int

fun param_error_text :: "(int \<Rightarrow> string \<Rightarrow> string) \<Rightarrow> param_error \<Rightarrow> string" where
  "param_error_text my (UnescapedCookieParamError name err) =
     ''error unescaping cookie parameter '' @ [CHR 0x27] @ name @ [CHR 0x27]"
| "param_error_text my (UnmarshalingParamError name err) =
     ''Error unmarshaling parameter '' @ name @ '' as JSON: '' @ error_text my err"
| "param_error_text my (RequiredParamError name) = ''Query argument '' @ name @ '' is required, but not found''"
| "param_error_text my (RequiredHeaderError name err) = ''Header parameter '' @ name @ '' is required, but not found''"
| "param_error_text my (InvalidParamFormatError name err) =
     ''Invalid format for parameter '' @ name @ '': '' @ error_text my err"
| "param_error_text my (TooManyValuesForParamError name count) =
     ''Expected one value for '' @ name @ '', got '' @ dec_int count"

fun param_error_Unwrap :: "param_error \<Rightarrow> goerr option" where
  "param_error_Unwrap (UnescapedCookieParamError name err) = Some err"
| "param_error_Unwrap (UnmarshalingParamError name err) = Some err"
| "param_error_Unwrap (RequiredHeaderError name err) = Some err"
| "param_error_Unwrap (InvalidParamFormatError name err) = Some err"
| "param_error_Unwrap (RequiredParamError name) = None"
| "param_error_Unwrap (TooManyValuesForParamError name count) = None"

type_synonym error_handler = "writer \<Rightarrow> http_request \<Rightarrow> param_error \<Rightarrow> writer"

record 's ServerInterfaceWrapper =
  siw_Handler :: "'s ServerInterface"
  siw_HandlerMiddlewares :: "'s middleware list"
  siw_ErrorHandlerFunc :: error_handler

text \<open>The loop over the middlewares, and the binding of one parameter: on an error the error handler
  answers and the wrapper returns.\<close>

definition through_middlewares :: "'s ServerInterfaceWrapper \<Rightarrow> 's http_handler \<Rightarrow> 's http_handler" where
  "through_middlewares siw handler = foldl (\<lambda>h middleware. middleware h) handler (siw_HandlerMiddlewares siw)"

definition with_path :: "param_binder \<Rightarrow> 's ServerInterfaceWrapper \<Rightarrow> mux_vars \<Rightarrow> string \<Rightarrow>
    (string \<Rightarrow> 's http_handler) \<Rightarrow> 's http_handler" where
  "with_path b siw vars name k w r =
     (case bind_path b ''simple'' name (case map_of vars name of Some v \<Rightarrow> v | None \<Rightarrow> []) of
        Inl err \<Rightarrow> preturn (siw_ErrorHandlerFunc siw w r (InvalidParamFormatError name err))
      | Inr v \<Rightarrow> k v w r)"

definition with_query :: "(string \<Rightarrow> bool \<Rightarrow> bool \<Rightarrow> string \<Rightarrow> url_values \<Rightarrow> string \<Rightarrow> bind_error + 'a option) \<Rightarrow>
    's ServerInterfaceWrapper \<Rightarrow> string \<Rightarrow> string \<Rightarrow> ('a option \<Rightarrow> 's http_handler) \<Rightarrow> 's http_handler" where
  "with_query bind siw name typ k w r =
     (case bind ''form'' True False name (url_Query (rq_URL r)) typ of
        Inl RequiredParameter \<Rightarrow> preturn (siw_ErrorHandlerFunc siw w r (RequiredParamError name))
      | Inl (BindError err) \<Rightarrow> preturn (siw_ErrorHandlerFunc siw w r (InvalidParamFormatError name err))
      | Inr v \<Rightarrow> k v w r)"

definition siw_ListBackends :: "'s ServerInterfaceWrapper \<Rightarrow> mux_vars \<Rightarrow> 's http_handler" where
  "siw_ListBackends siw vars = through_middlewares siw (si_ListBackends (siw_Handler siw))"

definition siw_GetVersionInfo :: "'s ServerInterfaceWrapper \<Rightarrow> mux_vars \<Rightarrow> 's http_handler" where
  "siw_GetVersionInfo siw vars = through_middlewares siw (si_GetVersionInfo (siw_Handler siw))"

definition siw_QueryNamed :: "param_binder \<Rightarrow> 's ServerInterfaceWrapper \<Rightarrow> mux_vars \<Rightarrow> 's http_handler" where
  "siw_QueryNamed b siw vars =
     with_path b siw vars ''backend'' (\<lambda>backend.
     with_path b siw vars ''name'' (\<lambda>name.
     with_query (bind_int b) siw ''page-offset'' ''integer'' (\<lambda>pageOffset.
     with_query (bind_int b) siw ''page-size'' ''integer'' (\<lambda>pageSize.
     with_query (bind_strs b) siw ''arg'' ''array'' (\<lambda>arg.
       through_middlewares siw (si_QueryNamed (siw_Handler siw) backend name
         \<lparr>qn_PageOffset = pageOffset, qn_PageSize = pageSize, qn_Arg = arg\<rparr>))))))"

definition siw_ListEntities :: "param_binder \<Rightarrow> 's ServerInterfaceWrapper \<Rightarrow> mux_vars \<Rightarrow> 's http_handler" where
  "siw_ListEntities b siw vars =
     with_path b siw vars ''backend'' (\<lambda>backend. through_middlewares siw (si_ListEntities (siw_Handler siw) backend))"

definition siw_ListItems :: "param_binder \<Rightarrow> 's ServerInterfaceWrapper \<Rightarrow> mux_vars \<Rightarrow> 's http_handler" where
  "siw_ListItems b siw vars =
     with_path b siw vars ''backend'' (\<lambda>backend.
     with_path b siw vars ''entity'' (\<lambda>entity.
     with_query (bind_int b) siw ''page-offset'' ''integer'' (\<lambda>pageOffset.
     with_query (bind_int b) siw ''page-size'' ''integer'' (\<lambda>pageSize.
     with_query (bind_strs b) siw ''order[]'' ''array'' (\<lambda>order.
     with_query (bind_str b) siw ''filter'' ''string'' (\<lambda>flt.
       through_middlewares siw (si_ListItems (siw_Handler siw) backend entity
         \<lparr>PageOffset = pageOffset, PageSize = pageSize, Order = order, Filter = flt\<rparr>)))))))"

definition siw_CreateItem :: "param_binder \<Rightarrow> 's ServerInterfaceWrapper \<Rightarrow> mux_vars \<Rightarrow> 's http_handler" where
  "siw_CreateItem b siw vars =
     with_path b siw vars ''backend'' (\<lambda>backend.
     with_path b siw vars ''entity'' (\<lambda>entity.
       through_middlewares siw (si_CreateItem (siw_Handler siw) backend entity)))"

definition siw_BulkUpdate :: "param_binder \<Rightarrow> 's ServerInterfaceWrapper \<Rightarrow> mux_vars \<Rightarrow> 's http_handler" where
  "siw_BulkUpdate b siw vars =
     with_path b siw vars ''backend'' (\<lambda>backend.
     with_path b siw vars ''entity'' (\<lambda>entity.
       through_middlewares siw (si_BulkUpdate (siw_Handler siw) backend entity)))"

definition siw_DeleteItemById :: "param_binder \<Rightarrow> 's ServerInterfaceWrapper \<Rightarrow> mux_vars \<Rightarrow> 's http_handler" where
  "siw_DeleteItemById b siw vars =
     with_path b siw vars ''backend'' (\<lambda>backend.
     with_path b siw vars ''entity'' (\<lambda>entity.
     with_path b siw vars ''id'' (\<lambda>item.
       through_middlewares siw (si_DeleteItemById (siw_Handler siw) backend entity item))))"

definition siw_GetItemById :: "param_binder \<Rightarrow> 's ServerInterfaceWrapper \<Rightarrow> mux_vars \<Rightarrow> 's http_handler" where
  "siw_GetItemById b siw vars =
     with_path b siw vars ''backend'' (\<lambda>backend.
     with_path b siw vars ''entity'' (\<lambda>entity.
     with_path b siw vars ''id'' (\<lambda>item.
       through_middlewares siw (si_GetItemById (siw_Handler siw) backend entity item))))"

definition siw_ExistsItemById :: "param_binder \<Rightarrow> 's ServerInterfaceWrapper \<Rightarrow> mux_vars \<Rightarrow> 's http_handler" where
  "siw_ExistsItemById b siw vars =
     with_path b siw vars ''backend'' (\<lambda>backend.
     with_path b siw vars ''entity'' (\<lambda>entity.
     with_path b siw vars ''id'' (\<lambda>item.
       through_middlewares siw (si_ExistsItemById (siw_Handler siw) backend entity item))))"

definition siw_UpdateItemById :: "param_binder \<Rightarrow> 's ServerInterfaceWrapper \<Rightarrow> mux_vars \<Rightarrow> 's http_handler" where
  "siw_UpdateItemById b siw vars =
     with_path b siw vars ''backend'' (\<lambda>backend.
     with_path b siw vars ''entity'' (\<lambda>entity.
     with_path b siw vars ''id'' (\<lambda>item.
       through_middlewares siw (si_UpdateItemById (siw_Handler siw) backend entity item))))"

section \<open>Routes\<close>

text \<open>A route is a template, a method (any when there is none) and the handler with its variables.\<close>

type_synonym 's mux_route = "string \<times> string option \<times> (mux_vars \<Rightarrow> 's http_handler)"

record 's GorillaServerOptions =
  gs_BaseURL :: string
  gs_BaseRouter :: "'s mux_route list"
  gs_Middlewares :: "'s middleware list"
  gs_ErrorHandlerFunc :: "error_handler option"

definition default_error_handler :: "(int \<Rightarrow> string \<Rightarrow> string) \<Rightarrow> error_handler" where
  "default_error_handler my w r err = http_Error (param_error_text my err) StatusBadRequest w"

definition api_routes :: "param_binder \<Rightarrow> string \<Rightarrow> 's ServerInterfaceWrapper \<Rightarrow> 's mux_route list" where
  "api_routes b base siw =
     [(base @ ''/backends'', Some ''GET'', siw_ListBackends siw),
      (base @ ''/{backend}/entities'', Some ''GET'', siw_ListEntities b siw),
      (base @ ''/{backend}/_query/{name}'', Some ''GET'', siw_QueryNamed b siw),
      (base @ ''/{backend}/{entity}'', Some ''GET'', siw_ListItems b siw),
      (base @ ''/{backend}/{entity}'', Some ''POST'', siw_CreateItem b siw),
      (base @ ''/{backend}/{entity}/bulk'', Some ''POST'', siw_BulkUpdate b siw),
      (base @ ''/{backend}/{entity}/{id}'', Some ''DELETE'', siw_DeleteItemById b siw),
      (base @ ''/{backend}/{entity}/{id}'', Some ''GET'', siw_GetItemById b siw),
      (base @ ''/{backend}/{entity}/{id}'', Some ''HEAD'', siw_ExistsItemById b siw),
      (base @ ''/{backend}/{entity}/{id}'', Some ''PUT'', siw_UpdateItemById b siw),
      (base @ ''/version'', Some ''GET'', siw_GetVersionInfo siw)]"

definition serve_mux :: "mux_router \<Rightarrow> 's mux_route list \<Rightarrow> 's http_handler" where
  "serve_mux router routes w r =
     (case router (map (\<lambda>(t, m, h). (t, m)) routes) (rq_Method r) (request_path r) of
        MuxRoute i vars \<Rightarrow> (if i < length routes then snd (snd (routes ! i)) vars w r else preturn w)
      | MuxReply f \<Rightarrow> preturn (f w))"

definition HandlerWithOptions :: "mux_router \<Rightarrow> param_binder \<Rightarrow> (int \<Rightarrow> string \<Rightarrow> string) \<Rightarrow> 's ServerInterface \<Rightarrow>
    's GorillaServerOptions \<Rightarrow> 's http_handler" where
  "HandlerWithOptions router b my si options =
     (let eh = (case gs_ErrorHandlerFunc options of None \<Rightarrow> default_error_handler my | Some f \<Rightarrow> f);
          wrapper = \<lparr>siw_Handler = si, siw_HandlerMiddlewares = gs_Middlewares options, siw_ErrorHandlerFunc = eh\<rparr>
      in serve_mux router (gs_BaseRouter options @ api_routes b (gs_BaseURL options) wrapper))"

text \<open>The shorter ways to make the handler; a nil router is a new one, without routes.\<close>

definition HandlerFromMux :: "mux_router \<Rightarrow> param_binder \<Rightarrow> (int \<Rightarrow> string \<Rightarrow> string) \<Rightarrow> 's ServerInterface \<Rightarrow>
    's mux_route list \<Rightarrow> 's http_handler" where
  "HandlerFromMux router b my si r =
     HandlerWithOptions router b my si \<lparr>gs_BaseURL = [], gs_BaseRouter = r, gs_Middlewares = [], gs_ErrorHandlerFunc = None\<rparr>"

definition HandlerFromMuxWithBaseURL :: "mux_router \<Rightarrow> param_binder \<Rightarrow> (int \<Rightarrow> string \<Rightarrow> string) \<Rightarrow> 's ServerInterface \<Rightarrow>
    's mux_route list \<Rightarrow> string \<Rightarrow> 's http_handler" where
  "HandlerFromMuxWithBaseURL router b my si r baseURL =
     HandlerWithOptions router b my si
       \<lparr>gs_BaseURL = baseURL, gs_BaseRouter = r, gs_Middlewares = [], gs_ErrorHandlerFunc = None\<rparr>"

definition Handler :: "mux_router \<Rightarrow> param_binder \<Rightarrow> (int \<Rightarrow> string \<Rightarrow> string) \<Rightarrow> 's ServerInterface \<Rightarrow> 's http_handler" where
  "Handler router b my si =
     HandlerWithOptions router b my si \<lparr>gs_BaseURL = [], gs_BaseRouter = [], gs_Middlewares = [], gs_ErrorHandlerFunc = None\<rparr>"

section \<open>The handler of the running server\<close>

text \<open>
  The part of \<^verbatim>\<open>Run\<close> between opening the backends and listening: three routes of its own, then the
  API under the configured prefix, with the imported middlewares and CORS handler around it.
\<close>

text \<open>What the interceptor shows its callback of a finished exchange, and the updates of the metrics. The
  duration is in nanoseconds, taken from two readings of the clock inside the callback.\<close>

record intercepted =
  ir_Request :: http_request
  ir_Status :: int
  ir_Written :: int

datatype metric =
    HttpDuration "string list" int
  | HttpRequestBytes "string list" int
  | HttpResponseBytes "string list" int

definition metrics_filter :: "string \<Rightarrow> http_request \<Rightarrow> bool" where
  "metrics_filter prefix r \<longleftrightarrow> take (length prefix) (request_path r) = prefix"

definition content_length :: "http_request \<Rightarrow> int" where
  "content_length r = (case rq_Body r of None \<Rightarrow> 0 | Some b \<Rightarrow> int (length b))"

definition metrics_callback :: "string \<Rightarrow> int \<times> int \<Rightarrow> intercepted \<Rightarrow> metric list" where
  "metrics_callback prefix clock resp =
     (let req = ir_Request resp; (start, now) = clock
      in case telemetry_labels prefix (request_path req) of
           None \<Rightarrow> []
         | Some (p0, p1) \<Rightarrow>
             (let labels = [p0, p1, rq_Method req, dec_int (ir_Status resp)]
              in [HttpDuration labels (start - now)] @
                 (if content_length req > 0 then [HttpRequestBytes labels (content_length req)] else []) @
                 [HttpResponseBytes labels (ir_Written resp)]))"

record 's http_imports =
  hi_Router :: mux_router
  hi_Binder :: param_binder
  hi_Logging :: "'s middleware"
  hi_Interceptor :: "(http_request \<Rightarrow> bool) \<Rightarrow> (int \<times> int \<Rightarrow> intercepted \<Rightarrow> metric list) \<Rightarrow> 's middleware"
  hi_Cors :: "CorsConfig \<Rightarrow> 's http_handler \<Rightarrow> 's http_handler"
  hi_Spec :: "'s http_handler"
  hi_Metrics :: "'s http_handler"
  hi_Version :: gval

definition health :: "'s http_handler" where
  "health w r = preturn (WriteBody (WText (''OK'' @ [CHR 0x0A])) w)"

definition base_routes :: "'s http_imports \<Rightarrow> TelemetryConfig \<Rightarrow> 's mux_route list" where
  "base_routes im t =
     [(''/spec/openapi.v1.json'', None, \<lambda>vars. hi_Spec im), (''/health'', None, \<lambda>vars. health)] @
     (if tel_Enabled t then [(tel_Path t, None, \<lambda>vars. hi_Metrics im)] else [])"

definition Run_handler :: "('d, 'c) worlds http_imports \<Rightarrow> ('d, 'c) restServer \<Rightarrow> ('d, 'c) worlds http_handler outcome" where
  "Run_handler im rs =
     (let server = cfg_Server (sv_cfg rs) in
      obind (deref (srv_Cors server)) (\<lambda>corsCfg.
      obind (deref (srv_Telemetry server)) (\<lambda>t.
        let mws = hi_Logging im # (if tel_Enabled t
            then [hi_Interceptor im (metrics_filter (srv_APIPrefix server)) (metrics_callback (srv_APIPrefix server))] else [])
        in Returns (hi_Cors im corsCfg
             (HandlerWithOptions (hi_Router im) (hi_Binder im) (sv_my rs) (rest_handlers (hi_Version im) rs)
               \<lparr>gs_BaseURL = srv_APIPrefix server, gs_BaseRouter = base_routes im t, gs_Middlewares = mws,
                 gs_ErrorHandlerFunc = None\<rparr>)))))"

end
