(* ===== verification/Permissions.thy ===== *)
theory Permissions
  imports Server_Properties Api_Server
begin

text \<open>
  What the permissions of a backend let its database see, whatever arrives at the server: each
  operation of \<^verbatim>\<open>pkg/crud\<close>, each handler, and the whole HTTP handler that \<^verbatim>\<open>Run\<close> builds, for any
  request and any body.
\<close>

section \<open>Permitted calls\<close>

text \<open>A statement that writes is permitted when the operation it belongs to is switched on.\<close>

definition statement_permitted :: "'d BackendConfig \<Rightarrow> string \<Rightarrow> bool" where
  "statement_permitted be stmt \<longleftrightarrow>
     be_Create be = Some True \<and> (take 13 stmt = ''INSERT INTO `'' \<or> take 14 stmt = ''REPLACE INTO `'') \<or>
     be_Update be = Some True \<and> take 8 stmt = ''UPDATE `'' \<or>
     be_Delete be = Some True \<and> take 13 stmt = ''DELETE FROM `''"

text \<open>Queries come from the operations that read, and from creating and updating, which read the
  columns of the table and the row they have written.\<close>

fun permitted :: "'d BackendConfig \<Rightarrow> dbcall \<Rightarrow> bool" where
  "permitted be (CQuery stmt args) \<longleftrightarrow>
     be_Read be \<noteq> Some False \<or> be_Create be = Some True \<or> be_Update be = Some True"
| "permitted be (CExec stmt args) \<longleftrightarrow> statement_permitted be stmt"
| "permitted be (CTxExec stmt args) \<longleftrightarrow> statement_permitted be stmt"
| "permitted be CClose \<longleftrightarrow> False"
| "permitted be (CSet what n) \<longleftrightarrow> False"
| "permitted be transaction \<longleftrightarrow> be_Create be = Some True \<or> be_Update be = Some True"

lemma permitted_query:
  "be_Read be \<noteq> Some False \<Longrightarrow> permitted be (CQuery stmt args)"
  "be_Create be = Some True \<Longrightarrow> permitted be (CQuery stmt args)"
  "be_Update be = Some True \<Longrightarrow> permitted be (CQuery stmt args)"
  by simp_all

lemma statement_permitted_builders:
  "be_Create be = Some True \<Longrightarrow> statement_permitted be (fst (createInsertQuery entity body))"
  "be_Create be = Some True \<Longrightarrow> statement_permitted be (fst (createReplaceQuery entity body))"
  "be_Update be = Some True \<Longrightarrow> statement_permitted be (fst (createUpdateQuery entity idc body))"
  "be_Delete be = Some True \<Longrightarrow> statement_permitted be (createSingleDeleteQuery entity idc)"
  "be_Delete be = Some True \<Longrightarrow> createMultiDeleteQuery entity idc n = Returns stmt \<Longrightarrow> statement_permitted be stmt"
  by (auto simp: statement_permitted_def createInsertQuery_def createReplaceQuery_def insert_shape update_shape
      createSingleDeleteQuery_def createMultiDeleteQuery_def createDeleteQueryPrefix_def outcome_simps
      split: outcome.splits)

section \<open>The operations\<close>

lemma keeps_guarded_True:
  assumes "allowed = Some True \<Longrightarrow> keeps (adds P) m"
  shows "keeps (adds P) (guarded allowed denied m)"
  using assms unfolding guarded_def
  by (cases allowed) (auto simp: keeps_def pbind_def plift_def preturn_def split: if_splits)

lemma keeps_plift_bind:
  assumes "\<And>x. m = Returns x \<Longrightarrow> keeps (adds P) (f x)"
  shows "keeps (adds P) (pbind (plift m) f)"
  using assms by (cases m) (auto simp: keeps_def pbind_def plift_def)

lemma reads_permitted:
  "keeps (adds (permitted (im_config be))) (ListItems be entity qe)"
  "keeps (adds (permitted (im_config be))) (QueryNamed be name qry args)"
  "keeps (adds (permitted (im_config be))) (ListEntities be)"
  "keeps (adds (permitted (im_config be))) (Exists be entity oid)"
  "keeps (adds (permitted (im_config be))) (Get be entity oid)"
proof -
  have "be_Read (im_config be) = Some True \<Longrightarrow> permitted (im_config be) (CQuery q a)" for q a by simp
  note P = this
  show "keeps (adds (permitted (im_config be))) (ListItems be entity qe)"
    unfolding ListItems_def Let_def by (intro keeps_guarded_True) (auto intro!: keeps_reads dest: P simp del: permitted.simps)
  show "keeps (adds (permitted (im_config be))) (QueryNamed be name qry args)"
    unfolding QueryNamed_def Let_def
    by (intro keeps_guarded_True) (auto intro!: keeps_reads dest: P split: option.splits prod.splits)
  show "keeps (adds (permitted (im_config be))) (ListEntities be)"
    unfolding ListEntities_def by (intro keeps_guarded_True) (auto intro!: keeps_reads dest: P)
  show "keeps (adds (permitted (im_config be))) (Exists be entity oid)"
    unfolding Exists_def by (intro keeps_guarded_True) (auto intro!: keeps_reads dest: P)
  show "keeps (adds (permitted (im_config be))) (Get be entity oid)"
    unfolding Get_def by (intro keeps_guarded_True) (auto intro!: keeps_reads dest: P)
qed

lemma deletes_permitted:
  "keeps (adds (permitted (im_config be))) (Delete be entity oid)"
  "keeps (adds (permitted (im_config be))) (MultiDelete be entity ids)"
proof -
  show del: "keeps (adds (permitted (im_config be))) (Delete be entity oid)" for oid
    unfolding Delete_def
    by (intro keeps_guarded_True keeps_plift_bind) (auto intro!: keeps_db statement_permitted_builders)
  show "keeps (adds (permitted (im_config be))) (MultiDelete be entity ids)"
    unfolding MultiDelete_def Let_def
    by (intro keeps_guarded_True) (auto intro!: del keeps_plift_bind keeps_db statement_permitted_builders)
qed

lemma updates_permitted:
  assumes "cache_lawful (im_mdCache be)"
  shows "keeps (adds (permitted (im_config be))) (Update be entity oid body)"
    and "keeps (adds (permitted (im_config be))) (MultiUpdate be entity objs)"
proof -
  let ?P = "permitted (im_config be)"
  have stmt: "statement_permitted (im_config be) qry"
    if "be_Update (im_config be) = Some True" "createUpdateQuery entity idc b = (qry, vals)" for idc b qry vals
    using statement_permitted_builders(3) [OF that(1)] that(2) by (metis fst_conv)
  show "keeps (adds ?P) (Update be entity oid body)"
    unfolding Update_def Let_def
    by (intro keeps_guarded_True)
      (auto intro!: keeps_db keeps_remapped assms stmt keeps_fetchOneItem split: prod.splits)
  have loop: "keeps (adds ?P) (multiUpdate_loop be entity objs)" if up: "be_Update (im_config be) = Some True"
    by (induction objs) (auto intro!: keeps_db keeps_remapped assms stmt simp: up Let_def split: prod.splits option.splits)
  show "keeps (adds ?P) (MultiUpdate be entity objs)"
    unfolding MultiUpdate_def by (intro keeps_guarded_True) (auto intro!: keeps_db loop split: option.splits)
qed

lemma creates_permitted:
  assumes "cache_lawful (im_mdCache be)"
  shows "keeps (adds (permitted (im_config be))) (Create be entity body)"
    and "keeps (adds (permitted (im_config be))) (MultiCreate be entity repl objs)"
proof -
  let ?P = "permitted (im_config be)"
  have stmt: "createInsertQuery entity b = (qry, vals) \<Longrightarrow> statement_permitted (im_config be) qry"
    "createReplaceQuery entity b = (qry, vals) \<Longrightarrow> statement_permitted (im_config be) qry"
    if "be_Create (im_config be) = Some True" for b qry vals
    using statement_permitted_builders(1,2) [OF that] by (metis fst_conv)+
  show "keeps (adds ?P) (Create be entity body)"
    unfolding Create_def Let_def
    by (intro keeps_guarded_True)
      (auto intro!: keeps_db keeps_remapped assms stmt(1) keeps_fetchOneItem split: prod.splits sum.splits)
  have loop: "keeps (adds ?P) (multiCreate_loop be entity repl objs)" if cr: "be_Create (im_config be) = Some True"
  proof (cases repl)
    case True
    then show ?thesis
      by (induction objs) (auto intro!: keeps_db keeps_remapped assms stmt(2) simp: cr Let_def split: prod.splits option.splits)
  next
    case False
    then show ?thesis
      by (induction objs) (auto intro!: keeps_db keeps_remapped assms stmt(1) simp: cr Let_def split: prod.splits option.splits)
  qed
  show "keeps (adds ?P) (MultiCreate be entity repl objs)"
    unfolding MultiCreate_def by (intro keeps_guarded_True) (auto intro!: keeps_db loop split: option.splits)
qed

lemmas operations_permitted = reads_permitted deletes_permitted updates_permitted creates_permitted

section \<open>Requests\<close>

text \<open>What a step does to the world of one backend.\<close>

definition at_backend :: "string \<Rightarrow> (('d, 'c) world \<Rightarrow> ('d, 'c) world \<Rightarrow> bool) \<Rightarrow> ('d, 'c) worlds \<Rightarrow> ('d, 'c) worlds \<Rightarrow> bool" where
  "at_backend n R ws ws' \<longleftrightarrow> R (ws n) (ws' n)"

lemma at_backend_reflp [intro!]: "reflp R \<Longrightarrow> reflp (at_backend n R)"
  by (simp add: reflp_def at_backend_def)

lemma at_backend_transp [intro!]: "transp R \<Longrightarrow> transp (at_backend n R)"
  unfolding transp_def at_backend_def by blast

text \<open>Every backend of the map has a lawful cache.\<close>

definition lawful_caches :: "('d, 'c) restServer \<Rightarrow> bool" where
  "lawful_caches rs \<longleftrightarrow> list_all (\<lambda>(n, c). cache_lawful (im_mdCache c)) (sv_crudMap rs)"

text \<open>The calls that the server may add at a backend: those its configuration permits, none when there is
  no such backend.\<close>

definition may_add :: "('d, 'c) restServer \<Rightarrow> string \<Rightarrow> dbcall \<Rightarrow> bool" where
  "may_add rs n ev \<longleftrightarrow> (case map_of (sv_crudMap rs) n of None \<Rightarrow> False | Some c \<Rightarrow> permitted (im_config c) ev)"

lemma keeps_at_handleBackend:
  assumes "\<And>c w. map_of (sv_crudMap rs) n = Some c \<Longrightarrow> backend = n \<Longrightarrow> keeps (adds (permitted (im_config c))) (handler c w)"
  shows "keeps (at_backend n (adds (may_add rs n))) (handleBackend rs backend handler w)"
proof (cases "map_of (sv_crudMap rs) backend")
  case None
  then show ?thesis by (simp add: handleBackend_def keeps_def preturn_def at_backend_def)
next
  case (Some c)
  show ?thesis
  proof (cases "backend = n")
    case True
    with Some have "may_add rs n = permitted (im_config c)" by (simp add: may_add_def fun_eq_iff)
    moreover have "keeps (adds (permitted (im_config c))) (handler c w)" using assms Some True by simp
    ultimately show ?thesis
      using Some True by (auto simp: handleBackend_def keeps_def in_backend_def at_backend_def split: prod.splits)
        (metis snd_conv)
  next
    case False
    with Some show ?thesis
      by (auto simp: handleBackend_def keeps_def in_backend_def at_backend_def split: prod.splits)
  qed
qed

lemma handlers_permitted:
  assumes "lawful_caches rs"
  shows "keeps (at_backend n (adds (may_add rs n))) (srv_ListBackends rs w)"
    "keeps (at_backend n (adds (may_add rs n))) (srv_GetVersionInfo version rs w)"
    "keeps (at_backend n (adds (may_add rs n))) (srv_QueryNamed rs backend name params w)"
    "keeps (at_backend n (adds (may_add rs n))) (srv_ListEntities rs backend w)"
    "keeps (at_backend n (adds (may_add rs n))) (srv_ListItems rs backend entity lparams w)"
    "keeps (at_backend n (adds (may_add rs n))) (srv_CreateItem rs backend entity body w)"
    "keeps (at_backend n (adds (may_add rs n))) (srv_BulkUpdate rs backend entity body w)"
    "keeps (at_backend n (adds (may_add rs n))) (srv_DeleteItemById rs backend entity item w)"
    "keeps (at_backend n (adds (may_add rs n))) (srv_GetItemById rs backend entity item w)"
    "keeps (at_backend n (adds (may_add rs n))) (srv_ExistsItemById rs backend entity item w)"
    "keeps (at_backend n (adds (may_add rs n))) (srv_UpdateItemById rs backend entity item body w)"
proof -
  have cache: "cache_lawful (im_mdCache c)" if "map_of (sv_crudMap rs) n = Some c" for c
    using assms that by (auto simp: lawful_caches_def list_all_iff dest: map_of_SomeD)
  note op = operations_permitted(1-7) operations_permitted(8-11) [OF cache]
  show "keeps (at_backend n (adds (may_add rs n))) (srv_ListBackends rs w)"
    "keeps (at_backend n (adds (may_add rs n))) (srv_GetVersionInfo version rs w)"
    by (simp_all add: srv_ListBackends_def srv_GetVersionInfo_def keeps_def preturn_def at_backend_def Let_def)
  show "keeps (at_backend n (adds (may_add rs n))) (srv_QueryNamed rs backend name params w)"
    "keeps (at_backend n (adds (may_add rs n))) (srv_ListEntities rs backend w)"
    "keeps (at_backend n (adds (may_add rs n))) (srv_ListItems rs backend entity lparams w)"
    "keeps (at_backend n (adds (may_add rs n))) (srv_GetItemById rs backend entity item w)"
    "keeps (at_backend n (adds (may_add rs n))) (srv_ExistsItemById rs backend entity item w)"
    unfolding handler_defs Let_def by (rule keeps_at_handleBackend, auto intro!: op)+
  show "keeps (at_backend n (adds (may_add rs n))) (srv_CreateItem rs backend entity body w)"
    "keeps (at_backend n (adds (may_add rs n))) (srv_UpdateItemById rs backend entity item body w)"
    unfolding handler_defs by (rule keeps_at_handleBackend, auto intro!: op split: sum.splits)+
  show "keeps (at_backend n (adds (may_add rs n))) (srv_DeleteItemById rs backend entity item w)"
    unfolding handler_defs by (rule keeps_at_handleBackend) (auto intro!: op split: option.splits)
  show "keeps (at_backend n (adds (may_add rs n))) (srv_BulkUpdate rs backend entity body w)"
    unfolding handler_defs by (rule keeps_at_handleBackend) (auto intro!: op split: sum.splits option.splits)
qed

text \<open>The requests of the API, by their handlers.\<close>

lemma serve_permitted:
  assumes "lawful_caches rs"
  shows "keeps (at_backend n (adds (may_add rs n))) (serve rs enc req)"
  using handlers_permitted [OF assms, of n] by (cases req) simp_all

section \<open>The HTTP handler\<close>

text \<open>
  What is relied on of the imported code around the API: a middleware reaches the databases only
  through the handler it wraps, and the specification and the metrics are served without them.
\<close>

definition neutral :: "'s middleware \<Rightarrow> bool" where
  "neutral mw \<longleftrightarrow>
     (\<forall>R h. reflp R \<and> transp R \<and> (\<forall>w r. keeps R (h w r)) \<longrightarrow> (\<forall>w r. keeps R (mw h w r)))"

definition neutral_imports :: "'s http_imports \<Rightarrow> bool" where
  "neutral_imports im \<longleftrightarrow>
     neutral (hi_Logging im) \<and> (\<forall>p q. neutral (hi_Interceptor im p q)) \<and> (\<forall>c. neutral (hi_Cors im c)) \<and>
     (\<forall>w r s. snd (hi_Spec im w r s) = s) \<and> (\<forall>w r s. snd (hi_Metrics im w r s) = s)"

lemma neutral_id: "neutral (\<lambda>h. h)"
  by (simp add: neutral_def)

lemma keeps_neutral:
  "neutral mw \<Longrightarrow> reflp R \<Longrightarrow> transp R \<Longrightarrow> (\<And>w r. keeps R (h w r)) \<Longrightarrow> keeps R (mw h w r)"
  by (simp add: neutral_def)

lemma keeps_middlewares:
  assumes "list_all neutral mws" "reflp R" "transp R" "\<And>w r. keeps R (h w r)"
  shows "keeps R (foldl (\<lambda>h middleware. middleware h) h mws w r)"
  using assms(1,4)
proof (induction mws arbitrary: h)
  case (Cons mw mws)
  have "keeps R (mw h w r)" for w r
    using Cons.prems(1) assms(2,3) Cons.prems(2) by (intro keeps_neutral [of mw R h w r]) simp_all
  with Cons show ?case by simp
qed simp

lemma keeps_with_path:
  assumes "reflp R" "\<And>v. keeps R (k v w r)"
  shows "keeps R (with_path b siw vars name k w r)"
  using assms by (auto simp: with_path_def split: sum.splits)

lemma keeps_with_query:
  assumes "reflp R" "\<And>v. keeps R (k v w r)"
  shows "keeps R (with_query bind siw name typ' k w r)"
  using assms by (auto simp: with_query_def split: sum.splits bind_error.splits)

lemmas siw_defs = siw_ListBackends_def siw_GetVersionInfo_def siw_QueryNamed_def siw_ListEntities_def
  siw_ListItems_def siw_CreateItem_def siw_BulkUpdate_def siw_DeleteItemById_def siw_GetItemById_def
  siw_ExistsItemById_def siw_UpdateItemById_def

text \<open>The handler that \<^verbatim>\<open>Run\<close> builds adds only permitted calls, for every request.\<close>

lemma routes_permitted:
  assumes "lawful_caches rs" "list_all neutral (siw_HandlerMiddlewares siw)" "siw_Handler siw = rest_handlers version rs"
    and "(t, m, h) \<in> set (api_routes b base siw)"
  shows "keeps (at_backend n (adds (may_add rs n))) (h vars w r)"
proof -
  let ?R = "at_backend n (adds (may_add rs n))"
  have R: "reflp ?R" "transp ?R" by auto
  have through: "keeps ?R (through_middlewares siw k w r)" if "\<And>w r. keeps ?R (k w r)" for k w r
    unfolding through_middlewares_def by (rule keeps_middlewares [OF assms(2) R that])
  note hs = handlers_permitted [OF assms(1), of n]
  have op: "keeps ?R (siw_ListBackends siw vars w r)" "keeps ?R (siw_GetVersionInfo siw vars w r)"
    "keeps ?R (siw_QueryNamed b siw vars w r)" "keeps ?R (siw_ListEntities b siw vars w r)"
    "keeps ?R (siw_ListItems b siw vars w r)" "keeps ?R (siw_CreateItem b siw vars w r)"
    "keeps ?R (siw_BulkUpdate b siw vars w r)" "keeps ?R (siw_DeleteItemById b siw vars w r)"
    "keeps ?R (siw_GetItemById b siw vars w r)" "keeps ?R (siw_ExistsItemById b siw vars w r)"
    "keeps ?R (siw_UpdateItemById b siw vars w r)" for vars w r
    unfolding siw_defs assms(3) rest_handlers_def ServerInterface.simps
    by (intro keeps_with_path [OF R(1)] keeps_with_query [OF R(1)] through hs)+
  have "list_all (\<lambda>(t, m, h). \<forall>vars w r. keeps ?R (h vars w r)) (api_routes b base siw)"
    unfolding api_routes_def list.pred_inject case_prod_conv by (intro conjI allI TrueI op) simp_all
  with assms(4) show ?thesis by (auto simp: list_all_iff)
qed

lemma Run_handler_permitted:
  assumes "lawful_caches rs" "neutral_imports im" "Run_handler im rs = Returns h"
  shows "keeps (at_backend n (adds (may_add rs n))) (h w r)"
proof -
  let ?R = "at_backend n (adds (may_add rs n))"
  have R: "reflp ?R" "transp ?R" by auto
  obtain cs t where cfg: "srv_Cors (cfg_Server (sv_cfg rs)) = Some cs" "srv_Telemetry (cfg_Server (sv_cfg rs)) = Some t"
    using assms(3)
    by (cases "srv_Cors (cfg_Server (sv_cfg rs))"; cases "srv_Telemetry (cfg_Server (sv_cfg rs))")
      (simp_all add: Run_handler_def Let_def)
  define mws where "mws = hi_Logging im # (if tel_Enabled t
    then [hi_Interceptor im (metrics_filter (srv_APIPrefix (cfg_Server (sv_cfg rs))))
      (metrics_callback (srv_APIPrefix (cfg_Server (sv_cfg rs))))] else [])"
  define siw where "siw = \<lparr>siw_Handler = rest_handlers (hi_Version im) rs, siw_HandlerMiddlewares = mws,
    siw_ErrorHandlerFunc = default_error_handler (sv_my rs)\<rparr>"
  let ?routes = "base_routes im t @ api_routes (hi_Binder im) (srv_APIPrefix (cfg_Server (sv_cfg rs))) siw"
  have h: "h = hi_Cors im cs (serve_mux (hi_Router im) ?routes)"
    using assms(3) by (simp add: Run_handler_def cfg HandlerWithOptions_def siw_def mws_def Let_def)
  have mws: "list_all neutral mws" using assms(2) by (auto simp: mws_def neutral_imports_def)
  have "keeps ?R (hd vars w r)" if "(p, m, hd) \<in> set ?routes" for p m hd vars w r
  proof (cases "(p, m, hd) \<in> set (base_routes im t)")
    case True
    then show ?thesis using assms(2)
      by (auto simp: base_routes_def neutral_imports_def health_def preturn_def keeps_def at_backend_def split: if_splits)
  next
    case False
    with that have "(p, m, hd) \<in> set (api_routes (hi_Binder im) (srv_APIPrefix (cfg_Server (sv_cfg rs))) siw)" by simp
    from routes_permitted [OF assms(1) _ _ this, of "hi_Version im"] mws show ?thesis by (simp add: siw_def)
  qed
  note route = this
  have "keeps ?R (serve_mux (hi_Router im) ?routes w r)" for w r
  proof -
    have "keeps ?R (snd (snd (?routes ! i)) vars w r)" if "i < length ?routes" for i vars
      using route nth_mem [OF that] by (metis prod.collapse)
    with R(1) show ?thesis unfolding serve_mux_def by (auto simp del: nth_append split: mux_answer.splits)
  qed
  note inner = this
  have "neutral (hi_Cors im cs)" using assms(2) by (simp add: neutral_imports_def)
  from keeps_neutral [OF this R inner] show ?thesis unfolding h .
qed

end
