(* ===== verification/Wire.thy ===== *)
theory Wire
  imports Api_Server
begin

text \<open>
  The wire between client and server: what is relied on of the imported styling, binding and routing
  code, and the theorem that the request a client method builds is served by the handler of the same
  operation with the same parameters.
\<close>

section \<open>What is relied on of the imported code\<close>

fun styled_values :: "styled_value \<Rightarrow> string list" where
  "styled_values (SStr s) = [s]"
| "styled_values (SInt i) = [dec_int i]"
| "styled_values (SStrs ss) = (if ss = [] then [[]] else ss)"

lemma styled_values_nonempty [simp]: "styled_values v \<noteq> []"
  by (cases v) simp_all

text \<open>A path parameter becomes text for one path segment that unescapes to it; a query parameter becomes
  one \<^verbatim>\<open>name=value\<close> pair for each of its values. An empty list becomes \<^verbatim>\<open>name=\<close>, as OpenAPI has it for
  the style \<^verbatim>\<open>form\<close>: one empty value.\<close>

definition style_lawful :: "style_param \<Rightarrow> bool" where
  "style_lawful style \<longleftrightarrow>
     (\<forall>name v. \<exists>p. style ''simple'' False name (SStr v) ParamLocationPath ''string'' = Inr p \<and>
        list_all seg_char p \<and> PathUnescape p = Some v) \<and>
     (\<forall>name v typ. \<exists>f. style ''form'' True name v ParamLocationQuery typ = Inr f \<and> query_ok f \<and>
        map query_pair (split_on (CHR ''&'') f) = map (\<lambda>x. Some (name, x)) (styled_values v))"

definition int_ok :: "int \<Rightarrow> bool" where
  "int_ok i \<longleftrightarrow> - (2 ^ 63) \<le> i \<and> i < 2 ^ 63"

definition binder_lawful :: "param_binder \<Rightarrow> bool" where
  "binder_lawful b \<longleftrightarrow>
     (\<forall>name v. v \<noteq> [] \<longrightarrow> bind_path b ''simple'' name v = Inr v) \<and>
     (\<forall>name q typ i. map_of q name = Some [dec_int i] \<longrightarrow> int_ok i \<longrightarrow>
        bind_int b ''form'' True False name q typ = Inr (Some i)) \<and>
     (\<forall>name q typ s. map_of q name = Some [s] \<longrightarrow> bind_str b ''form'' True False name q typ = Inr (Some s)) \<and>
     (\<forall>name q typ ss. map_of q name = Some ss \<longrightarrow> ss \<noteq> [] \<longrightarrow>
        bind_strs b ''form'' True False name q typ = Inr (Some ss)) \<and>
     (\<forall>name q typ. map_of q name = None \<longrightarrow>
        bind_int b ''form'' True False name q typ = Inr None \<and>
        bind_str b ''form'' True False name q typ = Inr None \<and>
        bind_strs b ''form'' True False name q typ = Inr None)"

text \<open>The router: a template is compared with a path segment by segment, a variable in braces matching any
  segment but the empty one; the first route whose template and method fit is taken. The program's own
  templates have no other use of braces (the router also knows patterns in them); a metrics path with
  such a pattern is outside this reading.\<close>

definition template_var :: "string \<Rightarrow> string option" where
  "template_var t =
     (if t \<noteq> [] \<and> hd t = CHR ''{'' \<and> last t = CHR ''}'' then Some (butlast (tl t)) else None)"

fun match_segs :: "string list \<Rightarrow> string list \<Rightarrow> mux_vars option" where
  "match_segs [] [] = Some []"
| "match_segs (t # ts) (s # ss) =
     (case template_var t of
        Some x \<Rightarrow> (if s = [] then None else map_option (\<lambda>vars. (x, s) # vars) (match_segs ts ss))
      | None \<Rightarrow> (if t = s then match_segs ts ss else None))"
| "match_segs ts ss = None"

definition match_template :: "string \<Rightarrow> string \<Rightarrow> mux_vars option" where
  "match_template t path = match_segs (split_on (CHR ''/'') t) (split_on (CHR ''/'') path)"

fun find_route :: "nat \<Rightarrow> (string \<times> string option) list \<Rightarrow> string \<Rightarrow> string \<Rightarrow> (nat \<times> mux_vars) option" where
  "find_route i [] meth path = None"
| "find_route i ((t, m) # routes) meth path =
     (case match_template t path of
        Some vars \<Rightarrow> (if m = None \<or> m = Some meth then Some (i, vars) else find_route (Suc i) routes meth path)
      | None \<Rightarrow> find_route (Suc i) routes meth path)"

text \<open>Paths that the router takes as they are: no empty or dot segments, but a slash may end them.\<close>

definition clean_path :: "string \<Rightarrow> bool" where
  "clean_path p \<longleftrightarrow>
     (case split_on (CHR ''/'') p of
        [] # segs \<Rightarrow> segs \<noteq> [] \<and> list_all (\<lambda>s. s \<noteq> [] \<and> s \<noteq> ''.'' \<and> s \<noteq> ''..'') (butlast segs) \<and>
          last segs \<noteq> ''.'' \<and> last segs \<noteq> ''..''
      | _ \<Rightarrow> False)"

text \<open>Without a route the router answers itself: 405 when only the method did not fit, 404 otherwise,
  with a text or nothing as body.\<close>

definition path_known :: "(string \<times> string option) list \<Rightarrow> string \<Rightarrow> bool" where
  "path_known routes path \<longleftrightarrow> list_ex (\<lambda>(t, m). match_template t path \<noteq> None) routes"

definition no_route_reply :: "bool \<Rightarrow> (writer \<Rightarrow> writer) \<Rightarrow> bool" where
  "no_route_reply known f \<longleftrightarrow>
     (let w = f fresh_writer in
      wr_Status w = Some (if known then 405 else 404) \<and> list_all (\<lambda>b. case b of WText s \<Rightarrow> True | WJson v \<Rightarrow> False) (wr_Body w) \<and>
      (case wr_ContentType w of None \<Rightarrow> True | Some ct \<Rightarrow> \<not> contains_json ct))"

definition mux_lawful :: "mux_router \<Rightarrow> bool" where
  "mux_lawful router \<longleftrightarrow>
     (\<forall>routes meth path. clean_path path \<longrightarrow>
        (case find_route 0 routes meth path of
           Some (i, vars) \<Rightarrow> router routes meth path = MuxRoute i vars
         | None \<Rightarrow> (\<exists>f. router routes meth path = MuxReply f \<and>
             no_route_reply (path_known routes path) f)))"

section \<open>Requests of the client\<close>

text \<open>Names that can be addressed: they fit into one segment of a path.\<close>

definition name_ok :: "string \<Rightarrow> bool" where
  "name_ok s \<longleftrightarrow> s \<noteq> [] \<and> CHR ''/'' \<notin> set s \<and> s \<noteq> ''.'' \<and> s \<noteq> ''..''"

definition prefix_ok :: "string list \<Rightarrow> bool" where
  "prefix_ok psegs \<longleftrightarrow> list_all (\<lambda>s. s \<noteq> [] \<and> list_all unreserved s \<and> s \<noteq> ''.'' \<and> s \<noteq> ''..'') psegs"

text \<open>The address of the server.\<close>

definition server_url :: "string \<Rightarrow> string \<Rightarrow> string list \<Rightarrow> string" where
  "server_url scheme host psegs = scheme @ '':'' @ ''//'' @ host @ (join_path psegs @ ''/'') @ query_suffix []"

lemma unescape_plain: "list_all unreserved s \<Longrightarrow> PathUnescape s = Some s"
proof (induction s)
  case (Cons c s)
  then have "c \<noteq> CHR ''%''" by (auto simp: unreserved_def)
  with Cons show ?case by (simp add: PathUnescape_def)
qed (simp add: PathUnescape_def)

lemma prefix_seg_ok: "prefix_ok psegs \<Longrightarrow> list_all seg_ok psegs"
  by (auto simp: prefix_ok_def seg_ok_def list_all_iff unescape_plain unreserved_seg_char)

lemma prefix_no_slash: "prefix_ok psegs \<Longrightarrow> \<forall>s \<in> set psegs. CHR ''/'' \<notin> set s"
  using prefix_seg_ok seg_ok_slash by (auto simp: list_all_iff)

definition wire_request :: "string \<Rightarrow> string \<Rightarrow> string \<Rightarrow> string list \<Rightarrow> string \<Rightarrow> string option \<Rightarrow> string option \<Rightarrow> http_request" where
  "wire_request meth scheme host segs query ct body =
     \<lparr>rq_Method = meth, rq_URL = absolute_url scheme host (join_path segs) query, rq_ContentType = ct, rq_Body = body\<rparr>"

text \<open>An address with which requests can be built.\<close>

definition address_ok :: "string \<Rightarrow> string \<Rightarrow> string list \<Rightarrow> bool" where
  "address_ok scheme host psegs \<longleftrightarrow> scheme_ok scheme \<and> authority_ok host \<and> prefix_ok psegs"

lemma operation_url_ok:
  assumes "address_ok scheme host psegs" "list_all seg_ok segs" "segs \<noteq> []"
  shows "operation_url (server_url scheme host psegs) (join_path segs) =
    Inr (absolute_url scheme host (join_path (psegs @ segs)) [])"
proof -
  have ok: "scheme_ok scheme" "authority_ok host" "list_all seg_ok psegs"
    using assms(1) prefix_seg_ok by (auto simp: address_ok_def)
  have "list_all path_char (join_path psegs @ ''/'')"
    using path_char_join [OF ok(3)] by (simp add: path_char_def)
  moreover have "PathUnescape (join_path psegs @ ''/'') \<noteq> None"
    using seg_ok_unescape [of "psegs @ [[]]"] ok(3) by (simp add: seg_ok_def PathUnescape_def)
  ultimately have "url_Parse (server_url scheme host psegs) = Some (absolute_url scheme host (join_path psegs @ ''/'') [])"
    unfolding server_url_def using ok
    by (intro url_Parse_absolute) (auto simp: query_ok_def neq_Nil_conv, cases psegs, auto)
  moreover have "take 1 (join_path segs) = ''/''" using assms(3) by (cases segs) auto
  ultimately show ?thesis
    using url_Parse_ref_segs [OF ok(3) assms(2,3)] by (simp add: operation_url_def url_result_def)
qed

lemma http_NewRequest_ok:
  assumes "address_ok scheme host psegs" "list_all seg_ok segs" "segs \<noteq> []" "query_ok query"
  shows "http_NewRequest meth (url_String (absolute_url scheme host (join_path (psegs @ segs)) query)) body =
    Inr (wire_request meth scheme host (psegs @ segs) query None body)"
proof -
  have ok: "scheme_ok scheme" "authority_ok host" "list_all seg_ok (psegs @ segs)"
    using assms(1,2) prefix_seg_ok by (auto simp: address_ok_def)
  have "url_Parse (url_String (absolute_url scheme host (join_path (psegs @ segs)) query)) =
      Some (absolute_url scheme host (join_path (psegs @ segs)) query)"
    using url_Parse_String [OF ok(1,2) path_char_join [OF ok(3)] seg_ok_unescape [OF ok(3)] _ assms(4)] assms(3)
    by (cases "psegs @ segs") auto
  then show ?thesis by (simp add: http_NewRequest_def url_result_def wire_request_def)
qed


section \<open>Parameters on the wire\<close>

definition esc :: "style_param \<Rightarrow> string \<Rightarrow> string \<Rightarrow> string" where
  "esc style name v =
     (case style ''simple'' False name (SStr v) ParamLocationPath ''string'' of Inr p \<Rightarrow> p | Inl e \<Rightarrow> [])"

lemma path_param_ok:
  assumes "style_lawful style"
  shows "path_param style name v = Inr (esc style name v)" "PathUnescape (esc style name v) = Some v"
    "list_all seg_char (esc style name v)"
proof -
  from assms obtain p where p: "style ''simple'' False name (SStr v) ParamLocationPath ''string'' = Inr p"
    "list_all seg_char p" "PathUnescape p = Some v"
    unfolding style_lawful_def by blast
  then show "path_param style name v = Inr (esc style name v)" "PathUnescape (esc style name v) = Some v"
    "list_all seg_char (esc style name v)"
    by (simp_all add: path_param_def esc_def)
qed

lemma seg_ok_esc:
  assumes "style_lawful style" "v \<noteq> ''.''" "v \<noteq> ''..''"
  shows "seg_ok (esc style name v)"
proof -
  have "PathUnescape ''.'' = Some ''.''" "PathUnescape ''..'' = Some ''..''" by (simp_all add: PathUnescape_def)
  then show ?thesis using path_param_ok(2,3) [OF assms(1), of name v] assms(2,3)
    by (auto simp: seg_ok_def)
qed

lemma name_ok_esc: "style_lawful style \<Longrightarrow> name_ok v \<Longrightarrow> seg_ok (esc style name v)"
  by (simp add: name_ok_def seg_ok_esc)

text \<open>Pieces of a query string, with the pairs they stand for.\<close>

definition pieces :: "string list \<Rightarrow> (string \<times> string) list \<Rightarrow> bool" where
  "pieces frags kvs \<longleftrightarrow>
     map query_pair frags = map Some kvs \<and> list_all (\<lambda>p. CHR ''&'' \<notin> set p \<and> query_ok p) frags"

lemma split_on_piece: "p \<in> set (split_on sep s) \<Longrightarrow> sep \<notin> set p \<and> set p \<subseteq> set s"
proof (induction s arbitrary: p)
  case (Cons c s)
  obtain a ps where sp: "split_on sep s = a # ps" by (cases "split_on sep s") auto
  then have "set a \<subseteq> set s" "sep \<notin> set a" using Cons.IH [of a] by auto
  then show ?case using Cons.IH [of p] Cons.prems sp by (auto split: if_splits)
qed simp

lemma query_ok_subset: "query_ok s \<Longrightarrow> set p \<subseteq> set s \<Longrightarrow> query_ok p"
  by (auto simp: query_ok_def list_all_iff)

definition value_list :: "styled_value option \<Rightarrow> string list" where
  "value_list v = (case v of None \<Rightarrow> [] | Some x \<Rightarrow> styled_values x)"

lemma query_param_pieces:
  assumes "style_lawful style" "pieces frags kvs"
  shows "\<exists>frags'. query_param style name typ v frags = Inr frags' \<and>
    pieces frags' (kvs @ map (Pair name) (value_list v))"
proof (cases v)
  case None
  then show ?thesis using assms(2) by (auto simp: query_param_def value_list_def)
next
  case (Some x)
  obtain f where f: "style ''form'' True name x ParamLocationQuery typ = Inr f" "query_ok f"
    "map query_pair (split_on (CHR ''&'') f) = map (\<lambda>x. Some (name, x)) (styled_values x)"
    using assms(1) unfolding style_lawful_def by blast
  have "list_all (\<lambda>p. CHR ''&'' \<notin> set p \<and> query_ok p) (split_on (CHR ''&'') f)"
    using query_ok_subset [OF f(2)] split_on_piece [of _ "CHR ''&''" f] by (auto simp: list_all_iff)
  then show ?thesis
    using Some f assms(2)
    by (intro exI [of _ "frags @ split_on (CHR ''&'') f"])
       (auto simp: query_param_def value_list_def pieces_def comp_def)
qed

text \<open>All the query parameters of an operation, in order: name, type and value.\<close>

type_synonym query_spec = "(string \<times> string \<times> styled_value option) list"

fun collect :: "style_param \<Rightarrow> query_spec \<Rightarrow> string list \<Rightarrow> goerr + string list" where
  "collect style [] frags = Inr frags"
| "collect style ((name, typ, v) # ps) frags = rbind (query_param style name typ v frags) (collect style ps)"

definition spec_pairs :: "query_spec \<Rightarrow> (string \<times> string) list" where
  "spec_pairs ps = concat (map (\<lambda>(name, typ, v). map (Pair name) (value_list v)) ps)"

lemma collect_pieces:
  assumes "style_lawful style" "pieces frags kvs"
  shows "\<exists>frags'. collect style ps frags = Inr frags' \<and> pieces frags' (kvs @ spec_pairs ps)"
  using assms(2)
proof (induction ps arbitrary: frags kvs)
  case (Cons p ps)
  obtain name ty v where p: "p = (name, ty, v)" by (cases p)
  from Cons.prems p query_param_pieces [OF assms(1) Cons.prems, of name ty v] obtain f where
    f: "query_param style name ty v frags = Inr f" "pieces f (kvs @ map (Pair name) (value_list v))"
    by auto
  with Cons.IH [OF f(2)] p show ?case by (simp add: spec_pairs_def)
qed (simp add: spec_pairs_def)

lemma rbind_assoc: "rbind (rbind m f) g = rbind m (\<lambda>x. rbind (f x) g)"
  by (cases m) simp_all

lemma split_join_pieces:
  "frags \<noteq> [] \<Longrightarrow> list_all (\<lambda>p. CHR ''&'' \<notin> set p \<and> query_ok p) frags \<Longrightarrow>
   split_on (CHR ''&'') (join ''&'' frags) = frags"
proof -
  assume "frags \<noteq> []" and ok: "list_all (\<lambda>p. CHR ''&'' \<notin> set p \<and> query_ok p) frags"
  then have "split_on (CHR ''&'') (join ''&'' frags) = concat (map (split_on (CHR ''&'')) frags)"
    by (simp add: split_on_join)
  also have "map (split_on (CHR ''&'')) frags = map (\<lambda>p. [p]) frags"
    using ok by (intro map_cong refl) (simp add: list_all_iff split_on_none)
  finally show ?thesis by (simp add: concat_map_singleton)
qed

definition add_pairs :: "(string \<times> string) list \<Rightarrow> url_values \<Rightarrow> url_values" where
  "add_pairs kvs m = foldl (\<lambda>m (k, v). values_Add k v m) m kvs"

lemma foldl_add_piece: "map query_pair frags = map Some kvs \<Longrightarrow> foldl add_piece m frags = add_pairs kvs m"
proof (induction frags arbitrary: kvs m)
  case (Cons f frags)
  then obtain k v kvs' where "kvs = (k, v) # kvs'" by (cases kvs) auto
  with Cons show ?case by (simp add: add_pairs_def add_piece_def)
qed (simp add: add_pairs_def)

lemma query_ok_join: "list_all query_ok frags \<Longrightarrow> query_ok (join ''&'' frags)"
proof (induction frags rule: induct_list012)
  case (3 x y zs)
  then show ?case by (simp add: query_ok_def ctl_char_def)
qed (simp_all add: query_ok_def)

lemma set_query_pieces:
  assumes "pieces frags kvs"
  shows "\<exists>query. set_query (absolute_url s h p []) frags = absolute_url s h p query \<and> query_ok query \<and>
    url_Query (absolute_url s h p query) = add_pairs kvs []"
proof -
  have empty: "url_Query (absolute_url s h p []) = []"
    by (simp add: url_Query_def absolute_url_def add_piece_def query_pair_def)
  have "url_Query (absolute_url s h p (join ''&'' frags)) = add_pairs kvs []"
  proof (cases "frags = []")
    case True
    with assms empty show ?thesis by (simp add: pieces_def add_pairs_def)
  next
    case False
    with assms show ?thesis
      by (simp add: pieces_def url_Query_def absolute_url_def split_join_pieces foldl_add_piece)
  qed
  moreover have "query_ok (join ''&'' frags)"
    using assms by (intro query_ok_join) (auto simp: pieces_def list_all_iff)
  moreover have "set_query (absolute_url s h p []) frags = absolute_url s h p (join ''&'' frags)"
    unfolding set_query_def empty by (simp add: values_Encode_def absolute_url_def)
  ultimately show ?thesis by metis
qed

lemma map_of_values_Add:
  "map_of (values_Add k v m) name =
     (if k = name then Some ((case map_of m k of Some vs \<Rightarrow> vs | None \<Rightarrow> []) @ [v]) else map_of m name)"
  by (auto simp: values_Add_def update_conv')

definition pair_values :: "string \<Rightarrow> (string \<times> string) list \<Rightarrow> string list" where
  "pair_values name kvs = map snd (filter (\<lambda>kv. fst kv = name) kvs)"

lemma pair_values_simps [simp]:
  "pair_values name [] = []"
  "pair_values name ((k, v) # kvs) = (if k = name then v # pair_values name kvs else pair_values name kvs)"
  "pair_values name (xs @ ys) = pair_values name xs @ pair_values name ys"
  "pair_values name (map (Pair k) vs) = (if k = name then vs else [])"
  by (auto simp: pair_values_def filter_map comp_def)

lemma add_pairs_Cons: "add_pairs ((k, v) # kvs) m = add_pairs kvs (values_Add k v m)"
  by (simp add: add_pairs_def)

lemma add_pairs_lookup:
  "map_of (add_pairs kvs m) name =
     (if pair_values name kvs = [] then map_of m name
      else Some ((case map_of m name of Some vs \<Rightarrow> vs | None \<Rightarrow> []) @ pair_values name kvs))"
proof (induction kvs arbitrary: m)
  case (Cons kv kvs)
  obtain k v where "kv = (k, v)" by (cases kv)
  with Cons show ?case by (auto simp: add_pairs_Cons map_of_values_Add split: option.splits)
qed (simp add: add_pairs_def)

lemma query_lookup:
  "map_of (add_pairs kvs []) name = (if pair_values name kvs = [] then None else Some (pair_values name kvs))"
  by (simp add: add_pairs_lookup)

end
