(* ===== verification/Routing.thy ===== *)
theory Routing
  imports Wire
begin

text \<open>
  The requests that the client builds for each operation, and the route that the server's router
  takes for each of them.
\<close>

section \<open>The requests built\<close>

definition wire_ok :: "style_param \<Rightarrow> string \<Rightarrow> string \<Rightarrow> string list \<Rightarrow> bool" where
  "wire_ok style scheme host psegs \<longleftrightarrow> style_lawful style \<and> address_ok scheme host psegs"

lemma literal_seg_ok [simp]:
  "seg_ok ''backends''" "seg_ok ''version''" "seg_ok ''entities''" "seg_ok ''_query''" "seg_ok ''bulk''"
  by (simp_all add: seg_ok_def unreserved_seg_char unreserved_def PathUnescape_def)

lemma rbind_Inr [simp]: "rbind (Inr x) f = f x"
  by simp

lemma build_plain:
  assumes "wire_ok style scheme host psegs" "list_all seg_ok segs" "segs \<noteq> []" "path = join_path segs"
  shows "rbind (operation_url (server_url scheme host psegs) path) (\<lambda>u. http_NewRequest meth (url_String u) body) =
    Inr (wire_request meth scheme host (psegs @ segs) [] None body)"
proof -
  from assms(1) have a: "address_ok scheme host psegs" by (simp add: wire_ok_def)
  have "query_ok []" by (simp add: query_ok_def)
  from operation_url_ok [OF a assms(2,3)] http_NewRequest_ok [OF a assms(2,3) this] assms(4) show ?thesis by simp
qed

lemma build_item:
  assumes "wire_ok style scheme host psegs" "name_ok be" "name_ok ent"
    and "seg_ok (esc style ''id'' item)"
  shows "rbind (item_url style (server_url scheme host psegs) be ent item)
      (\<lambda>u. http_NewRequest meth (url_String u) body) =
    Inr (wire_request meth scheme host
      (psegs @ [esc style ''backend'' be, esc style ''entity'' ent, esc style ''id'' item]) [] None body)"
proof -
  have st: "style_lawful style" using assms(1) by (simp add: wire_ok_def)
  have "list_all seg_ok [esc style ''backend'' be, esc style ''entity'' ent, esc style ''id'' item]"
    using assms(2-4) by (simp add: name_ok_esc [OF st])
  from build_plain [OF assms(1) this, of _ meth body] show ?thesis
    by (simp add: item_url_def path_param_ok(1) [OF st])
qed

text \<open>A listing with query parameters.\<close>

lemma build_query:
  assumes "wire_ok style scheme host psegs" "list_all seg_ok segs" "segs \<noteq> []" "path = join_path segs"
  shows "\<exists>query. rbind (operation_url (server_url scheme host psegs) path) (\<lambda>u.
        rbind (rbind (collect style ps []) (\<lambda>frags. Inr (set_query u frags))) (\<lambda>u. http_NewRequest meth (url_String u) None)) =
      Inr (wire_request meth scheme host (psegs @ segs) query None None) \<and>
    url_Query (absolute_url scheme host (join_path (psegs @ segs)) query) = add_pairs (spec_pairs ps) []"
proof -
  have st: "style_lawful style" and a: "address_ok scheme host psegs" using assms(1) by (auto simp: wire_ok_def)
  have "pieces [] []" by (simp add: pieces_def)
  from collect_pieces [OF st this, of ps] obtain frags where
    f: "collect style ps [] = Inr frags" "pieces frags (spec_pairs ps)" by auto
  from set_query_pieces [OF f(2)] obtain query where
    q: "set_query (absolute_url scheme host (join_path (psegs @ segs)) []) frags =
        absolute_url scheme host (join_path (psegs @ segs)) query" "query_ok query"
      "url_Query (absolute_url scheme host (join_path (psegs @ segs)) query) = add_pairs (spec_pairs ps) []"
    by blast
  from operation_url_ok [OF a assms(2,3)] http_NewRequest_ok [OF a assms(2,3) q(2), of meth None] f(1) q(1,3) assms(4)
  show ?thesis by (intro exI [of _ query]) (simp del: join_path_simps)
qed

definition listing_spec :: "ListItemsParams \<Rightarrow> query_spec" where
  "listing_spec ps =
     [(''page-offset'', ''integer'', map_option SInt (PageOffset ps)),
      (''page-size'', ''integer'', map_option SInt (PageSize ps)),
      (''order[]'', ''array'', map_option SStrs (Order ps)),
      (''filter'', ''string'', map_option SStr (Filter ps))]"

definition named_spec :: "QueryNamedParams \<Rightarrow> query_spec" where
  "named_spec ps =
     [(''page-offset'', ''integer'', map_option SInt (qn_PageOffset ps)),
      (''page-size'', ''integer'', map_option SInt (qn_PageSize ps)),
      (''arg'', ''array'', map_option SStrs (qn_Arg ps))]"

lemma build_listing:
  assumes "wire_ok style scheme host psegs" "name_ok be" "name_ok ent"
  obtains query where "NewListItemsRequest style (server_url scheme host psegs) be ent (Some ps) =
      Inr (wire_request ''GET'' scheme host (psegs @ [esc style ''backend'' be, esc style ''entity'' ent]) query None None)"
    "url_Query (absolute_url scheme host (join_path (psegs @ [esc style ''backend'' be, esc style ''entity'' ent])) query) =
      add_pairs (spec_pairs (listing_spec ps)) []"
proof -
  have st: "style_lawful style" using assms(1) by (auto simp: wire_ok_def)
  let ?segs = "[esc style ''backend'' be, esc style ''entity'' ent]"
  have segs: "list_all seg_ok ?segs" using assms(2,3) by (simp add: name_ok_esc [OF st])
  obtain query where q: "rbind (operation_url (server_url scheme host psegs) (''/'' @ esc style ''backend'' be @ ''/'' @ esc style ''entity'' ent)) (\<lambda>u.
        rbind (rbind (collect style (listing_spec ps) []) (\<lambda>frags. Inr (set_query u frags))) (\<lambda>u. http_NewRequest ''GET'' (url_String u) None)) =
      Inr (wire_request ''GET'' scheme host (psegs @ ?segs) query None None)"
    "url_Query (absolute_url scheme host (join_path (psegs @ ?segs)) query) = add_pairs (spec_pairs (listing_spec ps)) []"
    using build_query [OF assms(1) segs _ _, of "''/'' @ esc style ''backend'' be @ ''/'' @ esc style ''entity'' ent" "listing_spec ps" "''GET''"]
    by auto
  have "NewListItemsRequest style (server_url scheme host psegs) be ent (Some ps) =
    Inr (wire_request ''GET'' scheme host (psegs @ ?segs) query None None)"
    using q(1) by (simp add: NewListItemsRequest_def path_param_ok(1) [OF st] listing_spec_def rbind_assoc)
  from that [OF this q(2)] show thesis .
qed

lemma build_named:
  assumes "wire_ok style scheme host psegs" "name_ok be" "name_ok name"
  obtains query where "NewQueryNamedRequest style (server_url scheme host psegs) be name (Some ps) =
      Inr (wire_request ''GET'' scheme host
        (psegs @ [esc style ''backend'' be, ''_query'', esc style ''name'' name]) query None None)"
    "url_Query (absolute_url scheme host
        (join_path (psegs @ [esc style ''backend'' be, ''_query'', esc style ''name'' name])) query) =
      add_pairs (spec_pairs (named_spec ps)) []"
proof -
  have st: "style_lawful style" using assms(1) by (auto simp: wire_ok_def)
  let ?segs = "[esc style ''backend'' be, ''_query'', esc style ''name'' name]"
  have segs: "list_all seg_ok ?segs" using assms(2,3) by (simp add: name_ok_esc [OF st])
  obtain query where q: "rbind (operation_url (server_url scheme host psegs) (''/'' @ esc style ''backend'' be @ ''/_query/'' @ esc style ''name'' name)) (\<lambda>u.
        rbind (rbind (collect style (named_spec ps) []) (\<lambda>frags. Inr (set_query u frags))) (\<lambda>u. http_NewRequest ''GET'' (url_String u) None)) =
      Inr (wire_request ''GET'' scheme host (psegs @ ?segs) query None None)"
    "url_Query (absolute_url scheme host (join_path (psegs @ ?segs)) query) = add_pairs (spec_pairs (named_spec ps)) []"
    using build_query [OF assms(1) segs _ _, of "''/'' @ esc style ''backend'' be @ ''/_query/'' @ esc style ''name'' name" "named_spec ps" "''GET''"]
    by auto
  have "NewQueryNamedRequest style (server_url scheme host psegs) be name (Some ps) =
    Inr (wire_request ''GET'' scheme host (psegs @ ?segs) query None None)"
    using q(1) by (simp add: NewQueryNamedRequest_def path_param_ok(1) [OF st] named_spec_def rbind_assoc)
  from that [OF this q(2)] show thesis .
qed


section \<open>Routes\<close>

lemma clean_join_path:
  assumes "prefix_ok psegs" "ds \<noteq> []" "list_all (\<lambda>s. CHR ''/'' \<notin> set s) ds"
    and "list_all (\<lambda>s. s \<noteq> [] \<and> s \<noteq> ''.'' \<and> s \<noteq> ''..'') (butlast ds)" "last ds \<noteq> ''.''" "last ds \<noteq> ''..''"
  shows "clean_path (join_path (psegs @ ds))"
proof -
  have "\<forall>s \<in> set (psegs @ ds). CHR ''/'' \<notin> set s"
    using prefix_no_slash [OF assms(1)] assms(3) by (auto simp: list_all_iff)
  then have "split_on (CHR ''/'') (join_path (psegs @ ds)) = [] # psegs @ ds"
    using split_join_path [of "[]" "psegs @ ds"] by (simp del: join_path_simps)
  then show ?thesis
    using assms by (auto simp: clean_path_def butlast_append list_all_iff prefix_ok_def simp del: join_path_simps)
qed

text \<open>The routes of the API by segments.\<close>

definition api_segs :: "(string list \<times> string option) list" where
  "api_segs =
     [([''backends''], Some ''GET''), ([''{backend}'', ''entities''], Some ''GET''),
      ([''{backend}'', ''_query'', ''{name}''], Some ''GET''), ([''{backend}'', ''{entity}''], Some ''GET''),
      ([''{backend}'', ''{entity}''], Some ''POST''), ([''{backend}'', ''{entity}'', ''bulk''], Some ''POST''),
      ([''{backend}'', ''{entity}'', ''{id}''], Some ''DELETE''), ([''{backend}'', ''{entity}'', ''{id}''], Some ''GET''),
      ([''{backend}'', ''{entity}'', ''{id}''], Some ''HEAD''), ([''{backend}'', ''{entity}'', ''{id}''], Some ''PUT''),
      ([''version''], Some ''GET'')]"

fun find_segs :: "nat \<Rightarrow> (string list \<times> string option) list \<Rightarrow> string \<Rightarrow> string list \<Rightarrow> (nat \<times> mux_vars) option" where
  "find_segs i [] meth ds = None"
| "find_segs i ((ts, m) # routes) meth ds =
     (case match_segs ts ds of
        Some vars \<Rightarrow> (if m = None \<or> m = Some meth then Some (i, vars) else find_segs (Suc i) routes meth ds)
      | None \<Rightarrow> find_segs (Suc i) routes meth ds)"

lemma api_templates:
  "map (\<lambda>(t, m, h). (t, m)) (api_routes b base siw) = map (\<lambda>(ts, m). (base @ join_path ts, m)) api_segs"
  by (simp add: api_routes_def api_segs_def)

lemma template_var_simps [simp]:
  "template_var ''{backend}'' = Some ''backend''" "template_var ''{entity}'' = Some ''entity''"
  "template_var ''{id}'' = Some ''id''" "template_var ''{name}'' = Some ''name''"
  "template_var ''backends'' = None" "template_var ''entities'' = None" "template_var ''_query'' = None"
  "template_var ''bulk'' = None" "template_var ''version'' = None" "template_var [] = None"
  by (simp_all add: template_var_def)

lemma template_var_plain: "list_all unreserved s \<Longrightarrow> template_var s = None"
  by (cases s) (auto simp: template_var_def unreserved_def)

lemma match_segs_prefix:
  "list_all (\<lambda>s. template_var s = None) psegs \<Longrightarrow> match_segs (psegs @ ts) (psegs @ ds) = match_segs ts ds"
  by (induction psegs) auto

lemma match_template_segs:
  assumes "prefix_ok psegs" "list_all (\<lambda>s. CHR ''/'' \<notin> set s) ts" "list_all (\<lambda>s. CHR ''/'' \<notin> set s) ds"
  shows "match_template (join_path (psegs @ ts)) (join_path (psegs @ ds)) = match_segs ts ds"
proof -
  have sp: "split_on (CHR ''/'') (join_path (psegs @ xs)) = [] # psegs @ xs"
    if "list_all (\<lambda>s. CHR ''/'' \<notin> set s) xs" for xs
  proof -
    have "\<forall>s \<in> set (psegs @ xs). CHR ''/'' \<notin> set s"
      using prefix_no_slash [OF assms(1)] that by (auto simp: list_all_iff)
    then show ?thesis using split_join_path [of "[]" "psegs @ xs"] by (simp del: join_path_simps)
  qed
  have "list_all (\<lambda>s. template_var s = None) ([] # psegs)"
    using assms(1) by (auto simp: prefix_ok_def list_all_iff template_var_plain)
  from match_segs_prefix [OF this, of ts ds] show ?thesis
    by (simp add: match_template_def sp assms(2,3) del: join_path_simps)
qed

lemma find_route_segs:
  assumes "prefix_ok psegs" "list_all (\<lambda>(ts, m). list_all (\<lambda>s. CHR ''/'' \<notin> set s) ts) routes"
    and "list_all (\<lambda>s. CHR ''/'' \<notin> set s) ds"
  shows "find_route i (map (\<lambda>(ts, m). (join_path psegs @ join_path ts, m)) routes) meth (join_path (psegs @ ds)) =
    find_segs i routes meth ds"
  using assms(2)
proof (induction routes arbitrary: i)
  case (Cons r routes)
  obtain ts m where r: "r = (ts, m)" by (cases r)
  with Cons.prems have "match_template (join_path psegs @ join_path ts) (join_path (psegs @ ds)) = match_segs ts ds"
    using match_template_segs [OF assms(1) _ assms(3), of ts] by simp
  moreover have "find_route j (map (\<lambda>(ts, m). (join_path psegs @ join_path ts, m)) routes) meth (join_path (psegs @ ds)) =
      find_segs j routes meth ds" for j
    using Cons by simp
  ultimately show ?case by (auto simp: r split: option.split)
qed simp

lemma find_route_skip:
  "list_all (\<lambda>(t, m). match_template t path = None) base \<Longrightarrow>
   find_route i (base @ routes) meth path = find_route (i + length base) routes meth path"
  by (induction base arbitrary: i) auto

lemma api_segs_ok: "list_all (\<lambda>(ts, m). list_all (\<lambda>s. CHR ''/'' \<notin> set s) ts) api_segs"
  by (simp add: api_segs_def)

text \<open>What the server does with a path: the API's routes decide, unless a route of its own matches.\<close>

lemma serve_mux_api:
  assumes "mux_lawful router" "prefix_ok psegs"
    and "request_path r = join_path (psegs @ ds)" "clean_path (join_path (psegs @ ds))"
    and "list_all (\<lambda>s. CHR ''/'' \<notin> set s) ds"
    and "list_all (\<lambda>(t, m, h). match_template t (join_path (psegs @ ds)) = None) base"
  shows "case find_segs 0 api_segs (rq_Method r) ds of
      Some (i, vars) \<Rightarrow> i < 11 \<longrightarrow>
        serve_mux router (base @ api_routes b (join_path psegs) siw) w r =
          snd (snd (api_routes b (join_path psegs) siw ! i)) vars w r
    | None \<Rightarrow> \<exists>f. no_route_reply (list_ex (\<lambda>(ts, m). match_segs ts ds \<noteq> None) api_segs) f \<and>
        serve_mux router (base @ api_routes b (join_path psegs) siw) w r = preturn (f w)"
proof -
  let ?path = "join_path (psegs @ ds)" and ?routes = "base @ api_routes b (join_path psegs) siw"
  let ?tms = "map (\<lambda>(t, m, h). (t, m)) ?routes"
  have "list_all (\<lambda>(t, m). match_template t ?path = None) (map (\<lambda>(t, m, h). (t, m)) base)"
    using assms(6) by (auto simp: list_all_iff)
  from find_route_skip [OF this, of 0 "map (\<lambda>(ts, m). (join_path psegs @ join_path ts, m)) api_segs" "rq_Method r"]
  have find: "find_route 0 ?tms (rq_Method r) ?path = find_segs (length base) api_segs (rq_Method r) ds"
    using find_route_segs [OF assms(2) api_segs_ok assms(5), of "length base" "rq_Method r"]
    by (simp add: api_templates del: join_path_simps)
  have shift: "find_segs (length base) routes m ds = map_option (\<lambda>(i, v). (length base + i, v)) (find_segs 0 routes m ds)"
    for routes m
  proof -
    have "find_segs (k + n) routes m ds = map_option (\<lambda>(i, v). (k + i, v)) (find_segs n routes m ds)" for k n
    proof (induction routes arbitrary: n)
      case (Cons r routes)
      then show ?case using Cons.IH [of "Suc n"] by (cases r) (auto split: option.split)
    qed simp
    from this [of "length base" 0] show ?thesis by simp
  qed
  have law: "case find_route 0 ?tms (rq_Method r) ?path of
      Some (i, vars) \<Rightarrow> router ?tms (rq_Method r) ?path = MuxRoute i vars
    | None \<Rightarrow> (\<exists>f. router ?tms (rq_Method r) ?path = MuxReply f \<and> no_route_reply (path_known ?tms ?path) f)"
    using assms(1,4) unfolding mux_lawful_def by blast
  have len: "length (api_routes b (join_path psegs) siw) = 11" by (simp add: api_routes_def)
  have "path_known (map (\<lambda>(ts, m). (join_path psegs @ join_path ts, m)) routes) ?path =
      list_ex (\<lambda>(ts, m). match_segs ts ds \<noteq> None) routes"
    if "list_all (\<lambda>(ts, m). list_all (\<lambda>s. CHR ''/'' \<notin> set s) ts) routes" for routes :: "(string list \<times> string option) list"
    using that match_template_segs [OF assms(2) _ assms(5)]
    by (induction routes) (auto simp: path_known_def)
  from this [OF api_segs_ok] have "path_known (map (\<lambda>(t, m, h). (t, m)) (api_routes b (join_path psegs) siw)) ?path =
      list_ex (\<lambda>(ts, m). match_segs ts ds \<noteq> None) api_segs"
    by (simp only: api_templates)
  moreover have "\<not> path_known (map (\<lambda>(t, m, h). (t, m)) base) ?path"
    using assms(6) by (auto simp: path_known_def list_ex_iff list_all_iff)
  ultimately have known: "path_known ?tms ?path = list_ex (\<lambda>(ts, m). match_segs ts ds \<noteq> None) api_segs"
    by (simp add: path_known_def)
  show ?thesis
  proof (cases "find_segs 0 api_segs (rq_Method r) ds")
    case None
    with law show ?thesis unfolding known find shift by (auto simp: serve_mux_def assms(3))
  next
    case (Some a)
    obtain i vars where "a = (i, vars)" by (cases a)
    with Some law len show ?thesis unfolding find shift
      by (auto simp: serve_mux_def assms(3) nth_append)
  qed
qed

end
