(* ===== verification/Deployment.thy ===== *)
theory Deployment
  imports Routing
begin

text \<open>
  Client and server together: the handler that \<^verbatim>\<open>Run\<close> builds, behind an HTTP connection, as the
  transport of a client made with \<^verbatim>\<open>NewClientWithResponses\<close>. The main lemma says that every request
  for addressable names is answered by the handler of its own operation with the client's own
  arguments; two others say which requests go elsewhere.
\<close>

section \<open>The connection\<close>

text \<open>\<^verbatim>\<open>net/http\<close> on both sides: the status is 200 when none was written, the type of a body without
  a content type is guessed from the body (\<open>sniff\<close>), a response to \<^verbatim>\<open>HEAD\<close> has no body, and the connection of
  a handler that panics is closed without a response. Every request has a connection of its own (on a
  reused one the client would send some requests again).\<close>

fun part_text :: "(gval \<Rightarrow> string) \<Rightarrow> body_part \<Rightarrow> string" where
  "part_text enc (WText s) = s"
| "part_text enc (WJson v) = json_enc enc v"

definition body_text :: "(gval \<Rightarrow> string) \<Rightarrow> writer \<Rightarrow> string" where
  "body_text enc w = concat (map (part_text enc) (wr_Body w))"

definition http_answer :: "(string \<Rightarrow> string) \<Rightarrow> (gval \<Rightarrow> string) \<Rightarrow> string \<Rightarrow> writer \<Rightarrow> http_response" where
  "http_answer sniff enc meth w =
     \<lparr>hr_StatusCode = final_status w,
      hr_ContentType =
        (case wr_ContentType w of
           Some ct \<Rightarrow> ct
         | None \<Rightarrow> (if body_text enc w = [] then [] else sniff (body_text enc w))),
      hr_Body = Inr (if meth = ''HEAD'' then [] else body_text enc w)\<rparr>"

definition answer :: "(string \<Rightarrow> string) \<Rightarrow> (gval \<Rightarrow> string) \<Rightarrow> string \<Rightarrow> ('s, writer) prog \<Rightarrow>
    ('s, goerr + http_response) prog" where
  "answer sniff enc meth m s =
     (case m s of
        (Returns w, t) \<Rightarrow> (Returns (Inr (http_answer sniff enc meth w)), t)
      | (Panics msg, t) \<Rightarrow> (Returns (Inl (PlainError ''EOF'')), t))"

definition over_http :: "(string \<Rightarrow> string) \<Rightarrow> (gval \<Rightarrow> string) \<Rightarrow> 's http_handler \<Rightarrow> 's doer" where
  "over_http sniff enc handler req = answer sniff enc (rq_Method req) (handler fresh_writer req)"

text \<open>The methods of the requests.\<close>

fun request_method :: "api_request \<Rightarrow> string" where
  "request_method (ReqCreateItem be ent body) = ''POST''"
| "request_method (ReqBulkUpdate be ent body) = ''POST''"
| "request_method (ReqDeleteItemById be ent oid) = ''DELETE''"
| "request_method (ReqExistsItemById be ent oid) = ''HEAD''"
| "request_method (ReqUpdateItemById be ent oid body) = ''PUT''"
| "request_method req = ''GET''"

section \<open>A deployment\<close>

text \<open>The metrics have a path apart from the API.\<close>

definition telemetry_apart :: "string \<Rightarrow> string list \<Rightarrow> bool" where
  "telemetry_apart path psegs \<longleftrightarrow>
     (case split_on (CHR ''/'') path of
        a # x # xs \<Rightarrow> a = [] \<and> template_var x = None \<and> psegs \<noteq> [] \<and> x \<noteq> hd psegs
      | _ \<Rightarrow> False)"

text \<open>
  A server behind an address: its prefix is the path of the address, its configuration is complete
  (as \<^verbatim>\<open>CheckAndNormalize\<close> leaves it), the imported code does what it documents, and the logging,
  metrics and CORS handlers around the API pass its answers through (a client outside of a browser
  sends no \<^verbatim>\<open>Origin\<close>).
\<close>

definition deployed :: "('d, 'c) worlds http_imports \<Rightarrow> style_param \<Rightarrow> ('d, 'c) restServer \<Rightarrow>
    string \<Rightarrow> string \<Rightarrow> string list \<Rightarrow> bool" where
  "deployed im style rs scheme host psegs \<longleftrightarrow>
     wire_ok style scheme host psegs \<and> psegs \<noteq> [] \<and>
     binder_lawful (hi_Binder im) \<and> mux_lawful (hi_Router im) \<and>
     hi_Logging im = (\<lambda>h. h) \<and> (\<forall>p q. hi_Interceptor im p q = (\<lambda>h. h)) \<and> (\<forall>c. hi_Cors im c = (\<lambda>h. h)) \<and>
     srv_APIPrefix (cfg_Server (sv_cfg rs)) = join_path psegs \<and>
     srv_Cors (cfg_Server (sv_cfg rs)) \<noteq> None \<and>
     (case srv_Telemetry (cfg_Server (sv_cfg rs)) of
        None \<Rightarrow> False
      | Some t \<Rightarrow> tel_Enabled t \<longrightarrow> telemetry_apart (tel_Path t) psegs)"

text \<open>The handler of the API and the client for it.\<close>

definition deployed_wrapper :: "('d, 'c) worlds http_imports \<Rightarrow> ('d, 'c) restServer \<Rightarrow> ('d, 'c) worlds ServerInterfaceWrapper" where
  "deployed_wrapper im rs =
     (case srv_Telemetry (cfg_Server (sv_cfg rs)) of
        Some t \<Rightarrow>
          \<lparr>siw_Handler = rest_handlers (hi_Version im) rs,
           siw_HandlerMiddlewares = hi_Logging im #
             (let prefix = srv_APIPrefix (cfg_Server (sv_cfg rs))
              in if tel_Enabled t then [hi_Interceptor im (metrics_filter prefix) (metrics_callback prefix)] else []),
           siw_ErrorHandlerFunc = default_error_handler (sv_my rs)\<rparr>
      | None \<Rightarrow>
          \<lparr>siw_Handler = rest_handlers (hi_Version im) rs, siw_HandlerMiddlewares = [],
           siw_ErrorHandlerFunc = default_error_handler (sv_my rs)\<rparr>)"

definition deployed_client :: "'s doer \<Rightarrow> (string \<Rightarrow> string) \<Rightarrow> (gval \<Rightarrow> string) \<Rightarrow> 's http_handler \<Rightarrow>
    string \<Rightarrow> string \<Rightarrow> string list \<Rightarrow> goerr + 's Client" where
  "deployed_client default_doer sniff enc handler scheme host psegs =
     NewClientWithResponses default_doer (scheme @ ''://'' @ host @ join_path psegs)
       [WithHTTPClient (over_http sniff enc handler)]"

text \<open>The client adds the slash that the address needs.\<close>

lemma deployed_client_Inr:
  assumes "prefix_ok psegs" "psegs \<noteq> []"
  shows "deployed_client default_doer sniff enc h scheme host psegs =
    Inr \<lparr>c_Server = server_url scheme host psegs, c_Client = Some (over_http sniff enc h), c_RequestEditors = []\<rparr>"
proof -
  obtain ps p where ps: "psegs = ps @ [p]" using assms(2) by (cases psegs rule: rev_cases) auto
  have "p \<noteq> []" "CHR ''/'' \<notin> set p"
    using assms(1) prefix_no_slash [OF assms(1)] ps by (simp_all add: prefix_ok_def)
  then have p: "p \<noteq> []" "last p \<noteq> CHR ''/''" using last_in_set [of p] by metis+
  then have "last (scheme @ ''://'' @ host @ join_path psegs) \<noteq> CHR ''/''" using ps by simp
  then show ?thesis
    by (simp add: deployed_client_def NewClientWithResponses_def NewClient_def WithHTTPClient_def
        server_url_def query_suffix_def Let_def)
qed

section \<open>From the client to the handler\<close>

lemma match_template_at:
  assumes "prefix_ok psegs" "list_all (\<lambda>s. CHR ''/'' \<notin> set s) ds"
  shows "match_template t (join_path (psegs @ ds)) = match_segs (split_on (CHR ''/'') t) ([] # psegs @ ds)"
proof -
  have "\<forall>s \<in> set (psegs @ ds). CHR ''/'' \<notin> set s"
    using prefix_no_slash [OF assms(1)] assms(2) by (auto simp: list_all_iff)
  then have "split_on (CHR ''/'') (join_path (psegs @ ds)) = [] # psegs @ ds"
    using split_join_path [of "[]" "psegs @ ds"] by (simp del: join_path_simps)
  then show ?thesis by (simp add: match_template_def del: join_path_simps)
qed

lemma match_none_telemetry:
  assumes "telemetry_apart path psegs" "prefix_ok psegs" "list_all (\<lambda>s. CHR ''/'' \<notin> set s) ds"
  shows "match_template path (join_path (psegs @ ds)) = None"
  unfolding match_template_at [OF assms(2,3)] using assms(1)
  by (cases psegs) (auto simp: telemetry_apart_def split: list.splits)

lemma match_none_own:
  assumes "prefix_ok psegs" "psegs \<noteq> []" "list_all (\<lambda>s. CHR ''/'' \<notin> set s) ds"
    and "2 \<le> length ds \<or> ds = [''backends''] \<or> ds = [''version'']"
  shows "match_template ''/spec/openapi.v1.json'' (join_path (psegs @ ds)) = None"
    and "match_template ''/health'' (join_path (psegs @ ds)) = None"
proof -
  obtain p ps where ps: "psegs = p # ps" using assms(2) by (cases psegs) auto
  obtain d ds' where ds: "ds = d # ds'" using assms(4) by (cases ds) auto
  have vars: "template_var ''spec'' = None" "template_var ''openapi.v1.json'' = None" "template_var ''health'' = None"
    by (simp_all add: template_var_def)
  show "match_template ''/spec/openapi.v1.json'' (join_path (psegs @ ds)) = None"
    unfolding match_template_at [OF assms(1,3)] using assms(4)
    by (cases ps; cases "tl ps"; cases ds') (auto simp: ps ds vars neq_Nil_conv)
  show "match_template ''/health'' (join_path (psegs @ ds)) = None"
    unfolding match_template_at [OF assms(1,3)] by (cases ps) (simp_all add: ps ds vars)
qed

lemma Run_handler_deployed:
  assumes "deployed im style rs scheme host psegs"
  obtains t where "Run_handler im rs = Returns (serve_mux (hi_Router im)
      (base_routes im t @ api_routes (hi_Binder im) (join_path psegs) (deployed_wrapper im rs)))"
    and "tel_Enabled t \<Longrightarrow> telemetry_apart (tel_Path t) psegs"
proof -
  obtain t where t: "srv_Telemetry (cfg_Server (sv_cfg rs)) = Some t"
    and apart: "tel_Enabled t \<Longrightarrow> telemetry_apart (tel_Path t) psegs"
    using assms by (auto simp: deployed_def split: option.splits)
  obtain cs where cs: "srv_Cors (cfg_Server (sv_cfg rs)) = Some cs" using assms by (auto simp: deployed_def)
  have "hi_Cors im cs = (\<lambda>h. h)" "srv_APIPrefix (cfg_Server (sv_cfg rs)) = join_path psegs"
    using assms by (auto simp: deployed_def)
  then have "Run_handler im rs = Returns (serve_mux (hi_Router im)
      (base_routes im t @ api_routes (hi_Binder im) (join_path psegs) (deployed_wrapper im rs)))"
    by (simp add: Run_handler_def t cs HandlerWithOptions_def deployed_wrapper_def Let_def)
  from that [OF this apart] show thesis .
qed

lemma Run_handler_Returns: "deployed im style rs scheme host psegs \<Longrightarrow> \<exists>h. Run_handler im rs = Returns h"
  by (metis Run_handler_deployed)

lemma base_routes_apart:
  assumes "prefix_ok psegs" "psegs \<noteq> []" "tel_Enabled t \<Longrightarrow> telemetry_apart (tel_Path t) psegs"
    and "list_all (\<lambda>s. CHR ''/'' \<notin> set s) ds" "2 \<le> length ds \<or> ds = [''backends''] \<or> ds = [''version'']"
  shows "list_all (\<lambda>(t, m, h). match_template t (join_path (psegs @ ds)) = None) (base_routes im t)"
  using match_none_own [OF assms(1,2,4,5)] match_none_telemetry [OF assms(3) assms(1,4)]
  by (simp add: base_routes_def del: join_path_simps)

lemma request_path_segs:
  assumes "prefix_ok psegs" "list_all2 (\<lambda>s d. PathUnescape s = Some d) segs ds"
  shows "request_path (wire_request meth scheme host (psegs @ segs) query ct body) = join_path (psegs @ ds)"
proof -
  have "list_all2 (\<lambda>s d. PathUnescape s = Some d) psegs psegs"
    using assms(1) by (auto simp: list_all2_same prefix_ok_def list_all_iff unescape_plain)
  with assms(2) have "list_all2 (\<lambda>s d. PathUnescape s = Some d) (psegs @ segs) (psegs @ ds)"
    by (rule list_all2_appendI [rotated])
  from PathUnescape_join_path [OF this] show ?thesis
    by (simp add: request_path_def wire_request_def absolute_url_def del: join_path_simps)
qed

text \<open>A request with given path segments: the API's routes decide.\<close>

lemma delivered:
  assumes dep: "deployed im style rs scheme host psegs" and h: "Run_handler im rs = Returns h"
    and path: "request_path (wire_request meth scheme host (psegs @ segs) query ct body) = join_path (psegs @ ds)"
    and ds: "list_all (\<lambda>s. CHR ''/'' \<notin> set s) ds" "2 \<le> length ds \<or> ds = [''backends''] \<or> ds = [''version'']"
      "list_all (\<lambda>s. s \<noteq> [] \<and> s \<noteq> ''.'' \<and> s \<noteq> ''..'') (butlast ds)" "last ds \<noteq> ''.''" "last ds \<noteq> ''..''"
  shows "case find_segs 0 api_segs meth ds of
      Some (i, vars) \<Rightarrow> i < 11 \<longrightarrow>
        over_http sniff enc h (wire_request meth scheme host (psegs @ segs) query ct body) =
          answer sniff enc meth (snd (snd (api_routes (hi_Binder im) (join_path psegs) (deployed_wrapper im rs) ! i)) vars
            fresh_writer (wire_request meth scheme host (psegs @ segs) query ct body))
    | None \<Rightarrow> \<exists>f. no_route_reply (list_ex (\<lambda>(ts, m). match_segs ts ds \<noteq> None) api_segs) f \<and>
        over_http sniff enc h (wire_request meth scheme host (psegs @ segs) query ct body) =
          answer sniff enc meth (preturn (f fresh_writer))"
proof -
  let ?r = "wire_request meth scheme host (psegs @ segs) query ct body"
  obtain t where run: "Run_handler im rs = Returns (serve_mux (hi_Router im)
      (base_routes im t @ api_routes (hi_Binder im) (join_path psegs) (deployed_wrapper im rs)))"
    and apart: "tel_Enabled t \<Longrightarrow> telemetry_apart (tel_Path t) psegs"
    using Run_handler_deployed [OF dep] by blast
  have pre: "prefix_ok psegs" "psegs \<noteq> []" and mux: "mux_lawful (hi_Router im)"
    using dep by (auto simp: deployed_def wire_ok_def address_ok_def)
  have "ds \<noteq> []" using ds(2) by auto
  then have clean: "clean_path (join_path (psegs @ ds))" using ds by (intro clean_join_path [OF pre(1)])
  have meth: "rq_Method ?r = meth" by (simp add: wire_request_def)
  have "h = serve_mux (hi_Router im)
      (base_routes im t @ api_routes (hi_Binder im) (join_path psegs) (deployed_wrapper im rs))"
    using h run by simp
  with serve_mux_api [OF mux pre(1) path clean ds(1)
      base_routes_apart [OF pre apart ds(1,2), of im],
      where b = "hi_Binder im" and siw = "deployed_wrapper im rs" and w = fresh_writer]
  show ?thesis unfolding over_http_def meth by (auto split: option.splits prod.splits)
qed

end
