(* ===== verification/Request_Delivery.thy ===== *)
theory Request_Delivery
  imports Deployment
begin

text \<open>
  Every operation of the generated client against the deployed server: the request that the client
  sends for addressable names is answered by the handler of the same operation, called with the
  client's own arguments.
\<close>

section \<open>Binding\<close>

lemma with_path_ok:
  "binder_lawful b \<Longrightarrow> map_of vars name = Some v \<Longrightarrow> v \<noteq> [] \<Longrightarrow> with_path b siw vars name k = k v"
  by (intro ext) (simp add: with_path_def binder_lawful_def)

definition sent :: "('a \<Rightarrow> styled_value) \<Rightarrow> 'a option \<Rightarrow> string list option" where
  "sent f x = (case x of None \<Rightarrow> None | Some v \<Rightarrow> Some (styled_values (f v)))"

lemma with_query_int:
  assumes "binder_lawful b" "map_of (url_Query (rq_URL r)) name = sent SInt x" "\<And>i. x = Some i \<Longrightarrow> int_ok i"
  shows "with_query (bind_int b) siw name typ k w r = k x w r"
  using assms by (cases x) (simp_all add: with_query_def binder_lawful_def sent_def)

lemma with_query_str:
  assumes "binder_lawful b" "map_of (url_Query (rq_URL r)) name = sent SStr x"
  shows "with_query (bind_str b) siw name typ k w r = k x w r"
  using assms by (cases x) (simp_all add: with_query_def binder_lawful_def sent_def)

text \<open>A list arrives as it is, except that an empty one arrives as one empty value.\<close>

lemma with_query_strs:
  assumes "binder_lawful b" "map_of (url_Query (rq_URL r)) name = sent SStrs x"
  shows "with_query (bind_strs b) siw name typ k w r = k (sent SStrs x) w r"
  using assms by (cases x) (simp_all add: with_query_def binder_lawful_def sent_def)

lemma sent_SStrs [simp]: "x \<noteq> Some [] \<Longrightarrow> sent SStrs x = x"
  by (simp add: sent_def split: option.split)

section \<open>The deployed wrapper\<close>

lemma deployed_wrapper_through:
  assumes "deployed im style rs scheme host psegs"
  shows "through_middlewares (deployed_wrapper im rs) h = h"
    and "siw_Handler (deployed_wrapper im rs) = rest_handlers (hi_Version im) rs"
proof -
  have "hi_Logging im = (\<lambda>h. h)" "\<And>p q. hi_Interceptor im p q = (\<lambda>h. h)"
    using assms by (simp_all add: deployed_def)
  then show "through_middlewares (deployed_wrapper im rs) h = h"
    "siw_Handler (deployed_wrapper im rs) = rest_handlers (hi_Version im) rs"
    by (simp_all add: through_middlewares_def deployed_wrapper_def Let_def split: option.split)
qed

section \<open>Operations\<close>

definition opt_int_ok :: "int option \<Rightarrow> bool" where
  "opt_int_ok x \<longleftrightarrow> (case x of None \<Rightarrow> True | Some i \<Rightarrow> int_ok i)"

text \<open>The requests that reach the handler of their operation. Two entities share their path with other
  operations: \<^verbatim>\<open>entities\<close> when it is listed, \<^verbatim>\<open>_query\<close> when an item is read.\<close>

fun routable :: "api_request \<Rightarrow> bool" where
  "routable ReqListBackends = True"
| "routable (ReqListEntities be) = name_ok be"
| "routable (ReqQueryNamed be name ps) =
     (name_ok be \<and> name_ok name \<and> opt_int_ok (qn_PageOffset ps) \<and> opt_int_ok (qn_PageSize ps) \<and> qn_Arg ps \<noteq> Some [])"
| "routable (ReqListItems be ent ps) =
     (name_ok be \<and> name_ok ent \<and> ent \<noteq> ''entities'' \<and> opt_int_ok (PageOffset ps) \<and> opt_int_ok (PageSize ps) \<and>
      Order ps \<noteq> Some [])"
| "routable (ReqCreateItem be ent body) = (name_ok be \<and> name_ok ent)"
| "routable (ReqBulkUpdate be ent body) = (name_ok be \<and> name_ok ent)"
| "routable (ReqDeleteItemById be ent oid) = (name_ok be \<and> name_ok ent \<and> name_ok oid)"
| "routable (ReqGetItemById be ent oid) = (name_ok be \<and> name_ok ent \<and> name_ok oid \<and> ent \<noteq> ''_query'')"
| "routable (ReqExistsItemById be ent oid) = (name_ok be \<and> name_ok ent \<and> name_ok oid)"
| "routable (ReqUpdateItemById be ent oid body) = (name_ok be \<and> name_ok ent \<and> name_ok oid)"

text \<open>What the client knows, and the address it uses.\<close>

definition client_of :: "'s doer \<Rightarrow> string \<Rightarrow> string \<Rightarrow> string list \<Rightarrow> 's Client" where
  "client_of doer scheme host psegs =
     \<lparr>c_Server = server_url scheme host psegs, c_Client = Some doer, c_RequestEditors = []\<rparr>"

lemma client_of_do:
  "client_do (client_of doer scheme host psegs) [] (Inr req) = doer req"
  by (simp add: client_do_def applyEditors_def client_of_def plift_def fun_eq_iff pbind_def)

lemma client_of_Server [simp]: "c_Server (client_of doer scheme host psegs) = server_url scheme host psegs"
  by (simp add: client_of_def)

lemma wire_request_ContentType:
  "(wire_request meth scheme host segs query ct body)\<lparr>rq_ContentType := ct'\<rparr> =
   wire_request meth scheme host segs query ct' body"
  by (simp add: wire_request_def)

text \<open>A builder sets the content type once the request is there.\<close>

lemma rbind_body: "rbind m (\<lambda>u. rbind (f u) g) = rbind (rbind m f) g"
  by (cases m) simp_all

lemma request_body_wire:
  "request_body (wire_request meth scheme host segs query ct (Some (json_enc enc v))) = request_text enc v"
  by (simp add: request_body_def request_text_def wire_request_def)

section \<open>Delivery\<close>

definition serving :: "('d, 'c) worlds http_imports \<Rightarrow> style_param \<Rightarrow> ('d, 'c) restServer \<Rightarrow>
    string \<Rightarrow> string \<Rightarrow> string list \<Rightarrow> ('d, 'c) worlds http_handler \<Rightarrow> bool" where
  "serving im style rs scheme host psegs h \<longleftrightarrow>
     deployed im style rs scheme host psegs \<and> Run_handler im rs = Returns h"

lemma serving_facts:
  assumes "serving im style rs scheme host psegs h"
  shows "deployed im style rs scheme host psegs" "Run_handler im rs = Returns h"
    "wire_ok style scheme host psegs" "style_lawful style" "prefix_ok psegs" "binder_lawful (hi_Binder im)"
  using assms by (auto simp: serving_def deployed_def wire_ok_def address_ok_def)

lemma name_ok_literals [simp]:
  "name_ok ''backends''" "name_ok ''entities''" "name_ok ''_query''" "name_ok ''bulk''" "name_ok ''version''"
  by (simp_all add: name_ok_def)

lemma PathUnescape_literals [simp]:
  "PathUnescape ''backends'' = Some ''backends''" "PathUnescape ''entities'' = Some ''entities''"
  "PathUnescape ''_query'' = Some ''_query''" "PathUnescape ''bulk'' = Some ''bulk''"
  "PathUnescape ''version'' = Some ''version''"
  by (simp_all add: unescape_plain unreserved_def)

lemma delivered_route:
  assumes sv: "serving im style rs scheme host psegs h"
    and segs: "list_all2 (\<lambda>s d. PathUnescape s = Some d) segs ds"
    and ds: "list_all name_ok ds" "2 \<le> length ds \<or> ds = [''backends''] \<or> ds = [''version'']"
    and find: "find_segs 0 api_segs meth ds = Some (i, vars)" "i < 11"
  shows "over_http sniff enc h (wire_request meth scheme host (psegs @ segs) query ct body) =
    answer sniff enc meth (snd (snd (api_routes (hi_Binder im) (join_path psegs) (deployed_wrapper im rs) ! i)) vars
      fresh_writer (wire_request meth scheme host (psegs @ segs) query ct body))"
proof -
  have "ds \<noteq> []" using ds(2) by auto
  with ds(1) have "name_ok (last ds)" by (simp add: list_all_iff)
  moreover have "list_all (\<lambda>s. CHR ''/'' \<notin> set s) ds" "list_all (\<lambda>s. s \<noteq> [] \<and> s \<noteq> ''.'' \<and> s \<noteq> ''..'') (butlast ds)"
    using ds(1) by (auto simp: list_all_iff name_ok_def dest: in_set_butlastD)
  ultimately show ?thesis
    using delivered [OF serving_facts(1,2) [OF sv] request_path_segs [OF serving_facts(5) [OF sv] segs] _ ds(2),
        where meth = meth and sniff = sniff and enc = enc and query = query and ct = ct and body = body] find
    by (simp add: name_ok_def)
qed

text \<open>The requests on one item.\<close>

lemma item_segs:
  assumes "style_lawful style"
  shows "list_all2 (\<lambda>s d. PathUnescape s = Some d) [esc style n1 be, esc style n2 ent] [be, ent]"
    and "list_all2 (\<lambda>s d. PathUnescape s = Some d) [esc style n1 be, esc style n2 ent, esc style n3 oid] [be, ent, oid]"
  using path_param_ok(2) [OF assms] by simp_all

lemma item_request:
  assumes sv: "serving im style rs scheme host psegs h" and names: "name_ok be" "name_ok ent" "name_ok oid"
  shows "rbind (item_url style (server_url scheme host psegs) be ent oid)
      (\<lambda>u. http_NewRequest meth (url_String u) body) =
    Inr (wire_request meth scheme host
      (psegs @ [esc style ''backend'' be, esc style ''entity'' ent, esc style ''id'' oid]) [] None body)"
  by (rule build_item [OF serving_facts(3) [OF sv] names(1,2) name_ok_esc [OF serving_facts(4) [OF sv] names(3)]])

lemma item_route:
  assumes "name_ok be" "name_ok ent" "name_ok oid"
  shows "ent \<noteq> ''_query'' \<Longrightarrow> find_segs 0 api_segs ''GET'' [be, ent, oid] =
      Some (7, [(''backend'', be), (''entity'', ent), (''id'', oid)])"
    and "find_segs 0 api_segs ''DELETE'' [be, ent, oid] = Some (6, [(''backend'', be), (''entity'', ent), (''id'', oid)])"
    and "find_segs 0 api_segs ''HEAD'' [be, ent, oid] = Some (8, [(''backend'', be), (''entity'', ent), (''id'', oid)])"
    and "find_segs 0 api_segs ''PUT'' [be, ent, oid] = Some (9, [(''backend'', be), (''entity'', ent), (''id'', oid)])"
  using assms by (auto simp: api_segs_def name_ok_def)

lemma deliver_Get:
  assumes sv: "serving im style rs scheme host psegs h" and rt: "routable (ReqGetItemById be ent oid)"
  shows "Client_GetItemById style (client_of (over_http sniff enc h) scheme host psegs) be ent oid [] =
    answer sniff enc ''GET'' (srv_GetItemById rs be ent oid fresh_writer)"
proof -
  have names: "name_ok be" "name_ok ent" "name_ok oid" using rt by simp_all
  show ?thesis
    unfolding Client_GetItemById_def NewGetItemByIdRequest_def client_of_Server item_request [OF sv names]
      client_of_do
    using delivered_route [OF sv item_segs(2) [OF serving_facts(4) [OF sv]] _ _ item_route(1) [OF names]] rt names
    by (simp add: siw_GetItemById_def with_path_ok [OF serving_facts(6) [OF sv]]
        deployed_wrapper_through [OF serving_facts(1) [OF sv]] api_routes_def rest_handlers_def name_ok_def del: join_path_simps)
qed

lemma deliver_Delete:
  assumes sv: "serving im style rs scheme host psegs h" and rt: "routable (ReqDeleteItemById be ent oid)"
  shows "Client_DeleteItemById style (client_of (over_http sniff enc h) scheme host psegs) be ent oid [] =
    answer sniff enc ''DELETE'' (srv_DeleteItemById rs be ent oid fresh_writer)"
proof -
  have names: "name_ok be" "name_ok ent" "name_ok oid" using rt by simp_all
  show ?thesis
    unfolding Client_DeleteItemById_def NewDeleteItemByIdRequest_def client_of_Server item_request [OF sv names]
      client_of_do
    using delivered_route [OF sv item_segs(2) [OF serving_facts(4) [OF sv]] _ _ item_route(2) [OF names]] names
    by (simp add: siw_DeleteItemById_def with_path_ok [OF serving_facts(6) [OF sv]]
        deployed_wrapper_through [OF serving_facts(1) [OF sv]] api_routes_def rest_handlers_def name_ok_def del: join_path_simps)
qed

lemma deliver_Exists:
  assumes sv: "serving im style rs scheme host psegs h" and rt: "routable (ReqExistsItemById be ent oid)"
  shows "Client_ExistsItemById style (client_of (over_http sniff enc h) scheme host psegs) be ent oid [] =
    answer sniff enc ''HEAD'' (srv_ExistsItemById rs be ent oid fresh_writer)"
proof -
  have names: "name_ok be" "name_ok ent" "name_ok oid" using rt by simp_all
  show ?thesis
    unfolding Client_ExistsItemById_def NewExistsItemByIdRequest_def client_of_Server item_request [OF sv names]
      client_of_do
    using delivered_route [OF sv item_segs(2) [OF serving_facts(4) [OF sv]] _ _ item_route(3) [OF names]] names
    by (simp add: siw_ExistsItemById_def with_path_ok [OF serving_facts(6) [OF sv]]
        deployed_wrapper_through [OF serving_facts(1) [OF sv]] api_routes_def rest_handlers_def name_ok_def del: join_path_simps)
qed

lemma deliver_Update:
  assumes sv: "serving im style rs scheme host psegs h" and rt: "routable (ReqUpdateItemById be ent oid body)"
  shows "Client_UpdateItemById style enc (client_of (over_http sniff enc h) scheme host psegs) be ent oid body [] =
    answer sniff enc ''PUT'' (srv_UpdateItemById rs be ent oid (request_text enc (VMap body)) fresh_writer)"
proof -
  have names: "name_ok be" "name_ok ent" "name_ok oid" using rt by simp_all
  let ?req = "wire_request ''PUT'' scheme host (psegs @ [esc style ''backend'' be, esc style ''entity'' ent, esc style ''id'' oid])
    [] (Some ''application/json'') (Some (json_enc enc (VMap body)))"
  have req: "NewUpdateItemByIdRequest style enc (server_url scheme host psegs) be ent oid body = Inr ?req"
    using item_request [OF sv names, of "''PUT''" "Some (json_enc enc (VMap body))"]
    by (simp add: NewUpdateItemByIdRequest_def NewUpdateItemByIdRequestWithBody_def rbind_body wire_request_ContentType)
  show ?thesis
    unfolding Client_UpdateItemById_def client_of_Server req client_of_do
    using delivered_route [OF sv item_segs(2) [OF serving_facts(4) [OF sv]] _ _ item_route(4) [OF names]] names
    by (simp add: siw_UpdateItemById_def with_path_ok [OF serving_facts(6) [OF sv]] request_body_wire
        deployed_wrapper_through [OF serving_facts(1) [OF sv]] api_routes_def rest_handlers_def name_ok_def del: join_path_simps json_enc.simps)
qed

text \<open>The requests on an entity.\<close>

lemma entity_route:
  assumes "name_ok be" "name_ok ent"
  shows "ent \<noteq> ''entities'' \<Longrightarrow> find_segs 0 api_segs ''GET'' [be, ent] = Some (3, [(''backend'', be), (''entity'', ent)])"
    and "find_segs 0 api_segs ''POST'' [be, ent] = Some (4, [(''backend'', be), (''entity'', ent)])"
    and "find_segs 0 api_segs ''POST'' [be, ent, ''bulk''] = Some (5, [(''backend'', be), (''entity'', ent)])"
    and "find_segs 0 api_segs ''GET'' [be, ''entities''] = Some (1, [(''backend'', be)])"
    and "find_segs 0 api_segs ''GET'' [be, ''_query'', ent] = Some (2, [(''backend'', be), (''name'', ent)])"
  using assms by (auto simp: api_segs_def name_ok_def)

lemma deliver_Create:
  assumes sv: "serving im style rs scheme host psegs h" and rt: "routable (ReqCreateItem be ent body)"
  shows "Client_CreateItem style enc (client_of (over_http sniff enc h) scheme host psegs) be ent body [] =
    answer sniff enc ''POST'' (srv_CreateItem rs be ent (request_text enc (VMap body)) fresh_writer)"
proof -
  have names: "name_ok be" "name_ok ent" using rt by simp_all
  note st = serving_facts(4) [OF sv]
  let ?segs = "[esc style ''backend'' be, esc style ''entity'' ent]"
  let ?req = "wire_request ''POST'' scheme host (psegs @ ?segs) [] (Some ''application/json'') (Some (json_enc enc (VMap body)))"
  have "list_all seg_ok ?segs" using names by (simp add: name_ok_esc [OF st])
  from build_plain [OF serving_facts(3) [OF sv] this _ refl, of "''POST''" "Some (json_enc enc (VMap body))"]
  have req: "NewCreateItemRequest style enc (server_url scheme host psegs) be ent body = Inr ?req"
    by (simp add: NewCreateItemRequest_def NewCreateItemRequestWithBody_def rbind_body path_param_ok(1) [OF st]
        wire_request_ContentType)
  show ?thesis
    unfolding Client_CreateItem_def client_of_Server req client_of_do
    using delivered_route [OF sv item_segs(1) [OF st] _ _ entity_route(2) [OF names]] names
    by (simp add: siw_CreateItem_def with_path_ok [OF serving_facts(6) [OF sv]] request_body_wire
        deployed_wrapper_through [OF serving_facts(1) [OF sv]] api_routes_def rest_handlers_def name_ok_def del: join_path_simps json_enc.simps)
qed

lemma deliver_BulkUpdate:
  assumes sv: "serving im style rs scheme host psegs h" and rt: "routable (ReqBulkUpdate be ent body)"
  shows "Client_BulkUpdate style enc (client_of (over_http sniff enc h) scheme host psegs) be ent body [] =
    answer sniff enc ''POST'' (srv_BulkUpdate rs be ent (request_text enc (BulkUpdateRequest_json body)) fresh_writer)"
proof -
  have names: "name_ok be" "name_ok ent" using rt by simp_all
  note st = serving_facts(4) [OF sv]
  let ?segs = "[esc style ''backend'' be, esc style ''entity'' ent, ''bulk'']"
  let ?txt = "json_enc enc (BulkUpdateRequest_json body)"
  let ?req = "wire_request ''POST'' scheme host (psegs @ ?segs) [] (Some ''application/json'') (Some ?txt)"
  have "list_all seg_ok ?segs" using names by (simp add: name_ok_esc [OF st])
  from build_plain [OF serving_facts(3) [OF sv] this _ refl, of "''POST''" "Some ?txt"]
  have req: "NewBulkUpdateRequest style enc (server_url scheme host psegs) be ent body = Inr ?req"
    by (simp add: NewBulkUpdateRequest_def NewBulkUpdateRequestWithBody_def rbind_body path_param_ok(1) [OF st]
        wire_request_ContentType)
  have "list_all2 (\<lambda>s d. PathUnescape s = Some d) ?segs [be, ent, ''bulk'']"
    using path_param_ok(2) [OF st] by simp
  from delivered_route [OF sv this _ _ entity_route(3) [OF names]] show ?thesis
    unfolding Client_BulkUpdate_def client_of_Server req client_of_do using names
    by (simp add: siw_BulkUpdate_def with_path_ok [OF serving_facts(6) [OF sv]] request_body_wire
        deployed_wrapper_through [OF serving_facts(1) [OF sv]] api_routes_def rest_handlers_def name_ok_def
        del: join_path_simps json_enc.simps)
qed

lemma deliver_ListEntities:
  assumes sv: "serving im style rs scheme host psegs h" and rt: "routable (ReqListEntities be)"
  shows "Client_ListEntities style (client_of (over_http sniff enc h) scheme host psegs) be [] =
    answer sniff enc ''GET'' (srv_ListEntities rs be fresh_writer)"
proof -
  have names: "name_ok be" using rt by simp
  note st = serving_facts(4) [OF sv]
  let ?segs = "[esc style ''backend'' be, ''entities'']"
  have "list_all seg_ok ?segs" using names by (simp add: name_ok_esc [OF st])
  from build_plain [OF serving_facts(3) [OF sv] this _ refl, of "''GET''" None]
  have req: "NewListEntitiesRequest style (server_url scheme host psegs) be =
      Inr (wire_request ''GET'' scheme host (psegs @ ?segs) [] None None)"
    by (simp add: NewListEntitiesRequest_def path_param_ok(1) [OF st])
  have "list_all2 (\<lambda>s d. PathUnescape s = Some d) ?segs [be, ''entities'']"
    using path_param_ok(2) [OF st] by simp
  from delivered_route [OF sv this _ _ entity_route(4) [OF names names]] show ?thesis
    unfolding Client_ListEntities_def client_of_Server req client_of_do using names
    by (simp add: siw_ListEntities_def with_path_ok [OF serving_facts(6) [OF sv]]
        deployed_wrapper_through [OF serving_facts(1) [OF sv]] api_routes_def rest_handlers_def name_ok_def
        del: join_path_simps)
qed

lemma deliver_ListBackends:
  assumes sv: "serving im style rs scheme host psegs h"
  shows "Client_ListBackends (client_of (over_http sniff enc h) scheme host psegs) [] =
    answer sniff enc ''GET'' (srv_ListBackends rs fresh_writer)"
proof -
  from build_plain [OF serving_facts(3) [OF sv] _ _ refl, of "[''backends'']" "''GET''" None]
  have req: "NewListBackendsRequest (server_url scheme host psegs) =
      Inr (wire_request ''GET'' scheme host (psegs @ [''backends'']) [] None None)"
    by (simp add: NewListBackendsRequest_def)
  have "list_all2 (\<lambda>s d. PathUnescape s = Some d) [''backends''] [''backends'']" by simp
  moreover have "find_segs 0 api_segs ''GET'' [''backends''] = Some (0, [])" by (simp add: api_segs_def)
  ultimately show ?thesis
    unfolding Client_ListBackends_def client_of_Server req client_of_do
    using delivered_route [OF sv, of "[''backends'']" "[''backends'']" "''GET''" 0 "[]"]
    by (simp add: siw_ListBackends_def deployed_wrapper_through [OF serving_facts(1) [OF sv]] api_routes_def
        rest_handlers_def del: join_path_simps)
qed

lemma deliver_GetVersionInfo:
  assumes sv: "serving im style rs scheme host psegs h"
  shows "Client_GetVersionInfo (client_of (over_http sniff enc h) scheme host psegs) [] =
    answer sniff enc ''GET'' (srv_GetVersionInfo (hi_Version im) rs fresh_writer)"
proof -
  from build_plain [OF serving_facts(3) [OF sv] _ _ refl, of "[''version'']" "''GET''" None]
  have req: "NewGetVersionInfoRequest (server_url scheme host psegs) =
      Inr (wire_request ''GET'' scheme host (psegs @ [''version'']) [] None None)"
    by (simp add: NewGetVersionInfoRequest_def)
  have "list_all2 (\<lambda>s d. PathUnescape s = Some d) [''version''] [''version'']" by simp
  moreover have "find_segs 0 api_segs ''GET'' [''version''] = Some (10, [])" by (simp add: api_segs_def)
  ultimately show ?thesis
    unfolding Client_GetVersionInfo_def client_of_Server req client_of_do
    using delivered_route [OF sv, of "[''version'']" "[''version'']" "''GET''" 10 "[]"]
    by (simp add: siw_GetVersionInfo_def deployed_wrapper_through [OF serving_facts(1) [OF sv]] api_routes_def
        rest_handlers_def del: join_path_simps)
qed

text \<open>The listings: every query parameter arrives as it was given.\<close>

lemma wire_request_Query:
  "url_Query (rq_URL (wire_request meth scheme host segs query ct body)) =
   url_Query (absolute_url scheme host (join_path segs) query)"
  by (simp add: wire_request_def)

lemma listing_lookup:
  "map_of (add_pairs (spec_pairs (listing_spec ps)) []) ''page-offset'' = sent SInt (PageOffset ps)"
    "map_of (add_pairs (spec_pairs (listing_spec ps)) []) ''page-size'' = sent SInt (PageSize ps)"
    "map_of (add_pairs (spec_pairs (listing_spec ps)) []) ''order[]'' = sent SStrs (Order ps)"
    "map_of (add_pairs (spec_pairs (listing_spec ps)) []) ''filter'' = sent SStr (Filter ps)"
  by (auto simp: query_lookup listing_spec_def spec_pairs_def value_list_def sent_def split: option.splits)

lemma named_lookup:
  "map_of (add_pairs (spec_pairs (named_spec ps)) []) ''page-offset'' = sent SInt (qn_PageOffset ps)"
    "map_of (add_pairs (spec_pairs (named_spec ps)) []) ''page-size'' = sent SInt (qn_PageSize ps)"
    "map_of (add_pairs (spec_pairs (named_spec ps)) []) ''arg'' = sent SStrs (qn_Arg ps)"
  by (auto simp: query_lookup named_spec_def spec_pairs_def value_list_def sent_def split: option.splits)

lemma opt_int_okD: "opt_int_ok x \<Longrightarrow> x = Some i \<Longrightarrow> int_ok i"
  by (simp add: opt_int_ok_def)

lemma params_eta:
  "\<lparr>PageOffset = PageOffset p, PageSize = PageSize p, Order = Order p, Filter = Filter p\<rparr> = p"
  "\<lparr>qn_PageOffset = qn_PageOffset q, qn_PageSize = qn_PageSize q, qn_Arg = qn_Arg q\<rparr> = q"
  by simp_all

lemma bound_ListItems:
  assumes "deployed im style rs scheme host psegs" "binder_lawful (hi_Binder im)" "routable (ReqListItems be ent ps)"
    and "url_Query (rq_URL r) = add_pairs (spec_pairs (listing_spec ps)) []"
  shows "siw_ListItems (hi_Binder im) (deployed_wrapper im rs) [(''backend'', be), (''entity'', ent)] w r =
    srv_ListItems rs be ent ps w"
proof -
  have names: "be \<noteq> []" "ent \<noteq> []" and ord: "Order ps \<noteq> Some []"
    and ints: "opt_int_ok (PageOffset ps)" "opt_int_ok (PageSize ps)"
    using assms(3) by (simp_all add: name_ok_def)
  note look = listing_lookup [of ps, folded assms(4)]
  show ?thesis
    using names by (simp add: siw_ListItems_def with_path_ok [OF assms(2)]
        with_query_int [OF assms(2) look(1) opt_int_okD [OF ints(1)]]
        with_query_int [OF assms(2) look(2) opt_int_okD [OF ints(2)]]
        with_query_strs [OF assms(2) look(3)] sent_SStrs [OF ord] with_query_str [OF assms(2) look(4)]
        deployed_wrapper_through [OF assms(1)] rest_handlers_def params_eta)
qed

text \<open>The parameters of a named query as they arrive.\<close>

definition arrived :: "QueryNamedParams \<Rightarrow> QueryNamedParams" where
  "arrived ps = ps\<lparr>qn_Arg := sent SStrs (qn_Arg ps)\<rparr>"

lemma arrived_same: "qn_Arg ps \<noteq> Some [] \<Longrightarrow> arrived ps = ps"
  by (simp add: arrived_def)

lemma bound_QueryNamed:
  assumes "deployed im style rs scheme host psegs" "binder_lawful (hi_Binder im)" "name_ok be" "name_ok name"
    and "opt_int_ok (qn_PageOffset ps)" "opt_int_ok (qn_PageSize ps)"
    and "url_Query (rq_URL r) = add_pairs (spec_pairs (named_spec ps)) []"
  shows "siw_QueryNamed (hi_Binder im) (deployed_wrapper im rs) [(''backend'', be), (''name'', name)] w r =
    srv_QueryNamed rs be name (arrived ps) w"
proof -
  have names: "be \<noteq> []" "name \<noteq> []" using assms(3,4) by (simp_all add: name_ok_def)
  note look = named_lookup [of ps, folded assms(7)]
  have ps: "\<lparr>qn_PageOffset = qn_PageOffset ps, qn_PageSize = qn_PageSize ps, qn_Arg = sent SStrs (qn_Arg ps)\<rparr> = arrived ps"
    by (simp add: arrived_def)
  show ?thesis
    using names by (simp add: siw_QueryNamed_def with_path_ok [OF assms(2)]
        with_query_int [OF assms(2) look(1) opt_int_okD [OF assms(5)]]
        with_query_int [OF assms(2) look(2) opt_int_okD [OF assms(6)]]
        with_query_strs [OF assms(2) look(3)] deployed_wrapper_through [OF assms(1)] rest_handlers_def ps)
qed

lemma deliver_ListItems:
  assumes sv: "serving im style rs scheme host psegs h" and rt: "routable (ReqListItems be ent ps)"
  shows "Client_ListItems style (client_of (over_http sniff enc h) scheme host psegs) be ent (Some ps) [] =
    answer sniff enc ''GET'' (srv_ListItems rs be ent ps fresh_writer)"
proof -
  have names: "name_ok be" "name_ok ent" "ent \<noteq> ''entities''" "Order ps \<noteq> Some []" using rt by simp_all
  let ?segs = "[esc style ''backend'' be, esc style ''entity'' ent]"
  obtain query where req: "NewListItemsRequest style (server_url scheme host psegs) be ent (Some ps) =
      Inr (wire_request ''GET'' scheme host (psegs @ ?segs) query None None)"
    and q: "url_Query (absolute_url scheme host (join_path (psegs @ ?segs)) query) = add_pairs (spec_pairs (listing_spec ps)) []"
    using build_listing [OF serving_facts(3) [OF sv] names(1,2)] .
  let ?r = "wire_request ''GET'' scheme host (psegs @ ?segs) query None None"
  have "url_Query (rq_URL ?r) = add_pairs (spec_pairs (listing_spec ps)) []"
    using q by (simp add: wire_request_Query del: join_path_simps)
  note bound = bound_ListItems [OF serving_facts(1) [OF sv] serving_facts(6) [OF sv] rt this, of fresh_writer]
  show ?thesis
    unfolding Client_ListItems_def client_of_Server req client_of_do
    using delivered_route [OF sv item_segs(1) [OF serving_facts(4) [OF sv]] _ _ entity_route(1) [OF names(1,2,3)],
        where sniff = sniff and enc = enc and query = query and ct = None and body = None] names(1,2)
    by (simp add: bound api_routes_def del: join_path_simps)
qed

lemma deliver_QueryNamed:
  assumes sv: "serving im style rs scheme host psegs h" and names: "name_ok be" "name_ok name"
    and ints: "opt_int_ok (qn_PageOffset ps)" "opt_int_ok (qn_PageSize ps)"
  shows "Client_QueryNamed style (client_of (over_http sniff enc h) scheme host psegs) be name (Some ps) [] =
    answer sniff enc ''GET'' (srv_QueryNamed rs be name (arrived ps) fresh_writer)"
proof -
  let ?segs = "[esc style ''backend'' be, ''_query'', esc style ''name'' name]"
  obtain query where req: "NewQueryNamedRequest style (server_url scheme host psegs) be name (Some ps) =
      Inr (wire_request ''GET'' scheme host (psegs @ ?segs) query None None)"
    and q: "url_Query (absolute_url scheme host (join_path (psegs @ ?segs)) query) = add_pairs (spec_pairs (named_spec ps)) []"
    using build_named [OF serving_facts(3) [OF sv] names] .
  let ?r = "wire_request ''GET'' scheme host (psegs @ ?segs) query None None"
  have "url_Query (rq_URL ?r) = add_pairs (spec_pairs (named_spec ps)) []"
    using q by (simp add: wire_request_Query del: join_path_simps)
  note bound = bound_QueryNamed [OF serving_facts(1) [OF sv] serving_facts(6) [OF sv] names ints this, of fresh_writer]
  have "list_all2 (\<lambda>s d. PathUnescape s = Some d) ?segs [be, ''_query'', name]"
    using path_param_ok(2) [OF serving_facts(4) [OF sv]] by simp
  from delivered_route [OF sv this _ _ entity_route(5) [OF names],
      where sniff = sniff and enc = enc and query = query and ct = None and body = None] show ?thesis
    unfolding Client_QueryNamed_def client_of_Server req client_of_do using names
    by (simp add: bound api_routes_def del: join_path_simps)
qed

section \<open>All operations\<close>

lemma deliver:
  assumes "serving im style rs scheme host psegs h" and "routable req"
  shows "api_transport style enc (client_of (over_http sniff enc h) scheme host psegs) req =
    answer sniff enc (request_method req) (serve rs enc req)"
proof (cases req)
  case ReqListBackends
  then show ?thesis using assms by (simp add: deliver_ListBackends)
next
  case (ReqListEntities be)
  then show ?thesis using assms by (simp add: deliver_ListEntities)
next
  case (ReqQueryNamed be name ps)
  then show ?thesis using assms deliver_QueryNamed [of im style rs scheme host psegs h be name ps sniff enc]
    by (simp add: arrived_same)
next
  case (ReqListItems be ent ps)
  then show ?thesis using assms deliver_ListItems [of im style rs scheme host psegs h be ent ps sniff enc] by simp
next
  case (ReqCreateItem be ent body)
  then show ?thesis using assms deliver_Create [of im style rs scheme host psegs h be ent body enc sniff] by simp
next
  case (ReqBulkUpdate be ent body)
  then show ?thesis using assms deliver_BulkUpdate [of im style rs scheme host psegs h be ent body enc sniff] by simp
next
  case (ReqDeleteItemById be ent oid)
  then show ?thesis using assms deliver_Delete [of im style rs scheme host psegs h be ent oid sniff enc] by simp
next
  case (ReqGetItemById be ent oid)
  then show ?thesis using assms deliver_Get [of im style rs scheme host psegs h be ent oid sniff enc] by simp
next
  case (ReqExistsItemById be ent oid)
  then show ?thesis using assms deliver_Exists [of im style rs scheme host psegs h be ent oid sniff enc] by simp
next
  case (ReqUpdateItemById be ent oid body)
  then show ?thesis using assms deliver_Update [of im style rs scheme host psegs h be ent oid body enc sniff] by simp
qed

end
