(* ===== verification/Reference_Deployment.thy ===== *)
theory Reference_Deployment
  imports Request_Delivery Server_Properties
begin

text \<open>
  Implementations of the imported styling, binding and routing functions, with proofs that they obey
  the laws, and a small deployment over them: the assumptions on imported code can hold.
\<close>

section \<open>Styling\<close>

definition ref_pair :: "string \<Rightarrow> string \<Rightarrow> string" where
  "ref_pair name v = url_escape QueryComponent name @ CHR ''='' # url_escape QueryComponent v"

definition ref_style :: style_param where
  "ref_style kind explode name v location typ =
     (case location of
        ParamLocationPath \<Rightarrow>
          (case v of SStr s \<Rightarrow> Inr (PathEscape s) | _ \<Rightarrow> Inl (PlainError ''unsupported''))
      | ParamLocationQuery \<Rightarrow> Inr (join ''&'' (map (ref_pair name) (styled_values v))))"

definition query_char :: "char \<Rightarrow> bool" where
  "query_char c \<longleftrightarrow> unreserved c \<or> c = CHR ''%'' \<or> c = CHR ''+''"

lemma query_escape_chars: "list_all query_char (url_escape QueryComponent s)"
proof (induction s)
  case (Cons c s)
  have "list_all query_char (hex_escape c)"
    by (simp add: hex_escape_def query_char_def upper_hex_unreserved char_digits)
  then have "list_all query_char (esc_piece QueryComponent c)"
    by (auto simp: esc_piece_def query_char_def should_escape_def split: if_splits)
  with Cons show ?case by (simp add: url_escape_Cons)
qed (simp add: url_escape_def)

lemma query_char_props:
  "query_char c \<Longrightarrow> c \<noteq> CHR ''&'' \<and> c \<noteq> CHR ''='' \<and> c \<noteq> CHR '';'' \<and> c \<noteq> CHR ''#'' \<and> \<not> ctl_char c"
  by (auto simp: query_char_def unreserved_def ctl_char_def Let_def)

lemma query_escape_free:
  "CHR ''&'' \<notin> set (url_escape QueryComponent s)" "CHR ''='' \<notin> set (url_escape QueryComponent s)"
  "CHR '';'' \<notin> set (url_escape QueryComponent s)" "query_ok (url_escape QueryComponent s)"
  using query_escape_chars [of s] query_char_props by (auto simp: list_all_iff query_ok_def)

lemma ref_pair_facts:
  "query_pair (ref_pair name v) = Some (name, v)" "CHR ''&'' \<notin> set (ref_pair name v)" "query_ok (ref_pair name v)"
proof -
  show "query_pair (ref_pair name v) = Some (name, v)"
    using query_escape_free by (simp add: query_pair_def ref_pair_def cut_first QueryUnescape_escape)
  show "CHR ''&'' \<notin> set (ref_pair name v)" using query_escape_free by (simp add: ref_pair_def)
  show "query_ok (ref_pair name v)" using query_escape_free(4) by (simp add: ref_pair_def query_ok_def ctl_char_def)
qed

lemma ref_style_lawful: "style_lawful ref_style"
proof -
  have "query_ok (join ''&'' (map (ref_pair name) vs))" for name vs
    by (intro query_ok_join) (simp add: list_all_iff ref_pair_facts)
  moreover have "map query_pair (split_on (CHR ''&'') (join ''&'' (map (ref_pair name) vs))) = map (\<lambda>x. Some (name, x)) vs"
    if "vs \<noteq> []" for name vs
    using that by (subst split_join_pieces) (simp_all add: list_all_iff ref_pair_facts)
  ultimately show ?thesis by (auto simp: style_lawful_def ref_style_def seg_char_PathEscape)
qed

section \<open>Binding\<close>

definition ref_int :: "string \<Rightarrow> int option" where
  "ref_int s =
     (case s of
        [] \<Rightarrow> None
      | c # cs \<Rightarrow> (let i = (if c = CHR ''-'' then - int (undec cs) else int (undec s))
                  in if int_ok i then Some i else None))"

lemma ref_int_dec: "int_ok i \<Longrightarrow> ref_int (dec_int i) = Some i"
proof (cases "i < 0")
  case False
  assume "int_ok i"
  moreover obtain c cs where "dec_nat (nat i) = c # cs" by (cases "dec_nat (nat i)") auto
  moreover from this have "c \<noteq> CHR ''-''" using dec_nat_not_minus by blast
  moreover have "undec (c # cs) = nat i" using undec_dec_nat [of "nat i"] \<open>dec_nat (nat i) = c # cs\<close> by simp
  ultimately show ?thesis using False by (simp add: ref_int_def dec_int_def)
qed (simp add: ref_int_def dec_int_def)

definition bind_one :: "(string \<Rightarrow> 'a option) \<Rightarrow> string \<Rightarrow> url_values \<Rightarrow> bind_error + 'a option" where
  "bind_one f name q =
     (case map_of q name of
        None \<Rightarrow> Inr None
      | Some vs \<Rightarrow>
          (case vs of
             [s] \<Rightarrow> (case f s of None \<Rightarrow> Inl (BindError (PlainError ''invalid value'')) | Some x \<Rightarrow> Inr (Some x))
           | _ \<Rightarrow> Inl (BindError (PlainError ''multiple values''))))"

definition ref_binder :: param_binder where
  "ref_binder =
     \<lparr>bind_path = (\<lambda>kind name v. if v = [] then Inl (PlainError ''parameter is empty'') else Inr v),
      bind_int = (\<lambda>kind explode required name q typ. bind_one ref_int name q),
      bind_str = (\<lambda>kind explode required name q typ. bind_one Some name q),
      bind_strs = (\<lambda>kind explode required name q typ. Inr (map_of q name))\<rparr>"

lemma ref_binder_lawful: "binder_lawful ref_binder"
  by (simp add: binder_lawful_def ref_binder_def bind_one_def ref_int_dec)

section \<open>Routing\<close>

definition ref_router :: mux_router where
  "ref_router routes meth path =
     (case find_route 0 routes meth path of
        Some (i, vars) \<Rightarrow> MuxRoute i vars
      | None \<Rightarrow>
          MuxReply (if path_known routes path then WriteHeader 405
                    else http_Error ''404 page not found'' 404))"

lemma contains_json_plain: "\<not> contains_json ''text/plain; charset=utf-8''"
  by (simp add: contains_json_def list_ex_iff eval_nat_numeral less_Suc_eq)

lemma ref_router_lawful: "mux_lawful ref_router"
proof -
  have "no_route_reply True (WriteHeader 405)" by (simp add: no_route_reply_def WriteHeader_def fresh_writer_def)
  moreover have "no_route_reply False (http_Error ''404 page not found'' 404)"
    by (simp add: no_route_reply_def http_Error_def WriteBody_def WriteHeader_def SetContentType_def fresh_writer_def
        contains_json_plain)
  ultimately show ?thesis by (auto simp: mux_lawful_def ref_router_def split: option.split)
qed

section \<open>A deployment\<close>

definition ref_imports :: "'s http_imports" where
  "ref_imports = \<lparr>hi_Router = ref_router, hi_Binder = ref_binder, hi_Logging = (\<lambda>h. h), hi_Interceptor = (\<lambda>p q h. h),
     hi_Cors = (\<lambda>cfg h. h), hi_Spec = (\<lambda>w r. preturn w), hi_Metrics = (\<lambda>w r. preturn w), hi_Version = VMap []\<rparr>"

definition ref_server :: ServerConfig where
  "ref_server = \<lparr>srv_ListenAddress = '':22001'', srv_APIPrefix = ''/api/v1'',
     srv_Cors = Some \<lparr>cors_MaxAge = 0, cors_AllowedOrigins = []\<rparr>,
     srv_Telemetry = Some \<lparr>tel_Enabled = True, tel_Path = ''/metrics''\<rparr>\<rparr>"

text \<open>Values are sent as JSON text with a newline.\<close>

definition ref_sender :: sender where
  "ref_sender mapper p st w =
     (case p of
        PErr e \<Rightarrow> (case mapper w e of (w', handled) \<Rightarrow> if handled then w' else WriteHeader st w)
      | PVal v \<Rightarrow> WriteBody (WText [CHR 0x0A]) (WriteBody (WJson v) (WriteHeader st (SetContentType ''application/json'' w))))"

definition ref_rs :: "((string list \<times> string list), unit) restServer" where
  "ref_rs = \<lparr>sv_cfg = \<lparr>cfg_Server = ref_server, cfg_Backends = [(''main'', Some small_backend)], cfg_Logging = None\<rparr>,
     sv_crudMap = [(''main'', counting_impl)], sv_send = ref_sender, sv_my = (\<lambda>n msg. msg)\<rparr>"

definition ref_handler :: "((string list \<times> string list), unit) worlds http_handler" where
  "ref_handler = (case Run_handler ref_imports ref_rs of Returns h \<Rightarrow> h | Panics msg \<Rightarrow> (\<lambda>w r. preturn w))"

lemma ref_serving:
  "serving ref_imports ref_style ref_rs ''http'' ''localhost'' [''api'', ''v1''] ref_handler"
proof -
  have "scheme_ok ''http''"
    by (simp add: scheme_ok_def letter_def scheme_char_def is_digit_def to_lower_def to_lower_char_def)
  moreover have "authority_ok ''localhost''"
    by (simp add: authority_ok_def bad_authority_def ctl_char_def host_char_def unreserved_def)
  moreover have "prefix_ok [''api'', ''v1'']" by (simp add: prefix_ok_def unreserved_def)
  moreover have "telemetry_apart ''/metrics'' [''api'', ''v1'']" by (simp add: telemetry_apart_def template_var_def)
  ultimately have ok: "address_ok ''http'' ''localhost'' [''api'', ''v1'']" "telemetry_apart ''/metrics'' [''api'', ''v1'']"
    unfolding address_ok_def by blast+
  have fields: "cfg_Server (sv_cfg ref_rs) = ref_server" "hi_Router ref_imports = ref_router" "hi_Binder ref_imports = ref_binder"
    "hi_Logging ref_imports = (\<lambda>h. h)" "hi_Interceptor ref_imports = (\<lambda>p q h. h)" "hi_Cors ref_imports = (\<lambda>cfg h. h)"
    "srv_APIPrefix ref_server = join_path [''api'', ''v1'']" "srv_Cors ref_server \<noteq> None"
    "srv_Telemetry ref_server = Some \<lparr>tel_Enabled = True, tel_Path = ''/metrics''\<rparr>"
    by (simp_all add: ref_rs_def ref_imports_def ref_server_def)
  have dep: "deployed ref_imports ref_style ref_rs ''http'' ''localhost'' [''api'', ''v1'']"
    unfolding deployed_def wire_ok_def fields option.case TelemetryConfig.simps
    using ok ref_style_lawful ref_binder_lawful ref_router_lawful fields(8) by blast
  with Run_handler_Returns [OF dep] show ?thesis by (auto simp: serving_def ref_handler_def)
qed

end
