(* ===== verification/Main_Program.thy ===== *)
theory Main_Program
  imports Permissions Reference_Deployment
begin

text \<open>
  The program from \<^verbatim>\<open>main\<close> to its end: the backends are opened, requests are served one after the
  other, the server is closed. What a database is sent over that whole time.
\<close>

section \<open>Serving\<close>

text \<open>The end of \<^verbatim>\<open>Run\<close>: the handler is given to the imported HTTP server, which blocks until it is
  stopped.\<close>

definition Run_serve :: "('d, 'c) worlds http_imports \<Rightarrow>
    (('d, 'c) worlds http_handler \<Rightarrow> (('d, 'c) worlds, goerr option) prog) \<Rightarrow> ('d, 'c) restServer \<Rightarrow>
    (('d, 'c) worlds, goerr option) prog" where
  "Run_serve im RunUntil rs = pbind (plift (Run_handler im rs)) RunUntil"

text \<open>What is relied on of the HTTP server: between start and stop it changes the databases only by
  calling the handler, with one new response writer per request; a panic of the handler ends that
  request only.\<close>

inductive handled :: "'s http_handler \<Rightarrow> 's \<Rightarrow> 's \<Rightarrow> bool" for h where
  handled_none: "handled h s s"
| handled_request: "handled h s s' \<Longrightarrow> h fresh_writer req s' = (r, s'') \<Longrightarrow> handled h s s''"

definition http_server_lawful :: "('s http_handler \<Rightarrow> ('s, goerr option) prog) \<Rightarrow> bool" where
  "http_server_lawful RunUntil \<longleftrightarrow> (\<forall>h s. handled h s (snd (RunUntil h s)))"

lemma handled_keeps:
  assumes "handled h s s'" "reflp R" "transp R" "\<And>w r. keeps R (h w r)"
  shows "R s s'"
  using assms(1)
proof (induction rule: handled.induct)
  case (handled_request s s' req r s'')
  then have "R s' s''" using assms(4) by (metis keeps_def snd_conv)
  with handled_request.IH assms(3) show ?case by (meson transpE)
qed (use assms(2) in \<open>simp add: reflp_def\<close>)

section \<open>Opening\<close>

text \<open>The calls that open a backend: its pool settings, then its DDL statements in order.\<close>

definition opening_calls :: "'d BackendConfig \<Rightarrow> dbcall list" where
  "opening_calls be =
     concat (map (\<lambda>(what, v). case v of None \<Rightarrow> [] | Some n \<Rightarrow> [CSet what n])
       [(''MaxOpenConns'', be_MaxOpenConnections be), (''MaxIdleConns'', be_MaxIdleConnections be),
        (''ConnMaxLifetime'', be_ConnMaxLifetime be), (''ConnMaxIdleTime'', be_ConnMaxIdleTime be)]) @
     map (\<lambda>ddl. CExec ddl []) (be_InitDDLs be)"

lemma opening_calls_normalized [simp]: "opening_calls (normalize_backend be) = opening_calls be"
  by (simp add: opening_calls_def normalize_backend_def)

lemma permitted_normalized [simp]: "permitted (normalize_backend be) = permitted be"
proof
  fix ev
  show "permitted (normalize_backend be) ev = permitted be ev"
    by (cases ev; cases "be_Create be"; cases "be_Read be"; cases "be_Update be"; cases "be_Delete be")
      (simp_all add: normalize_backend_def statement_permitted_def)
qed

lemma set_pool_calls:
  "\<exists>w'. set_pool what v w = (Returns (), w') \<and>
     w_calls w' = w_calls w @ (case v of None \<Rightarrow> [] | Some n \<Rightarrow> [CSet what n])"
  by (cases v) (simp_all add: set_pool_def preturn_def db_call_def)

lemma run_ddls_calls:
  "\<exists>k r w'. run_ddls drv ddls w = (Returns r, w') \<and> k \<le> length ddls \<and> (r = None \<longrightarrow> k = length ddls) \<and>
     w_calls w' = w_calls w @ take k (map (\<lambda>ddl. CExec ddl []) ddls)"
proof (induction ddls arbitrary: w)
  case (Cons ddl ddls)
  obtain r d where ex: "drv_Exec drv ddl [] (w_db w) = (r, d)" by fastforce
  let ?w = "w\<lparr>w_db := d, w_calls := w_calls w @ [CExec ddl []]\<rparr>"
  show ?case
  proof (cases r)
    case (Inl e)
    with ex have "run_ddls drv (ddl # ddls) w = (Returns (Some e), ?w)"
      by (simp add: db_ExecContext_def on_db_def prog_simps preturn_def)
    then show ?thesis by (intro exI [of _ 1]) simp
  next
    case (Inr x)
    with ex have "run_ddls drv (ddl # ddls) w = run_ddls drv ddls ?w"
      by (simp add: db_ExecContext_def on_db_def prog_simps)
    moreover obtain k r' w' where "run_ddls drv ddls ?w = (Returns r', w')" "k \<le> length ddls"
      "r' = None \<longrightarrow> k = length ddls" "w_calls w' = w_calls ?w @ take k (map (\<lambda>ddl. CExec ddl []) ddls)"
      using Cons.IH [of ?w] by blast
    ultimately show ?thesis by (intro exI [of _ "Suc k"]) auto
  qed
qed (auto simp: preturn_def)

text \<open>Opening sends a prefix of those calls, all of them when it succeeds.\<close>

lemma Open_calls:
  assumes "Open sql_Open be w = (r, w')"
  shows "\<exists>k. w_calls w' = w_calls w @ take k (opening_calls be) \<and>
    (\<forall>be'. r = Returns (None, be') \<longrightarrow>
       take k (opening_calls be) = opening_calls be \<and> (\<exists>drv. be' = be\<lparr>be_db := Some drv\<rparr>))"
proof (cases "be_Driver be")
  case None
  with assms show ?thesis by (auto simp: Open_def prog_simps intro: exI [of _ 0])
next
  case (Some name)
  show ?thesis
  proof (cases "sql_Open name (be_DSN be)")
    case (Inl e)
    with assms Some show ?thesis by (auto simp: Open_def prog_simps preturn_def intro: exI [of _ 0])
  next
    case (Inr drv)
    obtain w1 where 1: "set_pool ''MaxOpenConns'' (be_MaxOpenConnections be) w = (Returns (), w1)"
      "w_calls w1 = w_calls w @ (case be_MaxOpenConnections be of None \<Rightarrow> [] | Some n \<Rightarrow> [CSet ''MaxOpenConns'' n])"
      using set_pool_calls by blast
    obtain w2 where 2: "set_pool ''MaxIdleConns'' (be_MaxIdleConnections be) w1 = (Returns (), w2)"
      "w_calls w2 = w_calls w1 @ (case be_MaxIdleConnections be of None \<Rightarrow> [] | Some n \<Rightarrow> [CSet ''MaxIdleConns'' n])"
      using set_pool_calls by blast
    obtain w3 where 3: "set_pool ''ConnMaxLifetime'' (be_ConnMaxLifetime be) w2 = (Returns (), w3)"
      "w_calls w3 = w_calls w2 @ (case be_ConnMaxLifetime be of None \<Rightarrow> [] | Some n \<Rightarrow> [CSet ''ConnMaxLifetime'' n])"
      using set_pool_calls by blast
    obtain w4 where 4: "set_pool ''ConnMaxIdleTime'' (be_ConnMaxIdleTime be) w3 = (Returns (), w4)"
      "w_calls w4 = w_calls w3 @ (case be_ConnMaxIdleTime be of None \<Rightarrow> [] | Some n \<Rightarrow> [CSet ''ConnMaxIdleTime'' n])"
      using set_pool_calls by blast
    define ddls where "ddls = map (\<lambda>ddl. CExec ddl []) (be_InitDDLs be)"
    define sets where "sets = take (length (opening_calls be) - length ddls) (opening_calls be)"
    have parts: "opening_calls be = sets @ ddls" and w4: "w_calls w4 = w_calls w @ sets"
      by (simp_all add: sets_def ddls_def opening_calls_def 1(2) 2(2) 3(2) 4(2))
    obtain k res w5 where 5: "run_ddls drv (be_InitDDLs be) w4 = (Returns res, w5)" "k \<le> length ddls"
      "res = None \<longrightarrow> k = length ddls" "w_calls w5 = w_calls w4 @ take k ddls"
      using run_ddls_calls [of drv "be_InitDDLs be" w4] unfolding ddls_def by auto
    have run: "Open sql_Open be w =
        (case res of Some err \<Rightarrow> (Returns (Some err, be), w5) | None \<Rightarrow> (Returns (None, be\<lparr>be_db := Some drv\<rparr>), w5))"
      using Some Inr 1(1) 2(1) 3(1) 4(1) 5(1)
      by (simp add: Open_def prog_simps preturn_def split: option.split)
    show ?thesis
      using assms 5 w4 unfolding run parts
      by (intro exI [of _ "length sets + k"]) (auto split: option.splits)
  qed
qed

lemma in_backend_calls:
  assumes "in_backend k m ws = (r, ws')"
  shows "m (ws k) = (r, ws' k)" "n \<noteq> k \<Longrightarrow> ws' n = ws n"
  using assms by (auto simp: in_backend_def split: prod.splits)

text \<open>One step of the loop over the backends: it panics on a nil backend, stops at an error, or goes on.\<close>

lemma open_backends_ConsE:
  assumes "open_backends sql_Open cache ((k, b) # bes) m ws = (r, ws')"
  obtains (nil_backend) "b = None" "ws' = ws" "\<And>bes' m'. r \<noteq> Returns (None, bes', m')"
  | (stopped) be r1 where "b = Some be" "in_backend k (Open sql_Open be) ws = (r1, ws')"
      "\<And>bes' m'. r \<noteq> Returns (None, bes', m')"
  | (opened) be b' ws1 r2 where "b = Some be" "in_backend k (Open sql_Open be) ws = (Returns (None, b'), ws1)"
      "open_backends sql_Open cache bes (m @ [(k, crud_New cache b')]) ws1 = (r2, ws')"
      "\<And>bes' m'. r = Returns (None, bes', m') \<Longrightarrow> \<exists>bes2. r2 = Returns (None, bes2, m')"
proof (cases b)
  case None
  with assms show thesis by (intro nil_backend) (auto simp: prog_simps)
next
  case (Some be)
  obtain r1 ws1 where 1: "in_backend k (Open sql_Open be) ws = (r1, ws1)" by fastforce
  show thesis
  proof (cases "\<exists>b'. r1 = Returns (None, b')")
    case True
    then obtain b' where r1: "r1 = Returns (None, b')" by blast
    obtain r2 ws2 where 2: "open_backends sql_Open cache bes (m @ [(k, crud_New cache b')]) ws1 = (r2, ws2)" by fastforce
    have "ws' = ws2" "\<And>bes' m'. r = Returns (None, bes', m') \<Longrightarrow> \<exists>bes2. r2 = Returns (None, bes2, m')"
      using assms Some 1 r1 2 by (cases r2; auto simp: prog_simps preturn_def split: prod.splits)+
    with Some 1 r1 2 show thesis by (intro opened) auto
  next
    case False
    with assms Some 1 have "ws' = ws1" "\<And>bes' m'. r \<noteq> Returns (None, bes', m')"
      by (cases r1; auto simp: prog_simps preturn_def split: if_splits)+
    with Some 1 show thesis by (intro stopped) auto
  qed
qed

text \<open>Each backend sees its own calls, and those opened are in the map with the shared cache.\<close>

lemma open_backends_other:
  "open_backends sql_Open cache bes m ws = (r, ws') \<Longrightarrow> n \<notin> fst ` set bes \<Longrightarrow> ws' n = ws n"
proof (induction bes arbitrary: m ws r ws')
  case (Cons kb bes)
  obtain k b where kb: "kb = (k, b)" by (cases kb)
  from Cons.prems(2) kb have n: "n \<noteq> k" "n \<notin> fst ` set bes" by auto
  from Cons.prems(1) [unfolded kb] show ?case
  proof (cases rule: open_backends_ConsE)
    case (opened be b' ws1 r2)
    with Cons.IH [OF opened(3) n(2)] in_backend_calls(2) [OF opened(2) n(1)] show ?thesis by simp
  qed (use n in_backend_calls(2) in auto)
qed (simp add: preturn_def)

lemma open_backends_map:
  "open_backends sql_Open cache bes m ws = (Returns (None, bes', m'), ws') \<Longrightarrow>
   \<exists>es. m' = m @ es \<and> map fst es = map fst bes \<and> list_all (\<lambda>(k, c). im_mdCache c = cache) es"
proof (induction bes arbitrary: m ws bes' m' ws')
  case (Cons kb bes)
  obtain k b where kb: "kb = (k, b)" by (cases kb)
  from Cons.prems [unfolded kb] show ?case
  proof (cases rule: open_backends_ConsE)
    case (opened be b' ws1 r2)
    from opened(4) obtain bes2 where "r2 = Returns (None, bes2, m')" by blast
    from Cons.IH [OF opened(3) [unfolded this]] obtain es
      where "m' = (m @ [(k, crud_New cache b')]) @ es" "map fst es = map fst bes" "list_all (\<lambda>(k, c). im_mdCache c = cache) es"
      by blast
    then show ?thesis by (intro exI [of _ "(k, crud_New cache b') # es"]) (simp add: kb crud_New_def)
  qed auto
qed (simp add: preturn_def)

lemma open_backends_first:
  assumes "open_backends sql_Open cache bes (m @ [(n, c)]) ws = (Returns (None, bes', m'), ws')" "n \<notin> fst ` set m"
    "n \<notin> fst ` set bes"
  shows "map_of m' n = Some c"
proof -
  obtain es where m': "m' = (m @ [(n, c)]) @ es" and "fst ` set es = fst ` set bes"
    using open_backends_map [OF assms(1)] by (metis list.set_map)
  with assms(2,3) have "map_of m n = None" "map_of es n = None" by (metis map_of_eq_None_iff)+
  then show ?thesis unfolding m' by (simp only: map_of_append map_add_def map_of.simps option.case fun_upd_same fst_conv snd_conv)
qed

definition opened_as :: "('d, 'c) cache_ops \<Rightarrow> 'd BackendConfig \<Rightarrow> ('d, 'c) impl \<Rightarrow> bool" where
  "opened_as cache be c \<longleftrightarrow> (\<exists>drv. c = crud_New cache (be\<lparr>be_db := Some drv\<rparr>))"

lemma open_backends_calls:
  assumes "open_backends sql_Open cache bes m ws = (r, ws')" "distinct (map fst bes)"
    and "map_of bes n = Some (Some be)" "n \<notin> fst ` set m"
  shows "\<exists>j. w_calls (ws' n) = w_calls (ws n) @ take j (opening_calls be) \<and>
    (\<forall>bes' m'. r = Returns (None, bes', m') \<longrightarrow>
       take j (opening_calls be) = opening_calls be \<and> (\<exists>c. map_of m' n = Some c \<and> opened_as cache be c))"
  using assms
proof (induction bes arbitrary: m ws r ws')
  case (Cons kb bes)
  obtain k b where kb: "kb = (k, b)" by (cases kb)
  have own: "n = k \<Longrightarrow> b = Some be" and later: "n \<noteq> k \<Longrightarrow> map_of bes n = Some (Some be)"
    and apart: "n = k \<Longrightarrow> n \<notin> fst ` set bes" using Cons.prems(2,3) kb by auto
  from Cons.prems(1) [unfolded kb] show ?case
  proof (cases rule: open_backends_ConsE)
    case nil_backend
    then show ?thesis by (intro exI [of _ 0]) simp
  next
    case (stopped bk r1)
    with Open_calls [OF in_backend_calls(1) [OF stopped(2)]] in_backend_calls(2) [OF stopped(2), of n] own
    show ?thesis by (cases "n = k") (fastforce, auto intro: exI [of _ 0])
  next
    case (opened bk b' ws1 r2)
    show ?thesis
    proof (cases "n = k")
      case True
      with own opened(1) have "bk = be" by simp
      with Open_calls [OF in_backend_calls(1) [OF opened(2)]] True obtain j drv where
        "w_calls (ws1 n) = w_calls (ws n) @ take j (opening_calls be)" "take j (opening_calls be) = opening_calls be"
        "b' = be\<lparr>be_db := Some drv\<rparr>" by blast
      moreover have "ws' n = ws1 n" using open_backends_other [OF opened(3)] apart True by simp
      moreover have "map_of m' n = Some (crud_New cache b')" if "r = Returns (None, bes', m')" for bes' m'
        using opened(4) [OF that] opened(3) open_backends_first Cons.prems(4) apart True by metis
      ultimately show ?thesis by (intro exI [of _ j]) (auto simp: opened_as_def)
    next
      case False
      with Cons.prems have "n \<notin> fst ` set (m @ [(k, crud_New cache b')])" "distinct (map fst bes)" by auto
      from Cons.IH [OF opened(3) this(2) later [OF False] this(1)] opened(4) in_backend_calls(2) [OF opened(2) False]
      show ?thesis by metis
    qed
  qed
qed simp

section \<open>A whole run\<close>

text \<open>The calls one backend may see from start to stop: a beginning of its opening calls, or all of them
  followed by calls that its configuration permits.\<close>

definition session_calls :: "'d BackendConfig \<Rightarrow> dbcall list \<Rightarrow> bool" where
  "session_calls be cs \<longleftrightarrow>
     cs = take (length cs) (opening_calls be) \<or>
     take (length (opening_calls be)) cs = opening_calls be \<and>
       list_all (permitted be) (drop (length (opening_calls be)) cs)"

lemma session_calls_prefix: "session_calls be (take j (opening_calls be))"
  by (simp add: session_calls_def min_def)

lemma session_calls_serving: "list_all (permitted be) evs \<Longrightarrow> session_calls be (opening_calls be @ evs)"
  by (simp add: session_calls_def)

lemma session_calls_normalized: "session_calls (normalize_backend be) = session_calls be"
  by (simp add: session_calls_def fun_eq_iff)

lemma opened_as_permitted: "opened_as cache be c \<Longrightarrow> permitted (im_config c) = permitted be"
proof
  fix ev
  assume "opened_as cache be c"
  then show "permitted (im_config c) ev = permitted be ev"
    by (cases ev) (auto simp: opened_as_def crud_New_def statement_permitted_def)
qed

lemma Run_session:
  assumes run: "Run sql_Open cache (Run_serve im RunUntil) rs ws0 = (r, ws)"
    and bes: "distinct (map fst (cfg_Backends (sv_cfg rs)))" "map_of (cfg_Backends (sv_cfg rs)) n = Some (Some be)"
    and laws: "cache_lawful cache" "neutral_imports im" "http_server_lawful RunUntil"
  shows "\<exists>cs. w_calls (ws n) = w_calls (ws0 n) @ cs \<and> session_calls be cs"
proof -
  obtain r1 ws1 where 1: "open_backends sql_Open cache (cfg_Backends (sv_cfg rs)) [] ws0 = (r1, ws1)" by fastforce
  from open_backends_calls [OF 1 bes] obtain j where j: "w_calls (ws1 n) = w_calls (ws0 n) @ take j (opening_calls be)"
    and full: "\<And>bes' m'. r1 = Returns (None, bes', m') \<Longrightarrow>
       take j (opening_calls be) = opening_calls be \<and> (\<exists>c. map_of m' n = Some c \<and> opened_as cache be c)" by auto
  show ?thesis
  proof (cases "\<exists>bes' m'. r1 = Returns (None, bes', m')")
    case False
    with run 1 have "ws = ws1"
      by (cases r1) (auto simp: Run_def prog_simps preturn_def split: if_splits)
    with j session_calls_prefix show ?thesis by blast
  next
    case True
    then obtain bes' m' where r1: "r1 = Returns (None, bes', m')" by blast
    from full [OF r1] obtain c where c: "take j (opening_calls be) = opening_calls be" "map_of m' n = Some c" "opened_as cache be c"
      by blast
    let ?rs = "rs\<lparr>sv_cfg := (sv_cfg rs)\<lparr>cfg_Backends := bes'\<rparr>, sv_crudMap := m'\<rparr>"
    have ws: "ws = snd (Run_serve im RunUntil ?rs ws1)"
      using run 1 r1 by (cases "Run_serve im RunUntil ?rs ws1"; cases "fst (Run_serve im RunUntil ?rs ws1)")
        (auto simp: Run_def prog_simps preturn_def Let_def)
    have lawful: "lawful_caches ?rs"
      using open_backends_map [OF 1 [unfolded r1]] laws(1) by (auto simp: lawful_caches_def list_all_iff)
    have "at_backend n (adds (may_add ?rs n)) ws1 ws"
    proof (cases "Run_handler im ?rs")
      case (Returns h)
      then have "ws = snd (RunUntil h ws1)" unfolding ws by (simp add: Run_serve_def prog_simps)
      with laws(3) have "handled h ws1 ws" by (simp add: http_server_lawful_def)
      from handled_keeps [OF this] Run_handler_permitted [OF lawful laws(2) Returns] show ?thesis by blast
    next
      case (Panics msg)
      then show ?thesis unfolding ws by (simp add: Run_serve_def prog_simps at_backend_def)
    qed
    moreover have "may_add ?rs n = permitted be"
      using c(2) opened_as_permitted [OF c(3)] by (simp add: may_add_def fun_eq_iff)
    ultimately show ?thesis using j c(1) session_calls_serving by (auto simp: at_backend_def adds_def)
  qed
qed

text \<open>C6: Over a whole run of the program, from reading its configuration until it has been stopped,
  however it ends and whatever requests arrive, the database of a backend sees its configured pool
  settings and DDL statements, once and in order, and after them only calls that its configuration
  permits: \<^verbatim>\<open>INSERT\<close> and \<^verbatim>\<open>REPLACE\<close> with creating switched on, \<^verbatim>\<open>UPDATE\<close> with updating, \<^verbatim>\<open>DELETE\<close> with deleting,
  transactions with either of the first two. A permission that is not given is refused, except for reading.\<close>

theorem whole_run_is_permitted:
  fixes cache :: "('d, 'c) cache_ops"
  assumes "main Check mpath send my sql_Open cache (Run_serve im RunUntil) cfg ws0 = (r, ws)"
    and "distinct (map fst (cfg_Backends cfg))" "map_of (cfg_Backends cfg) n = Some (Some be)"
    and "cache_lawful cache" "neutral_imports im" "http_server_lawful RunUntil"
  shows "\<exists>cs. w_calls (ws n) = w_calls (ws0 n) @ cs \<and> session_calls be cs"
proof -
  have none: "session_calls be []" by (simp add: session_calls_def)
  show ?thesis
  proof (cases "\<exists>cfg' (rs :: ('d, 'c) restServer).
      CheckAndNormalize Check mpath cfg = Returns (None, cfg') \<and> server_New send my cfg' = Returns rs")
    case False
    with assms(1) have "ws = ws0"
      by (cases "CheckAndNormalize Check mpath cfg")
        (auto simp: main_def pbind_def plift_def ppanic_def split: outcome.splits if_splits)
    with none show ?thesis by (intro exI [of _ "[]"]) simp
  next
    case True
    then obtain cfg' and rs :: "('d, 'c) restServer" where cfg': "CheckAndNormalize Check mpath cfg = Returns (None, cfg')"
      and rs: "server_New send my cfg' = Returns rs" by blast
    then have sv: "sv_cfg rs = cfg'" by (auto simp: server_New_def outcome_simps)
    have norm: "normalize_backends (cfg_Backends cfg) = Returns (None, cfg_Backends cfg')"
      using CheckAndNormalize_result [OF cfg'] by simp
    obtain r1 ws1 where run: "Run sql_Open cache (Run_serve im RunUntil) rs ws0 = (r1, ws1)" by fastforce
    have "ws = ws1"
      using assms(1) cfg' rs run
      by (cases r1) (auto simp: main_def main_run_def prog_simps pbind_def plift_def ppanic_def preturn_def split: outcome.splits if_splits)
    moreover have "distinct (map fst (cfg_Backends cfg'))" "map_of (cfg_Backends cfg') n = Some (Some (normalize_backend be))"
      using normalize_backends_Returns [OF norm] normalize_backends_lookup [OF norm] assms(2,3) by simp_all
    ultimately show ?thesis
      using Run_session [OF run, of n "normalize_backend be", unfolded sv, OF _ _ assms(4-6)] by (simp only: session_calls_normalized)
  qed
qed

text \<open>A program that serves one request, for a configuration that leaves deleting out.\<close>

definition one_request :: "http_request \<Rightarrow> 's http_handler \<Rightarrow> ('s, goerr option) prog" where
  "one_request req h s = (case h fresh_writer req s of (r, s') \<Rightarrow> (Returns (Some ErrServerClosed), s'))"

lemma one_request_lawful: "http_server_lawful (one_request req)"
  unfolding http_server_lawful_def
proof (intro allI)
  fix h :: "'a http_handler" and s
  obtain r s' where "h fresh_writer req s = (r, s')" by fastforce
  then show "handled h s (snd (one_request req h s))"
    using handled_request [OF handled_none] by (simp add: one_request_def)
qed

definition ref_config :: "(string list \<times> string list) Config" where
  "ref_config = \<lparr>cfg_Server = ref_server, cfg_Backends = [(''main'', Some (small_backend
     \<lparr>be_Delete := None, be_InitDDLs := [''CREATE TABLE t (id INT)''], be_MaxOpenConnections := Some 5\<rparr>))],
     cfg_Logging = None\<rparr>"

definition ref_main :: "http_request \<Rightarrow> ((string list \<times> string list, unit) worlds, unit) prog" where
  "ref_main req = main (\<lambda>s. (None, s)) ''/metrics'' ref_sender (\<lambda>n msg. msg) (\<lambda>name dsn. Inr small_driver) no_cache
     (Run_serve ref_imports (one_request req)) ref_config"

definition ref_delete :: http_request where
  "ref_delete = wire_request ''DELETE'' ''http'' ''localhost'' [''api'', ''v1'', ''main'', ''t'', ''1''] [] None None"

lemma ref_neutral: "neutral_imports ref_imports"
  by (simp add: neutral_imports_def ref_imports_def neutral_id preturn_def)

theorem whole_run_is_permitted_witness:
  "session_calls (small_backend\<lparr>be_Delete := None, be_InitDDLs := [''CREATE TABLE t (id INT)''],
       be_MaxOpenConnections := Some 5\<rparr>)
     (w_calls (snd (ref_main ref_delete (\<lambda>n. small_world)) ''main''))"
proof -
  obtain r ws where run: "ref_main ref_delete (\<lambda>n. small_world) = (r, ws)" by fastforce
  have bes: "distinct (map fst (cfg_Backends ref_config))"
    "map_of (cfg_Backends ref_config) ''main'' = Some (Some (small_backend
       \<lparr>be_Delete := None, be_InitDDLs := [''CREATE TABLE t (id INT)''], be_MaxOpenConnections := Some 5\<rparr>))"
    by (simp_all add: ref_config_def)
  from whole_run_is_permitted [OF run [unfolded ref_main_def] bes small_lawful ref_neutral one_request_lawful] run
  show ?thesis by (simp add: small_world_def)
qed

end
