(* ===== verification/Replay.thy ===== *)
theory Replay
  imports Permissions
begin

text \<open>
  Requests one database call at a time. The operations of \<^verbatim>\<open>pkg/crud\<close> are programs that run to their
  end; what a handler does next depends only on the replies it has had so far. A driver that plays a
  list of replies turns a program into a function from replies to calls, and the relation \<open>follows\<close>
  ties that function to the program over a real driver. The interleaving of requests is built on it.
\<close>

section \<open>Replies\<close>

datatype reply =
    RRows "goerr + rowset"
  | RExec "goerr + (goerr + int)"
  | RDone "goerr option"

text \<open>One call on a driver.\<close>

fun perform :: "'d driver \<Rightarrow> dbcall \<Rightarrow> 'd \<Rightarrow> reply \<times> 'd" where
  "perform drv (CQuery q a) d = (case drv_Query drv q a d of (r, d') \<Rightarrow> (RRows r, d'))"
| "perform drv (CExec q a) d = (case drv_Exec drv q a d of (r, d') \<Rightarrow> (RExec r, d'))"
| "perform drv CBegin d = (case drv_Begin drv d of (r, d') \<Rightarrow> (RDone r, d'))"
| "perform drv (CTxExec q a) d = (case drv_TxExec drv q a d of (r, d') \<Rightarrow> (RDone r, d'))"
| "perform drv CCommit d = (case drv_Commit drv d of (r, d') \<Rightarrow> (RDone r, d'))"
| "perform drv CRollback d = (case drv_Rollback drv d of (r, d') \<Rightarrow> (RDone r, d'))"
| "perform drv CClose d = (case drv_Close drv d of (r, d') \<Rightarrow> (RDone r, d'))"
| "perform drv (CSet what n) d = (RDone None, d)"

fun performs :: "'d driver \<Rightarrow> dbcall list \<Rightarrow> 'd \<Rightarrow> reply list \<times> 'd" where
  "performs drv [] d = ([], d)"
| "performs drv (c # cs) d =
     (case perform drv c d of (x, d') \<Rightarrow> (case performs drv cs d' of (xs, d'') \<Rightarrow> (x # xs, d'')))"

lemma performs_append:
  "performs drv (cs @ cs') d = (let (xs, d') = performs drv cs d; (xs', d'') = performs drv cs' d' in (xs @ xs', d''))"
  by (induction cs arbitrary: d) (simp_all add: Let_def split: prod.splits)

lemma length_performs [simp]: "length (fst (performs drv cs d)) = length cs"
  by (induction cs arbitrary: d) (simp_all split: prod.splits, metis fst_conv)

section \<open>The replaying driver\<close>

text \<open>Its state is the replies still to come; a call past their end gets an error, which nothing below
  ever looks at.\<close>

definition pending :: goerr where
  "pending = PlainError ''pending''"

fun reply_rows :: "reply list \<Rightarrow> goerr + rowset" where
  "reply_rows (RRows r # h) = r"
| "reply_rows h = Inl pending"

fun reply_exec :: "reply list \<Rightarrow> goerr + (goerr + int)" where
  "reply_exec (RExec r # h) = r"
| "reply_exec h = Inl pending"

fun reply_done :: "reply list \<Rightarrow> goerr option" where
  "reply_done (RDone r # h) = r"
| "reply_done h = Some pending"

definition replay_driver :: "reply list driver" where
  "replay_driver =
     \<lparr>drv_Query = (\<lambda>q a h. (reply_rows h, tl h)), drv_Exec = (\<lambda>q a h. (reply_exec h, tl h)),
      drv_Begin = (\<lambda>h. (reply_done h, tl h)), drv_TxExec = (\<lambda>q a h. (reply_done h, tl h)),
      drv_Commit = (\<lambda>h. (reply_done h, tl h)), drv_Rollback = (\<lambda>h. (reply_done h, tl h)),
      drv_Close = (\<lambda>h. (reply_done h, tl h))\<rparr>"

section \<open>Programs that follow replies\<close>

text \<open>
  From the world \<open>w\<close> a program ended with \<open>r\<close> in the world \<open>w'\<close>, having made the calls \<open>cs\<close>. With
  their replies \<open>m'\<close> does exactly the same; with others it makes the same calls as long as they agree.
\<close>

definition on_replies :: "reply list \<Rightarrow> 'c \<Rightarrow> dbcall list \<Rightarrow> (reply list, 'c) world" where
  "on_replies h c k = \<lparr>w_db = h, w_cache = c, w_calls = k\<rparr>"

definition agree_until :: "reply list \<Rightarrow> dbcall list \<Rightarrow> reply list \<Rightarrow> dbcall list \<Rightarrow> bool" where
  "agree_until xs cs h cs' \<longleftrightarrow>
     (\<forall>i < length cs. i \<le> length h \<longrightarrow> take i h = take i xs \<longrightarrow> take (Suc i) cs' = take (Suc i) cs)"

definition replays :: "'d driver \<Rightarrow> ('d, 'c) world \<Rightarrow> 'a outcome \<Rightarrow> ('d, 'c) world \<Rightarrow>
    ((reply list, 'c) world, 'a) prog \<Rightarrow> dbcall list \<Rightarrow> bool" where
  "replays drv w r w' m' cs \<longleftrightarrow>
     (let (xs, d') = performs drv cs (w_db w) in
        w_calls w' = w_calls w @ cs \<and> w_db w' = d' \<and>
        (\<forall>rest k. m' (on_replies (xs @ rest) (w_cache w) k) = (r, on_replies rest (w_cache w') (k @ cs))) \<and>
        (\<forall>h k. \<exists>cs'. w_calls (snd (m' (on_replies h (w_cache w) k))) = k @ cs' \<and> agree_until xs cs h cs'))"

definition follows :: "'d driver \<Rightarrow> (('d, 'c) world, 'a) prog \<Rightarrow> ((reply list, 'c) world, 'a) prog \<Rightarrow> bool" where
  "follows drv m m' \<longleftrightarrow> (\<forall>w. \<exists>cs. replays drv w (fst (m w)) (snd (m w)) m' cs)"

lemma agree_until_Nil [simp]: "agree_until xs [] h cs'"
  by (simp add: agree_until_def)

lemma follows_pure [intro!]:
  "follows drv (preturn x) (preturn x)" "follows drv (ppanic msg) (ppanic msg)" "follows drv (plift a) (plift a)"
  by (auto simp: follows_def replays_def preturn_def ppanic_def plift_def on_replies_def intro!: exI [of _ "[]"])

lemma follows_state:
  "follows drv (\<lambda>w. (Returns x, w\<lparr>w_cache := f (w_cache w)\<rparr>)) (\<lambda>w. (Returns x, w\<lparr>w_cache := f (w_cache w)\<rparr>))"
  by (auto simp: follows_def replays_def on_replies_def intro!: exI [of _ "[]"])

text \<open>A single call.\<close>

lemma follows_db_call:
  assumes "\<And>d. snd (f d) = snd (perform drv ev d)"
    and "\<And>d h. f' (fst (perform drv ev d) # h) = (fst (f d), h)"
  shows "follows drv (db_call ev f) (db_call ev f')"
  unfolding follows_def
proof (intro allI exI [of _ "[ev]"])
  fix w :: "('a, 'c) world"
  obtain x d' where p: "perform drv ev (w_db w) = (x, d')" by fastforce
  obtain y where f: "f (w_db w) = (y, d')" using assms(1) [of "w_db w"] p by (metis prod.collapse snd_conv)
  have f': "f' (x # h) = (y, h)" for h using assms(2) [of "w_db w" h] p f by simp
  show "replays drv w (fst (db_call ev f w)) (snd (db_call ev f w)) (db_call ev f') [ev]"
    by (auto simp: replays_def agree_until_def db_call_def on_replies_def p f f' split: prod.splits)
qed

lemma follows_on_db:
  assumes "follows drv (f drv) (f' replay_driver)"
  shows "follows drv (on_db (Some drv) f) (on_db (Some replay_driver) f')"
  using assms by (simp add: on_db_def)

lemma follows_db:
  "follows drv (db_QueryContext (Some drv) q a) (db_QueryContext (Some replay_driver) q a)"
  "follows drv (db_ExecContext (Some drv) q a) (db_ExecContext (Some replay_driver) q a)"
  "follows drv (db_BeginTx (Some drv)) (db_BeginTx (Some replay_driver))"
  "follows drv (tx_ExecContext (Some drv) q a) (tx_ExecContext (Some replay_driver) q a)"
  "follows drv (tx_Commit (Some drv)) (tx_Commit (Some replay_driver))"
  "follows drv (tx_Rollback (Some drv)) (tx_Rollback (Some replay_driver))"
  unfolding db_QueryContext_def db_ExecContext_def db_BeginTx_def tx_ExecContext_def tx_Commit_def tx_Rollback_def
  by (intro follows_on_db follows_db_call; simp add: replay_driver_def split: prod.splits)+

section \<open>Composition\<close>

lemma agree_until_append: "agree_until xs cs h cs' \<Longrightarrow> agree_until xs cs h (cs' @ cs2)"
  unfolding agree_until_def
proof (intro allI impI)
  fix i
  assume a: "\<forall>i < length cs. i \<le> length h \<longrightarrow> take i h = take i xs \<longrightarrow> take (Suc i) cs' = take (Suc i) cs"
    and i: "i < length cs" "i \<le> length h" "take i h = take i xs"
  then have t: "take (Suc i) cs' = take (Suc i) cs" by blast
  from arg_cong [OF t, of length] i(1) have "Suc i \<le> length cs'" by simp
  with t show "take (Suc i) (cs' @ cs2) = take (Suc i) cs" by simp
qed

lemma agree_until_prefix:
  assumes "length xs1 = length cs1" "agree_until xs2 cs2 h2 cs2'"
  shows "agree_until (xs1 @ xs2) (cs1 @ cs2) (xs1 @ h2) (cs1 @ cs2')"
  unfolding agree_until_def
proof (intro allI impI)
  fix i
  assume i: "i < length (cs1 @ cs2)" "i \<le> length (xs1 @ h2)" "take i (xs1 @ h2) = take i (xs1 @ xs2)"
  show "take (Suc i) (cs1 @ cs2') = take (Suc i) (cs1 @ cs2)"
  proof (cases "i < length cs1")
    case False
    then obtain j where "i = length cs1 + j" by (metis le_add_diff_inverse not_less)
    with i assms show ?thesis by (simp add: agree_until_def)
  qed simp
qed

lemma agree_until_differ:
  assumes "length xs1 = length cs1" "agree_until xs1 cs1 h cs'" "take (length xs1) h \<noteq> xs1"
  shows "agree_until (xs1 @ xs2) (cs1 @ cs2) h cs'"
  unfolding agree_until_def
proof (intro allI impI)
  fix i
  assume i: "i < length (cs1 @ cs2)" "i \<le> length h" "take i h = take i (xs1 @ xs2)"
  have "i < length cs1"
  proof (rule ccontr)
    assume "\<not> i < length cs1"
    then have "take (length xs1) (take i h) = take (length xs1) h" "take (length xs1) (take i (xs1 @ xs2)) = xs1"
      using assms(1) by (simp_all add: min_def)
    with i(3) assms(3) show False by metis
  qed
  moreover from this i(3) assms(1) have "take i h = take i xs1" by simp
  ultimately have "take (Suc i) cs' = take (Suc i) cs1" using assms(2) i(2) by (simp add: agree_until_def)
  with \<open>i < length cs1\<close> show "take (Suc i) cs' = take (Suc i) (cs1 @ cs2)" by simp
qed

lemma replaysD:
  assumes "replays drv w r w' m' cs"
  shows "w_calls w' = w_calls w @ cs" "w_db w' = snd (performs drv cs (w_db w))"
    "m' (on_replies (fst (performs drv cs (w_db w)) @ rest) (w_cache w) k) = (r, on_replies rest (w_cache w') (k @ cs))"
    "\<exists>cs'. w_calls (snd (m' (on_replies h (w_cache w) k))) = k @ cs' \<and>
       agree_until (fst (performs drv cs (w_db w))) cs h cs'"
  using assms by (auto simp: replays_def Let_def split: prod.splits)

lemma replaysI:
  assumes "w_calls w' = w_calls w @ cs" "w_db w' = snd (performs drv cs (w_db w))"
    "\<And>rest k. m' (on_replies (fst (performs drv cs (w_db w)) @ rest) (w_cache w) k) =
       (r, on_replies rest (w_cache w') (k @ cs))"
    "\<And>h k. \<exists>cs'. w_calls (snd (m' (on_replies h (w_cache w) k))) = k @ cs' \<and>
       agree_until (fst (performs drv cs (w_db w))) cs h cs'"
  shows "replays drv w r w' m' cs"
  using assms by (auto simp: replays_def Let_def split: prod.splits)

lemma follows_appends:
  assumes "follows drv m m'"
  shows "\<exists>cs'. w_calls (snd (m' (on_replies h c k))) = k @ cs'"
proof -
  obtain cs where "replays drv \<lparr>w_db = undefined, w_cache = c, w_calls = []\<rparr>
      (fst (m \<lparr>w_db = undefined, w_cache = c, w_calls = []\<rparr>)) (snd (m \<lparr>w_db = undefined, w_cache = c, w_calls = []\<rparr>)) m' cs"
    using assms by (auto simp: follows_def)
  from replaysD(4) [OF this, of h k] show ?thesis by auto
qed

lemma world_on_replies: "v = on_replies (w_db v) (w_cache v) (w_calls v)"
  by (cases v) (simp add: on_replies_def)

text \<open>Once \<open>m'\<close> has gone another way the rest only adds calls.\<close>

lemma pbind_appends:
  assumes "w_calls (snd (m' v)) = k @ cs1'" "\<And>x. follows drv (f x) (f' x)"
  shows "\<exists>cs2. w_calls (snd (pbind m' f' v)) = k @ cs1' @ cs2"
proof (cases "m' v")
  case (Pair r1 v1)
  show ?thesis
  proof (cases r1)
    case (Returns x)
    have "\<exists>cs'. w_calls (snd (f' x v1)) = w_calls v1 @ cs'"
      using follows_appends [OF assms(2) [of x], of "w_db v1" "w_cache v1" "w_calls v1"] world_on_replies [of v1] by simp
    with Pair Returns assms(1) show ?thesis by (auto simp: pbind_def)
  next
    case (Panics msg)
    with Pair assms(1) show ?thesis by (auto simp: pbind_def)
  qed
qed

lemma pbind_agrees:
  assumes "\<exists>cs'. w_calls (snd (m' v)) = k @ cs' \<and> agree_until xs cs h cs'" "\<And>x. follows drv (f x) (f' x)"
  shows "\<exists>cs'. w_calls (snd (pbind m' f' v)) = k @ cs' \<and> agree_until xs cs h cs'"
proof -
  obtain cs1 where c: "w_calls (snd (m' v)) = k @ cs1" "agree_until xs cs h cs1" using assms(1) by blast
  obtain cs2 where "w_calls (snd (pbind m' f' v)) = k @ cs1 @ cs2" using pbind_appends [where m' = m' and f = f and f' = f' and v = v, OF c(1) assms(2)] by blast
  with agree_until_append [OF c(2)] show ?thesis by blast
qed

lemma follows_pbind [intro!]:
  assumes m: "follows drv m m'" and f: "\<And>x. follows drv (f x) (f' x)"
  shows "follows drv (pbind m f) (pbind m' f')"
  unfolding follows_def
proof
  fix w
  obtain r1 w1 where run1: "m w = (r1, w1)" by fastforce
  with m obtain cs1 where c1: "replays drv w r1 w1 m' cs1" by (metis follows_def fst_conv snd_conv)
  note d1 = replaysD [OF c1]
  show "\<exists>cs. replays drv w (fst (pbind m f w)) (snd (pbind m f w)) (pbind m' f') cs"
  proof (cases r1)
    case (Panics msg)
    have "replays drv w (Panics msg) w1 (pbind m' f') cs1"
    proof (rule replaysI [OF d1(1,2)])
      show "pbind m' f' (on_replies (fst (performs drv cs1 (w_db w)) @ rest) (w_cache w) k) =
          (Panics msg, on_replies rest (w_cache w1) (k @ cs1))" for rest k
        using d1(3) [of rest k] Panics by (simp add: pbind_def)
      show "\<exists>cs'. w_calls (snd (pbind m' f' (on_replies h (w_cache w) k))) = k @ cs' \<and>
          agree_until (fst (performs drv cs1 (w_db w))) cs1 h cs'" for h k
        by (rule pbind_agrees [where m' = m' and f = f and f' = f', OF d1(4) f])
    qed
    with run1 Panics show ?thesis by (auto simp: pbind_def)
  next
    case (Returns x)
    obtain r2 w2 where run2: "f x w1 = (r2, w2)" by fastforce
    with f [of x] obtain cs2 where "replays drv w1 r2 w2 (f' x) cs2" by (metis follows_def fst_conv snd_conv)
    note d2 = replaysD [OF this]
    have p: "performs drv (cs1 @ cs2) (w_db w) =
        (fst (performs drv cs1 (w_db w)) @ fst (performs drv cs2 (w_db w1)), snd (performs drv cs2 (w_db w1)))"
      using d1(2) by (simp add: performs_append Let_def split: prod.splits)
    have "replays drv w r2 w2 (pbind m' f') (cs1 @ cs2)"
    proof (rule replaysI)
      show "w_calls w2 = w_calls w @ cs1 @ cs2" "w_db w2 = snd (performs drv (cs1 @ cs2) (w_db w))"
        using d1(1) d2(1,2) p by simp_all
      show "pbind m' f' (on_replies (fst (performs drv (cs1 @ cs2) (w_db w)) @ rest) (w_cache w) k) =
          (r2, on_replies rest (w_cache w2) (k @ cs1 @ cs2))" for rest k
        using d1(3) [of "fst (performs drv cs2 (w_db w1)) @ rest" k] d2(3) [of rest "k @ cs1"] Returns p
        by (simp add: pbind_def)
      show "\<exists>cs'. w_calls (snd (pbind m' f' (on_replies h (w_cache w) k))) = k @ cs' \<and>
          agree_until (fst (performs drv (cs1 @ cs2) (w_db w))) (cs1 @ cs2) h cs'" for h k
      proof (cases "take (length cs1) h = fst (performs drv cs1 (w_db w))")
        case True
        define h2 where "h2 = drop (length cs1) h"
        have h: "h = fst (performs drv cs1 (w_db w)) @ h2" using True append_take_drop_id [of "length cs1" h] by (simp add: h2_def)
        have "pbind m' f' (on_replies h (w_cache w) k) = f' x (on_replies h2 (w_cache w1) (k @ cs1))"
          unfolding h pbind_def d1(3) Returns by simp
        moreover obtain cs2' where "w_calls (snd (f' x (on_replies h2 (w_cache w1) (k @ cs1)))) = (k @ cs1) @ cs2'"
          "agree_until (fst (performs drv cs2 (w_db w1))) cs2 h2 cs2'" using d2(4) by blast
        ultimately show ?thesis
          using agree_until_prefix [of "fst (performs drv cs1 (w_db w))" cs1] p h
          by (intro exI [of _ "cs1 @ cs2'"]) simp
      next
        case False
        obtain cs' where "w_calls (snd (pbind m' f' (on_replies h (w_cache w) k))) = k @ cs'"
          "agree_until (fst (performs drv cs1 (w_db w))) cs1 h cs'" using pbind_agrees [where m' = m' and f = f and f' = f', OF d1(4) f] by blast
        with False p show ?thesis by (intro exI [of _ cs']) (simp add: agree_until_differ)
      qed
    qed
    with run1 run2 Returns show ?thesis by (auto simp: pbind_def)
  qed
qed

lemma follows_ebind [intro!]:
  assumes "follows drv m m'" "\<And>e. follows drv (err e) (err' e)" "\<And>x. follows drv (ok x) (ok' x)"
  shows "follows drv (ebind m err ok) (ebind m' err' ok')"
  unfolding ebind_def using assms by (auto split: sum.split)

lemma follows_guarded:
  "follows drv m m' \<Longrightarrow> follows drv (guarded allowed denied m) (guarded allowed denied m')"
  unfolding guarded_def by auto

section \<open>The operations\<close>

text \<open>The imported cache is used in the same way by both programs.\<close>

definition caches_alike :: "'d driver \<Rightarrow> ('d, 'c) cache_ops \<Rightarrow> (reply list, 'c) cache_ops \<Rightarrow> bool" where
  "caches_alike drv ops ops' \<longleftrightarrow>
     cache_Set ops = cache_Set ops' \<and>
     (\<forall>ld ld' key. (\<forall>k. follows drv (ld k) (ld' k)) \<longrightarrow> follows drv (cache_Get ops ld key) (cache_Get ops' ld' key))"

text \<open>The same backend over a driver and over replies.\<close>

definition alike :: "'d driver \<Rightarrow> ('d, 'c) impl \<Rightarrow> (reply list, 'c) impl \<Rightarrow> bool" where
  "alike drv be be' \<longleftrightarrow>
     im_db be = Some drv \<and> im_db be' = Some replay_driver \<and> caches_alike drv (im_mdCache be) (im_mdCache be') \<and>
     be_Create (im_config be) = be_Create (im_config be') \<and> be_Read (im_config be) = be_Read (im_config be') \<and>
     be_Update (im_config be) = be_Update (im_config be') \<and> be_Delete (im_config be) = be_Delete (im_config be') \<and>
     be_IdMap (im_config be) = be_IdMap (im_config be') \<and> be_Queries (im_config be) = be_Queries (im_config be')"

lemma alikeD:
  assumes "alike drv be be'"
  shows "im_db be = Some drv" "im_db be' = Some replay_driver" "caches_alike drv (im_mdCache be) (im_mdCache be')"
    "be_Create (im_config be) = be_Create (im_config be')" "be_Read (im_config be) = be_Read (im_config be')"
    "be_Update (im_config be) = be_Update (im_config be')" "be_Delete (im_config be) = be_Delete (im_config be')"
    "IdColumn (im_config be) = IdColumn (im_config be')" "be_Queries (im_config be) = be_Queries (im_config be')"
  using assms by (simp_all add: alike_def IdColumn_def fun_eq_iff)

lemma follows_Load: "alike drv be be' \<Longrightarrow> follows drv (Load be key) (Load be' key)"
  unfolding Load_def by (auto simp: alikeD caches_alike_def Let_def intro!: follows_db follows_state dest: alikeD(3)
      split: sum.split)

lemma follows_remapped: "alike drv be be' \<Longrightarrow> follows drv (remapped be entity body) (remapped be' entity body)"
proof -
  assume be: "alike drv be be'"
  have "follows drv (cache_Get (im_mdCache be) (Load be) entity) (cache_Get (im_mdCache be') (Load be') entity)"
    using alikeD(3) [OF be] follows_Load [OF be] unfolding caches_alike_def by blast
  then show ?thesis unfolding remapped_def mdCache_Get_def by auto
qed

lemma follows_fetchOneItem:
  "alike drv be be' \<Longrightarrow> follows drv (fetchOneItem be entity oid b) (fetchOneItem be' entity oid b)"
  unfolding fetchOneItem_def by (auto simp: alikeD intro!: follows_db split: sum.split list.split)

lemma follows_fetchRows: "alike drv be be' \<Longrightarrow> follows drv (fetchRows be q a) (fetchRows be' q a)"
  unfolding fetchRows_def by (auto simp: alikeD intro!: follows_db split: sum.split)

lemma follows_QueryRow:
  "follows drv (db_QueryRow_int (Some drv) q a) (db_QueryRow_int (Some replay_driver) q a)"
  unfolding db_QueryRow_int_def by (auto intro!: follows_db)

lemmas follows_steps = follows_db follows_guarded follows_QueryRow

lemma follows_reads:
  assumes "alike drv be be'"
  shows "follows drv (ListItems be entity qe) (ListItems be' entity qe)"
    "follows drv (QueryNamed be name qry args) (QueryNamed be' name qry args)"
    "follows drv (ListEntities be) (ListEntities be')"
    "follows drv (Exists be entity oid) (Exists be' entity oid)"
    "follows drv (Get be entity oid) (Get be' entity oid)"
  unfolding ListItems_def QueryNamed_def ListEntities_def Exists_def Get_def Let_def
  using assms
  by (auto simp: alikeD [OF assms] intro!: follows_steps follows_fetchRows follows_fetchOneItem
      split: option.split prod.split)

lemma follows_deletes:
  assumes "alike drv be be'"
  shows "follows drv (Delete be entity oid) (Delete be' entity oid)"
    "follows drv (MultiDelete be entity ids) (MultiDelete be' entity ids)"
proof -
  show del: "follows drv (Delete be entity oid) (Delete be' entity oid)" for oid
    unfolding Delete_def by (auto simp: alikeD [OF assms] intro!: follows_steps)
  show "follows drv (MultiDelete be entity ids) (MultiDelete be' entity ids)"
    unfolding MultiDelete_def Let_def by (auto simp: alikeD [OF assms] intro!: follows_steps del)
qed

lemma follows_updates:
  assumes "alike drv be be'"
  shows "follows drv (Update be entity oid body) (Update be' entity oid body)"
    "follows drv (MultiUpdate be entity objs) (MultiUpdate be' entity objs)"
proof -
  show "follows drv (Update be entity oid body) (Update be' entity oid body)"
    unfolding Update_def Let_def
    by (auto simp: alikeD [OF assms] intro!: follows_steps follows_remapped follows_fetchOneItem assms split: prod.split)
  have "follows drv (multiUpdate_loop be entity objs) (multiUpdate_loop be' entity objs)"
    by (induction objs)
      (auto simp: alikeD [OF assms] Let_def intro!: follows_steps follows_remapped assms split: prod.split option.split)
  then show "follows drv (MultiUpdate be entity objs) (MultiUpdate be' entity objs)"
    unfolding MultiUpdate_def by (auto simp: alikeD [OF assms] intro!: follows_steps split: option.split)
qed

lemma follows_creates:
  assumes "alike drv be be'"
  shows "follows drv (Create be entity body) (Create be' entity body)"
    "follows drv (MultiCreate be entity repl objs) (MultiCreate be' entity repl objs)"
proof -
  show "follows drv (Create be entity body) (Create be' entity body)"
    unfolding Create_def Let_def
    by (auto simp: alikeD [OF assms] intro!: follows_steps follows_remapped follows_fetchOneItem assms
        split: prod.split sum.split)
  have "follows drv (multiCreate_loop be entity repl objs) (multiCreate_loop be' entity repl objs)"
    by (induction objs)
      (auto simp: alikeD [OF assms] Let_def intro!: follows_steps follows_remapped assms split: prod.split option.split)
  then show "follows drv (MultiCreate be entity repl objs) (MultiCreate be' entity repl objs)"
    unfolding MultiCreate_def by (auto simp: alikeD [OF assms] intro!: follows_steps split: option.split)
qed

lemmas follows_operations = follows_reads follows_deletes follows_updates follows_creates

section \<open>Requests\<close>

text \<open>A request of the API is served in the world of its backend.\<close>

fun request_backend :: "api_request \<Rightarrow> string" where
  "request_backend ReqListBackends = []"
| "request_backend (ReqListEntities be) = be"
| "request_backend (ReqQueryNamed be name params) = be"
| "request_backend (ReqListItems be ent params) = be"
| "request_backend (ReqCreateItem be ent body) = be"
| "request_backend (ReqBulkUpdate be ent body) = be"
| "request_backend (ReqDeleteItemById be ent oid) = be"
| "request_backend (ReqGetItemById be ent oid) = be"
| "request_backend (ReqExistsItemById be ent oid) = be"
| "request_backend (ReqUpdateItemById be ent oid body) = be"

text \<open>The same server over a driver for its backend \<open>n\<close> and over replies.\<close>

definition servers_alike :: "'d driver \<Rightarrow> string \<Rightarrow> ('d, 'c) restServer \<Rightarrow> (reply list, 'c) restServer \<Rightarrow> bool" where
  "servers_alike drv n rs rs' \<longleftrightarrow>
     sv_send rs = sv_send rs' \<and> sv_my rs = sv_my rs' \<and> map fst (cfg_Backends (sv_cfg rs)) = map fst (cfg_Backends (sv_cfg rs')) \<and>
     (\<forall>ent. srv_IdColumn rs n ent = srv_IdColumn rs' n ent) \<and>
     (case (map_of (sv_crudMap rs) n, map_of (sv_crudMap rs') n) of
        (Some c, Some c') \<Rightarrow> alike drv c c' | (None, None) \<Rightarrow> True | _ \<Rightarrow> False)"

definition in_world :: "(('d, 'c) worlds, 'a) prog \<Rightarrow> string \<Rightarrow> (('d, 'c) world, 'a) prog" where
  "in_world m n w = (case m (\<lambda>k. w) of (r, ws) \<Rightarrow> (r, ws n))"

lemma in_world_preturn [simp]: "in_world (preturn x) n = preturn x"
  by (rule ext) (simp add: in_world_def preturn_def)

lemma in_world_backend [simp]: "in_world (in_backend n m) n = m"
  by (rule ext) (simp add: in_world_def in_backend_def split: prod.splits)

lemma in_world_handleBackend:
  "in_world (handleBackend rs n handler w) n =
     (case map_of (sv_crudMap rs) n of
        None \<Rightarrow> preturn (http_Error (''no such backend: '' @ n) StatusBadRequest w)
      | Some c \<Rightarrow> handler c w)"
  by (simp add: handleBackend_def split: option.split)

lemma follows_handleBackend:
  assumes "servers_alike drv n rs rs'" "\<And>c c' w. alike drv c c' \<Longrightarrow> follows drv (handler c w) (handler' c' w)"
  shows "follows drv (in_world (handleBackend rs n handler w) n) (in_world (handleBackend rs' n handler' w) n)"
  using assms unfolding in_world_handleBackend
  by (auto simp: servers_alike_def split: option.split option.splits)

lemma follows_serve:
  assumes "servers_alike drv (request_backend req) rs rs'"
  shows "follows drv (in_world (serve rs enc req) (request_backend req)) (in_world (serve rs' enc req) (request_backend req))"
proof -
  have send: "SendWithStatus rs = SendWithStatus rs'"
    using assms unfolding servers_alike_def by (intro ext) (simp add: SendWithStatus_def)
  have idc: "srv_IdColumn rs (request_backend req) = srv_IdColumn rs' (request_backend req)"
    using assms by (simp add: servers_alike_def fun_eq_iff)
  show ?thesis
  proof (cases req)
    case ReqListBackends
    then show ?thesis using assms
      by (auto simp: srv_ListBackends_def servers_alike_def send Let_def)
  next
    case (ReqBulkUpdate be ent body)
    with assms idc show ?thesis
      unfolding ReqBulkUpdate serve.simps handler_defs request_backend.simps
      by (intro follows_handleBackend) (auto simp: send intro!: follows_operations split: sum.split option.split)
  qed (simp only: serve.simps handler_defs Let_def request_backend.simps, insert assms, simp only: request_backend.simps,
      erule follows_handleBackend, auto simp: send intro!: follows_operations split: sum.split option.split)+
qed

end
