(* ===== verification/Interleaving.thy ===== *)
theory Interleaving
  imports Replay
begin

text \<open>
  Requests of one backend that run at the same time: each is a process that makes one database call
  after the other, and a schedule says whose turn it is. The pool of connections of \<^verbatim>\<open>database/sql\<close>
  decides who may go on, and the end of a request's context rolls back a transaction it left open.
\<close>

section \<open>Processes\<close>

text \<open>A process is what a request does with a list of replies: how it ends, and its calls. It waits for
  the reply to its next call when there are more calls than replies.\<close>

type_synonym process = "reply list \<Rightarrow> writer outcome \<times> dbcall list"

definition next_call :: "process \<Rightarrow> reply list \<Rightarrow> dbcall option" where
  "next_call run h = (let cs = snd (run h) in if length h < length cs then Some (cs ! length h) else None)"

definition request_run :: "(reply list, 'c) restServer \<Rightarrow> (gval \<Rightarrow> string) \<Rightarrow> 'c \<Rightarrow> api_request \<Rightarrow> process" where
  "request_run rs enc c req h =
     (case in_world (serve rs enc req) (request_backend req) (on_replies h c []) of (r, w) \<Rightarrow> (r, w_calls w))"

text \<open>The kind of reply a call gets. Pool settings get none; they are made before the first request.\<close>

fun fits :: "dbcall \<Rightarrow> reply \<Rightarrow> bool" where
  "fits (CQuery q a) x = (case x of RRows r \<Rightarrow> True | _ \<Rightarrow> False)"
| "fits (CExec q a) x = (case x of RExec r \<Rightarrow> True | _ \<Rightarrow> False)"
| "fits (CSet what n) x = False"
| "fits c x = (case x of RDone r \<Rightarrow> True | _ \<Rightarrow> False)"

primrec is_setting :: "dbcall \<Rightarrow> bool" where
  "is_setting (CQuery q a) = False"
| "is_setting (CExec q a) = False"
| "is_setting CBegin = False"
| "is_setting (CTxExec q a) = False"
| "is_setting CCommit = False"
| "is_setting CRollback = False"
| "is_setting CClose = False"
| "is_setting (CSet s n) = True"

lemma perform_fits: "perform drv c d = (x, d') \<Longrightarrow> \<not> is_setting c \<Longrightarrow> fits c x"
  by (cases c) (auto split: prod.splits)

lemma fits_replay: "fits c x \<Longrightarrow> perform replay_driver c (x # h) = (x, h)"
  by (cases c; cases x) (simp_all add: replay_driver_def)

text \<open>Replies a process has really waited for.\<close>

definition asked :: "process \<Rightarrow> reply list \<Rightarrow> bool" where
  "asked run h \<longleftrightarrow> length h \<le> length (snd (run h)) \<and> list_all2 fits (take (length h) (snd (run h))) h"

text \<open>The contract of a process: a further reply does not change the calls made so far.\<close>

locale coherent_process =
  fixes ok :: bool and run :: process
  assumes coherent: "ok \<Longrightarrow> list_all2 fits (take (length h) (snd (run h))) h \<Longrightarrow> length h < length (snd (run h)) \<Longrightarrow>
    take (Suc (length h)) (snd (run (h @ [x]))) = take (Suc (length h)) (snd (run h))"
    and no_settings: "ok \<Longrightarrow> list_all (\<lambda>c. \<not> is_setting c) (snd (run h))"
begin

lemma asked_snoc:
  assumes ok and "asked run h" "next_call run h = Some c" "fits c x"
  shows "asked run (h @ [x])" "take (Suc (length h)) (snd (run (h @ [x]))) = take (length h) (snd (run h)) @ [c]"
proof -
  have less: "length h < length (snd (run h))" and c: "c = snd (run h) ! length h"
    using assms(3) by (auto simp: next_call_def Let_def split: if_splits)
  have "list_all2 fits (take (length h) (snd (run h))) h" using assms(2) by (simp add: asked_def)
  from coherent [OF assms(1) this less, of x] less c
  show t: "take (Suc (length h)) (snd (run (h @ [x]))) = take (length h) (snd (run h)) @ [c]"
    by (simp add: take_Suc_conv_app_nth)
  from arg_cong [OF t, of length] less have "Suc (length h) \<le> length (snd (run (h @ [x])))" by simp
  with t assms(2,4) show "asked run (h @ [x])" by (simp add: asked_def list_all2_appendI)
qed

lemma next_not_setting: "ok \<Longrightarrow> next_call run h = Some c \<Longrightarrow> \<not> is_setting c"
  using no_settings [of h] by (auto simp: next_call_def Let_def list_all_iff split: if_splits)

end

text \<open>Every request of the API is such a process.\<close>

lemma performs_replay:
  "length h \<le> length cs \<Longrightarrow> list_all2 fits (take (length h) cs) h \<Longrightarrow>
   take (length h) (fst (performs replay_driver cs h)) = h"
proof (induction cs arbitrary: h)
  case (Cons c cs)
  show ?case
  proof (cases h)
    case (Cons x h')
    with Cons.prems have "perform replay_driver c (x # h') = (x, h')" by (intro fits_replay) auto
    with Cons.IH [of h'] Cons.prems Cons show ?thesis by (simp split: prod.splits) (metis fst_conv)
  qed simp
qed simp

lemma request_run_calls: "snd (request_run rs enc c req h) =
    w_calls (snd (in_world (serve rs enc req) (request_backend req) (on_replies h c [])))"
  by (simp add: request_run_def split: prod.split)

lemma request_run_coherent:
  assumes "servers_alike replay_driver (request_backend req) rs rs"
    and "list_all2 fits (take (length h) (snd (request_run rs enc c req h))) h"
    and "length h < length (snd (request_run rs enc c req h))"
  shows "take (Suc (length h)) (snd (request_run rs enc c req (h @ [x]))) =
    take (Suc (length h)) (snd (request_run rs enc c req h))"
proof -
  let ?m = "in_world (serve rs enc req) (request_backend req)"
  obtain cs where cs: "replays replay_driver (on_replies h c []) (fst (?m (on_replies h c []))) (snd (?m (on_replies h c []))) ?m cs"
    using follows_serve [OF assms(1)] unfolding follows_def by blast
  note d = replaysD [OF cs]
  have run: "snd (request_run rs enc c req h) = cs"
    using d(1) by (simp add: request_run_calls on_replies_def)
  then have "take (length h) (fst (performs replay_driver cs h)) = h"
    using assms(2,3) by (intro performs_replay) simp_all
  moreover obtain cs' where "w_calls (snd (?m (on_replies (h @ [x]) c []))) = cs'"
    "agree_until (fst (performs replay_driver cs h)) cs (h @ [x]) cs'"
    using d(4) [of "h @ [x]" "[]"] by (auto simp: on_replies_def)
  ultimately show ?thesis
    using assms(3) run by (simp add: request_run_calls agree_until_def)
qed

text \<open>A server whose requests are run on replies.\<close>

definition on_replay :: "(reply list, 'c) restServer \<Rightarrow> api_request \<Rightarrow> bool" where
  "on_replay rs req \<longleftrightarrow> servers_alike replay_driver (request_backend req) rs rs \<and> lawful_caches rs"

lemma request_run_permitted:
  assumes "lawful_caches rs"
  shows "list_all (may_add rs (request_backend req)) (snd (request_run rs enc c req h))"
proof -
  let ?n = "request_backend req"
  obtain r ws where run: "serve rs enc req (\<lambda>k. on_replies h c []) = (r, ws)" by fastforce
  have "at_backend ?n (adds (may_add rs ?n)) (\<lambda>k. on_replies h c []) (snd (serve rs enc req (\<lambda>k. on_replies h c [])))"
    using serve_permitted [OF assms, of ?n enc req] unfolding keeps_def by blast
  with run show ?thesis
    by (auto simp: request_run_def in_world_def at_backend_def adds_def on_replies_def)
qed

lemma may_add_not_setting: "may_add rs n c \<Longrightarrow> \<not> is_setting c"
  by (cases c) (auto simp: may_add_def split: option.splits)

interpretation request: coherent_process "on_replay rs req" "request_run rs enc c req" for rs enc c req
proof unfold_locales
  fix h x
  assume "on_replay rs req" "list_all2 fits (take (length h) (snd (request_run rs enc c req h))) h"
    "length h < length (snd (request_run rs enc c req h))"
  then show "take (Suc (length h)) (snd (request_run rs enc c req (h @ [x]))) =
      take (Suc (length h)) (snd (request_run rs enc c req h))"
    by (intro request_run_coherent) (simp_all add: on_replay_def)
next
  fix h
  assume "on_replay rs req"
  then have "list_all (may_add rs (request_backend req)) (snd (request_run rs enc c req h))"
    by (intro request_run_permitted) (simp add: on_replay_def)
  then show "list_all (\<lambda>c. \<not> is_setting c) (snd (request_run rs enc c req h))"
    by (rule list.pred_mono_strong) (rule may_add_not_setting)
qed

section \<open>The system\<close>

text \<open>
  The database, the replies each process has had, which processes hold a connection for a transaction,
  which have ended, and the calls in the order in which the database got them.
\<close>

record 'd system =
  sy_db :: 'd
  sy_hist :: "reply list list"
  sy_tx :: "bool list"
  sy_ended :: "bool list"
  sy_log :: "(nat \<times> dbcall \<times> reply) list"

definition fresh_system :: "nat \<Rightarrow> 'd \<Rightarrow> 'd system" where
  "fresh_system n d = \<lparr>sy_db = d, sy_hist = replicate n [], sy_tx = replicate n False, sy_ended = replicate n False, sy_log = []\<rparr>"

text \<open>Calls of a transaction have its connection, all others need a free one. The limit is
  \<^verbatim>\<open>SetMaxOpenConns\<close>: none when it is not configured or not positive.\<close>

primrec uses_tx :: "dbcall \<Rightarrow> bool" where
  "uses_tx (CQuery q a) = False"
| "uses_tx (CExec q a) = False"
| "uses_tx CBegin = False"
| "uses_tx (CTxExec q a) = True"
| "uses_tx CCommit = True"
| "uses_tx CRollback = True"
| "uses_tx CClose = False"
| "uses_tx (CSet s n) = False"

definition conn_free :: "int option \<Rightarrow> bool list \<Rightarrow> bool" where
  "conn_free mx tx \<longleftrightarrow> (case mx of None \<Rightarrow> True | Some n \<Rightarrow> n \<le> 0 \<or> int (length (filter (\<lambda>b. b) tx)) < n)"

text \<open>Whether a process is in a transaction after a call and its reply. Commit and rollback give the
  connection back, also when they fail.\<close>

fun tx_after :: "dbcall \<Rightarrow> reply \<Rightarrow> bool \<Rightarrow> bool" where
  "tx_after CBegin x b = (x = RDone None)"
| "tx_after CCommit x b = False"
| "tx_after CRollback x b = False"
| "tx_after c x b = b"

text \<open>
  One turn of a process: its next call, if there is a connection for it; or, after its last call, the
  end of the request: \<^verbatim>\<open>net/http\<close> cancels the request's context, also when the handler panicked, and
  \<^verbatim>\<open>database/sql\<close> rolls back a transaction that was begun with it and is still open.
\<close>

definition turn :: "(nat \<Rightarrow> 'd driver) \<Rightarrow> int option \<Rightarrow> process list \<Rightarrow> nat \<Rightarrow> 'd system \<Rightarrow> 'd system option" where
  "turn drv mx procs p s =
     (if p < length procs \<and> \<not> sy_ended s ! p then
        (case next_call (procs ! p) (sy_hist s ! p) of
           Some c \<Rightarrow>
             (if uses_tx c \<or> conn_free mx (sy_tx s) then
                (case perform (drv p) c (sy_db s) of (x, d) \<Rightarrow>
                   Some (s\<lparr>sy_db := d, sy_hist := (sy_hist s)[p := sy_hist s ! p @ [x]],
                     sy_tx := (sy_tx s)[p := tx_after c x (sy_tx s ! p)], sy_log := sy_log s @ [(p, c, x)]\<rparr>))
              else None)
         | None \<Rightarrow>
             (if sy_tx s ! p then
                (case perform (drv p) CRollback (sy_db s) of (x, d) \<Rightarrow>
                   Some (s\<lparr>sy_db := d, sy_tx := (sy_tx s)[p := False], sy_ended := (sy_ended s)[p := True],
                     sy_log := sy_log s @ [(p, CRollback, x)]\<rparr>))
              else Some (s\<lparr>sy_ended := (sy_ended s)[p := True]\<rparr>)))
      else None)"

text \<open>What a schedule leads to.\<close>

inductive scheduled :: "(nat \<Rightarrow> 'd driver) \<Rightarrow> int option \<Rightarrow> process list \<Rightarrow> 'd system \<Rightarrow> nat list \<Rightarrow> 'd system \<Rightarrow> bool"
  for drv mx procs s0 where
  sched_start: "scheduled drv mx procs s0 [] s0"
| sched_turn: "scheduled drv mx procs s0 ps s \<Longrightarrow> turn drv mx procs p s = Some s' \<Longrightarrow> scheduled drv mx procs s0 (ps @ [p]) s'"

inductive_simps scheduled_Nil [simp]: "scheduled drv mx procs s0 [] s"

inductive_cases scheduled_snocE: "scheduled drv mx procs s0 (ps @ [p]) s"

text \<open>The three kinds of turn.\<close>

lemma turn_cases:
  assumes "turn drv mx procs p s = Some s'"
  obtains (call) c x d where "p < length procs" "\<not> sy_ended s ! p" "next_call (procs ! p) (sy_hist s ! p) = Some c"
      "uses_tx c \<or> conn_free mx (sy_tx s)" "perform (drv p) c (sy_db s) = (x, d)"
      "s' = s\<lparr>sy_db := d, sy_hist := (sy_hist s)[p := sy_hist s ! p @ [x]],
         sy_tx := (sy_tx s)[p := tx_after c x (sy_tx s ! p)], sy_log := sy_log s @ [(p, c, x)]\<rparr>"
  | (rolled_back) x d where "p < length procs" "\<not> sy_ended s ! p" "next_call (procs ! p) (sy_hist s ! p) = None"
      "sy_tx s ! p" "perform (drv p) CRollback (sy_db s) = (x, d)"
      "s' = s\<lparr>sy_db := d, sy_tx := (sy_tx s)[p := False], sy_ended := (sy_ended s)[p := True],
         sy_log := sy_log s @ [(p, CRollback, x)]\<rparr>"
  | (finished) "p < length procs" "\<not> sy_ended s ! p" "next_call (procs ! p) (sy_hist s ! p) = None"
      "\<not> sy_tx s ! p" "s' = s\<lparr>sy_ended := (sy_ended s)[p := True]\<rparr>"
  using assms unfolding turn_def by (auto split: if_splits option.splits prod.splits)

section \<open>What every schedule keeps\<close>

text \<open>The part of the log that belongs to one process.\<close>

definition own :: "nat \<Rightarrow> (nat \<times> dbcall \<times> reply) list \<Rightarrow> (dbcall \<times> reply) list" where
  "own p log = map snd (filter (\<lambda>(q, e). q = p) log)"

lemma own_snoc [simp]: "own p (log @ [(q, e)]) = (if q = p then own p log @ [e] else own p log)"
  by (simp add: own_def)

lemma own_Nil [simp]: "own p [] = []"
  by (simp add: own_def)

definition tx_run :: "(dbcall \<times> reply) list \<Rightarrow> bool" where
  "tx_run es = fold (\<lambda>(c, x) b. tx_after c x b) es False"

lemma tx_run_simps [simp]: "tx_run [] = False" "tx_run (es @ [(c, x)]) = tx_after c x (tx_run es)"
  by (simp_all add: tx_run_def)

text \<open>A process has made the calls it makes on its replies, and after its end at most the rollback of a
  transaction it left open.\<close>

definition process_inv :: "process \<Rightarrow> reply list \<Rightarrow> bool \<Rightarrow> bool \<Rightarrow> (dbcall \<times> reply) list \<Rightarrow> bool" where
  "process_inv run h tx ended es \<longleftrightarrow>
     asked run h \<and>
     (if ended then next_call run h = None \<and> \<not> tx \<and>
        (if tx_run (zip (snd (run h)) h) then \<exists>x. es = zip (snd (run h)) h @ [(CRollback, x)] else es = zip (snd (run h)) h)
      else es = zip (snd (run h)) h \<and> tx = tx_run es)"

definition system_inv :: "process list \<Rightarrow> 'd system \<Rightarrow> bool" where
  "system_inv procs s \<longleftrightarrow>
     length (sy_hist s) = length procs \<and> length (sy_tx s) = length procs \<and> length (sy_ended s) = length procs \<and>
     (\<forall>e \<in> set (sy_log s). fst e < length procs) \<and>
     (\<forall>p < length procs. process_inv (procs ! p) (sy_hist s ! p) (sy_tx s ! p) (sy_ended s ! p) (own p (sy_log s)))"

lemma fresh_system_inv: "system_inv procs (fresh_system (length procs) d)"
  by (simp add: system_inv_def fresh_system_def process_inv_def asked_def)

lemma zip_take_left: "zip (take (length ys) xs) ys = zip xs ys"
proof (induction ys arbitrary: xs)
  case (Cons y ys)
  then show ?case by (cases xs) simp_all
qed simp

lemma process_inv_call:
  assumes "coherent_process True run" "process_inv run h tx False es" "next_call run h = Some c" "fits c x"
  shows "process_inv run (h @ [x]) (tx_after c x tx) False (es @ [(c, x)])"
proof -
  have h: "asked run h" "es = zip (snd (run h)) h" "tx = tx_run es" using assms(2) by (simp_all add: process_inv_def)
  note s = coherent_process.asked_snoc [OF assms(1) TrueI h(1) assms(3,4)]
  have "zip (snd (run (h @ [x]))) (h @ [x]) = zip (take (length h) (snd (run h)) @ [c]) (h @ [x])"
    using zip_take_left [of "h @ [x]" "snd (run (h @ [x]))"] s(2) by simp
  also have "\<dots> = es @ [(c, x)]" using h(1,2) by (simp add: asked_def zip_take_left)
  finally show ?thesis using s(1) h(3) by (simp add: process_inv_def)
qed

lemma process_inv_end:
  assumes "process_inv run h tx False es" "next_call run h = None"
  shows "process_inv run h False True (if tx then es @ [(CRollback, x)] else es)"
  using assms by (auto simp: process_inv_def)

lemma system_inv_process:
  assumes "system_inv procs s" "p < length procs"
  shows "process_inv (procs ! p) (sy_hist s ! p) (sy_tx s ! p) (sy_ended s ! p) (own p (sy_log s))"
  using assms unfolding system_inv_def by blast

text \<open>A turn of one process leaves the others alone.\<close>

lemma own_append: "own q (log @ map (Pair p) es) = own q log @ (if p = q then es else [])"
  by (induction es) (simp_all add: own_def o_def)

lemma system_inv_at:
  assumes "system_inv procs s" "p < length procs" "process_inv (procs ! p) h b e (own p (sy_log s) @ es)"
    and "sy_hist s' = (sy_hist s)[p := h]" "sy_tx s' = (sy_tx s)[p := b]" "sy_ended s' = (sy_ended s)[p := e]"
      "sy_log s' = sy_log s @ map (Pair p) es"
  shows "system_inv procs s'"
proof -
  have sizes: "\<forall>e \<in> set (sy_log s). fst e < length procs" "length (sy_hist s) = length procs"
    "length (sy_tx s) = length procs" "length (sy_ended s) = length procs"
    using assms(1) unfolding system_inv_def by blast+
  have others: "process_inv (procs ! q) (sy_hist s ! q) (sy_tx s ! q) (sy_ended s ! q) (own q (sy_log s))"
    if "q < length procs" for q using assms(1) that unfolding system_inv_def by blast
  have "process_inv (procs ! q) (sy_hist s' ! q) (sy_tx s' ! q) (sy_ended s' ! q) (own q (sy_log s'))"
    if "q < length procs" for q
  proof (cases "q = p")
    case True
    then show ?thesis using assms(2,3) sizes by (simp add: assms(4-7) own_append)
  next
    case False
    then show ?thesis using others [OF that] by (simp add: assms(4-7) own_append)
  qed
  moreover have "\<forall>e \<in> set (sy_log s'). fst e < length procs" "length (sy_hist s') = length procs"
    "length (sy_tx s') = length procs" "length (sy_ended s') = length procs"
    using sizes assms(2) by (auto simp: assms(4-7))
  ultimately show ?thesis unfolding system_inv_def by blast
qed

lemma system_inv_turn:
  assumes "list_all (coherent_process True) procs" "system_inv procs s" "turn drv mx procs p s = Some s'"
  shows "system_inv procs s'"
  using assms(3)
proof (cases rule: turn_cases)
  case (call c x d)
  have "coherent_process True (procs ! p)" using assms(1) call(1) by (simp add: list_all_length)
  moreover have "fits c x" using perform_fits [OF call(5)] coherent_process.next_not_setting [OF calculation TrueI call(3)] by simp
  moreover have "process_inv (procs ! p) (sy_hist s ! p) (sy_tx s ! p) False (own p (sy_log s))"
    using system_inv_process [OF assms(2) call(1)] call(2) by simp
  ultimately have "process_inv (procs ! p) (sy_hist s ! p @ [x]) (tx_after c x (sy_tx s ! p)) False (own p (sy_log s) @ [(c, x)])"
    by (intro process_inv_call [OF _ _ call(3)]) simp_all
  moreover have "sy_ended s = (sy_ended s)[p := False]" using call(2) by (metis list_update_id)
  ultimately show ?thesis by (intro system_inv_at [OF assms(2) call(1), where es = "[(c, x)]"]) (simp_all add: call(6))
next
  case (rolled_back x d)
  have "process_inv (procs ! p) (sy_hist s ! p) True False (own p (sy_log s))"
    using system_inv_process [OF assms(2) rolled_back(1)] rolled_back(2,4) by simp
  from process_inv_end [OF this rolled_back(3), of x] have "process_inv (procs ! p) (sy_hist s ! p) False True (own p (sy_log s) @ [(CRollback, x)])"
    by simp
  from system_inv_at [OF assms(2) rolled_back(1) this, of s'] rolled_back(6) show ?thesis by simp
next
  case finished
  have "process_inv (procs ! p) (sy_hist s ! p) False False (own p (sy_log s))"
    using system_inv_process [OF assms(2) finished(1)] finished(2,4) by simp
  from process_inv_end [OF this finished(3)] have "process_inv (procs ! p) (sy_hist s ! p) False True (own p (sy_log s) @ [])"
    by simp
  moreover have "sy_tx s = (sy_tx s)[p := False]" using finished(4) by (metis list_update_id)
  ultimately show ?thesis by (intro system_inv_at [OF assms(2) finished(1), where es = "[]" and h = "sy_hist s ! p"]) (simp_all add: finished(5))
qed

lemma scheduled_inv:
  assumes "scheduled drv mx procs s0 ps s" "list_all (coherent_process True) procs" "system_inv procs s0"
  shows "system_inv procs s"
  using assms by (induction rule: scheduled.induct) (auto intro: system_inv_turn)

end
