(* ===== verification/Misrouted.thy ===== *)
theory Misrouted
  imports Request_Delivery
begin

text \<open>
  Requests that do not reach the handler of their operation: two entity names share their paths with
  other operations, and item ids with a slash (or without any character) have no route.
\<close>

section \<open>Shadowed entities\<close>

lemma one_less_eleven: "(1 :: nat) < 11" by simp

lemma misroute_entities:
  assumes sv: "serving im style rs scheme host psegs h" and "name_ok be" "Order ps \<noteq> Some []"
  shows "Client_ListItems style (client_of (over_http sniff enc h) scheme host psegs) be ''entities'' (Some ps) [] =
    answer sniff enc ''GET'' (srv_ListEntities rs be fresh_writer)"
proof -
  have ent: "name_ok ''entities''" by simp
  let ?segs = "[esc style ''backend'' be, esc style ''entity'' ''entities'']"
  obtain query where req: "NewListItemsRequest style (server_url scheme host psegs) be ''entities'' (Some ps) =
      Inr (wire_request ''GET'' scheme host (psegs @ ?segs) query None None)"
    using build_listing [OF serving_facts(3) [OF sv] assms(2) ent] .
  have names: "list_all name_ok [be, ''entities'']" "2 \<le> length [be, ''entities''] \<or> [be, ''entities''] = [''backends''] \<or> [be, ''entities''] = [''version'']"
    using assms(2) by simp_all
  show ?thesis
    unfolding Client_ListItems_def client_of_Server req client_of_do
      delivered_route [OF sv item_segs(1) [OF serving_facts(4) [OF sv]] names entity_route(4) [OF assms(2) assms(2)]
        one_less_eleven]
    using assms(2) by (simp add: siw_ListEntities_def with_path_ok [OF serving_facts(6) [OF sv]]
        deployed_wrapper_through [OF serving_facts(1) [OF sv]] api_routes_def rest_handlers_def name_ok_def)
qed

definition no_params :: QueryNamedParams where
  "no_params = \<lparr>qn_PageOffset = None, qn_PageSize = None, qn_Arg = None\<rparr>"

lemma empty_query: "url_Query (rq_URL (wire_request meth scheme host segs [] ct body)) = []"
  by (simp add: wire_request_def absolute_url_def url_Query_def add_piece_def query_pair_def)

lemma misroute_query:
  assumes sv: "serving im style rs scheme host psegs h" and "name_ok be" "name_ok oid"
  shows "Client_GetItemById style (client_of (over_http sniff enc h) scheme host psegs) be ''_query'' oid [] =
    answer sniff enc ''GET'' (srv_QueryNamed rs be oid no_params fresh_writer)"
proof -
  have ints: "opt_int_ok (qn_PageOffset no_params)" "opt_int_ok (qn_PageSize no_params)" and ps: "arrived no_params = no_params"
    by (simp_all add: no_params_def opt_int_ok_def arrived_def sent_def)
  have names: "list_all name_ok [be, ''_query'', oid]"
    "2 \<le> length [be, ''_query'', oid] \<or> [be, ''_query'', oid] = [''backends''] \<or> [be, ''_query'', oid] = [''version'']"
    using assms(2,3) by simp_all
  have two: "(2 :: nat) < 11" by simp
  have spec: "add_pairs (spec_pairs (named_spec no_params)) [] = []"
    by (simp add: named_spec_def no_params_def spec_pairs_def value_list_def add_pairs_def)
  note bound = bound_QueryNamed [OF serving_facts(1) [OF sv] serving_facts(6) [OF sv] assms(2,3) ints, unfolded spec ps, OF empty_query]
  show ?thesis
    unfolding Client_GetItemById_def NewGetItemByIdRequest_def client_of_Server
      item_request [OF sv assms(2) name_ok_literals(3) assms(3)] client_of_do
      delivered_route [OF sv item_segs(2) [OF serving_facts(4) [OF sv]] names entity_route(5) [OF assms(2,3)] two]
    by (simp add: api_routes_def bound)
qed

section \<open>Ids without a route\<close>

lemma join_path_split: "join_path (split_on (CHR ''/'') s) = CHR ''/'' # s"
proof (induction s)
  case (Cons c s)
  then show ?case by (cases "split_on (CHR ''/'') s") auto
qed simp

lemma split_on_slash: "CHR ''/'' \<in> set s \<Longrightarrow> 2 \<le> length (split_on (CHR ''/'') s)"
proof (induction s)
  case (Cons c s)
  have "split_on (CHR ''/'') s \<noteq> []" by (cases s) (auto split: list.splits)
  with Cons show ?case by (cases "split_on (CHR ''/'') s") auto
qed simp

text \<open>Ids that the router does not see as one segment. What lies between the slashes is a name by itself:
  with an empty part, \<^verbatim>\<open>.\<close> or \<^verbatim>\<open>..\<close> the router would redirect to the cleaned path instead, which may
  even be the path of another item.\<close>

definition unroutable_id :: "string \<Rightarrow> bool" where
  "unroutable_id oid \<longleftrightarrow>
     oid = [] \<or> (CHR ''/'' \<in> set oid \<and> list_all name_ok (split_on (CHR ''/'') oid))"

lemma no_route_long: "4 \<le> length ds \<Longrightarrow> list_all (\<lambda>(ts, m). match_segs ts ds = None) api_segs"
  by (cases ds; cases "tl ds"; cases "tl (tl ds)"; cases "tl (tl (tl ds))")
    (auto simp: api_segs_def split: option.splits)

lemma no_route_empty: "list_all (\<lambda>(ts, m). match_segs ts [be, ent, []] = None) api_segs"
  by (simp add: api_segs_def split: option.split)

lemma find_segs_none: "list_all (\<lambda>(ts, m). match_segs ts ds = None) routes \<Longrightarrow> find_segs i routes meth ds = None"
  by (induction routes arbitrary: i) auto

lemma unroutable_request:
  assumes sv: "serving im style rs scheme host psegs h" and names: "name_ok be" "name_ok ent"
    and oid: "unroutable_id oid"
  shows "\<exists>f. no_route_reply False f \<and>
    over_http sniff enc h (wire_request meth scheme host
      (psegs @ [esc style ''backend'' be, esc style ''entity'' ent, esc style ''id'' oid]) query ct body) =
      answer sniff enc meth (preturn (f fresh_writer))"
proof -
  let ?segs = "[esc style ''backend'' be, esc style ''entity'' ent, esc style ''id'' oid]"
  let ?r = "wire_request meth scheme host (psegs @ ?segs) query ct body"
  define ds where "ds = be # ent # split_on (CHR ''/'') oid"
  have "request_path ?r = join_path (psegs @ [be, ent, oid])"
    by (rule request_path_segs [OF serving_facts(5) [OF sv] item_segs(2) [OF serving_facts(4) [OF sv]]])
  then have path: "request_path ?r = join_path (psegs @ ds)"
    by (simp add: ds_def join_path_split)
  have none: "list_all (\<lambda>(ts, m). match_segs ts ds = None) api_segs"
  proof (cases "oid = []")
    case False
    with oid split_on_slash [of oid] have "4 \<le> length ds" by (simp add: unroutable_id_def ds_def)
    then show ?thesis by (rule no_route_long)
  qed (simp add: ds_def no_route_empty)
  then have known: "list_ex (\<lambda>(ts, m). match_segs ts ds \<noteq> None) api_segs = False"
    by (auto simp: list_ex_iff list_all_iff)
  have parts: "list_all name_ok (butlast ds)" "last ds = [] \<or> name_ok (last ds)"
    using oid names by (auto simp: unroutable_id_def ds_def list_all_iff dest: in_set_butlastD)
  have "list_all (\<lambda>s. CHR ''/'' \<notin> set s) ds"
    using names split_on_piece [of _ "CHR ''/''" oid] by (auto simp: ds_def list_all_iff name_ok_def)
  moreover have "2 \<le> length ds \<or> ds = [''backends''] \<or> ds = [''version'']"
    using oid split_on_slash [of oid] by (auto simp: ds_def unroutable_id_def)
  ultimately show ?thesis
    using delivered [OF serving_facts(1,2) [OF sv] path, of sniff enc] find_segs_none [OF none, of 0 meth] known parts
    by (auto simp: list_all_iff name_ok_def)
qed

end
