(* ===== verification/End_To_End.thy ===== *)
theory End_To_End
  imports Reference_Deployment Misrouted Client_Properties Query_Properties
begin

text \<open>
  The typed client of \<^verbatim>\<open>pkg/client\<close> over the deployed server: what a caller gets back for what the
  CRUD operation of the server returned, with both JSON encodings, the error mapping and the panics
  in between.
\<close>

section \<open>Bodies\<close>

text \<open>Maps have no order in Go: their JSON text has the keys sorted, and so has what is decoded.
  The numbers of a row are within the range of \<^verbatim>\<open>float64\<close>.\<close>

definition row_ok :: "gmap \<Rightarrow> bool" where
  "row_ok m \<longleftrightarrow> distinct (map fst m) \<and> list_all (\<lambda>(k, v). json_ok v) m"

definition dto_wire :: "(gval \<Rightarrow> string) \<Rightarrow> gmap \<Rightarrow> gmap" where
  "dto_wire enc m = sort_key fst (map (\<lambda>(k, v). (k, json_norm enc v)) m)"

lemma sort_key_map_fst:
  "sort_key fst (map (\<lambda>(k, v). (k, f v)) m) = map (\<lambda>(k, v). (k, f v)) (sort_key fst m)"
proof (induction m)
  case (Cons kv m)
  have "insort_key fst (case kv of (k, v) \<Rightarrow> (k, f v)) (map (\<lambda>(k, v). (k, f v)) xs) =
      map (\<lambda>(k, v). (k, f v)) (insort_key fst kv xs)" for xs
    by (induction xs) (auto split: prod.splits)
  with Cons show ?case by simp
qed simp

lemma json_enc_sorted: "json_enc enc (VMap (sort_key fst m)) = json_enc enc (VMap m)"
proof -
  have "sort_key fst (sort_key fst m) = sort_key fst m" for m :: "(string \<times> string) list"
    by (rule sort_key_id_if_sorted) simp
  then show ?thesis by (simp add: sort_key_map_fst [symmetric])
qed

lemma row_ok_canon: "row_ok m \<Longrightarrow> json_canon (VMap (sort_key fst m))"
  using sorted_sort_key [of fst m]
  by (auto simp: row_ok_def json_ok_def list_all_iff strict_sorted_iff distinct_map)

text \<open>The text of a row as a tree, and the row decoded from it.\<close>

definition dto_raw :: "(gval \<Rightarrow> string) \<Rightarrow> gmap \<Rightarrow> gmap" where
  "dto_raw enc m = sort_key fst (map (\<lambda>(k, v). (k, json_raw enc v)) m)"

lemma json_raw_row: "json_raw enc (VMap (sort_key fst m)) = VMap (dto_raw enc m)"
  by (simp add: dto_raw_def sort_key_map_fst)

lemma as_dto_row: "row_ok m \<Longrightarrow> as_dto (VMap (dto_raw enc m)) = Some (dto_wire enc m)"
  by (auto simp: row_ok_def json_ok_def dto_raw_def dto_wire_def sort_key_map_fst list_all_iff
      json_finite_raw json_any_raw)

lemma num_stop_ws: "list_all ws_char nl \<Longrightarrow> num_stop nl"
  by (cases nl) (auto simp: num_stop_def ws_char_def is_digit_def)

lemma skip_ws_all: "list_all ws_char nl \<Longrightarrow> skip_ws nl = []"
  by (simp add: skip_ws_def list_all_iff)

lemma unmarshal_enc:
  assumes "json_canon v" "list_all ws_char nl"
  shows "json_unmarshal (json_enc enc v @ nl) = Some (json_raw enc v)"
  using p_value_json_enc [OF assms(1) num_stop_ws [OF assms(2)], of "2 * length (json_enc enc v @ nl) + 2" enc]
    json_fuel_length [OF assms(1), of enc] skip_ws_all [OF assms(2)]
  by (simp add: json_unmarshal_def)

lemma unmarshal_row:
  assumes "row_ok m" "list_all ws_char nl"
  shows "json_unmarshal (json_enc enc (VMap m) @ nl) = Some (VMap (dto_raw enc m))"
  using unmarshal_enc [OF row_ok_canon [OF assms(1)] assms(2), of enc]
  by (simp only: json_enc_sorted json_raw_row)

lemma decode_row: "row_ok m \<Longrightarrow> decode_body as_dto (request_text enc (VMap m)) = Inr (dto_wire enc m)"
  using json_decode_enc [OF row_ok_canon, of m "[]" enc] as_dto_row [of m enc]
  by (simp add: decode_body_def request_text_def json_enc_sorted json_raw_row num_stop_def
      del: json_enc.simps json_raw.simps as_dto.simps)

section \<open>Replies\<close>

text \<open>What is relied on of the imported output builder and of the guess of a content type.\<close>

definition json_sender :: "sender \<Rightarrow> bool" where
  "json_sender send \<longleftrightarrow> sender_lawful send \<and>
     (\<forall>mapper v st. \<exists>ct nl. contains_json ct \<and> list_all ws_char nl \<and>
        send mapper (PVal v) st fresh_writer =
          \<lparr>wr_Status = Some st, wr_ContentType = Some ct, wr_Body = [WJson v, WText nl]\<rparr>)"

definition sniff_lawful :: "(string \<Rightarrow> string) \<Rightarrow> bool" where
  "sniff_lawful sniff \<longleftrightarrow> (\<forall>s. \<not> contains_json (sniff s))"

lemma value_reply:
  assumes "json_sender (sv_send rs)" "meth \<noteq> ''HEAD''"
  obtains ct nl where "contains_json ct" "list_all ws_char nl"
    "http_answer sniff enc meth (SendWithStatus rs (PVal v) st fresh_writer) =
      \<lparr>hr_StatusCode = st, hr_ContentType = ct, hr_Body = Inr (json_enc enc v @ nl)\<rparr>"
proof -
  from assms(1) obtain ct nl where "contains_json ct" "list_all ws_char nl"
    "SendWithStatus rs (PVal v) st fresh_writer =
      \<lparr>wr_Status = Some st, wr_ContentType = Some ct, wr_Body = [WJson v, WText nl]\<rparr>"
    unfolding json_sender_def SendWithStatus_def by blast
  with that assms(2) show thesis by (simp add: http_answer_def body_text_def final_status_def)
qed

definition handled :: "goerr \<Rightarrow> bool" where
  "handled e \<longleftrightarrow> as_MySQLError e \<noteq> None \<or> as_ErrorWithStatus e \<noteq> None"

definition error_code :: "int \<Rightarrow> goerr \<Rightarrow> int" where
  "error_code st e =
     (case as_MySQLError e of
        Some (n, msg) \<Rightarrow> (case mysqlError2status n of Some x \<Rightarrow> x | None \<Rightarrow> StatusInternalServerError)
      | None \<Rightarrow> (case as_ErrorWithStatus e of
          Some (s, msg) \<Rightarrow> (if s = 0 then StatusOK else s)
        | None \<Rightarrow> st))"

lemma error_reply:
  assumes "json_sender (sv_send rs)" "sniff_lawful sniff" "handled e"
  obtains ct body where "\<not> contains_json ct"
    "http_answer sniff enc meth (SendWithStatus rs (PErr e) st fresh_writer) =
      \<lparr>hr_StatusCode = error_code st e, hr_ContentType = ct, hr_Body = Inr body\<rparr>"
proof -
  let ?m = "error_mapper (sv_my rs)" and ?w = "fst (error_mapper (sv_my rs) fresh_writer e)"
  have "snd (?m fresh_writer e)" using assms(3)
    by (auto simp: handled_def error_mapper_def Let_def split: option.splits)
  then have send: "SendWithStatus rs (PErr e) st fresh_writer = ?w"
    using assms(1) by (simp add: SendWithStatus_def json_sender_def sender_lawful_def)
  have "\<not> contains_json []" by (simp add: contains_json_def)
  then have "\<not> contains_json (hr_ContentType (http_answer sniff enc meth ?w)) \<and>
      final_status ?w = error_code st e"
    using assms(2,3) contains_json_plain
    by (auto simp: handled_def error_mapper_def http_answer_def final_status_def WriteBody_def WriteHeader_def
        SetContentType_def fresh_writer_def error_code_def sniff_lawful_def Let_def split: option.splits prod.splits)
  moreover have "hr_StatusCode (http_answer sniff enc meth ?w) = final_status ?w" by (simp add: http_answer_def)
  moreover obtain body where "hr_Body (http_answer sniff enc meth ?w) = Inr body" by (simp add: http_answer_def)
  ultimately show thesis using that [of "hr_ContentType (http_answer sniff enc meth ?w)" body]
    unfolding send by simp
qed

text \<open>An error that the mapper does not handle has the status of the handler.\<close>

lemma plain_error_reply:
  assumes "json_sender (sv_send rs)" "\<not> handled e"
  shows "hr_StatusCode (http_answer sniff enc meth (SendWithStatus rs (PErr e) st fresh_writer)) = error_code st e"
proof -
  have "\<not> snd (error_mapper (sv_my rs) fresh_writer e)"
    using assms(2) by (simp add: handled_def error_mapper_def split: option.split)
  then have "wr_Status (SendWithStatus rs (PErr e) st fresh_writer) = Some st"
    using assms(1) by (simp add: SendWithStatus_def json_sender_def sender_lawful_def fresh_writer_def)
  with assms(2) show ?thesis by (simp add: http_answer_def final_status_def handled_def error_code_def split: option.split)
qed

lemma error_code_reply:
  assumes "json_sender (sv_send rs)" "sniff_lawful sniff"
  shows "hr_StatusCode (http_answer sniff enc meth (SendWithStatus rs (PErr e) st fresh_writer)) = error_code st e"
proof (cases "handled e")
  case True
  obtain ct body where "http_answer sniff enc meth (SendWithStatus rs (PErr e) st fresh_writer) =
      \<lparr>hr_StatusCode = error_code st e, hr_ContentType = ct, hr_Body = Inr body\<rparr>"
    using error_reply [OF assms True] by metis
  then show ?thesis by simp
qed (rule plain_error_reply [OF assms(1)])

lemma http_answer_body [simp]: "\<exists>b. hr_Body (http_answer sniff enc meth w) = Inr b"
  by (simp add: http_answer_def)

section \<open>Exchanges\<close>

lemma exchange:
  assumes "do req = answer sniff enc meth m"
  shows "m ws = (Returns w, ws') \<Longrightarrow>
      with_response do parse req ws = (Returns (parse (http_answer sniff enc meth w)), ws')"
    and "m ws = (Panics msg, ws') \<Longrightarrow>
      with_response do parse req ws = (Returns (Inl (PlainError ''EOF'')), ws')"
  by (simp_all add: with_response_def assms answer_def ebind_def pbind_def preturn_def)

text \<open>A client made for a deployed server.\<close>

definition connected :: "style_param \<Rightarrow> (string \<Rightarrow> string) \<Rightarrow> (gval \<Rightarrow> string) \<Rightarrow> ('d, 'c) restServer \<Rightarrow>
    ('d, 'c) worlds Client \<Rightarrow> bool" where
  "connected style sniff enc rs c \<longleftrightarrow>
     (\<exists>im scheme host psegs h d. serving im style rs scheme host psegs h \<and>
        deployed_client d sniff enc h scheme host psegs = Inr c)"

lemma connected_answer:
  assumes "connected style sniff enc rs c" "routable req"
  shows "api_transport style enc c req = answer sniff enc (request_method req) (serve rs enc req)"
proof -
  from assms(1) obtain im scheme host psegs h d where sv: "serving im style rs scheme host psegs h"
    and c: "deployed_client d sniff enc h scheme host psegs = Inr c"
    unfolding connected_def by blast
  have "prefix_ok psegs" "psegs \<noteq> []" using sv by (auto simp: serving_def deployed_def wire_ok_def address_ok_def)
  from deployed_client_Inr [OF this, of d sniff enc h scheme host] c
  have "c = client_of (over_http sniff enc h) scheme host psegs" by (simp add: client_of_def)
  with deliver [OF sv assms(2)] show ?thesis by simp
qed

text \<open>A named query may have no arguments: it then arrives with one empty argument.\<close>

lemma connected_query_answer:
  assumes "connected style sniff enc rs c" "name_ok be" "name_ok name"
    and "opt_int_ok (qn_PageOffset ps)" "opt_int_ok (qn_PageSize ps)"
  shows "api_transport style enc c (ReqQueryNamed be name ps) =
    answer sniff enc ''GET'' (serve rs enc (ReqQueryNamed be name (arrived ps)))"
proof -
  from assms(1) obtain im scheme host psegs h d where sv: "serving im style rs scheme host psegs h"
    and c: "deployed_client d sniff enc h scheme host psegs = Inr c"
    unfolding connected_def by blast
  have "prefix_ok psegs" "psegs \<noteq> []" using sv by (auto simp: serving_def deployed_def wire_ok_def address_ok_def)
  from deployed_client_Inr [OF this, of d sniff enc h scheme host] c
  have "c = client_of (over_http sniff enc h) scheme host psegs" by (simp add: client_of_def)
  with deliver_QueryNamed [OF sv assms(2-5)] show ?thesis by simp
qed

text \<open>A backend of the server, with the program's own reply to its result.\<close>

lemma run_item:
  assumes "map_of (sv_crudMap rs) be = Some b" "handler b ent oid w (ws be) = (r, w')"
  shows "handleItem rs be ent oid handler w ws = (r, ws(be := w'))"
  using assms by (simp add: handleItem_def handleEntity_def handleBackend_def in_backend_def)

lemma run_entity:
  assumes "map_of (sv_crudMap rs) be = Some b" "handler b ent w (ws be) = (r, w')"
  shows "handleEntity rs be ent handler w ws = (r, ws(be := w'))"
  using assms by (simp add: handleEntity_def handleBackend_def in_backend_def)

text \<open>Ids without a route: the router answers 404 with a text.\<close>

lemma no_route_answer:
  assumes "sniff_lawful sniff" "no_route_reply False f"
  obtains ct body where "\<not> contains_json ct"
    "http_answer sniff enc meth (f fresh_writer) = \<lparr>hr_StatusCode = 404, hr_ContentType = ct, hr_Body = Inr body\<rparr>"
proof -
  have "\<not> contains_json []" by (simp add: contains_json_def)
  with assms have "\<not> contains_json (hr_ContentType (http_answer sniff enc meth (f fresh_writer)))"
    by (auto simp: no_route_reply_def http_answer_def sniff_lawful_def Let_def split: option.splits)
  moreover have "final_status (f fresh_writer) = 404"
    using assms(2) by (simp add: no_route_reply_def final_status_def Let_def)
  ultimately show thesis using that by (simp add: http_answer_def)
qed

lemma connected_parts:
  assumes "connected style sniff enc rs c"
  obtains im scheme host psegs h where "serving im style rs scheme host psegs h"
    "c = client_of (over_http sniff enc h) scheme host psegs"
proof -
  from assms obtain im scheme host psegs h d where sv: "serving im style rs scheme host psegs h"
    and c: "deployed_client d sniff enc h scheme host psegs = Inr c"
    unfolding connected_def by blast
  have "prefix_ok psegs" "psegs \<noteq> []" using sv by (auto simp: serving_def deployed_def wire_ok_def address_ok_def)
  from deployed_client_Inr [OF this, of d sniff enc h scheme host] c
  have "c = client_of (over_http sniff enc h) scheme host psegs" by (simp add: client_of_def)
  with sv that show thesis by blast
qed

lemma unroutable_answer:
  assumes con: "connected style sniff enc rs c" and names: "name_ok be" "name_ok ent" "unroutable_id oid"
    and sniff: "sniff_lawful sniff"
    and req: "req \<in> {ReqGetItemById be ent oid, ReqDeleteItemById be ent oid, ReqUpdateItemById be ent oid body}"
  shows "\<exists>ct tx. \<not> contains_json ct \<and> api_transport style enc c req ws =
    (Returns (Inr \<lparr>hr_StatusCode = 404, hr_ContentType = ct, hr_Body = Inr tx\<rparr>), ws)"
proof -
  obtain im scheme host psegs h where sv: "serving im style rs scheme host psegs h"
    and c: "c = client_of (over_http sniff enc h) scheme host psegs"
    using connected_parts [OF con] .
  let ?segs = "[esc style ''backend'' be, esc style ''entity'' ent, esc style ''id'' oid]"
  have "oid \<noteq> ''.''" "oid \<noteq> ''..''" using names(3) by (auto simp: unroutable_id_def)
  then have seg: "seg_ok (esc style ''id'' oid)" by (rule seg_ok_esc [OF serving_facts(4) [OF sv]])
  note built = build_item [OF serving_facts(3) [OF sv] names(1,2) seg]
  have "\<exists>meth ct b. api_transport style enc c req =
      over_http sniff enc h (wire_request meth scheme host (psegs @ ?segs) [] ct b)"
    using req by (auto simp: c Client_GetItemById_def Client_DeleteItemById_def Client_UpdateItemById_def
        NewGetItemByIdRequest_def NewDeleteItemByIdRequest_def NewUpdateItemByIdRequest_def
        NewUpdateItemByIdRequestWithBody_def rbind_body built client_of_do wire_request_ContentType
        simp del: json_enc.simps) (rule exI, rule exI, rule exI, rule refl)+
  then obtain meth ct b where do: "api_transport style enc c req =
      over_http sniff enc h (wire_request meth scheme host (psegs @ ?segs) [] ct b)" by blast
  obtain f where f: "no_route_reply False f"
    "over_http sniff enc h (wire_request meth scheme host (psegs @ ?segs) [] ct b) =
      answer sniff enc meth (preturn (f fresh_writer))"
    using unroutable_request [OF sv names, of sniff enc meth "[]" ct b] by blast
  obtain ct' tx where "\<not> contains_json ct'"
    "http_answer sniff enc meth (f fresh_writer) = \<lparr>hr_StatusCode = 404, hr_ContentType = ct', hr_Body = Inr tx\<rparr>"
    using no_route_answer [OF sniff f(1)] .
  then show ?thesis unfolding do f(2) by (auto simp: answer_def preturn_def)
qed

section \<open>The typed operations\<close>

lemma typed_404_text:
  assumes "\<And>req. req \<in> {ReqGetItemById (g_be g) (g_ent g) oid, ReqDeleteItemById (g_be g) (g_ent g) oid} \<union>
      range (ReqUpdateItemById (g_be g) (g_ent g) oid) \<Longrightarrow>
      \<exists>ct tx. \<not> contains_json ct \<and> do req s = (Returns (Inr \<lparr>hr_StatusCode = 404, hr_ContentType = ct, hr_Body = Inr tx\<rparr>), s)"
  shows "client_Get do g oid s = (Panics nil_deref, s)"
    and "g_encFn g t = Inr m \<Longrightarrow> client_Update do g oid t s = (Panics nil_deref, s)"
    and "client_Delete do g oid s =
      (Returns (Some (ErrorWithStatus 404 ''unexpected error code: 404'' None)), s)"
proof -
  have p: "parse_response cases \<lparr>hr_StatusCode = 404, hr_ContentType = ct, hr_Body = Inr tx\<rparr> =
      Inr \<lparr>rs_HTTP = \<lparr>hr_StatusCode = 404, hr_ContentType = ct, hr_Body = Inr tx\<rparr>, rs_BodyText = tx, rs_JSON = None\<rparr>"
    if "\<not> contains_json ct" for cases ct tx
    by (rule json_for_not_json) (simp_all add: that)
  obtain ct1 tx1 where g: "\<not> contains_json ct1" "do (ReqGetItemById (g_be g) (g_ent g) oid) s =
      (Returns (Inr \<lparr>hr_StatusCode = 404, hr_ContentType = ct1, hr_Body = Inr tx1\<rparr>), s)"
    using assms [of "ReqGetItemById (g_be g) (g_ent g) oid"] by auto
  obtain ct2 tx2 where d: "\<not> contains_json ct2" "do (ReqDeleteItemById (g_be g) (g_ent g) oid) s =
      (Returns (Inr \<lparr>hr_StatusCode = 404, hr_ContentType = ct2, hr_Body = Inr tx2\<rparr>), s)"
    using assms [of "ReqDeleteItemById (g_be g) (g_ent g) oid"] by auto
  have u: "\<exists>ct3 tx3. \<not> contains_json ct3 \<and> do (ReqUpdateItemById (g_be g) (g_ent g) oid b) s =
      (Returns (Inr \<lparr>hr_StatusCode = 404, hr_ContentType = ct3, hr_Body = Inr tx3\<rparr>), s)" for b
    using assms [of "ReqUpdateItemById (g_be g) (g_ent g) oid b"] by auto
  have four: "dec_int 404 = ''404''" by code_simp
  show "client_Get do g oid s = (Panics nil_deref, s)"
    by (simp add: client_Get_def GetItemByIdWithResponse_def with_response_def ebind_def pbind_def preturn_def g
        ParseGetItemByIdResponse_def p status_of_def get_message_def json_for_def plift_def)
  show "client_Delete do g oid s = (Returns (Some (ErrorWithStatus 404 ''unexpected error code: 404'' None)), s)"
    by (simp add: client_Delete_def DeleteItemByIdWithResponse_def with_response_def ebind_def pbind_def preturn_def d
        ParseDeleteItemByIdResponse_def p status_of_def errorFromResponse_def errorFromResponseWithMsg_def four)
  assume enc: "g_encFn g t = Inr m"
  obtain ct3 tx3 where "\<not> contains_json ct3"
    "do (ReqUpdateItemById (g_be g) (g_ent g) oid (excludeProps m (g_roProps g))) s =
      (Returns (Inr \<lparr>hr_StatusCode = 404, hr_ContentType = ct3, hr_Body = Inr tx3\<rparr>), s)"
    using u by blast
  then show "client_Update do g oid t s = (Panics nil_deref, s)"
    by (simp add: client_Update_def UpdateItemByIdWithResponse_def with_response_def ebind_def pbind_def preturn_def enc
        ParseUpdateItemByIdResponse_def p status_of_def get_message_def json_for_def plift_def)
qed

text \<open>What the server sends for a result, parsed by the client.\<close>

lemma not_found_row_ok: "row_ok [(''message'', VStr msg)]"
  by (simp add: row_ok_def json_ok_def)

lemma not_found_object_json:
  "ErrorObject_json (not_found_object ent oid) = VMap [(''message'', VStr (not_found_msg ent oid))]"
  by (simp add: ErrorObject_json_def not_found_object_def opt_member_def)

lemma as_error_message:
  "as_ErrorObject (VMap (dto_raw enc [(''message'', VStr msg)])) =
    Some \<lparr>eo_Code = None, eo_Data = None, eo_Message = msg\<rparr>"
  by (simp add: dto_raw_def as_ErrorObject_def json_field_def to_lower_def to_lower_char_def as_ptr_def)

definition served :: "(('d, 'c) world, 'a) prog \<Rightarrow> ('a \<Rightarrow> writer) \<Rightarrow> string \<Rightarrow> (('d, 'c) worlds, writer) prog" where
  "served m reply be ws =
     (case m (ws be) of
        (Returns x, w') \<Rightarrow> (Returns (reply x), ws(be := w'))
      | (Panics msg, w') \<Rightarrow> (Panics msg, ws(be := w')))"

definition get_reply :: "('d, 'c) restServer \<Rightarrow> string \<Rightarrow> string \<Rightarrow> goerr + gmap option \<Rightarrow> writer" where
  "get_reply rs ent oid r =
     (case r of
        Inl err \<Rightarrow> SendWithStatus rs (PErr err) StatusInternalServerError fresh_writer
      | Inr None \<Rightarrow> SendWithStatus rs (PVal (ErrorObject_json (not_found_object ent oid))) StatusNotFound fresh_writer
      | Inr (Some row) \<Rightarrow> SendWithStatus rs (PVal (VMap row)) StatusOK fresh_writer)"

lemma served_get:
  "map_of (sv_crudMap rs) be = Some b \<Longrightarrow>
   srv_GetItemById rs be ent oid fresh_writer = served (Get b ent oid) (get_reply rs ent oid) be"
  by (rule ext) (simp add: srv_GetItemById_def handleItem_def handleEntity_def handleBackend_def in_backend_def served_def
      get_reply_def ebind_def pbind_def preturn_def dto_json_def split: prod.split outcome.split sum.split option.split)

text \<open>A call of the typed client: send, parse, and look at the parsed response.\<close>

lemma typed_call_at:
  assumes "api_transport style enc c req = answer sniff enc (request_method req) (served m reply be)" "m (ws be) = (r, w')"
  shows "with_response (api_transport style enc c) parse req ws =
    ((case r of
        Returns x \<Rightarrow> Returns (parse (http_answer sniff enc (request_method req) (reply x)))
      | Panics msg \<Rightarrow> Returns (Inl (PlainError ''EOF''))), ws(be := w'))"
  unfolding with_response_def assms(1) answer_def served_def
  using assms(2) by (cases r) (simp_all add: ebind_def pbind_def preturn_def)

lemma typed_call:
  assumes "connected style sniff enc rs c" "routable req" "serve rs enc req = served m reply be" "m (ws be) = (r, w')"
  shows "with_response (api_transport style enc c) parse req ws =
    ((case r of
        Returns x \<Rightarrow> Returns (parse (http_answer sniff enc (request_method req) (reply x)))
      | Panics msg \<Rightarrow> Returns (Inl (PlainError ''EOF''))), ws(be := w'))"
proof -
  have "api_transport style enc c req = answer sniff enc (request_method req) (served m reply be)"
    using connected_answer [OF assms(1,2)] assms(3) by simp
  from typed_call_at [where ws = ws, OF this assms(4)] show ?thesis .
qed

definition unexpected :: "int \<Rightarrow> goerr" where
  "unexpected st = ErrorWithStatus st (''unexpected error code: '' @ dec_int st) None"

text \<open>\<^verbatim>\<open>Get\<close> once the response is parsed.\<close>

definition get_result :: "'t generic \<Rightarrow> payload api_response \<Rightarrow> (goerr + 't) outcome" where
  "get_result g resp =
     (if status_of resp = StatusOK then obind (get_dto 200 resp) (\<lambda>d. Returns (g_decFn g d))
      else if status_of resp = StatusNotFound then
        obind (get_message 404 resp) (\<lambda>msg. Returns (Inl (errorFromResponseWithMsg (rs_HTTP resp) msg)))
      else Returns (Inl (errorFromResponse (rs_HTTP resp))))"

lemma client_Get_result:
  assumes "with_response do ParseGetItemByIdResponse (ReqGetItemById (g_be g) (g_ent g) oid) s = (Returns p, s')"
  shows "client_Get do g oid s = (case p of Inl err \<Rightarrow> Returns (Inl err) | Inr resp \<Rightarrow> get_result g resp, s')"
  using assms by (cases p) (auto simp: client_Get_def GetItemByIdWithResponse_def ebind_def pbind_def preturn_def plift_def
      get_result_def split: outcome.split)

lemma get_result_reply:
  assumes "json_sender (sv_send rs)" "sniff_lawful sniff"
    and "\<And>row. r = Inr (Some row) \<Longrightarrow> row_ok row"
  shows "\<exists>resp. ParseGetItemByIdResponse (http_answer sniff enc ''GET'' (get_reply rs ent oid r)) = Inr resp \<and>
    get_result g resp =
      (case r of
         Inl e \<Rightarrow> (if error_code 500 e \<in> {200, 404} then Panics nil_deref
                   else Returns (Inl (unexpected (error_code 500 e))))
       | Inr None \<Rightarrow> Returns (Inl (ErrorWithStatus 404 (not_found_msg ent oid) None))
       | Inr (Some row) \<Rightarrow> Returns (g_decFn g (dto_wire enc row)))"
proof -
  have get: "''GET'' \<noteq> ''HEAD''" by simp
  consider (row) row where "r = Inr (Some row)" | (none) "r = Inr None" | (err) e where "r = Inl e" by (cases r) auto
  then show ?thesis
  proof cases
    case row
    obtain ct nl where a: "contains_json ct" "list_all ws_char nl"
      "http_answer sniff enc ''GET'' (SendWithStatus rs (PVal (VMap row)) 200 fresh_writer) =
        \<lparr>hr_StatusCode = 200, hr_ContentType = ct, hr_Body = Inr (json_enc enc (VMap row) @ nl)\<rparr>"
      using value_reply [OF assms(1) get] .
    from row a unmarshal_row [OF assms(3) [OF row] a(2), of enc] as_dto_row [OF assms(3) [OF row], of enc] show ?thesis
      by (simp add: get_reply_def ParseGetItemByIdResponse_def parse_response_def dec_dto_def get_result_def status_of_def
          get_dto_def json_for_def del: json_enc.simps as_dto.simps)
  next
    case none
    obtain ct nl where a: "contains_json ct" "list_all ws_char nl"
      "http_answer sniff enc ''GET'' (SendWithStatus rs (PVal (ErrorObject_json (not_found_object ent oid))) 404 fresh_writer) =
        \<lparr>hr_StatusCode = 404, hr_ContentType = ct, hr_Body = Inr (json_enc enc (ErrorObject_json (not_found_object ent oid)) @ nl)\<rparr>"
      using value_reply [OF assms(1) get] .
    from none a as_error_message [of enc "not_found_msg ent oid"]
      unmarshal_row [OF not_found_row_ok a(2), of enc "not_found_msg ent oid"]
    show ?thesis
      by (simp add: get_reply_def ParseGetItemByIdResponse_def parse_response_def dec_dto_def dec_error_def get_result_def
          status_of_def get_message_def json_for_def not_found_object_json errorFromResponseWithMsg_def del: json_enc.simps)
  next
    case err
    let ?rsp = "http_answer sniff enc ''GET'' (SendWithStatus rs (PErr e) 500 fresh_writer)"
    note code = error_code_reply [OF assms(1,2), of enc "''GET''" e 500]
    obtain b where b: "hr_Body ?rsp = Inr b" using http_answer_body by blast
    show ?thesis
    proof (cases "error_code 500 e \<in> {200, 404}")
      case False
      then have "parse_cases (hr_ContentType ?rsp) (error_code 500 e) b [(200, dec_dto), (404, dec_error), (405, None)] = Inr None"
        by (simp add: dec_dto_def dec_error_def)
      with err code b False show ?thesis
        by (simp add: get_reply_def ParseGetItemByIdResponse_def parse_response_def get_result_def status_of_def
            errorFromResponse_def errorFromResponseWithMsg_def unexpected_def)
    next
      case True
      then have h: "handled e" by (auto simp: handled_def error_code_def split: option.splits)
      obtain ct body where a: "\<not> contains_json ct"
        "?rsp = \<lparr>hr_StatusCode = error_code 500 e, hr_ContentType = ct, hr_Body = Inr body\<rparr>"
        using error_reply [OF assms(1,2) h] .
      have "ParseGetItemByIdResponse ?rsp = Inr \<lparr>rs_HTTP = ?rsp, rs_BodyText = body, rs_JSON = None\<rparr>"
        unfolding ParseGetItemByIdResponse_def by (rule json_for_not_json) (simp_all add: a)
      with err code h True show ?thesis
        by (auto simp: get_reply_def get_result_def status_of_def get_dto_def get_message_def json_for_def)
    qed
  qed
qed

text \<open>\<^verbatim>\<open>Create\<close>\<close>

definition create_reply :: "('d, 'c) restServer \<Rightarrow> goerr + gmap option \<Rightarrow> writer" where
  "create_reply rs r =
     (case r of
        Inl err \<Rightarrow> SendWithStatus rs (PErr err) StatusInternalServerError fresh_writer
      | Inr res \<Rightarrow> SendWithStatus rs (PVal (dto_json res)) StatusCreated fresh_writer)"

lemma served_create:
  "map_of (sv_crudMap rs) be = Some b \<Longrightarrow> row_ok m \<Longrightarrow>
   srv_CreateItem rs be ent (request_text enc (VMap m)) fresh_writer =
     served (Create b ent (dto_wire enc m)) (create_reply rs) be"
  by (rule ext) (simp add: srv_CreateItem_def handleEntity_def handleBackend_def in_backend_def served_def decode_row
      create_reply_def ebind_def pbind_def preturn_def split: prod.split outcome.split sum.split)

definition create_result :: "'t generic \<Rightarrow> payload api_response \<Rightarrow> (goerr + 't) outcome" where
  "create_result g cir =
     (if status_of cir = StatusCreated then obind (get_dto 201 cir) (\<lambda>d. Returns (g_decFn g d))
      else if status_of cir = StatusInternalServerError then
        obind (get_message 500 cir) (\<lambda>msg. Returns (Inl (ErrorWithStatus StatusInternalServerError msg None)))
      else Returns (Inl (errorFromResponse (rs_HTTP cir))))"

lemma client_Create_result:
  assumes "g_encFn g t = Inr m"
    and "with_response do ParseCreateItemResponse (ReqCreateItem (g_be g) (g_ent g) (excludeProps m (g_roProps g))) s =
      (Returns p, s')"
  shows "client_Create do g t s = (case p of Inl err \<Rightarrow> Returns (Inl err) | Inr resp \<Rightarrow> create_result g resp, s')"
  using assms by (cases p) (auto simp: client_Create_def CreateItemWithResponse_def ebind_def pbind_def preturn_def
      plift_def create_result_def split: outcome.split)

definition dto_back :: "(gval \<Rightarrow> string) \<Rightarrow> gmap option \<Rightarrow> gmap" where
  "dto_back enc res = (case res of None \<Rightarrow> [] | Some row \<Rightarrow> dto_wire enc row)"

lemma unmarshal_dto:
  assumes "\<And>row. res = Some row \<Longrightarrow> row_ok row" "list_all ws_char nl"
  shows "Option.bind (json_unmarshal (json_enc enc (dto_json res) @ nl)) as_dto = Some (dto_back enc res)"
proof (cases res)
  case None
  have "json_unmarshal (json_enc enc VNil @ nl) = Some VNil"
    using unmarshal_enc [OF _ assms(2), of VNil enc] by simp
  with None show ?thesis by (simp add: dto_json_def dto_back_def)
next
  case (Some row)
  with unmarshal_row [OF assms(1) [OF Some] assms(2), of enc] as_dto_row [OF assms(1) [OF Some], of enc] show ?thesis
    by (simp add: dto_json_def dto_back_def del: json_enc.simps as_dto.simps)
qed

lemma create_result_reply:
  assumes "json_sender (sv_send rs)" "sniff_lawful sniff"
    and "\<And>row. r = Inr (Some row) \<Longrightarrow> row_ok row" and "\<And>e. r = Inl e \<Longrightarrow> handled e"
  shows "\<exists>resp. ParseCreateItemResponse (http_answer sniff enc ''POST'' (create_reply rs r)) = Inr resp \<and>
    create_result g resp =
      (case r of
         Inl e \<Rightarrow> (if error_code 500 e \<in> {201, 500} then Panics nil_deref
                   else Returns (Inl (unexpected (error_code 500 e))))
       | Inr res \<Rightarrow> Returns (g_decFn g (dto_back enc res)))"
proof (cases r)
  case (Inr res)
  have post: "''POST'' \<noteq> ''HEAD''" by simp
  obtain ct nl where a: "contains_json ct" "list_all ws_char nl"
    "http_answer sniff enc ''POST'' (SendWithStatus rs (PVal (dto_json res)) 201 fresh_writer) =
      \<lparr>hr_StatusCode = 201, hr_ContentType = ct, hr_Body = Inr (json_enc enc (dto_json res) @ nl)\<rparr>"
    using value_reply [OF assms(1) post] .
  obtain v where "json_unmarshal (json_enc enc (dto_json res) @ nl) = Some v" "as_dto v = Some (dto_back enc res)"
    using unmarshal_dto [OF assms(3) a(2), of res enc] Inr by (auto simp: bind_eq_Some_conv)
  with Inr a show ?thesis
    by (simp add: create_reply_def ParseCreateItemResponse_def parse_response_def dec_dto_def create_result_def status_of_def
        get_dto_def json_for_def)
next
  case (Inl e)
  obtain ct body where a: "\<not> contains_json ct"
    "http_answer sniff enc ''POST'' (SendWithStatus rs (PErr e) 500 fresh_writer) =
      \<lparr>hr_StatusCode = error_code 500 e, hr_ContentType = ct, hr_Body = Inr body\<rparr>" (is "?rsp = _")
    using error_reply [OF assms(1,2) assms(4) [OF Inl]] .
  have "ParseCreateItemResponse ?rsp = Inr \<lparr>rs_HTTP = ?rsp, rs_BodyText = body, rs_JSON = None\<rparr>"
    unfolding ParseCreateItemResponse_def by (rule json_for_not_json) (simp_all add: a)
  with Inl a show ?thesis
    by (auto simp: create_reply_def create_result_def status_of_def get_dto_def get_message_def json_for_def
        errorFromResponse_def errorFromResponseWithMsg_def unexpected_def)
qed

end
