(* ===== verification/Typed_List.thy ===== *)
theory Typed_List
  imports End_To_End
begin

text \<open>
  \<^verbatim>\<open>List\<close> of the typed client over the server: the query on its way out, the page on its way back.
\<close>

section \<open>The page as JSON\<close>

definition page_ok :: "PagedResult \<Rightarrow> bool" where
  "page_ok p \<longleftrightarrow>
     (case (pr_Data p, pr_Offset p, pr_TotalCount p) of
        (Some rows, Some off, Some n) \<Rightarrow> list_all row_ok rows \<and> float_normal off \<and> int_ok n
      | _ \<Rightarrow> False)"

definition sorted_page :: "PagedResult \<Rightarrow> PagedResult" where
  "sorted_page p = p\<lparr>pr_Data := map_option (map (sort_key fst)) (pr_Data p)\<rparr>"

lemma json_enc_sorted_page: "json_enc enc (PagedResult_json (sorted_page p)) = json_enc enc (PagedResult_json p)"
proof -
  have rows: "map (json_enc enc) (map VMap (map (sort_key fst) ms)) = map (json_enc enc) (map VMap ms)" for ms
    by (simp add: json_enc_sorted del: json_enc.simps)
  then have "json_enc enc (VList (map VMap (map (sort_key fst) ms))) = json_enc enc (VList (map VMap ms))" for ms
    unfolding json_enc.simps(8) by (rule arg_cong)
  then have data: "map (\<lambda>(k, v). (k, json_enc enc v)) (opt_member ''data'' (map_option (\<lambda>ms. VList (map VMap ms)) (pr_Data (sorted_page p)))) =
      map (\<lambda>(k, v). (k, json_enc enc v)) (opt_member ''data'' (map_option (\<lambda>ms. VList (map VMap ms)) (pr_Data p)))"
    by (cases "pr_Data p") (simp_all add: opt_member_def sorted_page_def del: json_enc.simps)
  have rest: "pr_Offset (sorted_page p) = pr_Offset p" "pr_TotalCount (sorted_page p) = pr_TotalCount p"
    by (simp_all add: sorted_page_def)
  show ?thesis unfolding PagedResult_json_def json_enc.simps(9) rest map_append data by (rule refl)
qed

lemma as_int_float: "int_ok i \<Longrightarrow> as_int (VFloat (decimal_of_int i)) = Some i"
proof -
  assume ok: "int_ok i"
  obtain m e where s: "strip_zeros (nat \<bar>i\<bar>) 0 = (m, e)" by fastforce
  from strip_zeros_value [OF s] have v: "0 \<le> e" "m * 10 ^ nat e = nat \<bar>i\<bar>" by simp_all
  then have "int m * 10 ^ nat e = \<bar>i\<bar>" by (metis abs_ge_zero nat_eq_iff of_nat_mult of_nat_numeral of_nat_power)
  then have "(if i < 0 then - 1 else 1) * int m * 10 ^ nat e = i" by auto
  with v ok show ?thesis by (simp add: decimal_of_int_def s int_ok_def Let_def)
qed

definition page_wire :: "(gval \<Rightarrow> string) \<Rightarrow> PagedResult \<Rightarrow> PagedResult" where
  "page_wire enc p = p\<lparr>pr_Data := map_option (map (dto_wire enc)) (pr_Data p)\<rparr>"

lemma those_map_Some: "those (map Some xs) = Some xs"
  by (induction xs) simp_all

lemma as_list_rows:
  assumes "list_all row_ok rows"
  shows "as_list as_dto (VList (map VMap (map (dto_raw enc) rows))) = Some (map (dto_wire enc) rows)"
proof -
  have "map as_dto (map VMap (map (dto_raw enc) rows)) = map Some (map (dto_wire enc) rows)"
    using assms as_dto_row by (simp add: list_all_iff del: as_dto.simps)
  then show ?thesis by (simp only: as_list.simps those_map_Some)
qed

lemma page_roundtrip:
  assumes "page_ok p" "list_all ws_char nl"
  shows "\<exists>v. json_unmarshal (json_enc enc (PagedResult_json p) @ nl) = Some v \<and> as_PagedResult v = Some (page_wire enc p)"
proof -
  obtain rows off n where p: "pr_Data p = Some rows" "pr_Offset p = Some off" "pr_TotalCount p = Some n"
    and ok: "list_all row_ok rows" "float_normal off" "int_ok n"
    using assms(1) by (auto simp: page_ok_def split: option.splits)
  have members: "json_canon (VMap [(''data'', VList vs), (''offset'', VFloat off), (''total_count'', VInt n)])"
    if "list_all json_canon vs" for vs
    using that ok(2) by (simp add: less_char_def)
  have "list_all json_canon (map (\<lambda>m. VMap (sort_key fst m)) rows)"
    using ok(1) row_ok_canon by (auto simp: list_all_iff simp del: json_canon.simps)
  then have canon: "json_canon (PagedResult_json (sorted_page p))"
    using members by (simp add: PagedResult_json_def sorted_page_def p opt_member_def comp_def del: json_canon.simps)
  let ?v = "json_raw enc (PagedResult_json (sorted_page p))"
  have members': "json_raw enc (VMap [(''data'', VList vs), (''offset'', VFloat off), (''total_count'', VInt n)]) =
      VMap [(''data'', VList (map (json_raw enc) vs)), (''offset'', VFloat off), (''total_count'', VFloat (decimal_of_int n))]" for vs
    by simp
  have v: "?v = VMap [(''data'', VList (map VMap (map (dto_raw enc) rows))), (''offset'', VFloat off),
      (''total_count'', VFloat (decimal_of_int n))]"
    by (simp add: PagedResult_json_def sorted_page_def p opt_member_def comp_def members' json_raw_row
        del: json_raw.simps)
  have rows: "as_list as_dto (VList (map VMap (map (dto_raw enc) rows))) = Some (map (dto_wire enc) rows)"
    by (rule as_list_rows [OF ok(1)])
  have "page_wire enc p = \<lparr>pr_Data = Some (map (dto_wire enc) rows), pr_Offset = Some off, pr_TotalCount = Some n\<rparr>"
    using p by (cases p) (simp add: page_wire_def)
  with rows have "as_PagedResult ?v = Some (page_wire enc p)"
    unfolding v
    by (simp add: as_PagedResult_def json_field_def to_lower_def to_lower_char_def as_ptr_def as_int_float [OF ok(3)]
        del: as_int.simps as_list.simps as_dto.simps map_map)
  then show ?thesis using unmarshal_enc [OF canon assms(2), of enc] by (simp only: json_enc_sorted_page) blast
qed

section \<open>The call\<close>

definition list_reply :: "('d, 'c) restServer \<Rightarrow> goerr + PagedResult \<Rightarrow> writer" where
  "list_reply rs r =
     (case r of
        Inl err \<Rightarrow> SendWithStatus rs (PErr err) StatusInternalServerError fresh_writer
      | Inr res \<Rightarrow> SendWithStatus rs (PVal (PagedResult_json res)) StatusOK fresh_writer)"

lemma served_list:
  assumes "map_of (sv_crudMap rs) be = Some b" "qry_ok q"
  shows "srv_ListItems rs be ent (ToParams enc q) fresh_writer =
    served (ListItems b ent (Some (qry_norm enc q))) (list_reply rs) be"
proof -
  have "FromParams (PageOffset (ToParams enc q)) (PageSize (ToParams enc q)) (Order (ToParams enc q))
      (Filter (ToParams enc q)) = Returns (Inr (qry_norm enc q))"
    using FromParams_ToParams [OF assms(2), of enc] by (simp add: Let_def)
  with assms(1) show ?thesis
    by (intro ext) (simp add: srv_ListItems_def handleEntity_def handleBackend_def in_backend_def served_def list_reply_def
      ebind_def pbind_def preturn_def plift_def split: prod.split outcome.split sum.split)
qed

definition list_routable :: "string \<Rightarrow> string \<Rightarrow> qryData \<Rightarrow> bool" where
  "list_routable be ent q \<longleftrightarrow>
     name_ok be \<and> name_ok ent \<and> ent \<noteq> ''entities'' \<and> (case qry_paging q of None \<Rightarrow> True | Some p \<Rightarrow> int_ok (page_size p))"

lemma list_routable_request: "list_routable be ent q \<Longrightarrow> routable (ReqListItems be ent (ToParams enc q))"
proof -
  assume "list_routable be ent q"
  moreover have "int_ok (sint (w :: 64 word))" for w
    using sint_greater_eq [of w] sint_less [of w] by (simp add: int_ok_def)
  ultimately show ?thesis
    by (auto simp: list_routable_def ToParams_def opt_int_ok_def split: option.split)
qed

definition list_result :: "'t generic \<Rightarrow> payload api_response \<Rightarrow> (goerr + 't list \<times> int) outcome" where
  "list_result g resp =
     (case ensureResponseCode (rs_HTTP resp) StatusOK (rs_BodyText resp) of
        Some err \<Rightarrow> Returns (Inl err)
      | None \<Rightarrow>
          obind (get_paged 200 resp) (\<lambda>pr. obind (deref (pr_Data pr)) (\<lambda>data.
            case decode_all (g_decFn g) data [] of
              Inl err \<Rightarrow> Returns (Inl err)
            | Inr res \<Rightarrow> obind (deref (pr_TotalCount pr)) (\<lambda>cnt. Returns (Inr (res, cnt))))))"

lemma qry_String_Returns: "qry_ok q \<Longrightarrow> \<exists>s. qry_String q = Returns s"
proof -
  assume ok: "qry_ok q"
  have "\<exists>s. qry_where (qry_filter q) = Returns s"
  proof (cases "qry_filter q = NilE")
    case False
    then have "fe_nil_free (qry_filter q)" using ok by (simp add: qry_ok_def filter_ok_def fe_wf_nil_free)
    from fe_String_text [OF this] False show ?thesis by (simp add: qry_where_def)
  qed (simp add: qry_where_def)
  then show ?thesis by (auto simp: qry_String_def)
qed

lemma client_List_result:
  assumes "qry_ok q"
    and "with_response do ParseListItemsResponse (ReqListItems (g_be g) (g_ent g) (ToParams enc q)) s = (Returns p, s')"
  shows "client_List do enc g (Some q) s = (case p of Inl err \<Rightarrow> Returns (Inl err) | Inr resp \<Rightarrow> list_result g resp, s')"
proof -
  obtain l where "qry_String q = Returns l" using qry_String_Returns [OF assms(1)] by blast
  with assms(2) show ?thesis
    by (cases p) (auto simp: client_List_def ListItemsWithResponse_def ebind_def pbind_def preturn_def plift_def
      list_result_def split: outcome.split option.split sum.split)
qed

lemma list_result_reply:
  assumes "json_sender (sv_send rs)" "sniff_lawful sniff" and "\<And>p. r = Inr p \<Longrightarrow> page_ok p"
  shows "\<exists>resp. ParseListItemsResponse (http_answer sniff enc ''GET'' (list_reply rs r)) = Inr resp \<and>
    (case r of
       Inl e \<Rightarrow> (if error_code 500 e = 200 then list_result g resp = Panics nil_deref
                 else \<exists>msg. list_result g resp = Returns (Inl (ErrorWithStatus 200 msg None)))
     | Inr p \<Rightarrow> list_result g resp =
         Returns (case decode_all (g_decFn g) (map (dto_wire enc) (the (pr_Data p))) [] of
                    Inl err \<Rightarrow> Inl err | Inr items \<Rightarrow> Inr (items, the (pr_TotalCount p))))"
proof (cases r)
  case (Inr p)
  have get: "''GET'' \<noteq> ''HEAD''" by simp
  obtain ct nl where a: "contains_json ct" "list_all ws_char nl"
    "http_answer sniff enc ''GET'' (SendWithStatus rs (PVal (PagedResult_json p)) 200 fresh_writer) =
      \<lparr>hr_StatusCode = 200, hr_ContentType = ct, hr_Body = Inr (json_enc enc (PagedResult_json p) @ nl)\<rparr>"
    using value_reply [OF assms(1) get] .
  obtain v where v: "json_unmarshal (json_enc enc (PagedResult_json p) @ nl) = Some v" "as_PagedResult v = Some (page_wire enc p)"
    using page_roundtrip [OF assms(3) [OF Inr] a(2), of enc] by blast
  obtain rows n where "pr_Data p = Some rows" "pr_TotalCount p = Some n"
    using assms(3) [OF Inr] by (auto simp: page_ok_def split: option.splits)
  with Inr a v show ?thesis
    by (simp add: list_reply_def ParseListItemsResponse_def parse_response_def dec_paged_def list_result_def
        ensureResponseCode_def get_paged_def json_for_def page_wire_def deref_def split: sum.split)
next
  case (Inl e)
  let ?rsp = "http_answer sniff enc ''GET'' (SendWithStatus rs (PErr e) 500 fresh_writer)"
  note code = error_code_reply [OF assms(1,2), of enc "''GET''" e 500]
  obtain b where b: "hr_Body ?rsp = Inr b" using http_answer_body by blast
  show ?thesis
  proof (cases "error_code 500 e = 200")
    case False
    with Inl code b show ?thesis
      by (simp add: list_reply_def ParseListItemsResponse_def parse_response_def dec_paged_def list_result_def
          ensureResponseCode_def)
  next
    case True
    then have h: "handled e" by (auto simp: handled_def error_code_def split: option.splits)
    obtain ct body where a: "\<not> contains_json ct"
      "?rsp = \<lparr>hr_StatusCode = error_code 500 e, hr_ContentType = ct, hr_Body = Inr body\<rparr>"
      using error_reply [OF assms(1,2) h] .
    have "ParseListItemsResponse ?rsp = Inr \<lparr>rs_HTTP = ?rsp, rs_BodyText = body, rs_JSON = None\<rparr>"
      unfolding ParseListItemsResponse_def by (rule json_for_not_json) (simp_all add: a)
    with Inl code True show ?thesis
      by (simp add: list_reply_def list_result_def ensureResponseCode_def get_paged_def json_for_def)
  qed
qed

end
