(* ===== verification/Typed_Writes.thy ===== *)
theory Typed_Writes
  imports Typed_List
begin

text \<open>
  \<^verbatim>\<open>Update\<close>, \<^verbatim>\<open>Delete\<close>, \<^verbatim>\<open>BulkUpdate\<close> and \<^verbatim>\<open>Query\<close> of the typed client over the server: the program
  that the handler runs, the reply to its result, and what the client makes of the reply.
\<close>

section \<open>Errors\<close>

lemma parse_cases_other:
  "status \<notin> fst ` set cases \<Longrightarrow> parse_cases ct status body cases = Inr None"
  by (induction cases) (auto split: option.splits)

text \<open>A client that expects nothing of status 500 parses no body of an error.\<close>

lemma error_parsed:
  assumes "json_sender (sv_send rs)" "sniff_lawful sniff" "500 \<notin> fst ` set cases"
  obtains body where "parse_response cases (http_answer sniff enc meth (SendWithStatus rs (PErr e) 500 fresh_writer)) =
      Inr \<lparr>rs_HTTP = http_answer sniff enc meth (SendWithStatus rs (PErr e) 500 fresh_writer),
           rs_BodyText = body, rs_JSON = None\<rparr>"
    "hr_StatusCode (http_answer sniff enc meth (SendWithStatus rs (PErr e) 500 fresh_writer)) = error_code 500 e"
proof -
  let ?rsp = "http_answer sniff enc meth (SendWithStatus rs (PErr e) 500 fresh_writer)"
  note code = error_code_reply [OF assms(1,2), of enc meth e 500]
  obtain body where b: "hr_Body ?rsp = Inr body" using http_answer_body by blast
  have "parse_cases (hr_ContentType ?rsp) (hr_StatusCode ?rsp) body cases = Inr None"
  proof (cases "handled e")
    case True
    obtain ct tx where "\<not> contains_json ct"
      "?rsp = \<lparr>hr_StatusCode = error_code 500 e, hr_ContentType = ct, hr_Body = Inr tx\<rparr>"
      using error_reply [OF assms(1,2) True] .
    then show ?thesis by (simp add: parse_cases_not_json)
  next
    case False
    then have "error_code 500 e = 500" by (auto simp: handled_def error_code_def split: option.split)
    with code assms(3) show ?thesis by (simp add: parse_cases_other)
  qed
  with b code that show thesis by (simp add: parse_response_def)
qed

section \<open>Update\<close>

text \<open>The two calls of the handler: nothing is written for an item that does not exist.\<close>

definition exists_update :: "('d, 'c) impl \<Rightarrow> string \<Rightarrow> string \<Rightarrow> gmap \<Rightarrow> (('d, 'c) world, goerr + gmap option option) prog" where
  "exists_update b ent oid m =
     ebind (Exists b ent oid) (\<lambda>err. preturn (Inl err))
       (\<lambda>ex. if \<not> ex then preturn (Inr None)
             else ebind (Update b ent oid m) (\<lambda>err. preturn (Inl err)) (\<lambda>res. preturn (Inr (Some res))))"

definition update_reply :: "('d, 'c) restServer \<Rightarrow> string \<Rightarrow> string \<Rightarrow> goerr + gmap option option \<Rightarrow> writer" where
  "update_reply rs ent oid r =
     (case r of
        Inl err \<Rightarrow> SendWithStatus rs (PErr err) StatusInternalServerError fresh_writer
      | Inr None \<Rightarrow> SendWithStatus rs (PVal (ErrorObject_json (not_found_object ent oid))) StatusNotFound fresh_writer
      | Inr (Some res) \<Rightarrow> SendWithStatus rs (PVal (dto_json res)) StatusAccepted fresh_writer)"

lemma served_update:
  assumes "map_of (sv_crudMap rs) be = Some b" "row_ok m"
  shows "srv_UpdateItemById rs be ent oid (request_text enc (VMap m)) fresh_writer =
    served (exists_update b ent oid (dto_wire enc m)) (update_reply rs ent oid) be"
proof
  fix ws
  show "srv_UpdateItemById rs be ent oid (request_text enc (VMap m)) fresh_writer ws =
      served (exists_update b ent oid (dto_wire enc m)) (update_reply rs ent oid) be ws"
    using assms by (simp add: srv_UpdateItemById_def handleItem_def handleEntity_def handleBackend_def in_backend_def
        served_def decode_row exists_update_def ebind_def pbind_def preturn_def update_reply_def
        split: prod.split outcome.split sum.split option.split)
qed

definition update_result :: "'t generic \<Rightarrow> payload api_response \<Rightarrow> (goerr + 't) outcome" where
  "update_result g resp =
     (if status_of resp = StatusAccepted then obind (get_dto 202 resp) (\<lambda>d. Returns (g_decFn g d))
      else if status_of resp = StatusNotFound then
        obind (get_message 404 resp) (\<lambda>msg. Returns (Inl (errorFromResponseWithMsg (rs_HTTP resp) msg)))
      else Returns (Inl (errorFromResponse (rs_HTTP resp))))"

lemma client_Update_result:
  assumes "g_encFn g t = Inr m"
    and "with_response do ParseUpdateItemByIdResponse
      (ReqUpdateItemById (g_be g) (g_ent g) oid (excludeProps m (g_roProps g))) s = (Returns p, s')"
  shows "client_Update do g oid t s = (case p of Inl err \<Rightarrow> Returns (Inl err) | Inr resp \<Rightarrow> update_result g resp, s')"
  using assms by (cases p) (auto simp: client_Update_def UpdateItemByIdWithResponse_def ebind_def pbind_def preturn_def
      plift_def update_result_def split: outcome.split)

lemma update_result_reply:
  assumes "json_sender (sv_send rs)" "sniff_lawful sniff" and "\<And>row. r = Inr (Some (Some row)) \<Longrightarrow> row_ok row"
  shows "\<exists>resp. ParseUpdateItemByIdResponse (http_answer sniff enc ''PUT'' (update_reply rs ent oid r)) = Inr resp \<and>
    update_result g resp =
      (case r of
         Inl e \<Rightarrow> (if error_code 500 e \<in> {202, 404} then Panics nil_deref
                   else Returns (Inl (unexpected (error_code 500 e))))
       | Inr None \<Rightarrow> Returns (Inl (ErrorWithStatus 404 (not_found_msg ent oid) None))
       | Inr (Some res) \<Rightarrow> Returns (g_decFn g (dto_back enc res)))"
proof -
  have put: "''PUT'' \<noteq> ''HEAD''" by simp
  consider (res) res where "r = Inr (Some res)" | (none) "r = Inr None" | (err) e where "r = Inl e" by (cases r) auto
  then show ?thesis
  proof cases
    case res
    obtain ct nl where a: "contains_json ct" "list_all ws_char nl"
      "http_answer sniff enc ''PUT'' (SendWithStatus rs (PVal (dto_json res)) 202 fresh_writer) =
        \<lparr>hr_StatusCode = 202, hr_ContentType = ct, hr_Body = Inr (json_enc enc (dto_json res) @ nl)\<rparr>"
      using value_reply [OF assms(1) put] .
    have "\<And>row. res = Some row \<Longrightarrow> row_ok row" using assms(3) res by simp
    then obtain v where "json_unmarshal (json_enc enc (dto_json res) @ nl) = Some v" "as_dto v = Some (dto_back enc res)"
      using unmarshal_dto [OF _ a(2), of res enc] by (auto simp: bind_eq_Some_conv)
    with res a show ?thesis
      by (simp add: update_reply_def ParseUpdateItemByIdResponse_def parse_response_def dec_dto_def update_result_def
          status_of_def get_dto_def json_for_def)
  next
    case none
    obtain ct nl where a: "contains_json ct" "list_all ws_char nl"
      "http_answer sniff enc ''PUT'' (SendWithStatus rs (PVal (ErrorObject_json (not_found_object ent oid))) 404 fresh_writer) =
        \<lparr>hr_StatusCode = 404, hr_ContentType = ct, hr_Body = Inr (json_enc enc (ErrorObject_json (not_found_object ent oid)) @ nl)\<rparr>"
      using value_reply [OF assms(1) put] .
    from none a as_error_message [of enc "not_found_msg ent oid"]
      unmarshal_row [OF not_found_row_ok a(2), of enc "not_found_msg ent oid"]
    show ?thesis
      by (simp add: update_reply_def ParseUpdateItemByIdResponse_def parse_response_def dec_dto_def dec_error_def
          update_result_def status_of_def get_message_def json_for_def not_found_object_json errorFromResponseWithMsg_def
          del: json_enc.simps)
  next
    case err
    obtain body where "ParseUpdateItemByIdResponse (http_answer sniff enc ''PUT'' (SendWithStatus rs (PErr e) 500 fresh_writer)) =
      Inr \<lparr>rs_HTTP = http_answer sniff enc ''PUT'' (SendWithStatus rs (PErr e) 500 fresh_writer), rs_BodyText = body, rs_JSON = None\<rparr>"
      "hr_StatusCode (http_answer sniff enc ''PUT'' (SendWithStatus rs (PErr e) 500 fresh_writer)) = error_code 500 e"
      unfolding ParseUpdateItemByIdResponse_def
      using error_parsed [OF assms(1,2), of "[(202, dec_dto), (404, dec_error), (405, None)]" enc "''PUT''" e] by auto
    with err show ?thesis
      by (simp add: update_reply_def update_result_def status_of_def get_dto_def get_message_def json_for_def
          errorFromResponse_def errorFromResponseWithMsg_def unexpected_def)
  qed
qed

section \<open>Delete\<close>

definition delete_reply :: "('d, 'c) restServer \<Rightarrow> goerr option \<Rightarrow> writer" where
  "delete_reply rs r =
     (case r of
        Some err \<Rightarrow> SendWithStatus rs (PErr err) StatusInternalServerError fresh_writer
      | None \<Rightarrow> WriteHeader StatusNoContent fresh_writer)"

lemma served_delete:
  "map_of (sv_crudMap rs) be = Some b \<Longrightarrow>
   srv_DeleteItemById rs be ent oid fresh_writer = served (Delete b ent oid) (delete_reply rs) be"
  by (rule ext) (simp add: srv_DeleteItemById_def handleItem_def handleEntity_def handleBackend_def in_backend_def
      served_def delete_reply_def pbind_def preturn_def split: prod.split outcome.split option.split)

definition delete_result :: "payload api_response \<Rightarrow> goerr option outcome" where
  "delete_result resp =
     Returns (if status_of resp = StatusNoContent then None else Some (errorFromResponse (rs_HTTP resp)))"

lemma client_Delete_result:
  assumes "with_response do ParseDeleteItemByIdResponse (ReqDeleteItemById (g_be g) (g_ent g) oid) s = (Returns p, s')"
  shows "client_Delete do g oid s =
    (case p of Inl err \<Rightarrow> Returns (Some err) | Inr resp \<Rightarrow> delete_result resp, s')"
  using assms by (cases p) (auto simp: client_Delete_def DeleteItemByIdWithResponse_def ebind_def pbind_def preturn_def
      delete_result_def)

lemma delete_result_reply:
  assumes "json_sender (sv_send rs)" "sniff_lawful sniff"
  shows "\<exists>resp. ParseDeleteItemByIdResponse (http_answer sniff enc ''DELETE'' (delete_reply rs r)) = Inr resp \<and>
    delete_result resp =
      Returns (case r of
         None \<Rightarrow> None
       | Some e \<Rightarrow> (if error_code 500 e = 204 then None else Some (unexpected (error_code 500 e))))"
proof (cases r)
  case None
  obtain b where "hr_Body (http_answer sniff enc ''DELETE'' (WriteHeader 204 fresh_writer)) = Inr b"
    using http_answer_body by blast
  moreover have "hr_StatusCode (http_answer sniff enc ''DELETE'' (WriteHeader 204 fresh_writer)) = 204"
    by (simp add: http_answer_def final_status_def WriteHeader_def fresh_writer_def)
  ultimately show ?thesis
    using None by (simp add: delete_reply_def ParseDeleteItemByIdResponse_def parse_response_def delete_result_def status_of_def)
next
  case (Some e)
  obtain body where "ParseDeleteItemByIdResponse (http_answer sniff enc ''DELETE'' (SendWithStatus rs (PErr e) 500 fresh_writer)) =
      Inr \<lparr>rs_HTTP = http_answer sniff enc ''DELETE'' (SendWithStatus rs (PErr e) 500 fresh_writer), rs_BodyText = body, rs_JSON = None\<rparr>"
    "hr_StatusCode (http_answer sniff enc ''DELETE'' (SendWithStatus rs (PErr e) 500 fresh_writer)) = error_code 500 e"
    unfolding ParseDeleteItemByIdResponse_def using error_parsed [OF assms(1,2), of "[]" enc "''DELETE''" e] by auto
  with Some show ?thesis
    by (simp add: delete_reply_def delete_result_def status_of_def errorFromResponse_def errorFromResponseWithMsg_def
        unexpected_def)
qed

section \<open>BulkUpdate\<close>

text \<open>The body of the request as the handler decodes it.\<close>

lemma bulk_decode:
  assumes "list_all row_ok (bu_Objects r)"
  shows "decode_body as_BulkUpdateRequest (request_text enc (BulkUpdateRequest_json r)) =
    Inr \<lparr>bu_Mode = bu_Mode r, bu_Objects = map (dto_wire enc) (bu_Objects r)\<rparr>"
proof -
  let ?ms = "bu_Objects r"
  have "map (json_enc enc) (map VMap (map (sort_key fst) ?ms)) = map (json_enc enc) (map VMap ?ms)"
    by (simp add: json_enc_sorted del: json_enc.simps)
  then have "json_enc enc (VList (map VMap (map (sort_key fst) ?ms))) = json_enc enc (VList (map VMap ?ms))"
    unfolding json_enc.simps(8) by (rule arg_cong)
  then have same: "json_enc enc (VMap [(''mode'', VStr (bu_Mode r)), (''objects'', VList (map VMap (map (sort_key fst) ?ms)))]) =
      json_enc enc (BulkUpdateRequest_json r)"
    unfolding BulkUpdateRequest_json_def json_enc.simps(9) list.map prod.case by (simp only:)
  have members: "json_canon (VMap [(''mode'', VStr s), (''objects'', VList vs)])"
      "json_raw enc (VMap [(''mode'', VStr s), (''objects'', VList vs)]) =
        VMap [(''mode'', VStr s), (''objects'', VList (map (json_raw enc) vs))]" if "list_all json_canon vs" for s vs
    using that by (simp_all add: less_char_def)
  have canon: "list_all json_canon (map VMap (map (sort_key fst) ?ms))"
    using assms row_ok_canon by (auto simp: list_all_iff simp del: json_canon.simps)
  have raw: "map (json_raw enc) (map VMap (map (sort_key fst) ?ms)) = map VMap (map (dto_raw enc) ?ms)"
    by (simp add: json_raw_row del: json_raw.simps)
  have "as_BulkUpdateRequest (VMap [(''mode'', VStr (bu_Mode r)), (''objects'', VList (map VMap (map (dto_raw enc) ?ms)))]) =
      Some \<lparr>bu_Mode = bu_Mode r, bu_Objects = map (dto_wire enc) ?ms\<rparr>"
    using as_list_rows [OF assms, of enc]
    by (simp add: as_BulkUpdateRequest_def json_field_def to_lower_def to_lower_char_def
        del: as_list.simps as_dto.simps map_map)
  moreover have "json_decode (json_enc enc (BulkUpdateRequest_json r)) =
      Some (VMap [(''mode'', VStr (bu_Mode r)), (''objects'', VList (map VMap (map (dto_raw enc) ?ms)))])"
    using json_decode_enc [OF members(1) [OF canon, of "bu_Mode r"], of "[]" enc]
    unfolding append_Nil2 same members(2) [OF canon] raw by (simp add: num_stop_def)
  ultimately show ?thesis by (simp add: decode_body_def request_text_def)
qed

text \<open>What the handler runs for a mode.\<close>

definition bulk_run :: "('d, 'c) impl \<Rightarrow> string \<Rightarrow> string \<Rightarrow> string \<Rightarrow> gmap list \<Rightarrow> (('d, 'c) world, goerr option) prog" where
  "bulk_run b ent idCol mode objs =
     (if mode = DELETE then
        (case extractIds idCol no_id_msg objs [] of Inl err \<Rightarrow> preturn (Some err) | Inr ids \<Rightarrow> MultiDelete b ent ids)
      else if mode = UPDATE then MultiUpdate b ent objs
      else if mode = REPLACE \<or> mode = INSERT then MultiCreate b ent (mode = REPLACE) objs
      else preturn None)"

definition bulk_reply :: "('d, 'c) restServer \<Rightarrow> goerr option \<Rightarrow> writer" where
  "bulk_reply rs r =
     (case r of Some err \<Rightarrow> SendWithStatus rs (PErr err) StatusInternalServerError fresh_writer | None \<Rightarrow> fresh_writer)"

lemma served_bulk:
  assumes "map_of (sv_crudMap rs) be = Some b" "srv_IdColumn rs be ent = Returns idc" "list_all row_ok (bu_Objects r)"
  shows "srv_BulkUpdate rs be ent (request_text enc (BulkUpdateRequest_json r)) fresh_writer =
    served (bulk_run b ent idc (bu_Mode r) (map (dto_wire enc) (bu_Objects r))) (bulk_reply rs) be"
proof
  fix ws
  let ?m = "bulk_run b ent idc (bu_Mode r) (map (dto_wire enc) (bu_Objects r))"
  have "srv_BulkUpdate rs be ent (request_text enc (BulkUpdateRequest_json r)) fresh_writer ws =
      in_backend be (pbind ?m (\<lambda>r. preturn (bulk_reply rs r))) ws"
    unfolding srv_BulkUpdate_def handleEntity_def handleBackend_def bulk_decode [OF assms(3)]
    by (simp add: assms(1,2) bulk_run_def plift_def pbind_def in_backend_def preturn_def bulk_reply_def
        split: outcome.split option.split prod.split)
  also have "\<dots> = served ?m (bulk_reply rs) be ws"
    by (simp add: in_backend_def pbind_def served_def preturn_def split: prod.split outcome.split)
  finally show "srv_BulkUpdate rs be ent (request_text enc (BulkUpdateRequest_json r)) fresh_writer ws =
      served ?m (bulk_reply rs) be ws" .
qed

definition bulk_result :: "payload api_response \<Rightarrow> goerr option outcome" where
  "bulk_result resp = Returns (ensureResponseCode (rs_HTTP resp) StatusOK (rs_BodyText resp))"

lemma bulk_result_reply:
  assumes "json_sender (sv_send rs)" "sniff_lawful sniff"
  shows "\<exists>resp. ParseBulkUpdateResponse (http_answer sniff enc ''POST'' (bulk_reply rs r)) = Inr resp \<and>
    (case r of
       None \<Rightarrow> bulk_result resp = Returns None
     | Some e \<Rightarrow> (if error_code 500 e = 200 then bulk_result resp = Returns None
                 else \<exists>msg. bulk_result resp = Returns (Some (ErrorWithStatus 200 msg None))))"
proof (cases r)
  case None
  obtain b where "hr_Body (http_answer sniff enc ''POST'' fresh_writer) = Inr b" using http_answer_body by blast
  moreover have "hr_StatusCode (http_answer sniff enc ''POST'' fresh_writer) = 200"
    by (simp add: http_answer_def final_status_def fresh_writer_def)
  ultimately show ?thesis
    using None by (simp add: bulk_reply_def ParseBulkUpdateResponse_def parse_response_def bulk_result_def ensureResponseCode_def)
next
  case (Some e)
  obtain body where "ParseBulkUpdateResponse (http_answer sniff enc ''POST'' (SendWithStatus rs (PErr e) 500 fresh_writer)) =
      Inr \<lparr>rs_HTTP = http_answer sniff enc ''POST'' (SendWithStatus rs (PErr e) 500 fresh_writer), rs_BodyText = body, rs_JSON = None\<rparr>"
    "hr_StatusCode (http_answer sniff enc ''POST'' (SendWithStatus rs (PErr e) 500 fresh_writer)) = error_code 500 e"
    unfolding ParseBulkUpdateResponse_def using error_parsed [OF assms(1,2), of "[]" enc "''POST''" e] by auto
  with Some show ?thesis by (simp add: bulk_reply_def bulk_result_def ensureResponseCode_def)
qed

lemma client_Bulk_result:
  assumes "encode_objs g mode objs [] = Inr ms"
    and "with_response do ParseBulkUpdateResponse (ReqBulkUpdate (g_be g) (g_ent g) \<lparr>bu_Mode = mode, bu_Objects = ms\<rparr>) s =
      (Returns p, s')"
  shows "client_BulkUpdate do g objs mode s =
    (case p of Inl err \<Rightarrow> Returns (Some err) | Inr resp \<Rightarrow> bulk_result resp, s')"
  using assms by (cases p) (auto simp: bulk_result_def client_BulkUpdate_def BulkUpdateWithResponse_def ebind_def pbind_def preturn_def)

section \<open>Query\<close>

text \<open>The query that the server makes of the paging: no orders, no filter.\<close>

definition paged_only :: "page \<Rightarrow> qryData" where
  "paged_only p = \<lparr>qry_orders = [], qry_paging = Some p, qry_filter = NilE\<rparr>"

text \<open>The page that the client asks for: the default when the query has none.\<close>

definition query_page :: "qryData \<Rightarrow> page" where
  "query_page q = (case qry_paging q of None \<Rightarrow> DefaultPaging | Some p \<Rightarrow> p)"

definition named_params :: "page \<Rightarrow> string list \<Rightarrow> QueryNamedParams" where
  "named_params p args =
     \<lparr>qn_PageOffset = Some (sint (page_offset p)), qn_PageSize = Some (page_size p), qn_Arg = Some args\<rparr>"

lemma FromParams_named:
  "FromParams (qn_PageOffset (named_params p args)) (qn_PageSize (named_params p args)) None None =
    Returns (Inr (paged_only p))"
  by (cases p) (simp add: FromParams_def named_params_def Page_def paged_only_def)

lemma served_query:
  assumes "map_of (sv_crudMap rs) be = Some b"
  shows "srv_QueryNamed rs be name (named_params p args) fresh_writer =
    served (QueryNamed b name (Some (paged_only p)) (map VStr args)) (list_reply rs) be"
proof -
  have args: "qn_Arg (named_params p args) = Some args" by (simp add: named_params_def)
  show ?thesis
    unfolding srv_QueryNamed_def FromParams_named args Let_def
    using assms by (intro ext) (simp add: handleBackend_def in_backend_def served_def list_reply_def
      ebind_def pbind_def preturn_def plift_def split: prod.split outcome.split sum.split)
qed

definition query_result :: "payload api_response \<Rightarrow> (goerr + PagedResult option) outcome" where
  "query_result resp =
     (if status_of resp = StatusOK then
        Returns (Inr (case json_for 200 resp of Some (JPaged r) \<Rightarrow> Some r | _ \<Rightarrow> None))
      else if status_of resp = StatusNotFound then
        obind (get_message 404 resp) (\<lambda>msg. Returns (Inl (errorFromResponseWithMsg (rs_HTTP resp) msg)))
      else Returns (Inl (errorFromResponse (rs_HTTP resp))))"

lemma client_Query_result:
  assumes "query_page q = p"
    and "with_response do ParseQueryNamedResponse (ReqQueryNamed (g_be g) name (named_params p args)) s = (Returns x, s')"
  shows "client_Query do g name (Some q) args s =
    (case x of Inl err \<Rightarrow> Returns (Inl err) | Inr resp \<Rightarrow> query_result resp, s')"
  using assms by (cases x; cases "qry_paging q") (auto simp: client_Query_def QueryNamedWithResponse_def named_params_def
      query_page_def DefaultQuery_def ebind_def pbind_def preturn_def plift_def deref_def query_result_def split: outcome.split)

lemma query_result_reply:
  assumes "json_sender (sv_send rs)" "sniff_lawful sniff" and "\<And>p. r = Inr p \<Longrightarrow> page_ok p"
  shows "\<exists>resp. ParseQueryNamedResponse (http_answer sniff enc ''GET'' (list_reply rs r)) = Inr resp \<and>
    query_result resp =
      (case r of
         Inl e \<Rightarrow> (if error_code 500 e = 404 then Panics nil_deref
                   else if error_code 500 e = 200 then Returns (Inr None)
                   else Returns (Inl (unexpected (error_code 500 e))))
       | Inr p \<Rightarrow> Returns (Inr (Some (page_wire enc p))))"
proof (cases r)
  case (Inr p)
  have get: "''GET'' \<noteq> ''HEAD''" by simp
  obtain ct nl where a: "contains_json ct" "list_all ws_char nl"
    "http_answer sniff enc ''GET'' (SendWithStatus rs (PVal (PagedResult_json p)) 200 fresh_writer) =
      \<lparr>hr_StatusCode = 200, hr_ContentType = ct, hr_Body = Inr (json_enc enc (PagedResult_json p) @ nl)\<rparr>"
    using value_reply [OF assms(1) get] .
  obtain v where v: "json_unmarshal (json_enc enc (PagedResult_json p) @ nl) = Some v" "as_PagedResult v = Some (page_wire enc p)"
    using page_roundtrip [OF assms(3) [OF Inr] a(2), of enc] by blast
  with Inr a show ?thesis
    by (simp add: list_reply_def ParseQueryNamedResponse_def parse_response_def dec_paged_def query_result_def
        status_of_def json_for_def)
next
  case (Inl e)
  obtain body where "ParseQueryNamedResponse (http_answer sniff enc ''GET'' (SendWithStatus rs (PErr e) 500 fresh_writer)) =
      Inr \<lparr>rs_HTTP = http_answer sniff enc ''GET'' (SendWithStatus rs (PErr e) 500 fresh_writer), rs_BodyText = body, rs_JSON = None\<rparr>"
    "hr_StatusCode (http_answer sniff enc ''GET'' (SendWithStatus rs (PErr e) 500 fresh_writer)) = error_code 500 e"
    unfolding ParseQueryNamedResponse_def
    using error_parsed [OF assms(1,2), of "[(200, dec_paged), (404, dec_error)]" enc "''GET''" e] by auto
  with Inl show ?thesis
    by (simp add: list_reply_def query_result_def status_of_def get_message_def json_for_def
        errorFromResponse_def errorFromResponseWithMsg_def unexpected_def)
qed

end
