(* ===== verification/Typed_Operation.thy ===== *)
theory Typed_Operation
  imports Typed_Writes
begin

text \<open>
  The contract between one operation of the typed client and the handler it talks to: the call is
  decided by the parsed response, and the reply to a result of the handler's program is parsed to a
  response with the expected outcome. Each operation of the client is an instance.
\<close>

section \<open>The contract\<close>

locale typed_operation =
  fixes pre :: bool
    and req :: api_request
    and reply :: "('d, 'c) restServer \<Rightarrow> 'x \<Rightarrow> writer"
    and parse :: "http_response \<Rightarrow> goerr + payload api_response"
    and call :: "('d, 'c) worlds transport \<Rightarrow> (('d, 'c) worlds, 'y) prog"
    and result :: "payload api_response \<Rightarrow> 'y outcome"
    and failed :: "goerr \<Rightarrow> 'y"
    and ok :: "'x \<Rightarrow> bool"
    and expected :: "(gval \<Rightarrow> string) \<Rightarrow> 'x \<Rightarrow> 'y outcome \<Rightarrow> bool"
  assumes called: "pre \<Longrightarrow> with_response do parse req s = (Returns p, s') \<Longrightarrow>
      call do s = (case p of Inl err \<Rightarrow> Returns (failed err) | Inr resp \<Rightarrow> result resp, s')"
    and parsed: "json_sender (sv_send rs) \<Longrightarrow> sniff_lawful sniff \<Longrightarrow> ok x \<Longrightarrow>
      \<exists>resp. parse (http_answer sniff enc (request_method req) (reply rs x)) = Inr resp \<and> expected enc x (result resp)"
begin

lemma end_to_end_at:
  assumes at: "api_transport style enc c req = answer sniff enc (request_method req) (served m (reply rs) be)"
    and rs: "json_sender (sv_send rs)" "sniff_lawful sniff" and req: "pre"
    and run: "m (ws be) = (r, w')" "\<And>x. r = Returns x \<Longrightarrow> ok x"
  shows "\<exists>y. call (api_transport style enc c) ws = (y, ws(be := w')) \<and>
    (case r of Panics msg \<Rightarrow> y = Returns (failed (PlainError ''EOF'')) | Returns x \<Rightarrow> expected enc x y)"
proof (cases r)
  case (Panics msg)
  with called [OF req(1), of "api_transport style enc c" ws "Inl (PlainError ''EOF'')" "ws(be := w')"]
    typed_call_at [where parse = parse and ws = ws, OF at run(1)]
  show ?thesis by simp
next
  case (Returns x)
  then obtain resp where "parse (http_answer sniff enc (request_method req) (reply rs x)) = Inr resp"
    "expected enc x (result resp)"
    using parsed [OF rs run(2)] by blast
  with Returns called [OF req(1), of "api_transport style enc c" ws "Inr resp" "ws(be := w')"]
    typed_call_at [where parse = parse and ws = ws, OF at run(1)]
  show ?thesis by simp
qed

lemma end_to_end:
  assumes con: "connected style sniff enc rs c" and rs: "json_sender (sv_send rs)" "sniff_lawful sniff"
    and req: "pre" "routable req" "serve rs enc req = served m (reply rs) be"
    and run: "m (ws be) = (r, w')" "\<And>x. r = Returns x \<Longrightarrow> ok x"
  shows "\<exists>y. call (api_transport style enc c) ws = (y, ws(be := w')) \<and>
    (case r of Panics msg \<Rightarrow> y = Returns (failed (PlainError ''EOF'')) | Returns x \<Rightarrow> expected enc x y)"
proof -
  have "api_transport style enc c req = answer sniff enc (request_method req) (served m (reply rs) be)"
    using connected_answer [OF con req(2)] req(3) by simp
  from end_to_end_at [where ws = ws, OF this rs req(1) run] show ?thesis .
qed

end

section \<open>The operations\<close>

interpretation get_op: typed_operation True "ReqGetItemById (g_be g) (g_ent g) oid"
  "\<lambda>rs. get_reply rs (g_ent g) oid" ParseGetItemByIdResponse "\<lambda>do. client_Get do g oid" "get_result g" Inl
  "\<lambda>r. \<forall>row. r = Inr (Some row) \<longrightarrow> row_ok row"
  "\<lambda>enc r y. y = (case r of
     Inl e \<Rightarrow> (if error_code 500 e \<in> {200, 404} then Panics nil_deref else Returns (Inl (unexpected (error_code 500 e))))
   | Inr None \<Rightarrow> Returns (Inl (ErrorWithStatus 404 (not_found_msg (g_ent g) oid) None))
   | Inr (Some row) \<Rightarrow> Returns (g_decFn g (dto_wire enc row)))" for g oid
  by (unfold_locales, erule client_Get_result, unfold request_method.simps, rule get_result_reply, auto)

interpretation list_op: typed_operation "qry_ok q" "ReqListItems (g_be g) (g_ent g) (ToParams enc q)"
  list_reply ParseListItemsResponse "\<lambda>do. client_List do enc g (Some q)" "list_result g" Inl
  "\<lambda>r. \<forall>p. r = Inr p \<longrightarrow> page_ok p"
  "\<lambda>enc' r y. case r of
     Inl e \<Rightarrow> (if error_code 500 e = 200 then y = Panics nil_deref
               else \<exists>msg. y = Returns (Inl (ErrorWithStatus 200 msg None)))
   | Inr p \<Rightarrow> y = Returns (case decode_all (g_decFn g) (map (dto_wire enc') (the (pr_Data p))) [] of
                    Inl err \<Rightarrow> Inl err | Inr items \<Rightarrow> Inr (items, the (pr_TotalCount p)))" for g q enc
  by (unfold_locales, erule client_List_result, assumption, unfold request_method.simps, rule list_result_reply, auto)

interpretation create_op: typed_operation "g_encFn g t = Inr m"
  "ReqCreateItem (g_be g) (g_ent g) (excludeProps m (g_roProps g))"
  create_reply ParseCreateItemResponse "\<lambda>do. client_Create do g t" "create_result g" Inl
  "\<lambda>r. (\<forall>row. r = Inr (Some row) \<longrightarrow> row_ok row) \<and> (\<forall>e. r = Inl e \<longrightarrow> handled e)"
  "\<lambda>enc r y. y = (case r of
     Inl e \<Rightarrow> (if error_code 500 e \<in> {201, 500} then Panics nil_deref else Returns (Inl (unexpected (error_code 500 e))))
   | Inr res \<Rightarrow> Returns (g_decFn g (dto_back enc res)))" for g t m
  by (unfold_locales, erule client_Create_result, assumption, unfold request_method.simps, rule create_result_reply, auto)

interpretation update_op: typed_operation "g_encFn g t = Inr m"
  "ReqUpdateItemById (g_be g) (g_ent g) oid (excludeProps m (g_roProps g))"
  "\<lambda>rs. update_reply rs (g_ent g) oid" ParseUpdateItemByIdResponse "\<lambda>do. client_Update do g oid t" "update_result g" Inl
  "\<lambda>r. \<forall>row. r = Inr (Some (Some row)) \<longrightarrow> row_ok row"
  "\<lambda>enc r y. y = (case r of
     Inl e \<Rightarrow> (if error_code 500 e \<in> {202, 404} then Panics nil_deref else Returns (Inl (unexpected (error_code 500 e))))
   | Inr None \<Rightarrow> Returns (Inl (ErrorWithStatus 404 (not_found_msg (g_ent g) oid) None))
   | Inr (Some res) \<Rightarrow> Returns (g_decFn g (dto_back enc res)))" for g t m oid
  by (unfold_locales, erule client_Update_result, assumption, unfold request_method.simps, rule update_result_reply, auto)

interpretation delete_op: typed_operation True "ReqDeleteItemById (g_be g) (g_ent g) oid"
  delete_reply ParseDeleteItemByIdResponse "\<lambda>do. client_Delete do g oid" delete_result Some
  "\<lambda>r. True"
  "\<lambda>enc r y. y = Returns (case r of
     None \<Rightarrow> None
   | Some e \<Rightarrow> (if error_code 500 e = 204 then None else Some (unexpected (error_code 500 e))))" for g oid
  by (unfold_locales, erule client_Delete_result, unfold request_method.simps, rule delete_result_reply, auto)

interpretation bulk_op: typed_operation "encode_objs g mode objs [] = Inr ms"
  "ReqBulkUpdate (g_be g) (g_ent g) \<lparr>bu_Mode = mode, bu_Objects = ms\<rparr>"
  bulk_reply ParseBulkUpdateResponse "\<lambda>do. client_BulkUpdate do g objs mode"
  bulk_result Some "\<lambda>r. True"
  "\<lambda>enc r y. case r of
     None \<Rightarrow> y = Returns None
   | Some e \<Rightarrow> (if error_code 500 e = 200 then y = Returns None
               else \<exists>msg. y = Returns (Some (ErrorWithStatus 200 msg None)))" for g mode objs ms
  by (unfold_locales, erule client_Bulk_result, assumption, unfold request_method.simps, rule bulk_result_reply, auto)

interpretation query_op: typed_operation "query_page q = p" "ReqQueryNamed (g_be g) name (named_params p args)"
  list_reply ParseQueryNamedResponse "\<lambda>do. client_Query do g name (Some q) args" query_result Inl
  "\<lambda>r. \<forall>pr. r = Inr pr \<longrightarrow> page_ok pr"
  "\<lambda>enc r y. y = (case r of
     Inl e \<Rightarrow> (if error_code 500 e = 404 then Panics nil_deref
               else if error_code 500 e = 200 then Returns (Inr None)
               else Returns (Inl (unexpected (error_code 500 e))))
   | Inr pr \<Rightarrow> Returns (Inr (Some (page_wire enc pr))))" for g name q p args
  by (unfold_locales, erule client_Query_result, assumption, unfold request_method.simps, rule query_result_reply, auto)

end
