(* ===== verification/Wire_Properties.thy ===== *)
theory Wire_Properties
  imports Typed_Operation
begin

text \<open>
  Properties of client and server together: which requests reach their handler, and what the typed
  client returns for what the server's CRUD operation returned.
\<close>

section \<open>Requests and routes\<close>

text \<open>C1: A request reaches the handler of its operation with the client's own arguments: sent through
  a client made for the address of a server started with \<^verbatim>\<open>Run\<close>, through its router and its
  parameter binding, a request for addressable names is answered by what the handler writes (or, when
  the handler panics, by a closed connection). The version is answered with the build data.\<close>

theorem request_reaches_handler:
  assumes "serving im style rs scheme host psegs h"
    and "deployed_client default_doer sniff enc h scheme host psegs = Inr c"
    and "routable req"
  shows "api_transport style enc c req ws =
      (case serve rs enc req ws of
         (Returns w, ws') \<Rightarrow> (Returns (Inr (http_answer sniff enc (request_method req) w)), ws')
       | (Panics msg, ws') \<Rightarrow> (Returns (Inl (PlainError ''EOF'')), ws')) \<and>
    Client_GetVersionInfo c [] ws =
      (Returns (Inr (http_answer sniff enc ''GET'' (SendWithStatus rs (PVal (hi_Version im)) 200 fresh_writer))), ws)"
proof -
  have con: "connected style sniff enc rs c" unfolding connected_def using assms(1,2) by blast
  have "prefix_ok psegs" "psegs \<noteq> []" using assms(1) by (auto simp: serving_def deployed_def wire_ok_def address_ok_def)
  from deployed_client_Inr [OF this, of default_doer sniff enc h scheme host] assms(2)
  have "c = client_of (over_http sniff enc h) scheme host psegs" by (simp add: client_of_def)
  with deliver_GetVersionInfo [OF assms(1), of sniff enc] connected_answer [OF con assms(3)]
  show ?thesis by (simp add: answer_def srv_GetVersionInfo_def preturn_def)
qed

definition ref_sniff :: "string \<Rightarrow> string" where
  "ref_sniff s = ''text/plain; charset=utf-8''"

definition ref_client :: "((string list \<times> string list), unit) worlds Client" where
  "ref_client = client_of (over_http ref_sniff fmt_v ref_handler) ''http'' ''localhost'' [''api'', ''v1'']"

lemma ref_client_deployed:
  "deployed_client d ref_sniff fmt_v ref_handler ''http'' ''localhost'' [''api'', ''v1''] = Inr ref_client"
  unfolding ref_client_def client_of_def
  by (rule deployed_client_Inr) (simp_all add: prefix_ok_def unreserved_def)

definition ref_worlds :: "((string list \<times> string list), unit) worlds" where
  "ref_worlds = (\<lambda>n. small_world)"

theorem request_reaches_handler_witness:
  "api_transport ref_style fmt_v ref_client (ReqGetItemById ''main'' ''t'' ''a b'') ref_worlds =
    (case serve ref_rs fmt_v (ReqGetItemById ''main'' ''t'' ''a b'') ref_worlds of
       (Returns w, ws') \<Rightarrow> (Returns (Inr (http_answer ref_sniff fmt_v ''GET'' w)), ws')
     | (Panics msg, ws') \<Rightarrow> (Returns (Inl (PlainError ''EOF'')), ws'))"
proof -
  have "routable (ReqGetItemById ''main'' ''t'' ''a b'')" by (simp add: name_ok_def)
  from request_reaches_handler [OF ref_serving ref_client_deployed this, of ref_worlds]
  show ?thesis unfolding request_method.simps by blast
qed

lemma ref_connected: "connected ref_style ref_sniff fmt_v ref_rs ref_client"
  unfolding connected_def using ref_serving ref_client_deployed by blast

lemma ref_laws: "json_sender (sv_send ref_rs)" "sniff_lawful ref_sniff" "map_of (sv_crudMap ref_rs) ''main'' = Some counting_impl"
proof -
  have "contains_json ''application/json''"
    by (simp add: contains_json_def list_ex_iff)
  then show "json_sender (sv_send ref_rs)"
    by (auto simp: json_sender_def sender_lawful_def ref_rs_def ref_sender_def WriteBody_def WriteHeader_def SetContentType_def
        fresh_writer_def ws_char_def split: prod.split)
  show "sniff_lawful ref_sniff" by (simp add: sniff_lawful_def ref_sniff_def contains_json_plain)
  show "map_of (sv_crudMap ref_rs) ''main'' = Some counting_impl" by (simp add: ref_rs_def)
qed

text \<open>C35: Two entities cannot be reached by every operation, because their paths belong to other
  operations: listing the items of an entity called \<^verbatim>\<open>entities\<close> is answered with the names of all
  entities, and reading an item of an entity called \<^verbatim>\<open>_query\<close> runs the named query of that name
  instead.\<close>

theorem shadowed_entities:
  assumes "connected style sniff enc rs c" "name_ok be" "name_ok oid" "Order ps \<noteq> Some []"
  shows "api_transport style enc c (ReqListItems be ''entities'' ps) =
      answer sniff enc ''GET'' (srv_ListEntities rs be fresh_writer) \<and>
    api_transport style enc c (ReqGetItemById be ''_query'' oid) =
      answer sniff enc ''GET'' (srv_QueryNamed rs be oid no_params fresh_writer)"
proof -
  obtain im scheme host psegs h where sv: "serving im style rs scheme host psegs h"
    and c: "c = client_of (over_http sniff enc h) scheme host psegs"
    using connected_parts [OF assms(1)] .
  show ?thesis
    using misroute_entities [OF sv assms(2)] misroute_query [OF sv assms(2,3)] assms(4) by (simp add: c)
qed

theorem shadowed_entities_witness:
  "api_transport ref_style fmt_v ref_client (ReqGetItemById ''main'' ''_query'' ''1'') =
     answer ref_sniff fmt_v ''GET'' (srv_QueryNamed ref_rs ''main'' ''1'' no_params fresh_writer) \<and>
   api_transport ref_style fmt_v ref_client (ReqListItems ''main'' ''entities''
       \<lparr>PageOffset = None, PageSize = None, Order = None, Filter = None\<rparr>) =
     answer ref_sniff fmt_v ''GET'' (srv_ListEntities ref_rs ''main'' fresh_writer)"
  using shadowed_entities [OF ref_connected, of "''main''" "''1''" "\<lparr>PageOffset = None, PageSize = None, Order = None, Filter = None\<rparr>"]
  by (simp add: name_ok_def)

text \<open>C36: An item whose id is empty, or consists of parts with slashes between them, cannot be addressed: the
  router has no route for it and answers 404 with a text, which makes \<^verbatim>\<open>Get\<close> and \<^verbatim>\<open>Update\<close> of the typed
  client panic and \<^verbatim>\<open>Delete\<close> fail, although the row may exist; no database is asked. The parts are
  neither empty nor \<^verbatim>\<open>.\<close> nor \<^verbatim>\<open>..\<close>: ids with such parts are redirected by the router to a cleaned path
  and not covered.\<close>

theorem unroutable_id_panics:
  assumes "connected style sniff enc rs c" "sniff_lawful sniff"
    and "name_ok (g_be g)" "name_ok (g_ent g)" "unroutable_id oid" "g_encFn g t = Inr m"
  shows "client_Get (api_transport style enc c) g oid ws = (Panics nil_deref, ws) \<and>
    client_Update (api_transport style enc c) g oid t ws = (Panics nil_deref, ws) \<and>
    client_Delete (api_transport style enc c) g oid ws =
      (Returns (Some (ErrorWithStatus 404 ''unexpected error code: 404'' None)), ws)"
proof -
  have a: "\<exists>ct tx. \<not> contains_json ct \<and> api_transport style enc c req ws =
      (Returns (Inr \<lparr>hr_StatusCode = 404, hr_ContentType = ct, hr_Body = Inr tx\<rparr>), ws)"
    if "req \<in> {ReqGetItemById (g_be g) (g_ent g) oid, ReqDeleteItemById (g_be g) (g_ent g) oid} \<union>
      range (ReqUpdateItemById (g_be g) (g_ent g) oid)" for req
    using that unroutable_answer [OF assms(1,3,4,5,2), where req = req and ws = ws] by auto
  note r = typed_404_text [where do = "api_transport style enc c" and g = g and oid = oid and s = ws, OF a]
  from r(1) r(2) [OF _ assms(6)] r(3) show ?thesis by blast
qed

definition ref_generic :: "gmap generic" where
  "ref_generic = client_New Inr Inr ''main'' ''t'' []"

lemma ref_generic_fields [simp]:
  "g_be ref_generic = ''main''" "g_ent ref_generic = ''t''" "g_encFn ref_generic = Inr" "g_decFn ref_generic = Inr"
  "g_roProps ref_generic = []"
  by (simp_all add: ref_generic_def client_New_def WithPayloadEncoder_def WithPayloadDecoder_def
      ReadOnlyProperties_def IdProperty_def)

theorem unroutable_id_panics_witness:
  "client_Get (api_transport ref_style fmt_v ref_client) ref_generic ''a/b'' ref_worlds = (Panics nil_deref, ref_worlds)"
proof -
  have oid: "unroutable_id ''a/b''" by (simp add: unroutable_id_def name_ok_def)
  have names: "name_ok (g_be ref_generic)" "name_ok (g_ent ref_generic)" and enc: "g_encFn ref_generic [] = Inr []"
    by (simp_all add: name_ok_def)
  from unroutable_id_panics [OF ref_connected ref_laws(2) names oid enc] show ?thesis by blast
qed

section \<open>Calls of the typed client\<close>

text \<open>C16: \<^verbatim>\<open>Get\<close> end to end: when the server finds the row, the client decodes exactly that row (in
  its JSON form); when there is none, the client's error has status 404 and the server's message; an
  error of the server arrives as its mapped status, except that 200 and 404 with a text make the
  client panic; a panic of the server arrives as a broken connection. Only the world of the addressed
  backend changes, by what the server's \<^verbatim>\<open>Get\<close> did.\<close>

theorem get_end_to_end:
  assumes "connected style sniff enc rs c" "json_sender (sv_send rs)" "sniff_lawful sniff"
    and "routable (ReqGetItemById (g_be g) (g_ent g) oid)" "map_of (sv_crudMap rs) (g_be g) = Some b"
    and "Get b (g_ent g) oid (ws (g_be g)) = (r, w')" "\<And>row. r = Returns (Inr (Some row)) \<Longrightarrow> row_ok row"
  shows "client_Get (api_transport style enc c) g oid ws =
    ((case r of
        Panics msg \<Rightarrow> Returns (Inl (PlainError ''EOF''))
      | Returns (Inl e) \<Rightarrow>
          (if error_code 500 e \<in> {200, 404} then Panics nil_deref
           else Returns (Inl (unexpected (error_code 500 e))))
      | Returns (Inr None) \<Rightarrow> Returns (Inl (ErrorWithStatus 404 (not_found_msg (g_ent g) oid) None))
      | Returns (Inr (Some row)) \<Rightarrow> Returns (g_decFn g (dto_wire enc row))), ws(g_be g := w'))"
proof -
  have "serve rs enc (ReqGetItemById (g_be g) (g_ent g) oid) =
      served (Get b (g_ent g) oid) (get_reply rs (g_ent g) oid) (g_be g)"
    using served_get [OF assms(5)] by simp
  from get_op.end_to_end [where ws = ws, OF assms(1-3) TrueI assms(4) this assms(6)] assms(7) show ?thesis
    by (auto split: outcome.splits sum.splits option.splits)
qed

lemma counting_get: "\<exists>w'. Get counting_impl ''t'' ''1'' small_world = (Returns (Inr (Some [(''n'', VStr ''3'')])), w')"
proof -
  have "fst (Get counting_impl ''t'' ''1'' small_world) = Returns (Inr (Some [(''n'', VStr ''3'')]))" by code_simp
  then show ?thesis by (metis prod.collapse)
qed

theorem get_end_to_end_witness:
  "fst (client_Get (api_transport ref_style fmt_v ref_client) ref_generic ''1'' ref_worlds) =
     Returns (Inr [(''n'', VStr ''3'')])"
proof -
  obtain w' where get: "Get counting_impl (g_ent ref_generic) ''1'' (ref_worlds (g_be ref_generic)) =
      (Returns (Inr (Some [(''n'', VStr ''3'')])), w')"
    using counting_get by (auto simp: ref_worlds_def)
  have "routable (ReqGetItemById (g_be ref_generic) (g_ent ref_generic) ''1'')"
    "map_of (sv_crudMap ref_rs) (g_be ref_generic) = Some counting_impl"
    using ref_laws(3) by (simp_all add: name_ok_def)
  moreover have "row_ok row" if "Returns (Inr (Some [(''n'', VStr ''3'')])) = Returns (Inr (Some row) :: goerr + gmap option)" for row
    using that by (auto simp: row_ok_def)
  ultimately show ?thesis
    using get_end_to_end [where ws = ref_worlds and g = ref_generic and b = counting_impl and oid = "''1''",
        OF ref_connected ref_laws(1,2) _ _ get] by (simp add: dto_wire_def)
qed

text \<open>C18: \<^verbatim>\<open>Create\<close> end to end: the server's \<^verbatim>\<open>Create\<close> gets the encoded item without the
  read-only properties, in its JSON form, and the client decodes the row it stored. A failure that
  the server maps to a status other than 201 and 500 arrives as an error with that status; every
  failure that it maps to 500, so every database error but a duplicate key, a violated foreign key and
  a missing value, makes the client panic.\<close>

theorem create_end_to_end:
  assumes "connected style sniff enc rs c" "json_sender (sv_send rs)" "sniff_lawful sniff"
    and "name_ok (g_be g)" "name_ok (g_ent g)" "map_of (sv_crudMap rs) (g_be g) = Some b"
    and "g_encFn g t = Inr m" "row_ok (excludeProps m (g_roProps g))"
    and "Create b (g_ent g) (dto_wire enc (excludeProps m (g_roProps g))) (ws (g_be g)) = (r, w')"
    and "\<And>row. r = Returns (Inr (Some row)) \<Longrightarrow> row_ok row" "\<And>e. r = Returns (Inl e) \<Longrightarrow> handled e"
  shows "client_Create (api_transport style enc c) g t ws =
    ((case r of
        Panics msg \<Rightarrow> Returns (Inl (PlainError ''EOF''))
      | Returns (Inl e) \<Rightarrow>
          (if error_code 500 e \<in> {201, 500} then Panics nil_deref
           else Returns (Inl (unexpected (error_code 500 e))))
      | Returns (Inr res) \<Rightarrow> Returns (g_decFn g (dto_back enc res))), ws(g_be g := w'))"
proof -
  have rt: "routable (ReqCreateItem (g_be g) (g_ent g) (excludeProps m (g_roProps g)))" using assms(4,5) by simp
  have "serve rs enc (ReqCreateItem (g_be g) (g_ent g) (excludeProps m (g_roProps g))) =
      served (Create b (g_ent g) (dto_wire enc (excludeProps m (g_roProps g)))) (create_reply rs) (g_be g)"
    using served_create [OF assms(6,8)] by simp
  from create_op.end_to_end [where ws = ws, OF assms(1-3,7) rt this assms(9)] assms(10,11) show ?thesis
    by (auto split: outcome.splits sum.splits)
qed

theorem create_end_to_end_witness:
  "fst (client_Create (api_transport ref_style fmt_v ref_client) ref_generic [(''n'', VStr ''x'')] ref_worlds) =
     Returns (Inr [(''n'', VStr ''3'')])"
proof -
  have wire: "dto_wire fmt_v (excludeProps [(''n'', VStr ''x'')] (g_roProps ref_generic)) = [(''n'', VStr ''x'')]"
    by (simp add: excludeProps_def dto_wire_def)
  have "fst (Create counting_impl ''t'' [(''n'', VStr ''x'')] small_world) = Returns (Inr (Some [(''n'', VStr ''3'')]))" by code_simp
  then obtain w' where "Create counting_impl ''t'' [(''n'', VStr ''x'')] small_world = (Returns (Inr (Some [(''n'', VStr ''3'')])), w')"
    by (metis prod.collapse)
  then have cr: "Create counting_impl (g_ent ref_generic) (dto_wire fmt_v (excludeProps [(''n'', VStr ''x'')] (g_roProps ref_generic)))
      (ref_worlds (g_be ref_generic)) = (Returns (Inr (Some [(''n'', VStr ''3'')])), w')"
    unfolding wire by (simp add: ref_worlds_def)
  have ok: "name_ok (g_be ref_generic)" "name_ok (g_ent ref_generic)" "map_of (sv_crudMap ref_rs) (g_be ref_generic) = Some counting_impl"
    "g_encFn ref_generic [(''n'', VStr ''x'')] = Inr [(''n'', VStr ''x'')]"
    "row_ok (excludeProps [(''n'', VStr ''x'')] (g_roProps ref_generic))"
    using ref_laws(3) by (simp_all add: name_ok_def row_ok_def excludeProps_def)
  have "row_ok row" if "Returns (Inr (Some [(''n'', VStr ''3'')])) = Returns (Inr (Some row) :: goerr + gmap option)" for row
    using that by (auto simp: row_ok_def)
  from create_end_to_end [where ws = ref_worlds and g = ref_generic, OF ref_connected ref_laws(1,2) ok cr this]
  show ?thesis by (simp add: dto_back_def dto_wire_def)
qed

text \<open>The call in full, for the loader as well.\<close>

lemma client_List_served:
  assumes "connected style sniff enc rs c" "json_sender (sv_send rs)" "sniff_lawful sniff"
    and "list_routable (g_be g) (g_ent g) q" "qry_ok q" "map_of (sv_crudMap rs) (g_be g) = Some b"
    and "ListItems b (g_ent g) (Some (qry_norm enc q)) (ws (g_be g)) = (r, w')"
    and "\<And>p. r = Returns (Inr p) \<Longrightarrow> page_ok p"
  shows "\<exists>msg. client_List (api_transport style enc c) enc g (Some q) ws =
    ((case r of
        Panics m \<Rightarrow> Returns (Inl (PlainError ''EOF''))
      | Returns (Inl e) \<Rightarrow>
          (if error_code 500 e = 200 then Panics nil_deref else Returns (Inl (ErrorWithStatus 200 msg None)))
      | Returns (Inr p) \<Rightarrow>
          Returns (case decode_all (g_decFn g) (map (dto_wire enc) (the (pr_Data p))) [] of
                     Inl err \<Rightarrow> Inl err | Inr items \<Rightarrow> Inr (items, the (pr_TotalCount p)))), ws(g_be g := w'))"
proof -
  have "serve rs enc (ReqListItems (g_be g) (g_ent g) (ToParams enc q)) =
      served (ListItems b (g_ent g) (Some (qry_norm enc q))) (list_reply rs) (g_be g)"
    using served_list [OF assms(6,5)] by simp
  note call = list_op.end_to_end [where ws = ws and enc = enc,
      OF assms(1-3,5) list_routable_request [OF assms(4)] this assms(7)]
  have "\<And>x. r = Returns x \<Longrightarrow> \<forall>p. x = Inr p \<longrightarrow> page_ok p" using assms(8) by simp
  from call [OF this] show ?thesis
    by (cases r; cases "case r of Returns x \<Rightarrow> x | _ \<Rightarrow> undefined") (auto split: if_splits)
qed

text \<open>C17: \<^verbatim>\<open>List\<close> end to end: the server lists with the client's own query (the default paging filled
  in, the filter in its JSON form), and the client returns all items of the page, decoded in order,
  with the server's total. Every failure the server reports arrives as an error whose status is 200,
  the status the client expected, so that callers cannot tell failures apart by status.\<close>

theorem list_end_to_end:
  assumes "connected style sniff enc rs c" "json_sender (sv_send rs)" "sniff_lawful sniff"
    and "list_routable (g_be g) (g_ent g) q" "qry_ok q" "map_of (sv_crudMap rs) (g_be g) = Some b"
    and "ListItems b (g_ent g) (Some (qry_norm enc q)) (ws (g_be g)) = (r, w')"
    and "\<And>p. r = Returns (Inr p) \<Longrightarrow> page_ok p"
  shows "\<exists>msg. client_List (api_transport style enc c) enc g (Some q) ws =
    ((case r of
        Panics m \<Rightarrow> Returns (Inl (PlainError ''EOF''))
      | Returns (Inl e) \<Rightarrow>
          (if error_code 500 e = 200 then Panics nil_deref else Returns (Inl (ErrorWithStatus 200 msg None)))
      | Returns (Inr p) \<Rightarrow>
          Returns (case decode_all (g_decFn g) (map (dto_wire enc) (the (pr_Data p))) [] of
                     Inl err \<Rightarrow> Inl err | Inr items \<Rightarrow> Inr (items, the (pr_TotalCount p)))), ws(g_be g := w'))"
  using assms by (rule client_List_served)

lemma counting_list: "\<exists>w'. ListItems counting_impl ''t'' (Some DefaultQuery) small_world =
    (Returns (Inr \<lparr>pr_Data = Some [[(''n'', VStr ''3'')]], pr_Offset = Some (F64 False 0 0), pr_TotalCount = Some 3\<rparr>), w')"
proof -
  have n: "dec_nat 0 = ''0''" "dec_nat 20 = ''20''" by code_simp+
  have tail: "qry_String DefaultQuery = Returns '' LIMIT 0, 20''"
    by (simp add: qry_String_def qry_where_def DefaultQuery_def DefaultPaging_def Page_def page_String_def dec_int_def n)
  have three: "parse_int ''3'' = Some 3" by code_simp
  have zero: "float32 0 = F64 False 0 0"
    by (simp add: float32_def float32_decimal_def float32_of_nat_def float32_shift.simps [of 0] n decimal_of_int_def
        strip_zeros.simps [of 0])
  have q: "qry_filter DefaultQuery = NilE" "qry_paging DefaultQuery = Some \<lparr>page_offset = 0, page_size = 20\<rparr>"
    by (simp_all add: DefaultQuery_def DefaultPaging_def Page_def)
  have m: "mapEntity (Inr [VStr ''3'']) [''n''] [\<lparr>ct_Name = ''n'', ct_DatabaseTypeName = ''INT''\<rparr>] = Returns (Inr [(''n'', VStr ''3'')])"
    by code_simp
  show ?thesis
    by (simp add: ListItems_def Let_def q tail zero fetchRows_def getRowMetadata_def ebind_def small_runs db_QueryRow_int_def
        scan_row_int_def three counting_driver_def small_driver_def small_world_def m)
qed

theorem list_end_to_end_witness:
  "fst (client_List (api_transport ref_style fmt_v ref_client) fmt_v ref_generic (Some DefaultQuery) ref_worlds) =
     Returns (Inr ([[(''n'', VStr ''3'')]], 3))"
proof -
  have norm: "qry_norm fmt_v DefaultQuery = DefaultQuery"
    by (simp add: qry_norm_def DefaultQuery_def)
  let ?p = "\<lparr>pr_Data = Some [[(''n'', VStr ''3'')]], pr_Offset = Some (F64 False 0 0), pr_TotalCount = Some 3\<rparr>"
  obtain w' where "ListItems counting_impl ''t'' (Some DefaultQuery) small_world = (Returns (Inr ?p), w')"
    using counting_list by blast
  then have li: "ListItems counting_impl (g_ent ref_generic) (Some (qry_norm fmt_v DefaultQuery))
      (ref_worlds (g_be ref_generic)) = (Returns (Inr ?p), w')"
    unfolding norm by (simp add: ref_worlds_def)
  have ok: "list_routable (g_be ref_generic) (g_ent ref_generic) DefaultQuery" "qry_ok DefaultQuery"
    "map_of (sv_crudMap ref_rs) (g_be ref_generic) = Some counting_impl"
    using ref_laws(3)
    by (simp_all add: list_routable_def name_ok_def DefaultQuery_def DefaultPaging_def Page_def int_ok_def qry_ok_def)
  have "page_ok p" if "Returns (Inr ?p) = Returns (Inr p :: goerr + PagedResult)" for p
  proof -
    from that have "p = ?p" by (simp only: outcome.inject sum.inject)
    then show ?thesis by (simp add: page_ok_def row_ok_def int_ok_def)
  qed
  from list_end_to_end [where ws = ref_worlds and g = ref_generic, OF ref_connected ref_laws(1,2) ok li this]
  show ?thesis by (simp add: dto_wire_def)
qed

end
