(* ===== verification/Server_Runs.thy ===== *)
theory Server_Runs
  imports Wire_Properties Interleaving
begin

text \<open>
  The server over time: runs of requests as an inductive relation on the worlds of its backends, and
  what happens to transactions during a run.
\<close>

section \<open>Open transactions\<close>

text \<open>Transactions begun and not ended, read from the calls a database received.\<close>

fun tx_delta :: "dbcall \<Rightarrow> int" where
  "tx_delta CBegin = 1"
| "tx_delta CCommit = - 1"
| "tx_delta CRollback = - 1"
| "tx_delta _ = 0"

definition tx_open :: "dbcall list \<Rightarrow> int" where
  "tx_open evs = sum_list (map tx_delta evs)"

lemma tx_open_simps [simp]:
  "tx_open [] = 0" "tx_open (c # evs) = tx_delta c + tx_open evs" "tx_open (evs @ evs') = tx_open evs + tx_open evs'"
  by (simp_all add: tx_open_def)

definition plain_call :: "dbcall \<Rightarrow> bool" where
  "plain_call c \<longleftrightarrow> tx_delta c = 0"

lemma plain_calls [simp]: "plain_call (CQuery q a)" "plain_call (CExec q a)" "plain_call (CTxExec q a)"
  "\<not> plain_call CBegin" "\<not> plain_call CCommit" "\<not> plain_call CRollback"
  by (simp_all add: plain_call_def)

lemma plain_call_kinds: "is_txexec c \<Longrightarrow> plain_call c" "is_query c \<Longrightarrow> plain_call c"
  by (cases c; simp)+

text \<open>The calls that begin or end a transaction.\<close>

definition tx_marks :: "dbcall list \<Rightarrow> dbcall list" where
  "tx_marks evs = filter (\<lambda>c. \<not> plain_call c) evs"

lemma tx_marks_simps [simp]:
  "tx_marks [] = []" "tx_marks (c # evs) = (if plain_call c then tx_marks evs else c # tx_marks evs)"
  "tx_marks (evs @ evs') = tx_marks evs @ tx_marks evs'"
  by (simp_all add: tx_marks_def)

lemma tx_marks_plain: "list_all plain_call evs \<Longrightarrow> tx_marks evs = []"
  by (simp add: tx_marks_def filter_empty_conv list_all_iff)

lemma tx_open_marks: "tx_open (tx_marks evs) = tx_open evs"
  by (induction evs) (simp_all add: plain_call_def)

lemma tx_marks_queries: "tx_marks (filter (\<lambda>c. \<not> is_query c) evs) = tx_marks evs"
  by (induction evs) (simp_all add: plain_call_kinds)

lemma tx_marks_takeWhile: "tx_marks (takeWhile is_txexec evs) = []"
  by (induction evs) (simp_all add: plain_call_kinds)

text \<open>A batch that begins its transaction ends it, unless it panics.\<close>

lemma batch_trace_marks:
  assumes "batch_trace P xs r evs"
  shows "if is_returns r then tx_marks evs = [CCommit] \<or> tx_marks evs = [CRollback] else tx_marks evs = []"
proof -
  let ?txs = "filter (\<lambda>c. \<not> is_query c) evs"
  have "tx_marks evs = tx_marks (takeWhile is_txexec ?txs @ dropWhile is_txexec ?txs)"
    by (simp add: tx_marks_queries)
  then have e: "tx_marks evs = tx_marks (dropWhile is_txexec ?txs)"
    unfolding tx_marks_simps(3) by (simp add: tx_marks_takeWhile)
  show ?thesis unfolding e using assms
    by (cases r) (auto simp: batch_trace_def Let_def simp del: dropWhile_eq_Nil_conv split: option.splits)
qed

text \<open>What a program may do to transactions: at most one, which is ended unless the program panics.\<close>

definition tidy_marks :: "'a outcome \<Rightarrow> dbcall list \<Rightarrow> bool" where
  "tidy_marks r ms \<longleftrightarrow> ms = [] \<or> ms = [CBegin, CCommit] \<or> ms = [CBegin, CRollback] \<or> (ms = [CBegin] \<and> \<not> is_returns r)"

lemma in_tx_marks:
  assumes "in_tx (Some drv) loop w = (r, w')" "\<And>d. fst (drv_Begin drv d) = None"
    and "\<And>w. loop w = (r, w') \<Longrightarrow> \<exists>evs. w_calls w' = w_calls w @ evs \<and> batch_trace P xs r evs"
  shows "\<exists>cs. w_calls w' = w_calls w @ cs \<and> tidy_marks r (tx_marks cs)"
  using assms(1)
proof (cases rule: in_tx_cases)
  case (1 e d1)
  with assms(2) [of "w_db w"] show ?thesis by simp
next
  case (2 d1)
  obtain evs where "w_calls w' = w_calls w @ CBegin # evs" "batch_trace P xs r evs" using assms(3) [OF 2(2)] by auto
  with batch_trace_marks [OF this(2)] show ?thesis
    by (intro exI [of _ "CBegin # evs"]) (auto simp: tidy_marks_def split: if_splits)
qed

section \<open>The end of a request\<close>

text \<open>
  \<^verbatim>\<open>BeginTx\<close> is given the context of the request. \<^verbatim>\<open>net/http\<close> cancels it when the handler is done,
  returned or panicked, and \<^verbatim>\<open>database/sql\<close> then rolls back a transaction that was begun with it and
  is still open: one whose start was answered without an error and that was not ended since.
\<close>

definition left_open :: "'d driver \<Rightarrow> ('d, 'c) world \<Rightarrow> ('d, 'c) world \<Rightarrow> bool" where
  "left_open drv w w' =
     (let cs = drop (length (w_calls w)) (w_calls w')
      in tx_run (zip cs (fst (performs drv cs (w_db w)))))"

definition undone :: "('d, 'c) restServer \<Rightarrow> ('d, 'c) worlds \<Rightarrow> ('d, 'c) worlds \<Rightarrow> string list" where
  "undone rs ws ws' = filter (\<lambda>n. case map_of (sv_crudMap rs) n of
       None \<Rightarrow> False
     | Some c \<Rightarrow> (case im_db c of None \<Rightarrow> False | Some drv \<Rightarrow> left_open drv (ws n) (ws' n)))
     (remdups (map fst (sv_crudMap rs)))"

definition context_done :: "('d, 'c) restServer \<Rightarrow> string list \<Rightarrow> ('d, 'c) worlds \<Rightarrow> ('d, 'c) worlds" where
  "context_done rs us ws n =
     (if n \<in> set us then (case map_of (sv_crudMap rs) n of None \<Rightarrow> ws n | Some c \<Rightarrow> snd (tx_Rollback (im_db c) (ws n)))
      else ws n)"

text \<open>A database that never refuses to start a transaction: what is open is then seen from the calls.\<close>

lemma tx_run_marks:
  assumes "\<And>d. fst (drv_Begin drv d) = None"
  shows "fold (\<lambda>(c, x) b. tx_after c x b) (zip cs (fst (performs drv cs d))) b =
    (if tx_marks cs = [] then b else last (tx_marks cs) = CBegin)"
proof (induction cs arbitrary: d b)
  case (Cons c cs)
  obtain x d' where p: "perform drv c d = (x, d')" by fastforce
  have "tx_after c x b = (if plain_call c then b else c = CBegin)"
    using p assms by (cases c) (auto simp: plain_call_def split: prod.splits, metis fst_conv)
  with Cons.IH [of d' "tx_after c x b"] p show ?case
    by (auto split: prod.splits)
qed simp

lemma left_open_marks:
  assumes "\<And>d. fst (drv_Begin drv d) = None" "w_calls w' = w_calls w @ cs"
  shows "left_open drv w w' \<longleftrightarrow> tx_marks cs \<noteq> [] \<and> last (tx_marks cs) = CBegin"
  using tx_run_marks [OF assms(1), of cs "w_db w" False] assms(2) by (simp add: left_open_def tx_run_def)

section \<open>Runs\<close>

text \<open>
  A run is the list of the requests served so far, each with the outcome of its handler and the
  backends at which a transaction was rolled back at its end. A handler that panicked leaves the world
  as it was at that point, and the server goes on.
\<close>

type_synonym served = "api_request \<times> writer outcome \<times> string list"

inductive server_run :: "('d, 'c) restServer \<Rightarrow> (gval \<Rightarrow> string) \<Rightarrow> ('d, 'c) worlds \<Rightarrow>
    served list \<Rightarrow> ('d, 'c) worlds \<Rightarrow> bool"
  for rs enc ws where
  run_start: "server_run rs enc ws [] ws"
| run_serve: "server_run rs enc ws tr ws' \<Longrightarrow> serve rs enc req ws' = (r, ws'') \<Longrightarrow> us = undone rs ws' ws'' \<Longrightarrow>
    server_run rs enc ws (tr @ [(req, r, us)]) (context_done rs us ws'')"

inductive_cases server_run_snocE: "server_run rs enc ws (tr @ [(req, r, us)]) ws''"

inductive_simps server_run_Nil [simp]: "server_run rs enc ws [] ws'"

section \<open>What one request does to transactions\<close>

lemmas plain_ops = keeps_single [where P = plain_call, OF plain_calls(1,2)]

text \<open>The backends of a running server: opened, with a lawful cache, over databases that start
  transactions.\<close>

definition tx_server :: "('d, 'c) restServer \<Rightarrow> bool" where
  "tx_server rs \<longleftrightarrow>
     (\<forall>(n, c) \<in> set (sv_crudMap rs). cache_lawful (im_mdCache c) \<and>
        (case im_db c of None \<Rightarrow> False | Some drv \<Rightarrow> \<forall>d. fst (drv_Begin drv d) = None))"

text \<open>Programs that are tidy with transactions.\<close>

definition tx_tidy :: "(('d, 'c) world, 'a) prog \<Rightarrow> bool" where
  "tx_tidy m \<longleftrightarrow>
     (\<forall>w r w'. m w = (r, w') \<longrightarrow> (\<exists>cs. w_calls w' = w_calls w @ cs \<and> tidy_marks r (tx_marks cs)))"

lemma tidy_marks_Nil [simp]: "tidy_marks r []"
  by (simp add: tidy_marks_def)

lemma tidy_plain: "keeps (adds plain_call) m \<Longrightarrow> tx_tidy m"
  unfolding tx_tidy_def
proof (intro allI impI)
  fix w r w'
  assume "keeps (adds plain_call) m" "m w = (r, w')"
  then have "adds plain_call w w'" by (metis keeps_def snd_conv)
  then show "\<exists>cs. w_calls w' = w_calls w @ cs \<and> tidy_marks r (tx_marks cs)"
    by (auto simp: adds_def tx_marks_plain)
qed

lemma tidy_then_pure:
  assumes "tx_tidy m" "\<And>x. \<exists>y. f x = preturn y"
  shows "tx_tidy (pbind m f)"
  unfolding tx_tidy_def
proof (intro allI impI)
  fix w r w'
  assume run: "pbind m f w = (r, w')"
  obtain q v where q: "m w = (q, v)" by fastforce
  have "w' = v" "is_returns r = is_returns q"
    using run q assms(2) by (auto simp: pbind_def preturn_def split: outcome.splits) (metis Pair_inject preturn_def is_returns.simps(1))+
  with assms(1) q show "\<exists>cs. w_calls w' = w_calls w @ cs \<and> tidy_marks r (tx_marks cs)"
    by (fastforce simp: tx_tidy_def tidy_marks_def)
qed

lemma tidy_after_pure: "(\<And>x. tx_tidy (f x)) \<Longrightarrow> tx_tidy (pbind (plift m) f)"
  unfolding tx_tidy_def pbind_def plift_def by (cases m) auto

lemma tidy_guarded: "(allowed = Some True \<Longrightarrow> tx_tidy m) \<Longrightarrow> tx_tidy (guarded allowed denied m)"
  by (cases allowed) (auto simp: tx_tidy_def guarded_def pbind_def plift_def deref_def preturn_def)

lemma tidy_batches:
  assumes "cache_lawful (im_mdCache be)" "im_db be = Some drv" "\<And>d. fst (drv_Begin drv d) = None"
  shows "tx_tidy (MultiUpdate be entity objs)" "tx_tidy (MultiCreate be entity repl objs)"
proof -
  have tidy: "tx_tidy (in_tx (im_db be) loop)"
    if "\<And>w r w'. loop w = (r, w') \<Longrightarrow> \<exists>evs. w_calls w' = w_calls w @ evs \<and> batch_trace P objs r evs" for loop P
    unfolding tx_tidy_def assms(2) using in_tx_marks [OF _ assms(3) that] by blast
  show "tx_tidy (MultiUpdate be entity objs)"
    using tidy [OF batch_loop_trace(1) [OF assms(2,1)]]
    by (auto simp: MultiUpdate_def in_tx_def intro: tidy_guarded)
  show "tx_tidy (MultiCreate be entity repl objs)"
    using tidy [OF batch_loop_trace(2) [OF assms(2,1)]]
    by (auto simp: MultiCreate_def in_tx_def intro: tidy_guarded)
qed

definition worlds_tidy :: "(('d, 'c) worlds, 'a) prog \<Rightarrow> bool" where
  "worlds_tidy m \<longleftrightarrow>
     (\<forall>ws r ws' n. m ws = (r, ws') \<longrightarrow> (\<exists>cs. w_calls (ws' n) = w_calls (ws n) @ cs \<and> tidy_marks r (tx_marks cs)))"

lemma tidy_handleBackend:
  assumes "\<And>c w. (backend, c) \<in> set (sv_crudMap rs) \<Longrightarrow> tx_tidy (handler c w)"
  shows "worlds_tidy (handleBackend rs backend handler w)"
proof (cases "map_of (sv_crudMap rs) backend")
  case None
  then show ?thesis by (simp add: handleBackend_def preturn_def worlds_tidy_def)
next
  case (Some c)
  then have "tx_tidy (handler c w)" using assms by (simp add: map_of_SomeD)
  with Some show ?thesis
    by (fastforce simp: handleBackend_def in_backend_def worlds_tidy_def tx_tidy_def split: prod.splits)
qed

lemma plain_handleBackend:
  "(\<And>c w. (backend, c) \<in> set (sv_crudMap rs) \<Longrightarrow> keeps (adds plain_call) (handler c w)) \<Longrightarrow>
   worlds_tidy (handleBackend rs backend handler w)"
  by (rule tidy_handleBackend) (rule tidy_plain)

lemma tx_server_backend:
  assumes "tx_server rs" "(n, c) \<in> set (sv_crudMap rs)"
  obtains drv where "cache_lawful (im_mdCache c)" "im_db c = Some drv" "\<And>d. fst (drv_Begin drv d) = None"
  using assms by (auto simp: tx_server_def split: option.splits)

lemma tidy_BulkUpdate:
  assumes "tx_server rs"
  shows "worlds_tidy (srv_BulkUpdate rs be ent body w)"
  unfolding srv_BulkUpdate_def handleEntity_def
proof (rule tidy_handleBackend)
  fix c w
  assume c: "(be, c) \<in> set (sv_crudMap rs)"
  obtain drv where drv: "cache_lawful (im_mdCache c)" "im_db c = Some drv" "\<And>d. fst (drv_Begin drv d) = None"
    using tx_server_backend [OF assms c] by blast
  have pure: "tx_tidy (preturn x)" for x :: "goerr option" by (simp add: tx_tidy_def preturn_def)
  have wpure: "tx_tidy (preturn x)" for x :: writer by (simp add: tx_tidy_def preturn_def)
  have reply: "tx_tidy (pbind m (\<lambda>r. case r of
      Some err \<Rightarrow> preturn (SendWithStatus rs (PErr err) st w) | None \<Rightarrow> preturn w))"
    if "tx_tidy m" for m st
    using that by (rule tidy_then_pure) (auto split: option.split)
  have multi: "tx_tidy (MultiDelete c ent ids)" for ids by (rule tidy_plain [OF plain_ops(4)])
  note update = tidy_batches(1) [OF drv] and create = tidy_batches(2) [OF drv]
  show "tx_tidy (case decode_body as_BulkUpdateRequest body of
       Inl err \<Rightarrow> preturn (SendWithStatus rs (PErr err) StatusBadRequest w)
     | Inr body \<Rightarrow>
         pbind (plift (srv_IdColumn rs be ent)) (\<lambda>idCol.
         pbind (if bu_Mode body = DELETE then
                  (case extractIds idCol no_id_msg (bu_Objects body) [] of
                     Inl err \<Rightarrow> preturn (Some err)
                   | Inr ids \<Rightarrow> MultiDelete c ent ids)
                else if bu_Mode body = UPDATE then MultiUpdate c ent (bu_Objects body)
                else if bu_Mode body = REPLACE \<or> bu_Mode body = INSERT then
                  MultiCreate c ent (bu_Mode body = REPLACE) (bu_Objects body)
                else preturn None)
           (\<lambda>r. case r of
                Some err \<Rightarrow> preturn (SendWithStatus rs (PErr err) StatusInternalServerError w)
              | None \<Rightarrow> preturn w)))"
    using wpure by (auto intro!: tidy_after_pure reply pure multi update create split: sum.split)
qed

text \<open>Every request.\<close>

lemma tidy_serve:
  assumes "tx_server rs"
  shows "worlds_tidy (serve rs enc req)"
proof -
  have cache: "cache_lawful (im_mdCache c)" if "(n, c) \<in> set (sv_crudMap rs)" for n c
    using tx_server_backend [OF assms that] by blast
  show ?thesis
  proof (cases req)
    case ReqListBackends
    then show ?thesis by (simp add: srv_ListBackends_def preturn_def worlds_tidy_def Let_def)
  next
    case (ReqBulkUpdate be ent body)
    then show ?thesis using tidy_BulkUpdate [OF assms] by simp
  next
    case (ReqCreateItem be ent body)
    show ?thesis unfolding ReqCreateItem serve.simps handler_defs
      by (rule plain_handleBackend) (auto intro!: plain_ops cache split: sum.splits)
  next
    case (ReqUpdateItemById be ent oid body)
    show ?thesis unfolding ReqUpdateItemById serve.simps handler_defs
      by (rule plain_handleBackend) (auto intro!: keeps_crud plain_ops cache split: sum.splits)
  next
    case (ReqDeleteItemById be ent oid)
    show ?thesis unfolding ReqDeleteItemById serve.simps handler_defs
      by (rule plain_handleBackend) (auto intro!: plain_ops split: option.splits)
  qed (simp only: serve.simps handler_defs Let_def, rule plain_handleBackend, auto intro!: keeps_crud)+
qed

section \<open>Bulk requests on the wire\<close>

definition update_one :: "string \<Rightarrow> string \<Rightarrow> gmap \<Rightarrow> api_request" where
  "update_one be ent obj = ReqBulkUpdate be ent \<lparr>bu_Mode = UPDATE, bu_Objects = [obj]\<rparr>"

definition assertion_msg :: string where
  "assertion_msg = ''interface conversion: interface {} is not string''"

lemma update_one_panics:
  assumes "map_of (sv_crudMap rs) be = Some c" "im_db c = Some drv" "\<And>d. fst (drv_Begin drv d) = None"
    and "be_Update (im_config c) = Some True"
    and "srv_IdColumn rs be ent = Returns idc'" "IdColumn (im_config c) ent = Returns idc"
    and "row_ok obj" "\<forall>s. gmap_get (dto_wire enc obj) idc \<noteq> VStr s"
  shows "\<exists>w'. serve rs enc (update_one be ent obj) ws = (Panics assertion_msg, ws(be := w')) \<and>
    w_calls w' = w_calls (ws be) @ [CBegin]"
proof -
  obtain d1 where b: "drv_Begin drv (w_db (ws be)) = (None, d1)"
    using assms(3) by (cases "drv_Begin drv (w_db (ws be))") (metis fst_conv)
  have "as_go_string (gmap_get (dto_wire enc obj) idc) = Panics assertion_msg"
    using assms(8) by (auto simp: as_go_string_def assertion_msg_def split: gval.split)
  then have run: "\<exists>w'. MultiUpdate c ent [dto_wire enc obj] (ws be) = (Panics assertion_msg, w') \<and>
      w_calls w' = w_calls (ws be) @ [CBegin]"
    using assms(2,4,6) b by (simp add: MultiUpdate_def small_runs)
  have "decode_body as_BulkUpdateRequest (request_text enc (BulkUpdateRequest_json \<lparr>bu_Mode = UPDATE, bu_Objects = [obj]\<rparr>)) =
      Inr \<lparr>bu_Mode = UPDATE, bu_Objects = [dto_wire enc obj]\<rparr>"
    using bulk_decode [of "\<lparr>bu_Mode = UPDATE, bu_Objects = [obj]\<rparr>" enc] assms(7) by simp
  with run assms(1,5) show ?thesis
    by (auto simp: update_one_def srv_BulkUpdate_def handleEntity_def handleBackend_def in_backend_def pbind_def plift_def)
qed

section \<open>Ends of requests\<close>

lemma undone_iff:
  "n \<in> set (undone rs ws ws') \<longleftrightarrow>
   (\<exists>c drv. map_of (sv_crudMap rs) n = Some c \<and> im_db c = Some drv \<and> left_open drv (ws n) (ws' n))"
  by (auto simp: undone_def split: option.splits dest!: map_of_SomeD) force

lemma unchanged_not_left_open: "\<not> left_open drv w w"
  by (simp add: left_open_def)

lemma rollback_calls: "w_calls (snd (tx_Rollback (Some drv) w)) = w_calls w @ [CRollback]"
  by (simp add: tx_Rollback_def on_db_def db_call_def split: prod.split)

lemma unconfigured_untouched:
  assumes "tx_server rs" "serve rs enc req ws = (r, ws')" "map_of (sv_crudMap rs) n = None"
  shows "w_calls (ws' n) = w_calls (ws n)"
proof -
  have "lawful_caches rs" using assms(1) by (auto simp: tx_server_def lawful_caches_def list_all_iff)
  from serve_permitted [OF this, of n enc req] have "at_backend n (adds (may_add rs n)) ws ws'"
    using assms(2) by (metis keeps_def snd_conv)
  then obtain cs where "w_calls (ws' n) = w_calls (ws n) @ cs" "list_all (may_add rs n) cs"
    by (auto simp: at_backend_def adds_def)
  with assms(3) show ?thesis by (cases cs) (auto simp: may_add_def)
qed

text \<open>What a tidy request and the end of its context do.\<close>

lemma request_end:
  assumes "tx_server rs" "serve rs enc req ws = (r, ws')" "us = undone rs ws ws'"
  shows "tx_open (w_calls (context_done rs us ws' n)) = tx_open (w_calls (ws n))"
    and "n \<in> set us \<Longrightarrow> \<not> is_returns r"
proof -
  obtain cs where cs: "w_calls (ws' n) = w_calls (ws n) @ cs" "tidy_marks r (tx_marks cs)"
    using tidy_serve [OF assms(1), of enc req] assms(2) unfolding worlds_tidy_def by blast
  have known: "\<exists>c. map_of (sv_crudMap rs) n = Some c" if "tx_marks cs \<noteq> []"
    using unconfigured_untouched [OF assms(1,2)] that cs(1) by fastforce
  have us: "n \<in> set us \<longleftrightarrow> tx_marks cs = [CBegin]"
  proof (cases "map_of (sv_crudMap rs) n")
    case (Some c)
    obtain drv where "im_db c = Some drv" "\<And>d. fst (drv_Begin drv d) = None"
      using tx_server_backend [OF assms(1) map_of_SomeD [OF Some]] by blast
    with left_open_marks [OF this(2) cs(1)] cs(2) Some show ?thesis
      by (auto simp: assms(3) undone_iff tidy_marks_def)
  qed (use known in \<open>auto simp: assms(3) undone_iff\<close>)
  show "n \<in> set us \<Longrightarrow> \<not> is_returns r" using us cs(2) by (auto simp: tidy_marks_def)
  have rolled: "w_calls (context_done rs us ws' n) = w_calls (ws' n) @ [CRollback]" if n: "n \<in> set us"
  proof -
    obtain c drv where "map_of (sv_crudMap rs) n = Some c" "im_db c = Some drv"
      using n by (auto simp: assms(3) undone_iff)
    with n show ?thesis by (simp add: context_done_def rollback_calls)
  qed
  show "tx_open (w_calls (context_done rs us ws' n)) = tx_open (w_calls (ws n))"
  proof (cases "n \<in> set us")
    case True
    with us cs(1) rolled tx_open_marks [of cs] show ?thesis by simp
  next
    case False
    with us cs tx_open_marks [of cs] show ?thesis by (auto simp: context_done_def tidy_marks_def)
  qed
qed

lemma distinct_singleton: "set xs = {n} \<Longrightarrow> distinct xs \<Longrightarrow> xs = [n]"
  by (cases xs) (auto simp: subset_singleton_iff)

lemma undone_single:
  assumes "map_of (sv_crudMap rs) n = Some c" "im_db c = Some drv" "left_open drv (ws n) w'"
  shows "undone rs ws (ws(n := w')) = [n]"
proof -
  have "set (undone rs ws (ws(n := w'))) = {n}"
    using assms by (auto simp: undone_iff unchanged_not_left_open split: if_splits)
  moreover have "distinct (undone rs ws (ws(n := w')))" by (simp add: undone_def)
  ultimately show ?thesis by (rule distinct_singleton)
qed

lemma concat_replicate_snoc: "xs @ concat (replicate k xs) = concat (replicate k xs) @ xs"
  by (induction k) simp_all

section \<open>Properties of runs\<close>

text \<open>C10: No run of requests leaves a transaction behind: over any sequence of requests, panics of their
  handlers included, every database ends with as many open transactions as it started with, and a
  handler that returns has ended its own; only after a panic is there one for the end of the request's
  context to roll back. The backends must be open and their databases willing to start transactions.\<close>

theorem run_leaves_no_transactions:
  assumes "tx_server rs" and "server_run rs enc ws tr ws'"
  shows "tx_open (w_calls (ws' n)) = tx_open (w_calls (ws n)) \<and>
    list_all (\<lambda>(req, r, us). us \<noteq> [] \<longrightarrow> \<not> is_returns r) tr"
  using assms(2)
proof (induction rule: server_run.induct)
  case (run_serve tr ws' req r ws'' us)
  note e = request_end [OF assms(1) run_serve.hyps(2,3)]
  have "us \<noteq> [] \<longrightarrow> \<not> is_returns r" using e(2) by (cases us) auto
  with e(1) run_serve.IH show ?case by simp
qed simp

lemma ref_tx_server: "tx_server ref_rs"
  by (simp add: tx_server_def ref_rs_def counting_impl_def crud_New_def im_db_def DB_def small_lawful counting_driver_def
      small_driver_def)

definition numeric_obj :: gmap where
  "numeric_obj = [(''id'', VInt 5)]"

lemma ref_update:
  "map_of (sv_crudMap ref_rs) ''main'' = Some counting_impl" "srv_IdColumn ref_rs ''main'' ''t'' = Returns ''id''"
  "be_Update (im_config counting_impl) = Some True" "fst (drv_Begin counting_driver d) = None"
  "row_ok numeric_obj" "\<forall>s. gmap_get (dto_wire fmt_v numeric_obj) ''id'' \<noteq> VStr s"
  using json_small_int [of 5]
  by (simp_all add: ref_rs_def srv_IdColumn_def counting_impl_def crud_New_def counting_driver_def small_driver_def
      numeric_obj_def row_ok_def dto_wire_def gmap_get_def)

theorem run_leaves_no_transactions_witness:
  "\<exists>ws' us. server_run ref_rs fmt_v ref_worlds [(update_one ''main'' ''t'' numeric_obj, Panics assertion_msg, us)] ws' \<and>
     tx_open (w_calls (ws' ''main'')) = 0"
proof -
  obtain w' where s: "serve ref_rs fmt_v (update_one ''main'' ''t'' numeric_obj) ref_worlds =
      (Panics assertion_msg, ref_worlds(''main'' := w'))"
    using update_one_panics [OF ref_update(1) counting_fields(1) ref_update(4,3,2) counting_fields(3) ref_update(5,6)] by blast
  have run: "server_run ref_rs fmt_v ref_worlds
      ([] @ [(update_one ''main'' ''t'' numeric_obj, Panics assertion_msg, undone ref_rs ref_worlds (ref_worlds(''main'' := w')))])
      (context_done ref_rs (undone ref_rs ref_worlds (ref_worlds(''main'' := w'))) (ref_worlds(''main'' := w')))"
    by (rule run_serve [OF run_start s]) simp
  from run_leaves_no_transactions [OF ref_tx_server this, of "''main''"] run show ?thesis
    by (auto simp: ref_worlds_def small_world_def)
qed

text \<open>C23: A bulk update of an object whose id is not a JSON string (a number, for instance) never
  works: however often it is repeated the handler panics each time, the client gets no answer, and all
  the database sees is a transaction that is begun and rolled back when the request's context ends.\<close>

theorem numeric_ids_always_panic:
  assumes "map_of (sv_crudMap rs) be = Some c" "im_db c = Some drv" "\<And>d. fst (drv_Begin drv d) = None"
    and "be_Update (im_config c) = Some True"
    and "srv_IdColumn rs be ent = Returns idc'" "IdColumn (im_config c) ent = Returns idc"
    and "row_ok obj" "\<forall>s. gmap_get (dto_wire enc obj) idc \<noteq> VStr s"
  shows "\<exists>ws'. server_run rs enc ws (replicate k (update_one be ent obj, Panics assertion_msg, [be])) ws' \<and>
    w_calls (ws' be) = w_calls (ws be) @ concat (replicate k [CBegin, CRollback])"
proof (induction k)
  case (Suc k)
  then obtain ws' where run: "server_run rs enc ws (replicate k (update_one be ent obj, Panics assertion_msg, [be])) ws'"
    and t: "w_calls (ws' be) = w_calls (ws be) @ concat (replicate k [CBegin, CRollback])" by blast
  obtain w' where s: "serve rs enc (update_one be ent obj) ws' = (Panics assertion_msg, ws'(be := w'))"
    and t': "w_calls w' = w_calls (ws' be) @ [CBegin]"
    using update_one_panics [OF assms] by blast
  have "left_open drv (ws' be) w'" using left_open_marks [OF assms(3) t'] by simp
  then have us: "undone rs ws' (ws'(be := w')) = [be]"
    using assms(1,2) by (intro undone_single) auto
  from server_run.run_serve [OF run s us [symmetric]]
  have "server_run rs enc ws (replicate (Suc k) (update_one be ent obj, Panics assertion_msg, [be]))
      (context_done rs [be] (ws'(be := w')))" by (simp add: replicate_append_same)
  moreover have "w_calls (context_done rs [be] (ws'(be := w')) be) =
      w_calls (ws be) @ concat (replicate (Suc k) [CBegin, CRollback])"
    using t t' assms(1,2) rollback_calls [of drv w'] by (simp add: context_done_def concat_replicate_snoc)
  ultimately show ?case by blast
qed simp

theorem numeric_ids_always_panic_witness:
  "\<exists>ws'. server_run ref_rs fmt_v ref_worlds (replicate 151 (update_one ''main'' ''t'' numeric_obj, Panics assertion_msg, [''main''])) ws' \<and>
     w_calls (ws' ''main'') = concat (replicate 151 [CBegin, CRollback])"
proof -
  have "w_calls (ref_worlds ''main'') = []" by (simp add: ref_worlds_def small_world_def)
  with numeric_ids_always_panic [OF ref_update(1) counting_fields(1) ref_update(4,3,2) counting_fields(3) ref_update(5,6),
      of ref_worlds 151]
  show ?thesis by (simp only: append_Nil)
qed

end
