(* ===== verification/Call_Bounds.thy ===== *)
theory Call_Bounds
  imports Server_Properties
begin

text \<open>
  How many calls of the database an operation and a request make at most, whatever the database
  answers.
\<close>

definition calls_le :: "nat \<Rightarrow> (('d, 'c) world, 'a) prog \<Rightarrow> bool" where
  "calls_le k m \<longleftrightarrow> (\<forall>w. length (w_calls (snd (m w))) \<le> length (w_calls w) + k)"

lemma calls_le_pure [simp, intro]: "calls_le k (preturn x)" "calls_le k (ppanic msg)" "calls_le k (plift a)"
  by (simp_all add: calls_le_def preturn_def ppanic_def plift_def)

lemma calls_le_mono: "calls_le j m \<Longrightarrow> j \<le> k \<Longrightarrow> calls_le k m"
  unfolding calls_le_def by (meson add_left_mono le_trans)

lemma calls_le_pbind:
  assumes "calls_le j m" "\<And>x. calls_le k (f x)"
  shows "calls_le (j + k) (pbind m f)"
  unfolding calls_le_def
proof
  fix w
  obtain r v where run: "m w = (r, v)" by fastforce
  with assms(1) have v: "length (w_calls v) \<le> length (w_calls w) + j" by (metis calls_le_def snd_conv)
  show "length (w_calls (snd (pbind m f w))) \<le> length (w_calls w) + (j + k)"
  proof (cases r)
    case (Returns x)
    have "length (w_calls (snd (f x v))) \<le> length (w_calls v) + k" using assms(2) by (simp add: calls_le_def)
    with v run Returns show ?thesis by (simp add: pbind_def)
  qed (use v run in \<open>simp add: pbind_def\<close>)
qed

lemma calls_le_after_pure [intro!]: "(\<And>x. calls_le k (f x)) \<Longrightarrow> calls_le k (pbind (plift a) f)"
  using calls_le_pbind [of 0 "plift a" k f] by simp

lemma calls_le_then_pure: "calls_le k m \<Longrightarrow> (\<And>x. calls_le 0 (f x)) \<Longrightarrow> calls_le k (pbind m f)"
  using calls_le_pbind [of k m 0 f] by simp

lemma calls_le_ebind:
  "calls_le j m \<Longrightarrow> (\<And>e. calls_le k (err e)) \<Longrightarrow> (\<And>x. calls_le k (ok x)) \<Longrightarrow> calls_le (j + k) (ebind m err ok)"
  unfolding ebind_def by (rule calls_le_pbind) (auto split: sum.split)

lemma calls_le_ebind_pure: "calls_le k m \<Longrightarrow> (\<And>e. calls_le 0 (err e)) \<Longrightarrow> (\<And>x. calls_le 0 (ok x)) \<Longrightarrow> calls_le k (ebind m err ok)"
  using calls_le_ebind [of k m 0 err ok] by simp

lemma calls_le_ebind_plift [intro!]:
  "(\<And>e. calls_le k (err e)) \<Longrightarrow> (\<And>x. calls_le k (ok x)) \<Longrightarrow> calls_le k (ebind (plift a) err ok)"
  using calls_le_ebind [of 0 "plift a" k err ok] by simp

lemma calls_le_db:
  "calls_le (Suc 0) (db_QueryContext h q a)" "calls_le (Suc 0) (db_ExecContext h q a)" "calls_le (Suc 0) (db_BeginTx h)"
  "calls_le (Suc 0) (tx_ExecContext h q a)" "calls_le (Suc 0) (tx_Commit h)" "calls_le (Suc 0) (tx_Rollback h)"
  by (simp_all add: calls_le_def db_QueryContext_def db_ExecContext_def db_BeginTx_def tx_ExecContext_def tx_Commit_def
      tx_Rollback_def on_db_def ppanic_def db_call_def split: option.split prod.split)

lemma calls_le_guarded: "calls_le k m \<Longrightarrow> calls_le k (guarded allowed denied m)"
  unfolding guarded_def by auto

lemma calls_le_Load: "calls_le (Suc 0) (Load be key)"
proof -
  have pure: "calls_le 0 (\<lambda>w. (Returns x, w\<lparr>w_cache := f (w_cache w)\<rparr>))" for x :: "metadata option" and f :: "'b \<Rightarrow> 'b"
    by (simp add: calls_le_def)
  show ?thesis unfolding Load_def Let_def
    by (intro calls_le_after_pure calls_le_ebind_pure calls_le_db) (auto intro: pure split: sum.split)
qed

lemma calls_le_remapped: "cache_lawful (im_mdCache be) \<Longrightarrow> calls_le (Suc 0) (remapped be entity body)"
  unfolding remapped_def
proof (rule calls_le_then_pure)
  assume lawful: "cache_lawful (im_mdCache be)"
  show "calls_le (Suc 0) (mdCache_Get be entity)"
    unfolding calls_le_def
  proof
    fix w
    obtain r w' where g: "mdCache_Get be entity w = (r, w')" by fastforce
    obtain lr lw where l: "Load be entity w = (lr, lw)" by fastforce
    have "w_calls w' = w_calls w \<or> w_calls w' = w_calls lw"
      using lawful [unfolded cache_lawful_def, rule_format, of "Load be" entity w] g l by (auto simp: mdCache_Get_def)
    moreover have "length (w_calls lw) \<le> length (w_calls w) + Suc 0" using calls_le_Load l by (metis calls_le_def snd_conv)
    ultimately show "length (w_calls (snd (mdCache_Get be entity w))) \<le> length (w_calls w) + Suc 0" using g by auto
  qed
qed simp

lemma calls_le_fetchOneItem: "calls_le (Suc 0) (fetchOneItem be entity oid b)"
  unfolding fetchOneItem_def
  by (intro calls_le_after_pure calls_le_ebind_pure calls_le_db) (auto split: sum.split list.split)

lemma calls_le_fetchRows: "calls_le (Suc 0) (fetchRows be q a)"
  unfolding fetchRows_def by (intro calls_le_ebind_pure calls_le_db) (auto split: sum.split)

lemma calls_le_QueryRow: "calls_le (Suc 0) (db_QueryRow_int h q a)"
  unfolding db_QueryRow_int_def by (intro calls_le_ebind_pure calls_le_db) auto

text \<open>One call and the rest.\<close>

lemma calls_le_step:
  "calls_le (Suc 0) m \<Longrightarrow> (\<And>e. calls_le k (err e)) \<Longrightarrow> (\<And>x. calls_le k (ok x)) \<Longrightarrow> calls_le (Suc k) (ebind m err ok)"
  using calls_le_ebind [of "Suc 0" m k err ok] by simp

lemma calls_le_pstep: "calls_le (Suc 0) m \<Longrightarrow> (\<And>x. calls_le k (f x)) \<Longrightarrow> calls_le (Suc k) (pbind m f)"
  using calls_le_pbind [of "Suc 0" m k f] by simp

lemmas calls_le_one = calls_le_db calls_le_fetchOneItem calls_le_fetchRows calls_le_QueryRow

section \<open>The operations\<close>

lemma calls_le_reads:
  "calls_le (Suc (Suc 0)) (ListItems be entity qe)" "calls_le (Suc (Suc 0)) (QueryNamed be name qry args)"
  "calls_le (Suc 0) (ListEntities be)" "calls_le (Suc 0) (Exists be entity oid)" "calls_le (Suc 0) (Get be entity oid)"
proof -
  show "calls_le (Suc (Suc 0)) (ListItems be entity qe)"
    unfolding ListItems_def Let_def
    by (intro calls_le_guarded calls_le_step calls_le_QueryRow calls_le_pure)
      (auto intro!: calls_le_ebind_pure calls_le_fetchRows split: if_split)
  show "calls_le (Suc (Suc 0)) (QueryNamed be name qry args)"
    unfolding QueryNamed_def Let_def split_def
    by (cases "map_of (be_Queries (im_config be)) name"; simp only: option.case)
      (intro calls_le_guarded calls_le_pure calls_le_step calls_le_QueryRow calls_le_ebind_pure calls_le_fetchRows)+
  show "calls_le (Suc 0) (ListEntities be)"
    unfolding ListEntities_def by (intro calls_le_guarded calls_le_ebind_pure calls_le_db calls_le_pure)
  show "calls_le (Suc 0) (Exists be entity oid)"
    unfolding Exists_def by (intro calls_le_guarded calls_le_ebind_pure calls_le_fetchOneItem calls_le_pure)
  show "calls_le (Suc 0) (Get be entity oid)"
    unfolding Get_def by (intro calls_le_guarded calls_le_fetchOneItem)
qed

lemma calls_le_deletes: "calls_le (Suc 0) (Delete be entity oid)" "calls_le (Suc 0) (MultiDelete be entity ids)"
proof -
  show del: "calls_le (Suc 0) (Delete be entity oid)" for oid
    unfolding Delete_def by (intro calls_le_guarded calls_le_after_pure calls_le_ebind_pure calls_le_db calls_le_pure)
  show "calls_le (Suc 0) (MultiDelete be entity ids)"
    unfolding MultiDelete_def Let_def
    by (intro calls_le_guarded) (auto intro: del intro!: calls_le_after_pure calls_le_ebind_pure calls_le_db)
qed

lemma calls_le_Update:
  assumes "cache_lawful (im_mdCache be)"
  shows "calls_le (Suc (Suc (Suc 0))) (Update be entity oid body)"
  unfolding Update_def Let_def split_def
  by (intro calls_le_guarded calls_le_pstep calls_le_remapped [OF assms] calls_le_after_pure calls_le_step calls_le_one calls_le_pure)

lemma calls_le_Create:
  assumes "cache_lawful (im_mdCache be)"
  shows "calls_le (Suc (Suc (Suc 0))) (Create be entity body)"
proof -
  have "calls_le (Suc 0) (case res of Inl err \<Rightarrow> preturn (Inl (f err)) | Inr i \<Rightarrow> fetchOneItem be entity (dec_int i) True)" for res f
    by (auto intro: calls_le_one split: sum.split)
  then show ?thesis
    unfolding Create_def Let_def split_def
    by (intro calls_le_guarded calls_le_pstep calls_le_remapped [OF assms] calls_le_step calls_le_db calls_le_pure)
qed

text \<open>A batch of \<open>n\<close> objects: its start, two calls for each, its end.\<close>

lemma calls_le_loops:
  assumes "cache_lawful (im_mdCache be)"
  shows "calls_le (Suc (2 * length objs)) (multiUpdate_loop be entity objs)"
    and "calls_le (Suc (2 * length objs)) (multiCreate_loop be entity repl objs)"
proof -
  have undo: "calls_le (Suc k) (pbind (tx_Rollback h) (\<lambda>rb. preturn (f rb)))" for k h f
    by (rule calls_le_then_pure [OF calls_le_mono [OF calls_le_db(6)]]) auto
  have after: "calls_le (Suc (Suc k)) (pbind (tx_ExecContext h q a) (\<lambda>r. case r of
      Some err \<Rightarrow> pbind (tx_Rollback h) (\<lambda>rb. preturn (f err rb)) | None \<Rightarrow> m))"
    if "calls_le (Suc k) m" for k h q a f and m :: "(('a, 'b) world, goerr option) prog"
    using that undo by (intro calls_le_pstep calls_le_db) (auto split: option.split)
  show "calls_le (Suc (2 * length objs)) (multiUpdate_loop be entity objs)"
  proof (induction objs)
    case (Cons obj objs)
    then show ?case unfolding multiUpdate_loop.simps Let_def split_def
      by (simp del: One_nat_def) (intro calls_le_after_pure calls_le_pstep [OF calls_le_remapped [OF assms]] after)
  qed (simp add: calls_le_db)
  show "calls_le (Suc (2 * length objs)) (multiCreate_loop be entity repl objs)"
  proof (induction objs)
    case (Cons obj objs)
    then show ?case unfolding multiCreate_loop.simps Let_def split_def
      by (simp del: One_nat_def) (intro calls_le_after_pure calls_le_pstep [OF calls_le_remapped [OF assms]] after)
  qed (simp add: calls_le_db)
qed

lemma calls_le_batches:
  assumes "cache_lawful (im_mdCache be)"
  shows "calls_le (Suc (Suc (2 * length objs))) (MultiUpdate be entity objs)"
    and "calls_le (Suc (Suc (2 * length objs))) (MultiCreate be entity repl objs)"
proof -
  have start: "calls_le (Suc k) (pbind (db_BeginTx h) (\<lambda>r. case r of Some err \<Rightarrow> preturn (Some err) | None \<Rightarrow> m))"
    if "calls_le k m" for k h and m :: "(('a, 'b) world, goerr option) prog"
    using that by (intro calls_le_pstep calls_le_db) (auto split: option.split)
  show "calls_le (Suc (Suc (2 * length objs))) (MultiUpdate be entity objs)"
    unfolding MultiUpdate_def by (intro calls_le_guarded start calls_le_loops [OF assms])
  show "calls_le (Suc (Suc (2 * length objs))) (MultiCreate be entity repl objs)"
    unfolding MultiCreate_def by (intro calls_le_guarded start calls_le_loops [OF assms])
qed

end
