(* ===== verification/Concurrency.thy ===== *)
theory Concurrency
  imports Interleaving Server_Runs Call_Bounds
begin

text \<open>
  Requests of the API as processes of \<open>Interleaving\<close>: the same server over replies, the brackets of
  their transactions, and bounds on the number of calls of each request.
\<close>

section \<open>The same server over replies\<close>

definition replay_config :: "'d BackendConfig \<Rightarrow> reply list BackendConfig" where
  "replay_config be =
     \<lparr>be_Driver = be_Driver be, be_DSN = be_DSN be, be_Create = be_Create be, be_Read = be_Read be,
      be_Update = be_Update be, be_Delete = be_Delete be, be_IdMap = be_IdMap be, be_Queries = be_Queries be,
      be_InitDDLs = be_InitDDLs be, be_MaxOpenConnections = be_MaxOpenConnections be,
      be_MaxIdleConnections = be_MaxIdleConnections be, be_ConnMaxLifetime = be_ConnMaxLifetime be,
      be_ConnMaxIdleTime = be_ConnMaxIdleTime be, be_db = map_option (\<lambda>drv. replay_driver) (be_db be)\<rparr>"

definition over_replies :: "(reply list, 'c) cache_ops \<Rightarrow> ('d, 'c) restServer \<Rightarrow> (reply list, 'c) restServer" where
  "over_replies cache rs =
     \<lparr>sv_cfg = \<lparr>cfg_Server = cfg_Server (sv_cfg rs),
        cfg_Backends = map (\<lambda>(n, be). (n, map_option replay_config be)) (cfg_Backends (sv_cfg rs)),
        cfg_Logging = cfg_Logging (sv_cfg rs)\<rparr>,
      sv_crudMap = map (\<lambda>(n, c). (n, crud_New cache (replay_config (im_config c)))) (sv_crudMap rs),
      sv_send = sv_send rs, sv_my = sv_my rs\<rparr>"

lemma map_of_map_snd: "map_of (map (\<lambda>(n, x). (n, f x)) xs) n = map_option f (map_of xs n)"
  by (induction xs) auto

lemma permitted_replay [simp]: "permitted (replay_config be) = permitted be"
proof
  fix c
  show "permitted (replay_config be) c = permitted be c"
    by (cases c) (simp_all add: replay_config_def statement_permitted_def)
qed

lemma may_add_over_replies [simp]: "may_add (over_replies cache rs) n = may_add rs n"
  by (rule ext) (simp add: may_add_def over_replies_def map_of_map_snd crud_New_def split: option.split)

lemma IdColumn_replay [simp]: "IdColumn (replay_config be) = IdColumn be"
  by (rule ext) (simp add: IdColumn_def replay_config_def)

lemma srv_IdColumn_over_replies [simp]: "srv_IdColumn (over_replies cache rs) n = srv_IdColumn rs n"
  by (rule ext) (simp add: srv_IdColumn_def over_replies_def map_of_map_snd split: option.split)

lemma names_over_replies [simp]:
  "map fst (cfg_Backends (sv_cfg (over_replies cache rs))) = map fst (cfg_Backends (sv_cfg rs))"
  by (simp add: over_replies_def o_def split_def)

text \<open>What concurrent requests rely on: opened backends, and a cache that obeys its contract.\<close>

definition opened :: "('d, 'c) restServer \<Rightarrow> bool" where
  "opened rs \<longleftrightarrow> list_all (\<lambda>(n, c). im_db c \<noteq> None) (sv_crudMap rs)"

definition cache_usable :: "(reply list, 'c) cache_ops \<Rightarrow> bool" where
  "cache_usable cache \<longleftrightarrow> cache_lawful cache \<and> caches_alike replay_driver cache cache"

lemma lawful_over_replies: "cache_usable cache \<Longrightarrow> lawful_caches (over_replies cache rs)"
  by (simp add: cache_usable_def lawful_caches_def over_replies_def list_all_iff crud_New_def split_def)

lemma over_replies_backend:
  assumes "map_of (sv_crudMap (over_replies cache rs)) n = Some c"
  obtains c0 where "map_of (sv_crudMap rs) n = Some c0" "c = crud_New cache (replay_config (im_config c0))"
  using assms by (auto simp: over_replies_def map_of_map_snd)

lemma over_replies_cache: "map_of (sv_crudMap (over_replies cache rs)) n = Some c \<Longrightarrow> im_mdCache c = cache"
  by (auto simp: over_replies_def map_of_map_snd crud_New_def)

lemma opened_over_replies:
  assumes "opened rs" "map_of (sv_crudMap (over_replies cache rs)) n = Some c"
  shows "im_db c = Some replay_driver"
proof -
  obtain c0 where c0: "map_of (sv_crudMap rs) n = Some c0" "c = crud_New cache (replay_config (im_config c0))"
    using over_replies_backend [OF assms(2)] .
  then have "im_db c0 \<noteq> None" using assms(1) by (auto simp: opened_def list_all_iff dest!: map_of_SomeD)
  with c0(2) show ?thesis by (simp add: im_db_def DB_def crud_New_def replay_config_def)
qed

lemma on_replay_over_replies:
  assumes "opened rs" "cache_usable cache"
  shows "on_replay (over_replies cache rs) req"
proof -
  have "alike replay_driver c c" if "map_of (sv_crudMap (over_replies cache rs)) n = Some c" for n c
  proof -
    have "im_mdCache c = cache" using that by (rule over_replies_cache)
    with assms opened_over_replies [OF assms(1) that] show ?thesis by (simp add: alike_def cache_usable_def)
  qed
  with lawful_over_replies [OF assms(2), of rs] show ?thesis
    by (simp add: on_replay_def servers_alike_def split: option.split)
qed

text \<open>The server and its copy over replies do the same.\<close>

lemma alike_over_replies:
  assumes "im_db c = Some drv" "caches_alike drv (im_mdCache c) cache"
  shows "alike drv c (crud_New cache (replay_config (im_config c)))"
  using assms by (simp add: alike_def crud_New_def replay_config_def im_db_def DB_def)

lemma servers_alike_over_replies:
  assumes "map_of (sv_crudMap rs) n = Some c" "im_db c = Some drv" "caches_alike drv (im_mdCache c) cache"
  shows "servers_alike drv n rs (over_replies cache rs)"
  using alike_over_replies [OF assms(2,3)] assms(1)
  by (simp add: servers_alike_def) (simp add: over_replies_def map_of_map_snd)

section \<open>The processes\<close>

text \<open>Requests with the state of the cache each finds: the cache is shared, so that it may hold
  anything that others have put there.\<close>

definition processes :: "(reply list, 'c) cache_ops \<Rightarrow> ('d, 'c) restServer \<Rightarrow> (gval \<Rightarrow> string) \<Rightarrow>
    ('c \<times> api_request) list \<Rightarrow> process list" where
  "processes cache rs enc jobs = map (\<lambda>(c, req). request_run (over_replies cache rs) enc c req) jobs"

lemma length_processes [simp]: "length (processes cache rs enc jobs) = length jobs"
  by (simp add: processes_def)

lemma nth_processes:
  "p < length jobs \<Longrightarrow> processes cache rs enc jobs ! p = request_run (over_replies cache rs) enc (fst (jobs ! p)) (snd (jobs ! p))"
  by (simp add: processes_def split_def)

lemma processes_coherent:
  assumes "opened rs" "cache_usable cache"
  shows "list_all (coherent_process True) (processes cache rs enc jobs)"
proof -
  have "coherent_process True (request_run (over_replies cache rs) enc c req)" for c req
    using request.coherent_process_axioms [of "over_replies cache rs" req enc c] on_replay_over_replies [OF assms, of req] by simp
  then show ?thesis by (simp add: processes_def list_all_iff split_def)
qed

section \<open>Transactions are bracketed\<close>

text \<open>Statements of a transaction, its commit and its rollback come only while it is open, and a second
  transaction is never begun.\<close>

fun tx_ok :: "bool \<Rightarrow> (dbcall \<times> reply) list \<Rightarrow> bool" where
  "tx_ok b [] \<longleftrightarrow> True"
| "tx_ok b ((c, x) # es) \<longleftrightarrow> (c = CBegin \<longrightarrow> \<not> b) \<and> (uses_tx c \<longrightarrow> b) \<and> tx_ok (tx_after c x b) es"

definition direct :: "dbcall \<Rightarrow> bool" where
  "direct c \<longleftrightarrow> c \<noteq> CBegin \<and> \<not> uses_tx c"

lemma direct_simps [simp]: "direct (CQuery q a)" "direct (CExec q a)"
  by (simp_all add: direct_def)

lemma is_query_direct: "is_query c \<Longrightarrow> direct c"
  by (cases c) simp_all

lemma tx_after_direct: "direct c \<Longrightarrow> tx_after c x b = b"
  by (cases c) (simp_all add: direct_def)

lemma tx_ok_direct: "list_all direct cs \<Longrightarrow> tx_ok b (zip cs h)"
  by (induction cs arbitrary: h) (auto simp: tx_after_direct direct_def zip_Cons1 split: list.split)

lemma tx_ok_batch:
  assumes "filter (\<lambda>c. \<not> is_query c) cs = sts @ fin" "list_all is_txexec sts" "fin = [] \<or> fin = [CCommit] \<or> fin = [CRollback]"
  shows "tx_ok True (zip cs h)"
  using assms
proof (induction cs arbitrary: sts h)
  case (Cons c cs)
  show ?case
  proof (cases h)
    case h: (Cons x h')
    show ?thesis
    proof (cases "is_query c")
      case True
      with Cons.prems(1) have "filter (\<lambda>c. \<not> is_query c) cs = sts @ fin" by simp
      from Cons.IH [OF this Cons.prems(2,3)] True show ?thesis by (cases c) (simp_all add: h)
    next
      case query: False
      show ?thesis
      proof (cases sts)
        case Nil
        with Cons.prems query have "c = CCommit \<or> c = CRollback" "filter (\<lambda>c. \<not> is_query c) cs = []" by auto
        then have "list_all is_query cs" by (simp add: filter_empty_conv list_all_iff)
        then have "list_all direct cs" by (rule list.pred_mono_strong) (rule is_query_direct)
        with tx_ok_direct \<open>c = CCommit \<or> c = CRollback\<close> show ?thesis by (auto simp: h)
      next
        case (Cons st sts')
        with Cons.prems query have "is_txexec c" "filter (\<lambda>c. \<not> is_query c) cs = sts' @ fin" "list_all is_txexec sts'" by auto
        with Cons.IH [of sts' h'] assms(3) show ?thesis by (cases c) (simp_all add: h)
      qed
    qed
  qed simp
qed simp

text \<open>Programs over replies whose transactions are bracketed.\<close>

definition bracketed :: "((reply list, 'c) world, 'a) prog \<Rightarrow> bool" where
  "bracketed m \<longleftrightarrow> (\<forall>h c k. \<exists>cs. w_calls (snd (m (on_replies h c k))) = k @ cs \<and> tx_ok False (zip cs h))"

lemma bracketed_direct: "keeps (adds direct) m \<Longrightarrow> bracketed m"
  unfolding bracketed_def
proof (intro allI)
  fix h c k
  assume "keeps (adds direct) m"
  then have "adds direct (on_replies h c k) (snd (m (on_replies h c k)))" by (simp add: keeps_def)
  then obtain cs where "w_calls (snd (m (on_replies h c k))) = k @ cs" "list_all direct cs"
    by (auto simp: adds_def on_replies_def)
  with tx_ok_direct show "\<exists>cs. w_calls (snd (m (on_replies h c k))) = k @ cs \<and> tx_ok False (zip cs h)" by blast
qed

lemma bracketed_then_pure:
  assumes "bracketed m" "\<And>x. \<exists>y. f x = preturn y"
  shows "bracketed (pbind m f)"
proof -
  have "snd (pbind m f v) = snd (m v)" for v
    using assms(2) by (auto simp: pbind_def preturn_def split: prod.split outcome.split) (metis preturn_def snd_conv)
  with assms(1) show ?thesis by (simp add: bracketed_def)
qed

lemma bracketed_after_pure: "(\<And>x. bracketed (f x)) \<Longrightarrow> bracketed (pbind (plift m) f)"
  by (cases m) (auto simp: bracketed_def pbind_def plift_def on_replies_def)

lemma bracketed_pure [simp]: "bracketed (preturn x)" "bracketed (plift m)"
  by (auto simp: bracketed_def preturn_def plift_def on_replies_def)

lemma bracketed_guarded: "(allowed = Some True \<Longrightarrow> bracketed m) \<Longrightarrow> bracketed (guarded allowed denied m)"
  by (cases allowed) (auto simp: bracketed_def guarded_def pbind_def plift_def deref_def preturn_def on_replies_def)

lemma batch_trace_parts:
  assumes "batch_trace P xs r evs"
  obtains sts fin where "filter (\<lambda>c. \<not> is_query c) evs = sts @ fin" "list_all is_txexec sts"
    "fin = [] \<or> fin = [CCommit] \<or> fin = [CRollback]"
proof (rule that)
  let ?txs = "filter (\<lambda>c. \<not> is_query c) evs"
  show "?txs = takeWhile is_txexec ?txs @ dropWhile is_txexec ?txs" by simp
  show "list_all is_txexec (takeWhile is_txexec ?txs)" by (auto simp: list_all_iff dest: set_takeWhileD)
  show "dropWhile is_txexec ?txs = [] \<or> dropWhile is_txexec ?txs = [CCommit] \<or> dropWhile is_txexec ?txs = [CRollback]"
    using assms by (auto simp: batch_trace_def Let_def simp del: dropWhile_eq_Nil_conv split: outcome.splits option.splits)
qed

lemma bracketed_in_tx:
  assumes "\<And>w r w'. loop w = (r, w') \<Longrightarrow> \<exists>evs. w_calls w' = w_calls w @ evs \<and> batch_trace P xs r evs"
  shows "bracketed (in_tx (Some replay_driver) loop)"
  unfolding bracketed_def
proof (intro allI)
  fix h c k
  obtain r w' where run: "in_tx (Some replay_driver) loop (on_replies h c k) = (r, w')" by fastforce
  then show "\<exists>cs. w_calls (snd (in_tx (Some replay_driver) loop (on_replies h c k))) = k @ cs \<and> tx_ok False (zip cs h)"
  proof (cases rule: in_tx_cases)
    case (1 e d1)
    with run show ?thesis
      by (intro exI [of _ "[CBegin]"]) (auto simp: on_replies_def zip_Cons1 split: list.split)
  next
    case (2 d1)
    then obtain evs where evs: "w_calls w' = k @ CBegin # evs" "batch_trace P xs r evs"
      using assms [OF 2(2)] by (auto simp: on_replies_def)
    have h: "h = RDone None # tl h"
    proof (cases h rule: reply_done.cases)
      case (1 x h')
      with 2(1) show ?thesis by (simp add: on_replies_def replay_driver_def)
    qed (use 2(1) in \<open>simp_all add: on_replies_def replay_driver_def\<close>)
    from batch_trace_parts [OF evs(2)] obtain sts fin where
      "filter (\<lambda>c. \<not> is_query c) evs = sts @ fin" "list_all is_txexec sts" "fin = [] \<or> fin = [CCommit] \<or> fin = [CRollback]" .
    from tx_ok_batch [OF this, of "tl h"] have "tx_ok False (zip (CBegin # evs) h)" by (subst h) simp
    with run evs(1) show ?thesis by (intro exI [of _ "CBegin # evs"]) simp
  qed
qed

lemma bracketed_batches:
  assumes "cache_lawful (im_mdCache be)" "im_db be = Some replay_driver"
  shows "bracketed (MultiUpdate be entity objs)" "bracketed (MultiCreate be entity repl objs)"
proof -
  show "bracketed (MultiUpdate be entity objs)"
    using bracketed_in_tx [OF batch_loop_trace(1) [OF assms(2,1)]] assms(2)
    by (auto simp: MultiUpdate_def in_tx_def intro: bracketed_guarded)
  show "bracketed (MultiCreate be entity repl objs)"
    using bracketed_in_tx [OF batch_loop_trace(2) [OF assms(2,1)]] assms(2)
    by (auto simp: MultiCreate_def in_tx_def intro: bracketed_guarded)
qed

lemma bracketed_handleBackend:
  assumes "\<And>c w. map_of (sv_crudMap rs) n = Some c \<Longrightarrow> bracketed (handler c w)"
  shows "bracketed (in_world (handleBackend rs n handler w) n)"
  using assms unfolding in_world_handleBackend by (auto split: option.split)

lemmas direct_ops = keeps_single [where P = direct, OF direct_simps]

lemma bracketed_BulkUpdate:
  assumes "\<And>c. map_of (sv_crudMap rs) n = Some c \<Longrightarrow> cache_lawful (im_mdCache c) \<and> im_db c = Some replay_driver"
  shows "bracketed (in_world (srv_BulkUpdate rs n ent body w) n)"
  unfolding srv_BulkUpdate_def handleEntity_def
proof (rule bracketed_handleBackend)
  fix c w
  assume c: "map_of (sv_crudMap rs) n = Some c"
  have reply: "bracketed (pbind m (\<lambda>r. case r of
      Some err \<Rightarrow> preturn (SendWithStatus rs (PErr err) st w) | None \<Rightarrow> preturn w))"
    if "bracketed m" for m st
    using that by (rule bracketed_then_pure) (auto split: option.split)
  have multi: "bracketed (MultiDelete c ent ids)" for ids by (rule bracketed_direct [OF direct_ops(4)])
  note batches = bracketed_batches [of c, OF conjunct1 [OF assms [OF c]] conjunct2 [OF assms [OF c]]]
  show "bracketed (case decode_body as_BulkUpdateRequest body of
       Inl err \<Rightarrow> preturn (SendWithStatus rs (PErr err) StatusBadRequest w)
     | Inr body \<Rightarrow>
         pbind (plift (srv_IdColumn rs n ent)) (\<lambda>idCol.
         pbind (if bu_Mode body = DELETE then
                  (case extractIds idCol no_id_msg (bu_Objects body) [] of
                     Inl err \<Rightarrow> preturn (Some err)
                   | Inr ids \<Rightarrow> MultiDelete c ent ids)
                else if bu_Mode body = UPDATE then MultiUpdate c ent (bu_Objects body)
                else if bu_Mode body = REPLACE \<or> bu_Mode body = INSERT then
                  MultiCreate c ent (bu_Mode body = REPLACE) (bu_Objects body)
                else preturn None)
           (\<lambda>r. case r of
                Some err \<Rightarrow> preturn (SendWithStatus rs (PErr err) StatusInternalServerError w)
              | None \<Rightarrow> preturn w)))"
    by (auto intro!: bracketed_after_pure reply multi batches split: sum.split)
qed

text \<open>Only bulk requests use transactions.\<close>

fun is_bulk :: "api_request \<Rightarrow> bool" where
  "is_bulk (ReqBulkUpdate be ent body) = True"
| "is_bulk req = False"

lemma serve_direct:
  assumes "lawful_caches rs" "\<not> is_bulk req"
  shows "keeps (all_adds direct) (serve rs enc req)"
proof -
  have cache: "cache_lawful (im_mdCache c)" if "(n, c) \<in> set (sv_crudMap rs)" for n c
    using assms(1) that by (auto simp: lawful_caches_def list_all_iff)
  show ?thesis
  proof (cases req)
    case ReqListBackends
    then show ?thesis by (simp add: srv_ListBackends_def keeps_def preturn_def all_adds_def Let_def)
  next
    case (ReqBulkUpdate be ent body)
    with assms(2) show ?thesis by simp
  next
    case (ReqCreateItem be ent body)
    show ?thesis unfolding ReqCreateItem serve.simps handler_defs
      by (rule keeps_handleBackend) (auto intro!: direct_ops dest: cache split: sum.splits)
  next
    case (ReqUpdateItemById be ent oid body)
    show ?thesis unfolding ReqUpdateItemById serve.simps handler_defs
      by (rule keeps_handleBackend) (auto intro!: keeps_crud direct_ops dest: cache split: sum.splits)
  next
    case (ReqDeleteItemById be ent oid)
    show ?thesis unfolding ReqDeleteItemById serve.simps handler_defs
      by (rule keeps_handleBackend) (auto intro!: direct_ops split: option.splits)
  qed (simp only: serve.simps handler_defs Let_def, rule keeps_handleBackend, auto intro!: keeps_crud)+
qed

lemma keeps_in_world: "keeps (all_adds P) m \<Longrightarrow> keeps (adds P) (in_world m n)"
  by (auto simp: keeps_def all_adds_def in_world_def split: prod.split) (metis snd_conv)

lemma request_run_direct:
  assumes "cache_usable cache" "\<not> is_bulk req"
  shows "list_all direct (snd (request_run (over_replies cache rs) enc c req h))"
proof -
  have "keeps (adds direct) (in_world (serve (over_replies cache rs) enc req) (request_backend req))"
    by (rule keeps_in_world [OF serve_direct [OF lawful_over_replies [OF assms(1)] assms(2)]])
  then have "adds direct (on_replies h c [])
      (snd (in_world (serve (over_replies cache rs) enc req) (request_backend req) (on_replies h c [])))"
    unfolding keeps_def by blast
  then show ?thesis by (auto simp: adds_def request_run_calls on_replies_def)
qed

lemma request_run_bracketed:
  assumes "opened rs" "cache_usable cache"
  shows "tx_ok False (zip (snd (request_run (over_replies cache rs) enc c req h)) h)"
proof (cases "is_bulk req")
  case False
  then show ?thesis using request_run_direct [OF assms(2)] tx_ok_direct by blast
next
  case True
  then obtain be ent body where req: "req = ReqBulkUpdate be ent body" by (cases req) simp_all
  have "cache_lawful (im_mdCache b) \<and> im_db b = Some replay_driver"
    if "map_of (sv_crudMap (over_replies cache rs)) n = Some b" for n b
    using assms(2) opened_over_replies [OF assms(1) that] over_replies_cache [OF that] by (simp add: cache_usable_def)
  then have "bracketed (in_world (serve (over_replies cache rs) enc req) (request_backend req))"
    unfolding req serve.simps request_backend.simps by (rule bracketed_BulkUpdate)
  then obtain cs where "w_calls (snd (in_world (serve (over_replies cache rs) enc req) (request_backend req) (on_replies h c []))) = [] @ cs"
    "tx_ok False (zip cs h)" unfolding bracketed_def by blast
  then show ?thesis by (simp add: request_run_calls)
qed

section \<open>Bounds\<close>

text \<open>The calls a request makes at most; a bulk request two for each object it contains and two for its
  transaction.\<close>

fun max_calls :: "(gval \<Rightarrow> string) \<Rightarrow> api_request \<Rightarrow> nat" where
  "max_calls enc ReqListBackends = 0"
| "max_calls enc (ReqListEntities be) = 1"
| "max_calls enc (ReqQueryNamed be name params) = 2"
| "max_calls enc (ReqListItems be ent params) = 2"
| "max_calls enc (ReqCreateItem be ent body) = 3"
| "max_calls enc (ReqBulkUpdate be ent body) =
     (case decode_body as_BulkUpdateRequest (request_text enc (BulkUpdateRequest_json body)) of
        Inl e \<Rightarrow> 0 | Inr b \<Rightarrow> 2 * length (bu_Objects b) + 2)"
| "max_calls enc (ReqDeleteItemById be ent oid) = 1"
| "max_calls enc (ReqGetItemById be ent oid) = 1"
| "max_calls enc (ReqExistsItemById be ent oid) = 1"
| "max_calls enc (ReqUpdateItemById be ent oid body) = 4"

lemma calls_le_handleBackend:
  assumes "\<And>c w. map_of (sv_crudMap rs) n = Some c \<Longrightarrow> calls_le k (handler c w)"
  shows "calls_le k (in_world (handleBackend rs n handler w) n)"
  using assms unfolding in_world_handleBackend by (auto split: option.split)

lemma calls_le_BulkUpdate:
  assumes "lawful_caches rs"
  shows "calls_le (max_calls enc (ReqBulkUpdate be ent body))
    (in_world (srv_BulkUpdate rs be ent (request_text enc (BulkUpdateRequest_json body)) w) be)"
  unfolding srv_BulkUpdate_def handleEntity_def
proof (rule calls_le_handleBackend)
  fix c w
  assume "map_of (sv_crudMap rs) be = Some c"
  then have cache: "cache_lawful (im_mdCache c)"
    using assms by (auto simp: lawful_caches_def list_all_iff dest: map_of_SomeD)
  show "calls_le (max_calls enc (ReqBulkUpdate be ent body))
    (case decode_body as_BulkUpdateRequest (request_text enc (BulkUpdateRequest_json body)) of
       Inl err \<Rightarrow> preturn (SendWithStatus rs (PErr err) StatusBadRequest w)
     | Inr body \<Rightarrow>
         pbind (plift (srv_IdColumn rs be ent)) (\<lambda>idCol.
         pbind (if bu_Mode body = DELETE then
                  (case extractIds idCol no_id_msg (bu_Objects body) [] of
                     Inl err \<Rightarrow> preturn (Some err)
                   | Inr ids \<Rightarrow> MultiDelete c ent ids)
                else if bu_Mode body = UPDATE then MultiUpdate c ent (bu_Objects body)
                else if bu_Mode body = REPLACE \<or> bu_Mode body = INSERT then
                  MultiCreate c ent (bu_Mode body = REPLACE) (bu_Objects body)
                else preturn None)
           (\<lambda>r. case r of
                Some err \<Rightarrow> preturn (SendWithStatus rs (PErr err) StatusInternalServerError w)
              | None \<Rightarrow> preturn w)))"
  proof (cases "decode_body as_BulkUpdateRequest (request_text enc (BulkUpdateRequest_json body))")
    case (Inr b)
    have delete: "calls_le (Suc (Suc (2 * length (bu_Objects b)))) (MultiDelete c ent ids)" for ids
      by (rule calls_le_mono [OF calls_le_deletes(2)]) simp
    show ?thesis unfolding Inr max_calls.simps
      by (auto intro!: calls_le_after_pure calls_le_then_pure delete calls_le_batches cache split: sum.split option.split)
  qed simp
qed

lemma calls_le_serve:
  assumes "lawful_caches rs"
  shows "calls_le (max_calls enc req) (in_world (serve rs enc req) (request_backend req))"
proof -
  have cache: "cache_lawful (im_mdCache c)" if "map_of (sv_crudMap rs) n = Some c" for n c
    using assms that by (auto simp: lawful_caches_def list_all_iff dest: map_of_SomeD)
  note ops = calls_le_reads calls_le_deletes calls_le_Update calls_le_Create
  show ?thesis
  proof (cases req)
    case (ReqBulkUpdate be ent body)
    then show ?thesis using calls_le_BulkUpdate [OF assms] by simp
  next
    case ReqListBackends
    then show ?thesis by (simp add: srv_ListBackends_def Let_def)
  next
    case (ReqUpdateItemById be ent oid body)
    have "calls_le (Suc (Suc (Suc (Suc 0)))) (in_world (serve rs enc req) be)"
      unfolding ReqUpdateItemById serve.simps handler_defs
    proof (rule calls_le_handleBackend)
      fix c w
      assume "map_of (sv_crudMap rs) be = Some c"
      then have update: "calls_le (Suc (Suc (Suc 0))) (ebind (Update c ent oid obj) (\<lambda>err. preturn (f err)) (\<lambda>res. preturn (g res)))"
        for obj and f g :: "_ \<Rightarrow> writer" by (intro calls_le_ebind_pure ops cache calls_le_pure)
      show "calls_le (Suc (Suc (Suc (Suc 0)))) (case decode_body as_dto (request_text enc (VMap body)) of
          Inl err \<Rightarrow> preturn (SendWithStatus rs (PErr err) StatusBadRequest w)
        | Inr body \<Rightarrow>
            ebind (Exists c ent oid)
              (\<lambda>err. preturn (SendWithStatus rs (PErr err) StatusInternalServerError w))
              (\<lambda>ex. if \<not> ex then
                  preturn (SendWithStatus rs (PVal (ErrorObject_json (not_found_object ent oid))) StatusNotFound w)
                else ebind (Update c ent oid body)
                  (\<lambda>err. preturn (SendWithStatus rs (PErr err) StatusInternalServerError w))
                  (\<lambda>res. preturn (SendWithStatus rs (PVal (dto_json res)) StatusAccepted w))))"
        by (auto intro!: calls_le_step ops(4) update split: sum.split)
    qed
    then show ?thesis by (simp add: ReqUpdateItemById eval_nat_numeral)
  next
    case (ReqCreateItem be ent body)
    have "calls_le (Suc (Suc (Suc 0))) (in_world (serve rs enc req) be)"
      unfolding ReqCreateItem serve.simps handler_defs
      by (rule calls_le_handleBackend) (auto intro!: ops calls_le_ebind_pure dest: cache split: sum.split)
    then show ?thesis by (simp add: ReqCreateItem eval_nat_numeral)
  qed (simp only: serve.simps handler_defs Let_def max_calls.simps request_backend.simps One_nat_def numeral_2_eq_2,
      rule calls_le_handleBackend, auto intro!: ops calls_le_ebind_pure calls_le_then_pure split: sum.split option.split)+
qed

lemma request_run_bound:
  assumes "cache_usable cache"
  shows "length (snd (request_run (over_replies cache rs) enc c req h)) \<le> max_calls enc req"
proof -
  have "calls_le (max_calls enc req) (in_world (serve (over_replies cache rs) enc req) (request_backend req))"
    by (rule calls_le_serve [OF lawful_over_replies [OF assms]])
  then have "length (w_calls (snd (in_world (serve (over_replies cache rs) enc req) (request_backend req) (on_replies h c [])))) \<le>
      length (w_calls (on_replies h c [])) + max_calls enc req" unfolding calls_le_def by blast
  then show ?thesis by (simp add: request_run_calls) (simp add: on_replies_def)
qed

end
