(* ===== verification/Undisturbed.thy ===== *)
theory Undisturbed
  imports Concurrency
begin

text \<open>
  A request that is not disturbed: a process of \<open>Interleaving\<close> that takes its turns one after the other
  does what \<open>serve\<close> does in one step, and the end of its context what \<open>Server_Runs\<close> says.
\<close>

section \<open>A request depends on its backend only\<close>

lemma handleBackend_local:
  "handleBackend rs n handler w ws = (r, ws') \<Longrightarrow> in_world (handleBackend rs n handler w) n (ws n) = (r, ws' n)"
  by (auto simp: handleBackend_def in_world_def in_backend_def preturn_def split: option.splits prod.splits)

lemma serve_local:
  assumes "serve rs enc req ws = (r, ws')"
  shows "in_world (serve rs enc req) (request_backend req) (ws (request_backend req)) = (r, ws' (request_backend req))"
proof (cases req)
  case ReqListBackends
  with assms show ?thesis by (auto simp: srv_ListBackends_def in_world_def preturn_def Let_def)
qed (insert assms, simp only: serve.simps handler_defs Let_def request_backend.simps, rule handleBackend_local, assumption)+

section \<open>The turns of one process\<close>

text \<open>Replies that let a process make exactly the calls \<open>cs\<close>.\<close>

definition makes_calls :: "process \<Rightarrow> dbcall list \<Rightarrow> reply list \<Rightarrow> writer outcome \<Rightarrow> bool" where
  "makes_calls run cs xs r \<longleftrightarrow>
     length xs = length cs \<and> run xs = (r, cs) \<and> (\<forall>i < length cs. next_call run (take i xs) = Some (cs ! i))"

lemma request_makes_calls:
  assumes "servers_alike drv (request_backend req) rs rs'" "serve rs enc req ws = (r, ws')"
  shows "\<exists>cs. w_calls (ws' (request_backend req)) = w_calls (ws (request_backend req)) @ cs \<and>
    w_db (ws' (request_backend req)) = snd (performs drv cs (w_db (ws (request_backend req)))) \<and>
    makes_calls (request_run rs' enc (w_cache (ws (request_backend req))) req) cs
      (fst (performs drv cs (w_db (ws (request_backend req))))) r"
proof -
  let ?w = "ws (request_backend req)" and ?w' = "ws' (request_backend req)"
  let ?m' = "in_world (serve rs' enc req) (request_backend req)"
  obtain cs where "replays drv ?w r ?w' ?m' cs"
    using follows_serve [OF assms(1), of enc] serve_local [OF assms(2)] unfolding follows_def by (metis fst_conv snd_conv)
  note d = replaysD [OF this]
  let ?xs = "fst (performs drv cs (w_db ?w))"
  let ?run = "request_run rs' enc (w_cache ?w) req"
  have "?run ?xs = (r, cs)"
    using d(3) [of "[]" "[]"] by (simp add: request_run_def on_replies_def)
  moreover have "next_call ?run (take i ?xs) = Some (cs ! i)" if i: "i < length cs" for i
  proof -
    obtain cs' where cs': "w_calls (snd (?m' (on_replies (take i ?xs) (w_cache ?w) []))) = cs'"
      "agree_until ?xs cs (take i ?xs) cs'" using d(4) [of "take i ?xs" "[]"] by auto
    then have t: "take (Suc i) cs' = take (Suc i) cs" using i by (simp add: agree_until_def)
    from arg_cong [OF t, of length] i have less: "i < length cs'" by simp
    from arg_cong [OF t, of "\<lambda>l. l ! i"] have "cs' ! i = cs ! i" by simp
    with less cs'(1) i show ?thesis by (simp add: next_call_def Let_def request_run_calls)
  qed
  ultimately show ?thesis using d(1,2) by (auto simp: makes_calls_def)
qed

text \<open>The state after the first calls.\<close>

definition after_calls :: "nat \<Rightarrow> dbcall list \<Rightarrow> reply list \<Rightarrow> 'd \<Rightarrow> 'd system \<Rightarrow> 'd system" where
  "after_calls p cs xs d s =
     s\<lparr>sy_db := d, sy_hist := (sy_hist s)[p := xs], sy_tx := (sy_tx s)[p := tx_run (zip cs xs)],
       sy_log := sy_log s @ map (Pair p) (zip cs xs)\<rparr>"

lemma performs_snoc:
  "performs drv (cs @ [c]) d = (case performs drv cs d of (xs, d') \<Rightarrow> case perform drv c d' of (x, d'') \<Rightarrow> (xs @ [x], d''))"
  by (simp add: performs_append Let_def split: prod.split)

lemma conn_free_less:
  assumes "conn_free mx (bs[p := True])"
  shows "conn_free mx (bs[p := v])"
proof -
  have "length (filter (\<lambda>b. b) (bs[p := v])) \<le> length (filter (\<lambda>b. b) (bs[p := True]))"
  proof (induction bs arbitrary: p)
    case (Cons b bs)
    from Cons.IH show ?case by (cases p) auto
  qed simp
  with assms show ?thesis by (auto simp: conn_free_def split: option.splits)
qed

lemma undisturbed_calls:
  assumes "p < length procs" "makes_calls (procs ! p) cs (fst (performs (drv p) cs (sy_db s))) r"
    and "length (sy_hist s) = length procs" "length (sy_tx s) = length procs"
    and "sy_hist s ! p = []" "\<not> sy_tx s ! p" "\<not> sy_ended s ! p" "conn_free mx ((sy_tx s)[p := True])"
    and "i \<le> length cs"
  shows "scheduled drv mx procs s (replicate i p)
    (after_calls p (take i cs) (fst (performs (drv p) (take i cs) (sy_db s))) (snd (performs (drv p) (take i cs) (sy_db s))) s)"
  using assms(9)
proof (induction i)
  case 0
  have "(sy_hist s)[p := []] = sy_hist s" "(sy_tx s)[p := False] = sy_tx s"
    using assms(5,6) by (metis list_update_id)+
  then show ?case by (simp add: after_calls_def)
next
  case (Suc i)
  then have i: "i < length cs" by simp
  let ?xs = "fst (performs (drv p) (take i cs) (sy_db s))" and ?d = "snd (performs (drv p) (take i cs) (sy_db s))"
  let ?s = "after_calls p (take i cs) ?xs ?d s"
  have take: "take (Suc i) cs = take i cs @ [cs ! i]" using i by (simp add: take_Suc_conv_app_nth)
  obtain x d' where x: "perform (drv p) (cs ! i) ?d = (x, d')" by fastforce
  have xs: "?xs = take i (fst (performs (drv p) cs (sy_db s)))"
  proof -
    have "performs (drv p) (take i cs @ drop i cs) (sy_db s) =
        (?xs @ fst (performs (drv p) (drop i cs) ?d), snd (performs (drv p) (drop i cs) ?d))"
      unfolding performs_append by (simp add: Let_def split: prod.split)
    then show ?thesis using i by simp
  qed
  have nxt: "next_call (procs ! p) ?xs = Some (cs ! i)" using assms(2) i unfolding xs by (simp add: makes_calls_def)
  have "conn_free mx (sy_tx ?s)" using conn_free_less [OF assms(8)] by (simp add: after_calls_def)
  then have "turn drv mx procs p ?s = Some (after_calls p (take (Suc i) cs) (?xs @ [x]) d' s)"
    using assms(1,3,4,7) nxt x by (simp add: turn_def after_calls_def take)
  from sched_turn [OF Suc.IH this] Suc.prems x show ?case
    by (simp add: take performs_snoc replicate_append_same split_def)
qed

text \<open>All its turns, the last one at the end of its context.\<close>

lemma undisturbed_turns:
  assumes "p < length procs" "makes_calls (procs ! p) cs (fst (performs (drv p) cs (sy_db s))) r"
    and "length (sy_hist s) = length procs" "length (sy_tx s) = length procs" "length (sy_ended s) = length procs"
    and "sy_hist s ! p = []" "\<not> sy_tx s ! p" "\<not> sy_ended s ! p" "conn_free mx ((sy_tx s)[p := True])"
    and "xs = fst (performs (drv p) cs (sy_db s))" "d = snd (performs (drv p) cs (sy_db s))"
  shows "\<exists>s'. scheduled drv mx procs s (replicate (Suc (length cs)) p) s' \<and> sy_ended s' = (sy_ended s)[p := True] \<and>
    sy_hist s' ! p = xs \<and> sy_tx s' = sy_tx s \<and>
    sy_db s' = (if tx_run (zip cs xs) then snd (drv_Rollback (drv p) d) else d)"
proof -
  let ?s = "after_calls p cs xs d s"
  have run: "scheduled drv mx procs s (replicate (length cs) p) ?s"
    using undisturbed_calls [where i = "length cs" and p = p and procs = procs and cs = cs and drv = drv and s = s and mx = mx, OF assms(1-4,6-9)] by (simp add: assms(10,11))
  have nxt: "next_call (procs ! p) (sy_hist ?s ! p) = None"
    using assms(1-3) by (simp add: makes_calls_def next_call_def after_calls_def assms(10))
  have tx: "sy_tx ?s ! p = tx_run (zip cs xs)" "(sy_tx s)[p := False] = sy_tx s"
    using assms(1,4,7) by (simp_all add: after_calls_def) (metis list_update_id)
  show ?thesis
  proof (cases "tx_run (zip cs xs)")
    case True
    obtain x d' where x: "drv_Rollback (drv p) d = (x, d')" by fastforce
    then have "turn drv mx procs p ?s = Some (?s\<lparr>sy_db := d', sy_tx := sy_tx s, sy_ended := (sy_ended s)[p := True],
        sy_log := sy_log ?s @ [(p, CRollback, RDone x)]\<rparr>)"
      using True assms(1,8) nxt tx by (simp add: turn_def) (simp add: after_calls_def)
    from sched_turn [OF run this] True x assms(1,3) show ?thesis
      by (intro exI conjI) (assumption | simp add: replicate_append_same after_calls_def)+
  next
    case False
    then have "turn drv mx procs p ?s = Some (?s\<lparr>sy_ended := (sy_ended s)[p := True]\<rparr>)"
      using assms(1,8) nxt tx by (simp add: turn_def) (simp add: after_calls_def)
    from sched_turn [OF run this] False assms(1,3) tx(2) show ?thesis
      by (intro exI conjI) (assumption | simp add: replicate_append_same after_calls_def)+
  qed
qed

end
