(* ===== verification/Concurrent_Properties.thy ===== *)
theory Concurrent_Properties
  imports Undisturbed
begin

text \<open>
  Properties of requests that run at the same time: what holds under every schedule of their database
  calls, when all of them end, and a deadlock.
\<close>

section \<open>Instances\<close>

text \<open>A cache that remembers what it has loaded.\<close>

definition table_cache :: "('d, (string \<times> metadata) list) cache_ops" where
  "table_cache =
     \<lparr>cache_Get = (\<lambda>ld key w. case map_of (w_cache w) key of Some md \<Rightarrow> (Returns (Some md), w) | None \<Rightarrow> ld key w),
      cache_Set = (\<lambda>key md c. (key, md) # c)\<rparr>"

lemma table_lawful: "cache_lawful table_cache"
  by (auto simp: cache_lawful_def table_cache_def Let_def split: prod.split option.split)

lemma follows_by_cache:
  assumes "\<And>c. follows drv (m c) (m' c)"
  shows "follows drv (\<lambda>w. m (w_cache w) w) (\<lambda>w. m' (w_cache w) w)"
  using assms by (simp add: follows_def replays_def on_replies_def)

lemma preturn_fun: "preturn x = (\<lambda>w. (Returns x, w))"
  by (rule ext) (simp add: preturn_def)

lemma table_alike: "caches_alike drv table_cache table_cache"
  unfolding caches_alike_def
proof (intro conjI allI impI)
  fix ld :: "string \<Rightarrow> (('a, (string \<times> metadata) list) world, metadata option) prog" and ld' key
  assume ld: "\<forall>k. follows drv (ld k) (ld' k)"
  have "follows drv (\<lambda>w. case map_of c key of Some md \<Rightarrow> (Returns (Some md), w) | None \<Rightarrow> ld key w)
      (\<lambda>w. case map_of c key of Some md \<Rightarrow> (Returns (Some md), w) | None \<Rightarrow> ld' key w)" for c
  proof (cases "map_of c key")
    case (Some md)
    with follows_pure(1) [of drv "Some md"] show ?thesis by (simp add: preturn_fun)
  qed (use ld in simp)
  from follows_by_cache [OF this] show "follows drv (cache_Get table_cache ld key) (cache_Get table_cache ld' key)"
    by (simp add: table_cache_def)
qed (simp add: table_cache_def)

lemma table_usable: "cache_usable table_cache"
  by (simp add: cache_usable_def table_lawful table_alike)

lemma ref_opened: "opened ref_rs"
  by (simp add: opened_def ref_rs_def counting_impl_def crud_New_def im_db_def DB_def)

section \<open>States of a schedule\<close>

lemma schedule_inv:
  assumes "opened rs" "cache_usable cache"
    and "scheduled drv mx (processes cache rs enc jobs) (fresh_system (length jobs) d) ps s"
  shows "system_inv (processes cache rs enc jobs) s"
  using scheduled_inv [OF assms(3) processes_coherent [OF assms(1,2)]] fresh_system_inv [of "processes cache rs enc jobs" d]
  by simp

text \<open>A call of a process obeys the brackets of its transaction.\<close>

lemma tx_ok_snoc:
  "tx_ok b (es @ [(c, x)]) \<longleftrightarrow>
   tx_ok b es \<and> (c = CBegin \<longrightarrow> \<not> fold (\<lambda>(c, x) b. tx_after c x b) es b) \<and>
   (uses_tx c \<longrightarrow> fold (\<lambda>(c, x) b. tx_after c x b) es b)"
proof (induction es arbitrary: b)
  case (Cons e es)
  then show ?case by (cases e) simp
qed simp

lemma own_bracketed:
  assumes "opened rs" "cache_usable cache" "system_inv (processes cache rs enc jobs) s" "p < length jobs" "\<not> sy_ended s ! p"
  shows "tx_ok False (own p (sy_log s)) \<and> sy_tx s ! p = tx_run (own p (sy_log s))"
proof -
  have "process_inv (processes cache rs enc jobs ! p) (sy_hist s ! p) (sy_tx s ! p) False (own p (sy_log s))"
    using system_inv_process [OF assms(3), of p] assms(4,5) by simp
  then show ?thesis using request_run_bracketed [OF assms(1,2)] assms(4)
    by (simp add: process_inv_def nth_processes)
qed

lemma call_in_tx:
  assumes "opened rs" "cache_usable cache"
    and "system_inv (processes cache rs enc jobs) s" "system_inv (processes cache rs enc jobs) s'"
    and "p < length jobs" "\<not> sy_ended s ! p" "sy_ended s' = sy_ended s" "sy_log s' = sy_log s @ [(p, c, x)]"
  shows "c = CBegin \<Longrightarrow> \<not> sy_tx s ! p" "uses_tx c \<Longrightarrow> sy_tx s ! p"
proof -
  have "tx_ok False (own p (sy_log s) @ [(c, x)])"
    using own_bracketed [OF assms(1,2,4,5)] assms(6-8) by simp
  then have "c = CBegin \<longrightarrow> \<not> tx_run (own p (sy_log s))" "uses_tx c \<longrightarrow> tx_run (own p (sy_log s))"
    by (simp_all add: tx_ok_snoc tx_run_def)
  with own_bracketed [OF assms(1,2,3,5,6)]
  show "c = CBegin \<Longrightarrow> \<not> sy_tx s ! p" "uses_tx c \<Longrightarrow> sy_tx s ! p" by simp_all
qed

section \<open>Transactions of a schedule\<close>

text \<open>Transactions that are open after the calls of a log: begun with success and not ended.\<close>

fun open_delta :: "dbcall \<Rightarrow> reply \<Rightarrow> int" where
  "open_delta CBegin x = (if x = RDone None then 1 else 0)"
| "open_delta CCommit x = - 1"
| "open_delta CRollback x = - 1"
| "open_delta c x = 0"

definition db_open :: "(nat \<times> dbcall \<times> reply) list \<Rightarrow> int" where
  "db_open log = sum_list (map (\<lambda>(p, c, x). open_delta c x) log)"

lemma db_open_simps [simp]: "db_open [] = 0" "db_open (log @ [(p, c, x)]) = db_open log + open_delta c x"
  by (simp_all add: db_open_def)

definition count_true :: "bool list \<Rightarrow> nat" where
  "count_true bs = length (filter (\<lambda>b. b) bs)"

lemma count_true_simps [simp]:
  "count_true [] = 0" "count_true (b # bs) = of_bool b + count_true bs" "count_true (replicate n False) = 0"
  by (simp_all add: count_true_def)

lemma count_true_update:
  "p < length bs \<Longrightarrow> int (count_true (bs[p := v])) = int (count_true bs) + of_bool v - of_bool (bs ! p)"
proof (induction bs arbitrary: p)
  case (Cons b bs)
  then show ?case by (cases p) simp_all
qed simp

lemma open_delta_after:
  assumes "c = CBegin \<Longrightarrow> \<not> b" "uses_tx c \<Longrightarrow> b"
  shows "open_delta c x = of_bool (tx_after c x b) - of_bool b"
  using assms by (cases c) auto

definition pool_inv :: "int option \<Rightarrow> 'd system \<Rightarrow> bool" where
  "pool_inv mx s \<longleftrightarrow>
     db_open (sy_log s) = int (count_true (sy_tx s)) \<and>
     (\<forall>n. mx = Some n \<longrightarrow> 0 < n \<longrightarrow> int (count_true (sy_tx s)) \<le> n)"

lemma pool_turn:
  assumes "opened rs" "cache_usable cache" "turn drv mx (processes cache rs enc jobs) p s = Some s'"
    and "system_inv (processes cache rs enc jobs) s" "pool_inv mx s"
  shows "pool_inv mx s'"
proof -
  have inv': "system_inv (processes cache rs enc jobs) s'"
    by (rule system_inv_turn [OF processes_coherent [OF assms(1,2)] assms(4,3)])
  have len: "length (sy_tx s) = length jobs" using assms(4) by (simp add: system_inv_def)
  show ?thesis
    using assms(3)
  proof (cases rule: turn_cases)
    case (call c x d)
    let ?b = "sy_tx s ! p" and ?t = "sy_tx s"
    have p: "p < length jobs" using call(1) by simp
    have s': "sy_ended s' = sy_ended s" "sy_log s' = sy_log s @ [(p, c, x)]" by (simp_all add: call(6))
    note b = call_in_tx [OF assms(1,2,4) inv' p call(2) s']
    have delta: "open_delta c x = of_bool (tx_after c x ?b) - of_bool ?b" by (rule open_delta_after [OF b])
    have n: "int (count_true (?t[p := tx_after c x ?b])) = int (count_true ?t) + of_bool (tx_after c x ?b) - of_bool ?b"
      by (rule count_true_update) (simp add: len p)
    have "int (count_true (?t[p := tx_after c x ?b])) \<le> k" if "mx = Some k" "0 < k" for k
    proof (cases "tx_after c x ?b \<and> \<not> ?b")
      case True
      then have "c = CBegin" by (cases c) simp_all
      with call(4) that have "int (count_true ?t) < k" by (simp add: conn_free_def count_true_def)
      with n True show ?thesis by simp
    next
      case False
      moreover have "int (count_true ?t) \<le> k" using assms(5) that by (simp add: pool_inv_def)
      ultimately show ?thesis using n by (cases "tx_after c x ?b") auto
    qed
    moreover have "db_open (sy_log s') = int (count_true (?t[p := tx_after c x ?b]))"
    proof -
      have "db_open (sy_log s) = int (count_true ?t)" using assms(5) unfolding pool_inv_def by blast
      with n delta show ?thesis by (simp add: s'(2))
    qed
    ultimately show ?thesis by (simp add: pool_inv_def call(6))
  next
    case (rolled_back x d)
    have "int (count_true ((sy_tx s)[p := False])) = int (count_true (sy_tx s)) - 1"
      using count_true_update [of p "sy_tx s" False] rolled_back(1,4) len by simp
    with assms(5) show ?thesis by (auto simp: pool_inv_def rolled_back(6))
  next
    case finished
    with assms(5) show ?thesis by (simp add: pool_inv_def)
  qed
qed

lemma schedule_pool:
  assumes "scheduled drv mx (processes cache rs enc jobs) (fresh_system (length jobs) d) ps s" "opened rs" "cache_usable cache"
  shows "pool_inv mx s"
  using assms(1)
proof (induction rule: scheduled.induct)
  case sched_start
  show ?case by (simp add: pool_inv_def fresh_system_def)
next
  case (sched_turn ps s p s')
  show ?case by (rule pool_turn [OF assms(2,3) sched_turn(2) schedule_inv [OF assms(2,3) sched_turn(1)] sched_turn(3)])
qed

lemma tx_run_direct: "list_all direct cs \<Longrightarrow> \<not> tx_run (zip cs h)"
proof (induction cs arbitrary: h)
  case (Cons c cs)
  then show ?case by (cases h) (simp_all add: tx_run_def tx_after_direct)
qed simp

text \<open>A process that has ended is in no transaction.\<close>

lemma count_true_le:
  assumes "length bs = length es" "\<And>p. p < length bs \<Longrightarrow> bs ! p \<Longrightarrow> P (es ! p)"
  shows "count_true bs \<le> length (filter P es)"
  using assms
proof (induction bs es rule: list_induct2)
  case (Cons b bs e es)
  have "\<And>p. p < length bs \<Longrightarrow> bs ! p \<Longrightarrow> P (es ! p)" using Cons.prems [of "Suc p" for p] by simp
  with Cons.IH Cons.prems [of 0] show ?case by auto
qed simp

lemma ended_no_tx:
  assumes "system_inv procs s" "p < length procs" "sy_ended s ! p"
  shows "\<not> sy_tx s ! p"
  using system_inv_process [OF assms(1,2)] assms(3) by (simp add: process_inv_def)

section \<open>Bulk inserts that start together\<close>

text \<open>A bulk insert into an entity whose columns the cache does not know begins its transaction and then
  asks for the columns, with a query of its own.\<close>

definition insert_many :: "string \<Rightarrow> string \<Rightarrow> gmap list \<Rightarrow> api_request" where
  "insert_many be ent objs = ReqBulkUpdate be ent \<lparr>bu_Mode = INSERT, bu_Objects = objs\<rparr>"

definition cache_misses :: "(reply list, 'c) cache_ops \<Rightarrow> string \<Rightarrow> 'c \<Rightarrow> bool" where
  "cache_misses cache ent c \<longleftrightarrow> (\<forall>ld h k. cache_Get cache ld ent (on_replies h c k) = ld ent (on_replies h c k))"

lemma insert_many_run:
  assumes "opened rs" "map_of (sv_crudMap rs) be = Some b" "srv_IdColumn rs be ent = Returns idc'" "list_all row_ok objs"
  shows "\<exists>f. request_run (over_replies cache rs) enc c (insert_many be ent objs) h =
    (case MultiCreate (crud_New cache (replay_config (im_config b))) ent False (map (dto_wire enc) objs) (on_replies h c []) of
       (Returns r, w) \<Rightarrow> (f r, w_calls w) | (Panics msg, w) \<Rightarrow> (Panics msg, w_calls w))"
proof -
  have b: "map_of (sv_crudMap (over_replies cache rs)) be = Some (crud_New cache (replay_config (im_config b)))"
    using assms(2) by (simp add: over_replies_def map_of_map_snd)
  have dec: "decode_body as_BulkUpdateRequest (request_text enc (BulkUpdateRequest_json \<lparr>bu_Mode = INSERT, bu_Objects = objs\<rparr>)) =
      Inr \<lparr>bu_Mode = INSERT, bu_Objects = map (dto_wire enc) objs\<rparr>"
    using bulk_decode [of "\<lparr>bu_Mode = INSERT, bu_Objects = objs\<rparr>" enc] assms(4) by simp
  from dec show ?thesis
    by (intro exI [of _ "\<lambda>r. Returns (case r of
        Some err \<Rightarrow> SendWithStatus (over_replies cache rs) (PErr err) StatusInternalServerError fresh_writer | None \<Rightarrow> fresh_writer)"])
      (auto simp: request_run_def insert_many_def srv_BulkUpdate_def handleEntity_def in_world_handleBackend b assms(3)
        pbind_def plift_def preturn_def split: prod.split outcome.split option.split)
qed

lemma insert_many_calls:
  assumes "opened rs" "map_of (sv_crudMap rs) be = Some b" "srv_IdColumn rs be ent = Returns idc'" "list_all row_ok objs"
    and "be_Create (im_config b) = Some True" "IdColumn (im_config b) ent = Returns idc" "cache_misses cache ent c" "objs \<noteq> []"
  shows "next_call (request_run (over_replies cache rs) enc c (insert_many be ent objs)) [] = Some CBegin"
    and "next_call (request_run (over_replies cache rs) enc c (insert_many be ent objs)) [RDone None] =
      Some (CQuery (createSingleSelectQuery ent idc) [VStr ''0''])"
proof -
  let ?c = "crud_New cache (replay_config (im_config b))"
  let ?m = "MultiCreate ?c ent False (map (dto_wire enc) objs)"
  have db: "im_db ?c = Some replay_driver"
    by (rule opened_over_replies [OF assms(1), where n = be]) (simp add: over_replies_def map_of_map_snd assms(2))
  have cr: "be_Create (im_config ?c) = Some True" using assms(5) by (simp add: crud_New_def replay_config_def)
  have calls: "snd (request_run (over_replies cache rs) enc c (insert_many be ent objs) h) = w_calls (snd (?m (on_replies h c [])))" for h
    using insert_many_run [OF assms(1-4), of cache enc c h] by (auto split: prod.split outcome.split)
  have "w_calls (snd (?m (on_replies [] c []))) = [CBegin]"
    by (simp add: MultiCreate_def cr db small_runs on_replies_def replay_driver_def)
  then show "next_call (request_run (over_replies cache rs) enc c (insert_many be ent objs)) [] = Some CBegin"
    by (simp add: next_call_def calls)
  obtain obj objs' where o: "map (dto_wire enc) objs = obj # objs'" using assms(8) by (cases objs) auto
  have idc: "IdColumn (im_config ?c) ent = Returns idc" using assms(6) by (simp add: crud_New_def)
  have get: "mdCache_Get ?c ent (on_replies h c k) = Load ?c ent (on_replies h c k)" for h k
    using assms(7) by (simp add: cache_misses_def mdCache_Get_def crud_New_def)
  have load: "Load ?c ent (on_replies [] c k) = (Returns None, on_replies [] c (k @ [CQuery (createSingleSelectQuery ent idc) [VStr ''0'']]))" for k
    by (simp add: Load_def idc db ebind_def small_runs on_replies_def replay_driver_def)
  have starts: "db_BeginTx (Some replay_driver) (on_replies [RDone None] c []) = (Returns None, on_replies [] c [CBegin])"
    by (simp add: db_BeginTx_def on_db_def db_call_def on_replies_def replay_driver_def)
  have rem: "remapped ?c ent obj (on_replies [] c k) =
      (Returns obj, on_replies [] c (k @ [CQuery (createSingleSelectQuery ent idc) [VStr ''0'']]))" for k
    by (simp add: remapped_def pbind_def get load preturn_def)
  obtain q a where q: "createInsertQuery ent obj = (q, a)" by fastforce
  have "\<exists>cs. w_calls (snd (?m (on_replies [RDone None] c []))) =
      CBegin # CQuery (createSingleSelectQuery ent idc) [VStr ''0''] # cs"
    by (simp add: MultiCreate_def cr db guarded_allowed o q pbind_def starts rem)
      (simp add: small_runs on_replies_def replay_driver_def)
  then show "next_call (request_run (over_replies cache rs) enc c (insert_many be ent objs)) [RDone None] =
      Some (CQuery (createSingleSelectQuery ent idc) [VStr ''0''])"
    by (auto simp: next_call_def calls)
qed

text \<open>All of them can begin while there are connections.\<close>

definition begun_system :: "nat \<Rightarrow> nat \<Rightarrow> 'd \<Rightarrow> 'd system" where
  "begun_system n k d = \<lparr>sy_db = d, sy_hist = replicate k [RDone None] @ replicate (n - k) [],
     sy_tx = replicate k True @ replicate (n - k) False, sy_ended = replicate n False,
     sy_log = map (\<lambda>p. (p, CBegin, RDone None)) [0..<k]\<rparr>"

lemma replicate_step: "k < n \<Longrightarrow> (replicate k a @ replicate (n - k) b)[k := a] = replicate (Suc k) a @ replicate (n - Suc k) b"
  by (cases "n - k") (simp_all add: list_update_append replicate_append_same Suc_diff_Suc [symmetric])

lemma begin_all:
  assumes "length procs = n" "\<And>p. p < n \<Longrightarrow> next_call (procs ! p) [] = Some CBegin"
    and "\<And>p d. fst (drv_Begin (drv p) d) = None" "k \<le> n"
  shows "\<exists>d'. scheduled drv (Some (int n)) procs (fresh_system n d) [0..<k] (begun_system n k d')"
  using assms(4)
proof (induction k)
  case 0
  show ?case by (auto simp: begun_system_def fresh_system_def)
next
  case (Suc k)
  then obtain d' where run: "scheduled drv (Some (int n)) procs (fresh_system n d) [0..<k] (begun_system n k d')" by auto
  obtain d'' where b: "drv_Begin (drv k) d' = (None, d'')" using assms(3) by (metis prod.collapse)
  have "conn_free (Some (int n)) (sy_tx (begun_system n k d'))"
    using Suc.prems by (simp add: conn_free_def begun_system_def)
  then have "turn drv (Some (int n)) procs k (begun_system n k d') = Some (begun_system n (Suc k) d'')"
    using Suc.prems assms(1) assms(2) [of k] b
    by (simp add: turn_def begun_system_def nth_append replicate_step)
  from sched_turn [OF run this] show ?case by (auto simp del: begun_system_def)
qed

lemma begun_stuck:
  assumes "length procs = n" "0 < n" "\<And>p. p < n \<Longrightarrow> next_call (procs ! p) [RDone None] = Some (CQuery q a)"
  shows "turn drv (Some (int n)) procs p (begun_system n n d) = None"
proof (cases "p < n")
  case True
  then show ?thesis using assms by (simp add: turn_def begun_system_def conn_free_def)
qed (simp add: turn_def assms(1))

text \<open>What is open was begun.\<close>

lemma open_began: "tx_run es \<Longrightarrow> \<exists>x. (CBegin, x) \<in> set es"
proof (induction es rule: rev_induct)
  case (snoc e es)
  obtain c x where "e = (c, x)" by fastforce
  with snoc show ?case by (cases c) auto
qed simp

lemma may_add_rollback: "may_add rs be CRollback = may_add rs be CBegin"
  by (simp add: may_add_def split: option.split)

text \<open>Every turn is a reply or an end.\<close>

lemma sum_hist_update: "p < length hs \<Longrightarrow> sum_list (map length (hs[p := hs ! p @ [x]])) = Suc (sum_list (map length hs))"
proof (induction hs arbitrary: p)
  case (Cons h hs)
  then show ?case by (cases p) simp_all
qed simp

lemma sum_list_le: "list_all2 (\<le>) xs ys \<Longrightarrow> sum_list xs \<le> sum_list (ys :: nat list)"
  by (induction rule: list_all2_induct) auto

lemma schedule_turns:
  assumes "scheduled drv mx procs (fresh_system (length procs) d) ps s"
  shows "length ps = sum_list (map length (sy_hist s)) + count_true (sy_ended s) \<and>
    length (sy_hist s) = length procs \<and> length (sy_ended s) = length procs"
  using assms
proof (induction rule: scheduled.induct)
  case sched_start
  show ?case by (simp add: fresh_system_def map_replicate_const sum_list_replicate)
next
  case (sched_turn ps s p s')
  have end_turn: "int (count_true ((sy_ended s)[p := True])) = int (count_true (sy_ended s)) + 1"
    if "p < length procs" "\<not> sy_ended s ! p"
    using count_true_update [of p "sy_ended s" True] that sched_turn.IH by simp
  from sched_turn.hyps(2) show ?case
  proof (cases rule: turn_cases)
    case (call c x d)
    with sched_turn.IH show ?thesis by (simp add: sum_hist_update)
  next
    case (rolled_back x d)
    with sched_turn.IH end_turn show ?thesis by simp
  next
    case finished
    with sched_turn.IH end_turn show ?thesis by simp
  qed
qed

section \<open>A server with a cache\<close>

definition table_rs :: "((string list \<times> string list), (string \<times> metadata) list) restServer" where
  "table_rs = \<lparr>sv_cfg = sv_cfg ref_rs, sv_crudMap = [(''main'', crud_New table_cache (small_backend\<lparr>be_MaxOpenConnections := Some 2\<rparr>))],
     sv_send = sv_send ref_rs, sv_my = sv_my ref_rs\<rparr>"

definition one_row :: "gmap" where
  "one_row = [(''id'', VStr ''1'')]"

definition two_inserts :: "((string \<times> metadata) list \<times> gmap list) list" where
  "two_inserts = [([], [one_row]), ([], [one_row])]"

definition two_jobs :: "((string \<times> metadata) list \<times> api_request) list" where
  "two_jobs = map (\<lambda>(c, objs). (c, insert_many ''main'' ''t'' objs)) two_inserts"

lemma table_rs_facts:
  "opened table_rs" "map_of (sv_crudMap table_rs) ''main'' = Some (crud_New table_cache (small_backend\<lparr>be_MaxOpenConnections := Some 2\<rparr>))"
  "srv_IdColumn table_rs ''main'' ent = Returns ''id''"
  "be_Create (im_config (crud_New table_cache (small_backend\<lparr>be_MaxOpenConnections := Some 2\<rparr>))) = Some True"
  "IdColumn (im_config (crud_New table_cache (small_backend\<lparr>be_MaxOpenConnections := Some 2\<rparr>))) ent = Returns ''id''"
  "be_MaxOpenConnections (im_config (crud_New table_cache (small_backend\<lparr>be_MaxOpenConnections := Some 2\<rparr>))) = Some 2"
  by (simp_all add: opened_def table_rs_def crud_New_def im_db_def DB_def srv_IdColumn_def IdColumn_def ref_rs_def)

lemma two_inserts_facts:
  "list_all (\<lambda>(c, objs). cache_misses table_cache ent c \<and> objs \<noteq> [] \<and> list_all row_ok objs) two_inserts"
  by (simp add: two_inserts_def cache_misses_def table_cache_def row_ok_def one_row_def on_replies_def)

lemma small_begins: "fst (drv_Begin small_driver d) = None"
  by (simp add: small_driver_def)

lemma two_begun:
  "\<exists>d'. scheduled (\<lambda>p. small_driver) (Some 2) (processes table_cache table_rs fmt_v two_jobs) (fresh_system (length two_jobs) d) [0, 1]
     (begun_system 2 2 d')"
proof -
  have c: "cache_misses table_cache ''t'' []" "[one_row] \<noteq> []" "list_all row_ok [one_row]"
    using two_inserts_facts [of "''t''"] by (simp_all add: two_inserts_def)
  have "next_call (processes table_cache table_rs fmt_v two_jobs ! p) [] = Some CBegin" if "p < 2" for p
    using insert_many_calls(1) [OF table_rs_facts(1-3) c(3) table_rs_facts(4,5) c(1,2)] that
    by (simp add: nth_processes two_jobs_def two_inserts_def nth_Cons split: nat.split)
  from begin_all [where drv = "\<lambda>p. small_driver" and n = 2 and k = 2 and d = d, OF _ this small_begins le_refl] show ?thesis
    by (simp add: two_jobs_def two_inserts_def upt_rec numeral_2_eq_2)
qed

section \<open>A deletion alone\<close>

lemma undisturbed_run:
  assumes "opened rs" "cache_usable cache"
    and "map_of (sv_crudMap rs) (request_backend req) = Some b" "im_db b = Some (drv p)"
      "caches_alike (drv p) (im_mdCache b) cache"
    and "scheduled drv mx (processes cache rs enc jobs) (fresh_system (length jobs) d) ps s"
    and "p < length jobs" "jobs ! p = (w_cache (ws (request_backend req)), req)" "sy_hist s ! p = []" "\<not> sy_ended s ! p"
      "conn_free mx ((sy_tx s)[p := True])"
    and "w_db (ws (request_backend req)) = sy_db s" "serve rs enc req ws = (r, ws')"
  shows "\<exists>cs xs s'. scheduled drv mx (processes cache rs enc jobs) s (replicate (Suc (length cs)) p) s' \<and>
    sy_ended s' ! p \<and> fst ((processes cache rs enc jobs ! p) (sy_hist s' ! p)) = r \<and> sy_ended s' = (sy_ended s)[p := True] \<and>
    w_calls (ws' (request_backend req)) = w_calls (ws (request_backend req)) @ cs \<and> xs = fst (performs (drv p) cs (sy_db s)) \<and>
    sy_db s' = (if tx_run (zip cs xs) then snd (drv_Rollback (drv p) (w_db (ws' (request_backend req))))
      else w_db (ws' (request_backend req)))"
proof -
  let ?be = "request_backend req" and ?procs = "processes cache rs enc jobs"
  note inv = schedule_inv [OF assms(1,2,6)]
  have len: "length (sy_hist s) = length ?procs" "length (sy_tx s) = length ?procs" "length (sy_ended s) = length ?procs"
    using inv by (simp_all add: system_inv_def)
  have tx: "\<not> sy_tx s ! p" using system_inv_process [OF inv, of p] assms(7,9,10) by (simp add: process_inv_def)
  have proc: "?procs ! p = request_run (over_replies cache rs) enc (w_cache (ws ?be)) req"
    using assms(7,8) by (simp add: nth_processes)
  obtain cs where cs: "w_calls (ws' ?be) = w_calls (ws ?be) @ cs" "w_db (ws' ?be) = snd (performs (drv p) cs (sy_db s))"
    "makes_calls (?procs ! p) cs (fst (performs (drv p) cs (sy_db s))) r"
    using request_makes_calls [OF servers_alike_over_replies [OF assms(3-5)] assms(13)] assms(12) proc by auto
  let ?xs = "fst (performs (drv p) cs (sy_db s))"
  have p: "p < length ?procs" using assms(7) by simp
  obtain s' where s': "scheduled drv mx ?procs s (replicate (Suc (length cs)) p) s'" "sy_ended s' = (sy_ended s)[p := True]"
    "sy_hist s' ! p = ?xs"
    "sy_db s' = (if tx_run (zip cs ?xs) then snd (drv_Rollback (drv p) (w_db (ws' ?be))) else w_db (ws' ?be))"
    using undisturbed_turns [where drv = drv and s = s and p = p and cs = cs and procs = ?procs and mx = mx,
        OF p cs(3) len assms(9) tx assms(10,11) refl cs(2)] by blast
  moreover have "sy_ended s' ! p" "fst ((?procs ! p) (sy_hist s' ! p)) = r"
    using s'(2,3) len(3) p cs(3) by (simp_all add: makes_calls_def)
  ultimately show ?thesis using cs(1) by metis
qed

definition one_job :: "(unit \<times> api_request) list" where
  "one_job = [((), ReqDeleteItemById ''main'' ''t'' ''1'')]"

lemma no_cache_alike: "caches_alike drv no_cache no_cache"
  using follows_pure(1) by (auto simp: caches_alike_def no_cache_def preturn_fun)

lemma no_cache_usable: "cache_usable no_cache"
  by (simp add: cache_usable_def small_lawful no_cache_alike)

definition one_start :: "(string list \<times> string list) system" where
  "one_start = fresh_system (length one_job) ([], [])"

lemma one_job_facts:
  "map_of (sv_crudMap ref_rs) (request_backend (snd (hd one_job))) = Some counting_impl"
  "im_db counting_impl = Some ((\<lambda>p :: nat. counting_driver) 0)"
  "caches_alike ((\<lambda>p :: nat. counting_driver) 0) (im_mdCache counting_impl) no_cache"
  "scheduled (\<lambda>p. counting_driver) (Some 2) (processes no_cache ref_rs fmt_v one_job) (fresh_system (length one_job) ([], [])) [] one_start"
  "0 < length one_job" "one_job ! 0 = (w_cache (ref_worlds (request_backend (snd (hd one_job)))), snd (hd one_job))"
  "sy_hist one_start ! 0 = []" "\<not> sy_ended one_start ! 0" "conn_free (Some 2) ((sy_tx one_start)[0 := True])"
  "w_db (ref_worlds (request_backend (snd (hd one_job)))) = sy_db one_start"
  by (simp_all add: one_job_def ref_rs_def counting_impl_def crud_New_def no_cache_alike ref_worlds_def small_world_def
      one_start_def fresh_system_def conn_free_def im_db_def DB_def)

section \<open>Properties\<close>

text \<open>C7: Permissions hold under concurrency: whatever requests of a backend run at the same time and
  however their database calls interleave, the database only gets calls that the permissions of the
  backend allow, the rollbacks at the end of their contexts included.\<close>

theorem concurrent_calls_are_permitted:
  assumes "opened rs" "cache_usable cache" "list_all (\<lambda>(c, req). request_backend req = be) jobs"
    and "scheduled drv mx (processes cache rs enc jobs) (fresh_system (length jobs) d) ps s"
  shows "list_all (\<lambda>(p, call, reply). may_add rs be call) (sy_log s)"
proof -
  note inv = schedule_inv [OF assms(1,2,4)]
  have "may_add rs be call" if "(p, call, x) \<in> set (sy_log s)" for p call x
  proof -
    let ?run = "processes cache rs enc jobs ! p"
    have p: "p < length jobs" using inv that by (fastforce simp: system_inv_def)
    then have "request_backend (snd (jobs ! p)) = be" using assms(3) by (auto simp: list_all_length split_def)
    then have ok: "list_all (may_add rs be) (snd (?run h))" for h
      using request_run_permitted [OF lawful_over_replies [OF assms(2), of rs], of "snd (jobs ! p)" enc "fst (jobs ! p)" h] p
      by (simp add: nth_processes)
    have zipped: "may_add rs be cl" if "(cl, y) \<in> set (zip (snd (?run h)) h)" for cl y h
      using ok [of h] that by (auto simp: list_all_iff dest: set_zip_leftD)
    have "(call, x) \<in> set (own p (sy_log s))" using that by (force simp: own_def)
    moreover have "process_inv ?run (sy_hist s ! p) (sy_tx s ! p) (sy_ended s ! p) (own p (sy_log s))"
      using system_inv_process [OF inv] p by simp
    ultimately show ?thesis using zipped open_began [of "zip (snd (?run (sy_hist s ! p))) (sy_hist s ! p)"]
      by (fastforce simp: process_inv_def may_add_rollback split: if_splits)
  qed
  then show ?thesis by (auto simp: list_all_iff)
qed

theorem concurrent_calls_are_permitted_witness:
  "\<exists>s. scheduled (\<lambda>p. small_driver) (Some 2) (processes table_cache table_rs fmt_v two_jobs) (fresh_system (length two_jobs) ([], [])) [0, 1] s \<and>
     sy_log s = [(0, CBegin, RDone None), (1, CBegin, RDone None)] \<and>
     list_all (\<lambda>(p, call, reply). may_add table_rs ''main'' call) (sy_log s)"
proof -
  obtain d' where run: "scheduled (\<lambda>p. small_driver) (Some 2) (processes table_cache table_rs fmt_v two_jobs)
      (fresh_system (length two_jobs) ([], [])) [0, 1] (begun_system 2 2 d')" using two_begun by blast
  have "list_all (\<lambda>(c, req). request_backend req = ''main'') two_jobs" by (simp add: two_jobs_def two_inserts_def insert_many_def)
  from concurrent_calls_are_permitted [OF table_rs_facts(1) table_usable this run] run show ?thesis
    by (intro exI conjI) (assumption | simp add: begun_system_def upt_rec)+
qed

text \<open>C11: Transactions belong to running requests: under every schedule the number of transactions that
  are open at the database (begun with success, neither committed nor rolled back) never exceeds the
  number of requests still running, so that none is left when all have ended; and with a limit on the
  connections of the pool there are never more open transactions than connections.\<close>

theorem open_transactions_belong_to_requests:
  assumes "opened rs" "cache_usable cache"
    and "scheduled drv mx (processes cache rs enc jobs) (fresh_system (length jobs) d) ps s"
  shows "0 \<le> db_open (sy_log s) \<and> db_open (sy_log s) \<le> int (length (filter (\<lambda>e. \<not> e) (sy_ended s))) \<and>
    (case mx of Some n \<Rightarrow> 0 < n \<longrightarrow> db_open (sy_log s) \<le> n | None \<Rightarrow> True)"
proof -
  note inv = schedule_inv [OF assms]
  have pool: "db_open (sy_log s) = int (count_true (sy_tx s))" "\<And>n. mx = Some n \<Longrightarrow> 0 < n \<Longrightarrow> int (count_true (sy_tx s)) \<le> n"
    using schedule_pool [OF assms(3,1,2)] by (simp_all add: pool_inv_def)
  have len: "length (sy_tx s) = length jobs" "length (sy_ended s) = length jobs" using inv by (simp_all add: system_inv_def)
  have "count_true (sy_tx s) \<le> length (filter (\<lambda>e. \<not> e) (sy_ended s))"
    by (rule count_true_le) (use len ended_no_tx [OF inv] in auto)
  with pool show ?thesis by (simp split: option.split)
qed

theorem open_transactions_belong_to_requests_witness:
  "\<exists>s. scheduled (\<lambda>p. small_driver) (Some 2) (processes table_cache table_rs fmt_v two_jobs) (fresh_system (length two_jobs) ([], [])) [0, 1] s \<and>
     db_open (sy_log s) = 2 \<and> db_open (sy_log s) \<le> int (length (filter (\<lambda>e. \<not> e) (sy_ended s)))"
proof -
  obtain d' where run: "scheduled (\<lambda>p. small_driver) (Some 2) (processes table_cache table_rs fmt_v two_jobs)
      (fresh_system (length two_jobs) ([], [])) [0, 1] (begun_system 2 2 d')" using two_begun by blast
  have "db_open (sy_log (begun_system 2 2 d')) = 2" by (simp add: begun_system_def upt_rec db_open_def)
  with open_transactions_belong_to_requests [OF table_rs_facts(1) table_usable run] run show ?thesis by blast
qed

text \<open>C14: Every schedule ends: requests that run at the same time take no more turns together than the
  sum of their calls and one each to end. The calls of a request are bounded by a constant, those of a
  bulk request by twice the number of its objects and two.\<close>

theorem schedules_end:
  assumes "opened rs" "cache_usable cache"
    and "scheduled drv mx (processes cache rs enc jobs) (fresh_system (length jobs) d) ps s"
  shows "length ps \<le> sum_list (map (\<lambda>(c, req). max_calls enc req + 1) jobs)"
proof -
  note inv = schedule_inv [OF assms]
  have turns: "length ps = sum_list (map length (sy_hist s)) + count_true (sy_ended s)"
    using schedule_turns [of drv mx "processes cache rs enc jobs" d ps s] assms(3) by simp
  have len: "length (sy_hist s) = length jobs" "length (sy_ended s) = length jobs" using inv by (simp_all add: system_inv_def)
  have "length (sy_hist s ! p) \<le> max_calls enc (snd (jobs ! p))" if p: "p < length jobs" for p
  proof -
    have "asked (processes cache rs enc jobs ! p) (sy_hist s ! p)"
      using system_inv_process [OF inv] p by (simp add: process_inv_def)
    then have "length (sy_hist s ! p) \<le> length (snd (request_run (over_replies cache rs) enc (fst (jobs ! p)) (snd (jobs ! p)) (sy_hist s ! p)))"
      using p by (simp add: asked_def nth_processes)
    also have "\<dots> \<le> max_calls enc (snd (jobs ! p))" by (rule request_run_bound [OF assms(2)])
    finally show ?thesis .
  qed
  then have "list_all2 (\<le>) (map length (sy_hist s)) (map (\<lambda>(c, req). max_calls enc req) jobs)"
    using len by (simp add: list_all2_conv_all_nth split_def)
  then have "sum_list (map length (sy_hist s)) \<le> sum_list (map (\<lambda>(c, req). max_calls enc req) jobs)"
    by (rule sum_list_le)
  moreover have "count_true (sy_ended s) \<le> length jobs" using len(2) by (simp add: count_true_def) (metis length_filter_le)
  moreover have "sum_list (map (\<lambda>(c, req). max_calls enc req + 1) jobs) =
      sum_list (map (\<lambda>(c, req). max_calls enc req) jobs) + length jobs"
    by (induction jobs) auto
  ultimately show ?thesis using turns by linarith
qed

theorem schedules_end_witness:
  "length [0, 1::nat] \<le> sum_list (map (\<lambda>(c, req). max_calls fmt_v req + 1) two_jobs)"
proof -
  obtain d' where run: "scheduled (\<lambda>p. small_driver) (Some 2) (processes table_cache table_rs fmt_v two_jobs)
      (fresh_system (length two_jobs) ([], [])) [0, 1] (begun_system 2 2 d')" using two_begun by blast
  show ?thesis by (rule schedules_end [OF table_rs_facts(1) table_usable run])
qed

text \<open>C13: With enough connections nobody waits for ever: when the pool has more connections than there are
  bulk requests, or no limit, and no request can take a turn, then all have ended. Only bulk requests
  keep a connection between their calls.\<close>

theorem enough_connections_no_deadlock:
  assumes "opened rs" "cache_usable cache"
    and "scheduled drv mx (processes cache rs enc jobs) (fresh_system (length jobs) d) ps s"
    and "case mx of None \<Rightarrow> True | Some n \<Rightarrow> n \<le> 0 \<or> int (length (filter (\<lambda>(c, req). is_bulk req) jobs)) < n"
    and "\<And>p. turn drv mx (processes cache rs enc jobs) p s = None"
  shows "list_all (\<lambda>e. e) (sy_ended s)"
proof -
  note inv = schedule_inv [OF assms(1-3)]
  have len: "length (sy_tx s) = length jobs" "length (sy_ended s) = length jobs" using inv by (simp_all add: system_inv_def)
  have "is_bulk (snd (jobs ! p))" if "p < length jobs" "sy_tx s ! p" for p
  proof (rule ccontr)
    assume "\<not> is_bulk (snd (jobs ! p))"
    then have "list_all direct (snd ((processes cache rs enc jobs ! p) (sy_hist s ! p)))"
      using request_run_direct [OF assms(2)] that(1) by (simp add: nth_processes)
    then have "\<not> tx_run (zip (snd ((processes cache rs enc jobs ! p) (sy_hist s ! p))) (sy_hist s ! p))"
      by (rule tx_run_direct)
    moreover have "\<not> sy_ended s ! p" using ended_no_tx [OF inv] that by auto
    ultimately show False using system_inv_process [OF inv, of p] that by (auto simp: process_inv_def)
  qed
  then have "count_true (sy_tx s) \<le> length (filter (\<lambda>(c, req). is_bulk req) jobs)"
    using len(1) by (intro count_true_le) (auto simp: split_def)
  then have free: "conn_free mx (sy_tx s)"
    using assms(4) by (auto simp: conn_free_def count_true_def split: option.splits)
  have "sy_ended s ! p" if p: "p < length jobs" for p
  proof (rule ccontr)
    assume "\<not> sy_ended s ! p"
    with assms(5) [of p] p free show False
      by (auto simp: turn_def split: option.splits prod.splits if_splits)
  qed
  with len show ?thesis by (simp add: list_all_length)
qed

theorem enough_connections_no_deadlock_witness:
  "\<exists>ps s. scheduled (\<lambda>p. counting_driver) (Some 2) (processes no_cache ref_rs fmt_v one_job) (fresh_system (length one_job) ([], [])) ps s \<and>
     ps \<noteq> [] \<and> list_all (\<lambda>e. e) (sy_ended s)"
proof -
  obtain r ws' where serve: "serve ref_rs fmt_v (snd (hd one_job)) ref_worlds = (r, ws')" by fastforce
  obtain k s' where run: "scheduled (\<lambda>p. counting_driver) (Some 2) (processes no_cache ref_rs fmt_v one_job)
      (fresh_system (length one_job) ([], [])) (replicate (Suc k) 0) s'"
    and ended: "sy_ended s' = (sy_ended one_start)[0 := True]"
    using undisturbed_run [OF ref_opened no_cache_usable one_job_facts serve] unfolding one_start_def by blast
  have "sy_ended s' = [True]" using ended by (simp add: one_start_def fresh_system_def one_job_def)
  then have "turn (\<lambda>p. counting_driver) (Some 2) (processes no_cache ref_rs fmt_v one_job) p s' = None" for p
    by (cases "p = 0") (simp_all add: turn_def one_job_def)
  from enough_connections_no_deadlock [OF ref_opened no_cache_usable run _ this]
  have "list_all (\<lambda>e. e) (sy_ended s')" by (simp add: one_job_def)
  with run show ?thesis by (metis Zero_not_Suc length_0_conv length_replicate)
qed

text \<open>C12: A deadlock: when a backend allows \<open>n\<close> connections and \<open>n\<close> bulk inserts arrive at the same time,
  for an entity whose columns are not in the metadata cache, they can all begin their transactions, and
  then none can go on: each asks for the columns with a query outside its transaction, which needs one
  more connection. The query has no context, so that they wait until their clients give up. With one
  connection a single bulk insert is enough.\<close>

theorem bulk_inserts_deadlock:
  assumes "opened rs" "map_of (sv_crudMap rs) be = Some b" "srv_IdColumn rs be ent = Returns idc'"
    and "be_Create (im_config b) = Some True" "IdColumn (im_config b) ent = Returns idc"
    and "be_MaxOpenConnections (im_config b) = Some (int (length jobs))" "jobs \<noteq> []"
    and "\<And>p d. fst (drv_Begin (drv p) d) = None"
    and "list_all (\<lambda>(c, objs). cache_misses cache ent c \<and> objs \<noteq> [] \<and> list_all row_ok objs) jobs"
    and "procs = processes cache rs enc (map (\<lambda>(c, objs). (c, insert_many be ent objs)) jobs)"
  shows "\<exists>ps s. scheduled drv (be_MaxOpenConnections (im_config b)) procs (fresh_system (length jobs) d) ps s \<and>
    (\<forall>p. turn drv (be_MaxOpenConnections (im_config b)) procs p s = None) \<and> sy_ended s = replicate (length jobs) False"
proof -
  let ?n = "length jobs"
  have len: "length procs = ?n" by (simp add: assms(10))
  have "next_call (procs ! p) [] = Some CBegin"
    "next_call (procs ! p) [RDone None] = Some (CQuery (createSingleSelectQuery ent idc) [VStr ''0''])" if p: "p < ?n" for p
  proof -
    obtain c objs where j: "jobs ! p = (c, objs)" by fastforce
    then have "cache_misses cache ent c" "objs \<noteq> []" "list_all row_ok objs" using assms(9) p by (auto simp: list_all_length)
    note insert_many_calls [OF assms(1-3) this(3) assms(4,5) this(1,2)]
    moreover have "procs ! p = request_run (over_replies cache rs) enc c (insert_many be ent objs)"
      using p j by (simp add: assms(10) processes_def)
    ultimately show "next_call (procs ! p) [] = Some CBegin"
      "next_call (procs ! p) [RDone None] = Some (CQuery (createSingleSelectQuery ent idc) [VStr ''0''])" by simp_all
  qed
  note calls = this
  obtain d' where run: "scheduled drv (Some (int ?n)) procs (fresh_system ?n d) [0..<?n] (begun_system ?n ?n d')"
    using begin_all [where drv = drv and procs = procs and d = d, OF len calls(1) assms(8) le_refl] by blast
  have "\<forall>p. turn drv (Some (int ?n)) procs p (begun_system ?n ?n d') = None"
    by (intro allI begun_stuck [OF len _ calls(2)]) (use assms(7) in auto)
  with run show ?thesis unfolding assms(6) by (intro exI conjI) (auto simp: begun_system_def)
qed

theorem bulk_inserts_deadlock_witness:
  "\<exists>ps s. scheduled (\<lambda>p. small_driver) (Some 2) (processes table_cache table_rs fmt_v two_jobs) (fresh_system 2 ([], [])) ps s \<and>
     (\<forall>p. turn (\<lambda>p. small_driver) (Some 2) (processes table_cache table_rs fmt_v two_jobs) p s = None) \<and> sy_ended s = [False, False]"
proof -
  have len: "length two_inserts = 2" "two_inserts \<noteq> []" by (simp_all add: two_inserts_def)
  from bulk_inserts_deadlock [where drv = "\<lambda>p. small_driver" and d = "([], [])" and jobs = two_inserts,
      OF table_rs_facts(1-5) _ len(2) small_begins two_inserts_facts refl]
  show ?thesis unfolding two_jobs_def table_rs_facts(6) len by (simp add: numeral_2_eq_2)
qed

text \<open>C15: A request that is not disturbed does what the handler does: from any state of a schedule in which
  it has not begun and two connections are free, it takes its turns one after the other, ends as
  \<^verbatim>\<open>serve\<close> does on the database of that state (value or panic), and leaves the database as \<^verbatim>\<open>serve\<close> and
  the end of the request's context do.\<close>

theorem undisturbed_request_is_serve:
  assumes "opened rs" "cache_usable cache"
    and "map_of (sv_crudMap rs) (request_backend req) = Some b" "im_db b = Some (drv p)"
      "caches_alike (drv p) (im_mdCache b) cache"
    and "scheduled drv mx (processes cache rs enc jobs) (fresh_system (length jobs) d) ps s"
    and "p < length jobs" "jobs ! p = (w_cache (ws (request_backend req)), req)" "sy_hist s ! p = []" "\<not> sy_ended s ! p"
      "conn_free mx ((sy_tx s)[p := True])"
    and "w_db (ws (request_backend req)) = sy_db s" "serve rs enc req ws = (r, ws')"
  shows "\<exists>k s'. scheduled drv mx (processes cache rs enc jobs) s (replicate k p) s' \<and> sy_ended s' ! p \<and>
    fst ((processes cache rs enc jobs ! p) (sy_hist s' ! p)) = r \<and>
    sy_db s' = w_db (context_done rs (undone rs ws ws') ws' (request_backend req))"
proof -
  let ?be = "request_backend req"
  obtain cs xs s' where s': "scheduled drv mx (processes cache rs enc jobs) s (replicate (Suc (length cs)) p) s'"
    "sy_ended s' ! p" "fst ((processes cache rs enc jobs ! p) (sy_hist s' ! p)) = r"
    and db: "w_calls (ws' ?be) = w_calls (ws ?be) @ cs" "xs = fst (performs (drv p) cs (sy_db s))"
    "sy_db s' = (if tx_run (zip cs xs) then snd (drv_Rollback (drv p) (w_db (ws' ?be))) else w_db (ws' ?be))"
    using undisturbed_run [OF assms] by blast
  have "?be \<in> set (undone rs ws ws') \<longleftrightarrow> tx_run (zip cs xs)"
    using assms(3,4,12) db(1,2) by (simp add: undone_iff left_open_def)
  then have "w_db (context_done rs (undone rs ws ws') ws' ?be) = sy_db s'"
    using db(3) assms(3,4) by (simp add: context_done_def tx_Rollback_def on_db_def db_call_def split: prod.split)
  with s' show ?thesis by metis
qed

theorem undisturbed_request_is_serve_witness:
  "\<exists>k s'. scheduled (\<lambda>p. counting_driver) (Some 2) (processes no_cache ref_rs fmt_v one_job) one_start (replicate k 0) s' \<and>
     sy_db s' = (case serve ref_rs fmt_v (snd (hd one_job)) ref_worlds of
       (r, ws') \<Rightarrow> w_db (context_done ref_rs (undone ref_rs ref_worlds ws') ws' ''main''))"
proof -
  obtain r ws' where serve: "serve ref_rs fmt_v (snd (hd one_job)) ref_worlds = (r, ws')" by fastforce
  have "request_backend (snd (hd one_job)) = ''main''" by (simp add: one_job_def)
  with undisturbed_request_is_serve [OF ref_opened no_cache_usable one_job_facts serve] serve show ?thesis by auto
qed

end
