(* ===== verification/Metrics.thy ===== *)
theory Metrics
  imports Wire_Properties
begin

text \<open>
  What the metrics of a running server record: the callback that \<^verbatim>\<open>Run\<close> of \<^verbatim>\<open>pkg/server/server.go\<close>
  gives to the interceptor, on the requests of the API.
\<close>

section \<open>Labels\<close>

lemma telemetry_labels_api:
  assumes "list_all (\<lambda>s. CHR ''/'' \<notin> set s) ds" "ds \<noteq> []"
  shows "telemetry_labels (join_path psegs) (join_path (psegs @ ds)) =
    (case ds of d0 # d1 # rest \<Rightarrow> Some (d0, d1) | _ \<Rightarrow> None)"
proof -
  obtain d ds' where ds: "ds = d # ds'" using assms(2) by (cases ds) auto
  have "split_on (CHR ''/'') (d @ join_path ds') = d # ds'"
    using assms(1) by (intro split_join_path) (simp_all add: ds list_all_iff)
  then show ?thesis
    by (simp add: telemetry_labels_def ds split: list.split)
qed

section \<open>What is recorded\<close>

text \<open>A metric of a finished exchange: its labels and the recorded number.\<close>

definition api_metrics :: "string list \<Rightarrow> http_request \<Rightarrow> int \<Rightarrow> int \<Rightarrow> int \<Rightarrow> metric list" where
  "api_metrics labels r duration written received =
     [HttpDuration labels duration] @ (if received > 0 then [HttpRequestBytes labels received] else []) @
     [HttpResponseBytes labels written]"

text \<open>C40: Requests below a backend are counted under the names of the backend and of the entity (or
  \<^verbatim>\<open>entities\<close>, or \<^verbatim>\<open>_query\<close>), the method and the status, with the bytes of both bodies; the
  recorded duration, however, is never positive, because the clock is read only after the request and
  subtracted in the wrong order. Requests to the routes with one segment leave no trace.\<close>

theorem metrics_of_requests:
  assumes "list_all (\<lambda>s. CHR ''/'' \<notin> set s) ds" "request_path r = join_path (psegs @ ds)" "start \<le> now"
  shows "metrics_filter (join_path psegs) r \<and>
    (case ds of
       be # ent # rest \<Rightarrow> \<exists>d \<le> 0.
         metrics_callback (join_path psegs) (start, now) \<lparr>ir_Request = r, ir_Status = st, ir_Written = n\<rparr> =
           api_metrics [be, ent, rq_Method r, dec_int st] r d n (content_length r)
     | [only] \<Rightarrow>
         metrics_callback (join_path psegs) (start, now) \<lparr>ir_Request = r, ir_Status = st, ir_Written = n\<rparr> = []
     | [] \<Rightarrow> True)"
proof (cases ds)
  case (Cons d ds')
  then have "telemetry_labels (join_path psegs) (request_path r) =
      (case ds of d0 # d1 # rest \<Rightarrow> Some (d0, d1) | _ \<Rightarrow> None)"
    unfolding assms(2) by (intro telemetry_labels_api [OF assms(1)]) simp
  then show ?thesis
    using assms(2,3) Cons
    by (auto simp: metrics_callback_def metrics_filter_def api_metrics_def Let_def split: list.split
        intro!: exI [of _ "start - now"])
qed (simp add: metrics_filter_def assms(2))

definition sample_request :: http_request where
  "sample_request = wire_request ''GET'' ''http'' ''localhost'' [''api'', ''v1'', ''main'', ''t''] [] None None"

theorem metrics_of_requests_witness:
  "\<exists>d \<le> 0. metrics_callback ''/api/v1'' (7, 9) \<lparr>ir_Request = sample_request, ir_Status = 200, ir_Written = 5\<rparr> =
     [HttpDuration [''main'', ''t'', ''GET'', ''200''] d, HttpResponseBytes [''main'', ''t'', ''GET'', ''200''] 5]"
proof -
  have path: "request_path sample_request = join_path ([''api'', ''v1''] @ [''main'', ''t''])"
    using request_path_segs [of "[''api'', ''v1'']" "[''main'', ''t'']" "[''main'', ''t'']" "''GET''" "''http''" "''localhost''" "[]" None None]
    by (simp add: sample_request_def prefix_ok_def unreserved_def unescape_plain del: join_path_simps)
  have st: "dec_int 200 = ''200''" by code_simp
  have "content_length sample_request = 0" "rq_Method sample_request = ''GET''"
    by (simp_all add: content_length_def sample_request_def wire_request_def)
  with metrics_of_requests [OF _ path, of 7 9 200 5] st show ?thesis by (simp add: api_metrics_def)
qed

end
