(* ===== verification/Typed_Properties.thy ===== *)
theory Typed_Properties
  imports Wire_Properties
begin

text \<open>
  The writing operations and named queries of the typed client, against the server.
\<close>

section \<open>Update and delete\<close>

text \<open>C19: \<^verbatim>\<open>Update\<close> end to end: the server looks the item up first and answers 404 with its message
  when there is none, without writing; otherwise its \<^verbatim>\<open>Update\<close> gets the encoded item without the
  read-only properties, in its JSON form, and the client decodes the row that was stored. A failure
  arrives as an error with the mapped status, but one mapped to 404 or 202 makes the client panic.\<close>

theorem update_end_to_end:
  assumes "connected style sniff enc rs c" "json_sender (sv_send rs)" "sniff_lawful sniff"
    and "name_ok (g_be g)" "name_ok (g_ent g)" "name_ok oid" "map_of (sv_crudMap rs) (g_be g) = Some b"
    and "g_encFn g t = Inr m" "row_ok (excludeProps m (g_roProps g))"
    and "exists_update b (g_ent g) oid (dto_wire enc (excludeProps m (g_roProps g))) (ws (g_be g)) = (r, w')"
    and "\<And>row. r = Returns (Inr (Some (Some row))) \<Longrightarrow> row_ok row"
  shows "client_Update (api_transport style enc c) g oid t ws =
    ((case r of
        Panics msg \<Rightarrow> Returns (Inl (PlainError ''EOF''))
      | Returns (Inl e) \<Rightarrow>
          (if error_code 500 e \<in> {202, 404} then Panics nil_deref
           else Returns (Inl (unexpected (error_code 500 e))))
      | Returns (Inr None) \<Rightarrow> Returns (Inl (ErrorWithStatus 404 (not_found_msg (g_ent g) oid) None))
      | Returns (Inr (Some res)) \<Rightarrow> Returns (g_decFn g (dto_back enc res))), ws(g_be g := w'))"
proof -
  have rt: "routable (ReqUpdateItemById (g_be g) (g_ent g) oid (excludeProps m (g_roProps g)))" using assms(4-6) by simp
  have "serve rs enc (ReqUpdateItemById (g_be g) (g_ent g) oid (excludeProps m (g_roProps g))) =
      served (exists_update b (g_ent g) oid (dto_wire enc (excludeProps m (g_roProps g)))) (update_reply rs (g_ent g) oid) (g_be g)"
    using served_update [OF assms(7,9)] by simp
  from update_op.end_to_end [where ws = ws, OF assms(1-3,8) rt this assms(10)] assms(11) show ?thesis
    by (auto split: outcome.splits sum.splits option.splits)
qed

lemma ref_item:
  "name_ok (g_be ref_generic)" "name_ok (g_ent ref_generic)" "name_ok ''1''"
  "map_of (sv_crudMap ref_rs) (g_be ref_generic) = Some counting_impl"
  "g_encFn ref_generic [(''n'', VStr ''x'')] = Inr [(''n'', VStr ''x'')]"
  "row_ok (excludeProps [(''n'', VStr ''x'')] (g_roProps ref_generic))"
  "dto_wire fmt_v (excludeProps [(''n'', VStr ''x'')] (g_roProps ref_generic)) = [(''n'', VStr ''x'')]"
  using ref_laws(3) by (simp_all add: name_ok_def row_ok_def excludeProps_def dto_wire_def)

theorem update_end_to_end_witness:
  "fst (client_Update (api_transport ref_style fmt_v ref_client) ref_generic ''1'' [(''n'', VStr ''x'')] ref_worlds) =
     Returns (Inr [(''n'', VStr ''3'')])"
proof -
  have "fst (exists_update counting_impl ''t'' ''1'' [(''n'', VStr ''x'')] small_world) =
      Returns (Inr (Some (Some [(''n'', VStr ''3'')])))" by code_simp
  then obtain w' where "exists_update counting_impl ''t'' ''1'' [(''n'', VStr ''x'')] small_world =
      (Returns (Inr (Some (Some [(''n'', VStr ''3'')]))), w')"
    by (metis prod.collapse)
  then have up: "exists_update counting_impl (g_ent ref_generic) ''1''
      (dto_wire fmt_v (excludeProps [(''n'', VStr ''x'')] (g_roProps ref_generic))) (ref_worlds (g_be ref_generic)) =
      (Returns (Inr (Some (Some [(''n'', VStr ''3'')]))), w')"
    unfolding ref_item(7) by (simp add: ref_worlds_def)
  have "row_ok row" if "Returns (Inr (Some (Some [(''n'', VStr ''3'')]))) =
      Returns (Inr (Some (Some row)) :: goerr + gmap option option)" for row
    using that by (auto simp: row_ok_def)
  from update_end_to_end [where ws = ref_worlds, OF ref_connected ref_laws(1,2) ref_item(1-6) up this]
  show ?thesis by (simp add: dto_back_def dto_wire_def)
qed

text \<open>C20: \<^verbatim>\<open>Delete\<close> end to end: it succeeds exactly when the server's \<^verbatim>\<open>Delete\<close> does (whether or not
  there was such a row); a failure arrives as an error with the mapped status. It never panics.\<close>

theorem delete_end_to_end:
  assumes "connected style sniff enc rs c" "json_sender (sv_send rs)" "sniff_lawful sniff"
    and "name_ok (g_be g)" "name_ok (g_ent g)" "name_ok oid" "map_of (sv_crudMap rs) (g_be g) = Some b"
    and "Delete b (g_ent g) oid (ws (g_be g)) = (r, w')"
  shows "client_Delete (api_transport style enc c) g oid ws =
    (Returns (case r of
        Panics msg \<Rightarrow> Some (PlainError ''EOF'')
      | Returns None \<Rightarrow> None
      | Returns (Some e) \<Rightarrow> (if error_code 500 e = 204 then None else Some (unexpected (error_code 500 e)))),
     ws(g_be g := w'))"
proof -
  have rt: "routable (ReqDeleteItemById (g_be g) (g_ent g) oid)" using assms(4-6) by simp
  have "serve rs enc (ReqDeleteItemById (g_be g) (g_ent g) oid) =
      served (Delete b (g_ent g) oid) (delete_reply rs) (g_be g)"
    using served_delete [OF assms(7)] by simp
  from delete_op.end_to_end [where ws = ws, OF assms(1-3) TrueI rt this assms(8) TrueI] show ?thesis
    by (auto split: outcome.splits)
qed

theorem delete_end_to_end_witness:
  "fst (client_Delete (api_transport ref_style fmt_v ref_client) ref_generic ''1'' ref_worlds) = Returns None"
proof -
  have "fst (Delete counting_impl ''t'' ''1'' small_world) = Returns None" by code_simp
  then obtain w' where "Delete counting_impl (g_ent ref_generic) ''1'' (ref_worlds (g_be ref_generic)) = (Returns None, w')"
    by (metis prod.collapse ref_generic_fields(2) ref_worlds_def)
  from delete_end_to_end [where ws = ref_worlds, OF ref_connected ref_laws(1,2) ref_item(1-4) this]
  show ?thesis by simp
qed

section \<open>Bulk updates\<close>

text \<open>C21: \<^verbatim>\<open>BulkUpdate\<close> end to end: the server runs the operation of the mode on the encoded items, in
  their JSON form and order, and the client reports success exactly when the operation succeeds (or
  its error is mapped to 200). Every reported failure has status 200, and a panic of the server (an
  UPDATE of items with numeric ids) is seen as a broken connection.\<close>

theorem bulk_end_to_end:
  assumes "connected style sniff enc rs c" "json_sender (sv_send rs)" "sniff_lawful sniff"
    and "name_ok (g_be g)" "name_ok (g_ent g)" "map_of (sv_crudMap rs) (g_be g) = Some b"
    and "srv_IdColumn rs (g_be g) (g_ent g) = Returns idc"
    and "encode_objs g mode objs [] = Inr ms" "list_all row_ok ms"
    and "bulk_run b (g_ent g) idc mode (map (dto_wire enc) ms) (ws (g_be g)) = (r, w')"
  shows "\<exists>msg. client_BulkUpdate (api_transport style enc c) g objs mode ws =
    (Returns (case r of
        Panics m \<Rightarrow> Some (PlainError ''EOF'')
      | Returns None \<Rightarrow> None
      | Returns (Some e) \<Rightarrow> (if error_code 500 e = 200 then None else Some (ErrorWithStatus 200 msg None))),
     ws(g_be g := w'))"
proof -
  have rt: "routable (ReqBulkUpdate (g_be g) (g_ent g) \<lparr>bu_Mode = mode, bu_Objects = ms\<rparr>)" using assms(4,5) by simp
  have "serve rs enc (ReqBulkUpdate (g_be g) (g_ent g) \<lparr>bu_Mode = mode, bu_Objects = ms\<rparr>) =
      served (bulk_run b (g_ent g) idc mode (map (dto_wire enc) ms)) (bulk_reply rs) (g_be g)"
    using served_bulk [OF assms(6,7), of "\<lparr>bu_Mode = mode, bu_Objects = ms\<rparr>" enc] assms(9) by simp
  from bulk_op.end_to_end [where ws = ws, OF assms(1-3,8) rt this assms(10) TrueI] show ?thesis
    by (cases r; cases "case r of Returns x \<Rightarrow> x | _ \<Rightarrow> None") (auto split: if_splits)
qed

theorem bulk_end_to_end_witness:
  "fst (client_BulkUpdate (api_transport ref_style fmt_v ref_client) ref_generic [[(''n'', VStr ''x'')]] ''INSERT'' ref_worlds) =
     Returns None"
proof -
  have "fst (MultiCreate counting_impl ''t'' False [[(''n'', VStr ''x'')]] small_world) = Returns None" by code_simp
  then obtain w' where mc: "MultiCreate counting_impl ''t'' False [[(''n'', VStr ''x'')]] small_world = (Returns None, w')"
    by (metis prod.collapse)
  have wire: "dto_wire fmt_v [(''n'', VStr ''x'')] = [(''n'', VStr ''x'')]" by (simp add: dto_wire_def)
  have run: "bulk_run counting_impl (g_ent ref_generic) ''id'' ''INSERT'' (map (dto_wire fmt_v) [[(''n'', VStr ''x'')]])
      (ref_worlds (g_be ref_generic)) = (Returns None, w')"
    unfolding list.map wire using mc by (simp add: bulk_run_def ref_worlds_def)
  have idc: "srv_IdColumn ref_rs (g_be ref_generic) (g_ent ref_generic) = Returns ''id''"
    by (simp add: srv_IdColumn_def ref_rs_def small_backend_def IdColumn_def)
  have enc: "encode_objs ref_generic ''INSERT'' [[(''n'', VStr ''x'')]] [] = Inr [[(''n'', VStr ''x'')]]"
    by (simp add: excludeProps_def)
  have "list_all row_ok [[(''n'', VStr ''x'')]]" by (simp add: row_ok_def)
  from bulk_end_to_end [where ws = ref_worlds, OF ref_connected ref_laws(1,2) ref_item(1,2,4) idc enc this run]
  show ?thesis by auto
qed

section \<open>Named queries\<close>

text \<open>C22: \<^verbatim>\<open>Query\<close> end to end: the arguments and the page (the default page when the query has none) reach
  the server's \<^verbatim>\<open>QueryNamed\<close> unchanged, except that a query without arguments arrives with one empty
  argument; the client returns the page it answers, in its JSON form. An unknown query, which the server
  reports with status 404 and a text, makes the client panic; a failure that the server answers with
  status 200 is returned as a nil result without an error. A nil query panics before anything is sent.\<close>

theorem query_end_to_end:
  assumes "connected style sniff enc rs c" "json_sender (sv_send rs)" "sniff_lawful sniff"
    and "name_ok (g_be g)" "name_ok name" "map_of (sv_crudMap rs) (g_be g) = Some b" "int_ok (page_size (query_page q))"
    and "QueryNamed b name (Some (paged_only (query_page q))) (map VStr (if args = [] then [[]] else args)) (ws (g_be g)) = (r, w')"
    and "\<And>pr. r = Returns (Inr pr) \<Longrightarrow> page_ok pr"
  shows "client_Query (api_transport style enc c) g name (Some q) args ws =
    ((case r of
        Panics m \<Rightarrow> Returns (Inl (PlainError ''EOF''))
      | Returns (Inl e) \<Rightarrow>
          (if error_code 500 e = 404 then Panics nil_deref
           else if error_code 500 e = 200 then Returns (Inr None)
           else Returns (Inl (unexpected (error_code 500 e))))
      | Returns (Inr pr) \<Rightarrow> Returns (Inr (Some (page_wire enc pr)))), ws(g_be g := w')) \<and>
    client_Query (api_transport style enc c) g name None args ws = (Panics nil_deref, ws)"
proof -
  let ?p = "query_page q" and ?args = "if args = [] then [[]] else args"
  have "int_ok (sint (page_offset ?p))"
    using sint_greater_eq [of "page_offset ?p"] sint_less [of "page_offset ?p"] by (simp add: int_ok_def)
  then have ints: "opt_int_ok (qn_PageOffset (named_params ?p args))" "opt_int_ok (qn_PageSize (named_params ?p args))"
    using assms(7) by (simp_all add: named_params_def opt_int_ok_def)
  have "arrived (named_params ?p args) = named_params ?p ?args"
    by (simp add: arrived_def named_params_def sent_def)
  then have "api_transport style enc c (ReqQueryNamed (g_be g) name (named_params ?p args)) =
      answer sniff enc ''GET'' (served (QueryNamed b name (Some (paged_only ?p)) (map VStr ?args)) (list_reply rs) (g_be g))"
    using connected_query_answer [OF assms(1,4,5) ints] served_query [OF assms(6)] by simp
  then have at: "api_transport style enc c (ReqQueryNamed (g_be g) name (named_params ?p args)) =
      answer sniff enc (request_method (ReqQueryNamed (g_be g) name (named_params ?p args)))
        (served (QueryNamed b name (Some (paged_only ?p)) (map VStr ?args)) (list_reply rs) (g_be g))"
    by simp
  have none: "client_Query (api_transport style enc c) g name None args ws = (Panics nil_deref, ws)"
    by (simp add: client_Query_def plift_def pbind_def deref_def)
  from query_op.end_to_end_at [where ws = ws, OF at assms(2,3) refl assms(8)] assms(9) none show ?thesis
    by (auto split: outcome.splits sum.splits)
qed

text \<open>The reference backend has no saved queries.\<close>

theorem query_end_to_end_witness:
  "fst (client_Query (api_transport ref_style fmt_v ref_client) ref_generic ''top'' (Some \<lparr>qry_orders = [], qry_paging = None,
     qry_filter = NilE\<rparr>) [] ref_worlds) = Panics nil_deref"
proof -
  let ?e = "NewErrorWithStatus (''no such query: '' @ ''top'') StatusNotFound"
  let ?q = "\<lparr>qry_orders = [], qry_paging = None, qry_filter = NilE\<rparr>"
  have qs: "be_Queries (im_config counting_impl) = []"
    by (simp add: counting_impl_def crud_New_def small_backend_def)
  have r: "QueryNamed counting_impl ''top'' (Some (paged_only (query_page ?q))) (map VStr (if [] = [] then [[]] else []))
      (ref_worlds (g_be ref_generic)) = (Returns (Inl ?e), ref_worlds (g_be ref_generic))"
    using small_runs qs by (simp add: QueryNamed_def guarded_def plift_def deref_def pbind_def preturn_def)
  have ok: "name_ok ''top''" "int_ok (page_size (query_page ?q))"
    by (simp_all add: name_ok_def int_ok_def query_page_def DefaultPaging_def Page_def)
  have "page_ok pr" if "Returns (Inl ?e) = Returns (Inr pr :: goerr + PagedResult)" for pr using that by simp
  from query_end_to_end [where ws = ref_worlds, OF ref_connected ref_laws(1,2) ref_item(1) ok(1) ref_item(4) ok(2) r this]
  show ?thesis by (simp add: NewErrorWithStatus_def error_code_def)
qed

end
