(* ===== verification/Load_All.thy ===== *)
theory Load_All
  imports Typed_Properties
begin

text \<open>
  Loading a whole table through the typed client, the generated client, the server and the CRUD
  operations: the batch loader of \<^verbatim>\<open>pkg/client/misc.go\<close> over everything below it, down to the answers
  of the database driver.
\<close>

section \<open>The loader over a state that changes\<close>

text \<open>A \<^verbatim>\<open>List\<close> whose answers are the pages of a fixed list as long as a condition on the state holds.\<close>

definition pages_while :: "('s \<Rightarrow> bool) \<Rightarrow> (qryData \<Rightarrow> ('s, goerr + ('r list \<times> int)) prog) \<Rightarrow> fexpr \<Rightarrow> order list \<Rightarrow>
    nat \<Rightarrow> 'r list \<Rightarrow> bool" where
  "pages_while P c e orders n items \<longleftrightarrow>
     (\<forall>s off. P s \<longrightarrow> off < length items \<or> items = [] \<and> off = 0 \<longrightarrow>
        (\<exists>s'. P s' \<and> c (batch_query e orders (int off) (int n)) s =
           (Returns (Inr (page_of off n items, int (length items))), s')))"

lemma load_loop_while:
  assumes "pages_while P c e orders n items" "0 < n" "P s" "off < length items \<or> items = [] \<and> off = 0"
  shows "\<exists>s'. P s' \<and> load_loop c e (int n) orders (int off) (take off items) s = Some (Returns (Inr items), s')"
  using assms(3,4)
proof (induction "length items - off" arbitrary: off s rule: less_induct)
  case less
  let ?page = "page_of off n items"
  obtain s1 where s1: "P s1"
    and call: "c (batch_query e orders (int off) (int n)) s = (Returns (Inr (?page, int (length items))), s1)"
    using assms(1) less.prems unfolding pages_while_def by blast
  have app: "take off items @ ?page = take (off + length ?page) items" and le: "off + length ?page \<le> length items"
    using less.prems by (auto simp: page_of_def take_add min_def)
  show ?case
  proof (cases "off + length ?page = length items")
    case True
    with s1 show ?thesis
      by (subst load_loop.simps) (simp add: call app Let_def flip: of_nat_add)
  next
    case False
    then have lt: "off + length ?page < length items" using le by linarith
    then have "off < off + length ?page" using assms(2) by (auto simp: page_of_def min_def)
    with lt have "length items - (off + length ?page) < length items - off" by linarith
    with less.hyps [OF this s1] lt obtain s' where "P s'"
      "load_loop c e (int n) orders (int (off + length ?page)) (take (off + length ?page) items) s1 =
        Some (Returns (Inr items), s')"
      by blast
    with False show ?thesis
      by (subst load_loop.simps) (simp add: call app Let_def flip: of_nat_add)
  qed
qed

lemma load_all_while:
  assumes "pages_while P c e orders n items" "0 < n" "P s"
  shows "\<exists>s'. P s' \<and> LoadAllInBatch c e (int n) orders s = Some (Returns (Inr items), s')"
  using load_loop_while [OF assms, of 0] by (cases items) (simp_all add: LoadAllInBatch_def)

section \<open>A table that does not change\<close>

text \<open>
  What is relied on of the database: while it is in one of the given states, it counts the rows that
  match the filter, and answers the query for a page with the rows of that page in a fixed order,
  which are read to the given objects. Reading keeps it in these states.
\<close>

definition serves_table :: "'d driver \<Rightarrow> ('d \<Rightarrow> bool) \<Rightarrow> string \<Rightarrow> (gval \<Rightarrow> string) \<Rightarrow> fexpr \<Rightarrow> order list \<Rightarrow> nat \<Rightarrow>
    gmap list \<Rightarrow> bool" where
  "serves_table drv D ent enc e orders n rows \<longleftrightarrow>
     (\<forall>d. D d \<longrightarrow>
        (\<exists>cond crows d1. qry_where (filter_norm enc e) = Returns cond \<and>
           drv_Query drv (''SELECT COUNT(1) FROM `'' @ ent @ ''`'' @ cond) [] d = (Inr crows, d1) \<and>
           scan_row_int crows = Inr (int (length rows)) \<and> D d1) \<and>
        (\<forall>off < length rows. \<exists>tail rs cols cts d2.
           qry_String (qry_norm enc (batch_query e orders (int off) (int n))) = Returns tail \<and>
           drv_Query drv (''SELECT * FROM `'' @ ent @ ''`'' @ tail) [] d = (Inr rs, d2) \<and>
           getRowMetadata rs = Inr (cols, cts) \<and>
           map_rows (rs_Rows rs) cols cts [] = Returns (Inr (page_of off n rows)) \<and> D d2))"

text \<open>The page at an offset, as \<^verbatim>\<open>ListItems\<close> returns it.\<close>

definition page_at :: "nat \<Rightarrow> nat \<Rightarrow> gmap list \<Rightarrow> PagedResult" where
  "page_at off n rows =
     \<lparr>pr_Data = Some (page_of off n rows), pr_Offset = Some (float32 (unat (word_of_int (int off) :: 64 word))),
      pr_TotalCount = Some (int (length rows))\<rparr>"

lemma table_page:
  assumes "serves_table drv D ent enc e orders n rows" "im_db b = Some drv" "be_Read (im_config b) = Some True"
    and "D (w_db w)" "off < length rows \<or> rows = [] \<and> off = 0"
  shows "\<exists>w'. D (w_db w') \<and> ListItems b ent (Some (qry_norm enc (batch_query e orders (int off) (int n)))) w =
    (Returns (Inr (page_at off n rows)), w')"
proof -
  let ?q = "qry_norm enc (batch_query e orders (int off) (int n))"
  have q: "qry_filter ?q = filter_norm enc e" "qry_paging ?q = Some \<lparr>page_offset = word_of_int (int off), page_size = int n\<rparr>"
    by (simp_all add: qry_norm_def batch_query_fields)
  obtain cond crows d1 where count: "qry_where (filter_norm enc e) = Returns cond"
    "drv_Query drv (''SELECT COUNT(1) FROM `'' @ ent @ ''`'' @ cond) [] (w_db w) = (Inr crows, d1)"
    "scan_row_int crows = Inr (int (length rows))" "D d1"
    using assms(1,4) unfolding serves_table_def by meson
  have whereExpr: "(if filter_norm enc e \<noteq> NilE then '' WHERE '' @ fmt_Stringer (fe_String (filter_norm enc e)) else []) = cond"
    using count(1) by (auto simp: qry_where_def omap_Returns_iff fmt_Stringer_def split: if_splits)
  let ?w1 = "w\<lparr>w_db := d1, w_calls := w_calls w @ [CQuery (''SELECT COUNT(1) FROM `'' @ ent @ ''`'' @ cond) []]\<rparr>"
  have rows: "db_QueryRow_int (Some drv) (''SELECT COUNT(1) FROM `'' @ ent @ ''`'' @ cond) [] w =
      (Returns (Inr (int (length rows))), ?w1)"
    using count(2,3) by (simp add: db_QueryRow_int_def ebind_def small_runs)
  show ?thesis
  proof (cases "rows = []")
    case True
    with assms(5) have off: "off = 0" by simp
    show ?thesis
      unfolding ListItems_def Let_def option.case q(1) whereExpr
      using rows assms(2,3) q(2) count(4) True off
      by (simp add: ebind_def small_runs page_at_def page_of_def)
  next
    case False
    then have "off < length rows" using assms(5) by simp
    then obtain tail rs cols cts d2 where fetch: "qry_String ?q = Returns tail"
      "drv_Query drv (''SELECT * FROM `'' @ ent @ ''`'' @ tail) [] d1 = (Inr rs, d2)"
      "getRowMetadata rs = Inr (cols, cts)" "map_rows (rs_Rows rs) cols cts [] = Returns (Inr (page_of off n rows))" "D d2"
      using assms(1) count(4) unfolding serves_table_def by meson
    have fr: "\<exists>w2. D (w_db w2) \<and> fetchRows b (''SELECT * FROM `'' @ ent @ ''`'' @ tail) [] ?w1 =
        (Returns (Inr (page_of off n rows)), w2)"
      using fetch(2-5) assms(2) by (simp add: fetchRows_def ebind_def small_runs)
    then obtain w2 where w2: "D (w_db w2)" "fetchRows b (''SELECT * FROM `'' @ ent @ ''`'' @ tail) [] ?w1 =
        (Returns (Inr (page_of off n rows)), w2)" by blast
    show ?thesis
      unfolding ListItems_def Let_def option.case q(1) whereExpr fetch(1)
      using rows w2 assms(2,3) q(2) False
      by (simp add: ebind_def small_runs page_at_def)
  qed
qed

section \<open>The typed client\<close>

lemma page_at_ok:
  assumes "list_all row_ok rows" "int (length rows) < 2 ^ 63"
  shows "page_ok (page_at off n rows)"
proof -
  have "list_all row_ok (page_of off n rows)"
    using assms(1) by (auto simp: page_of_def list_all_iff dest: in_set_takeD in_set_dropD)
  then show ?thesis
    using assms(2) by (simp add: page_ok_def page_at_def int_ok_def float32_def)
qed

lemma client_pages:
  assumes con: "connected style sniff enc rs c" "json_sender (sv_send rs)" "sniff_lawful sniff"
    and names: "name_ok (g_be g)" "name_ok (g_ent g)" "g_ent g \<noteq> ''entities''" "map_of (sv_crudMap rs) (g_be g) = Some b"
    and b: "im_db b = Some drv" "be_Read (im_config b) = Some True"
    and table: "serves_table drv D (g_ent g) enc e orders n rows"
    and ok: "list_all order_ok orders" "e = NilE \<or> filter_ok e" "int_ok (int n)" "list_all row_ok rows" "int (length rows) < 2 ^ 63"
    and dec: "\<And>row. row \<in> set rows \<Longrightarrow> g_decFn g (dto_wire enc row) = Inr (f row)"
  shows "pages_while (\<lambda>ws. D (w_db (ws (g_be g)))) (\<lambda>q. client_List (api_transport style enc c) enc g (Some q))
    e orders n (map f rows)"
  unfolding pages_while_def
proof (intro allI impI)
  fix ws :: "('a, 'b) worlds" and off :: nat
  assume D: "D (w_db (ws (g_be g)))" and off: "off < length (map f rows) \<or> map f rows = [] \<and> off = 0"
  let ?q = "batch_query e orders (int off) (int n)" and ?p = "page_at off n rows"
  have "off < length rows \<or> rows = [] \<and> off = 0" using off by simp
  from table_page [OF table b D this] obtain w' where w': "D (w_db w')"
    "ListItems b (g_ent g) (Some (qry_norm enc ?q)) (ws (g_be g)) = (Returns (Inr ?p), w')"
    by blast
  have q: "list_routable (g_be g) (g_ent g) ?q" "qry_ok ?q"
    using names(1-3) ok(1-3) by (simp_all add: list_routable_def qry_ok_def batch_query_fields)
  have "page_ok p" if "Returns (Inr ?p) = Returns (Inr p :: goerr + PagedResult)" for p
    using that page_at_ok [OF ok(4,5), of off n] by simp
  from client_List_served [where q = "?q" and ws = ws and g = g and enc = enc, OF con q names(4) w'(2) this]
  have run: "client_List (api_transport style enc c) enc g (Some ?q) ws =
      (Returns (case decode_all (g_decFn g) (map (dto_wire enc) (page_of off n rows)) [] of
         Inl err \<Rightarrow> Inl err | Inr items \<Rightarrow> Inr (items, int (length rows))), ws(g_be g := w'))"
    by (simp add: page_at_def split: sum.split)
  have "decode_all (g_decFn g) (map (dto_wire enc) ms) acc = Inr (acc @ map f ms)" if "set ms \<subseteq> set rows" for ms acc
    using that dec by (induction ms arbitrary: acc) auto
  from this [of "page_of off n rows" "[]"]
  have "decode_all (g_decFn g) (map (dto_wire enc) (page_of off n rows)) [] = Inr (page_of off n (map f rows))"
    by (auto simp: page_of_def take_map drop_map dest: in_set_takeD in_set_dropD)
  with run w'(1) show "\<exists>s'. D (w_db (s' (g_be g))) \<and> client_List (api_transport style enc c) enc g (Some ?q) ws =
      (Returns (Inr (page_of off n (map f rows), int (length (map f rows)))), s')"
    by (intro exI [of _ "ws(g_be g := w')"]) simp
qed

text \<open>C2: Loading a table ends, and loads all of it: through the batch loader, the typed client, the
  generated client and the server, against a database whose matching rows do not change, the caller
  gets every matching row, decoded, in the order of the database, for any positive batch size.\<close>

theorem load_all_end_to_end:
  assumes "connected style sniff enc rs c" "json_sender (sv_send rs)" "sniff_lawful sniff"
    and "name_ok (g_be g)" "name_ok (g_ent g)" "g_ent g \<noteq> ''entities''" "map_of (sv_crudMap rs) (g_be g) = Some b"
    and "im_db b = Some drv" "be_Read (im_config b) = Some True"
    and "serves_table drv D (g_ent g) enc e orders n rows" "D (w_db (ws (g_be g)))"
    and "list_all order_ok orders" "e = NilE \<or> filter_ok e" "int_ok (int n)" "0 < n"
    and "list_all row_ok rows" "int (length rows) < 2 ^ 63"
    and "\<And>row. row \<in> set rows \<Longrightarrow> g_decFn g (dto_wire enc row) = Inr (f row)"
  shows "\<exists>ws'. LoadAllInBatch (\<lambda>q. client_List (api_transport style enc c) enc g (Some q)) e (int n) orders ws =
    Some (Returns (Inr (map f rows)), ws')"
  using load_all_while [OF client_pages [OF assms(1-10) assms(12-14) assms(16-18)] assms(15), of ws] assms(11) by blast

definition demo_row :: gmap where
  "demo_row = [(''n'', VStr ''3'')]"

text \<open>The counting database answers every query with one row that says 3: a table of three equal rows
  for pages of one row.\<close>

lemma counting_table: "serves_table counting_driver (\<lambda>d. True) ''t'' fmt_v NilE [] 1 [demo_row, demo_row, demo_row]"
proof -
  have three: "parse_int ''3'' = Some 3" by code_simp
  have m: "mapEntity (Inr [VStr ''3'']) [''n''] [\<lparr>ct_Name = ''n'', ct_DatabaseTypeName = ''INT''\<rparr>] = Returns (Inr demo_row)"
    unfolding demo_row_def by code_simp
  have page: "page_of off 1 [demo_row, demo_row, demo_row] = [demo_row]" if "off < 3" for off
    using that by (auto simp: page_of_def less_Suc_eq eval_nat_numeral)
  have tail: "\<exists>tail. qry_String (qry_norm fmt_v (batch_query NilE [] off n)) = Returns tail" for off n
    by (rule qry_String_Returns) (simp add: qry_ok_def qry_norm_def batch_query_fields)
  show ?thesis
    unfolding serves_table_def
    using tail page three m
    by (simp add: counting_driver_def qry_where_def scan_row_int_def getRowMetadata_def)
qed

theorem load_all_end_to_end_witness:
  "\<exists>ws'. LoadAllInBatch (\<lambda>q. client_List (api_transport ref_style fmt_v ref_client) fmt_v ref_generic (Some q)) NilE 1 [] ref_worlds =
     Some (Returns (Inr [demo_row, demo_row, demo_row]), ws')"
proof -
  have table: "serves_table counting_driver (\<lambda>d. True) (g_ent ref_generic) fmt_v NilE [] 1 [demo_row, demo_row, demo_row]"
    using counting_table by simp
  have "g_ent ref_generic \<noteq> ''entities''" by simp
  note ready = ref_connected ref_laws(1,2) ref_item(1,2) this ref_item(4) counting_fields(1,2) table TrueI
  have "list_all order_ok []" "NilE = NilE \<or> filter_ok NilE" "int_ok (int 1)" "(0 :: nat) < 1"
    "list_all row_ok [demo_row, demo_row, demo_row]" "int (length [demo_row, demo_row, demo_row]) < 2 ^ 63"
    by (simp_all add: int_ok_def row_ok_def demo_row_def)
  from load_all_end_to_end [where f = "\<lambda>m. m" and ws = ref_worlds, OF ready this]
  show ?thesis by (simp add: dto_wire_def demo_row_def)
qed

end
