(* ===== verification/Typed_Client.thy ===== *)
theory Typed_Client
  imports Load_All
begin

text \<open>
  \<^verbatim>\<open>New\<close> of \<^verbatim>\<open>pkg/client/impl.go\<close> in full: the typed client together with the generated client that it
  makes for its endpoint, and the options that are passed on to it.
\<close>

section \<open>The client with its options\<close>

record ('t, 's) generic_client = "'t generic" +
  g_copts :: "'s client_option list"

text \<open>An option of the typed client; those that only change the fields of \<^verbatim>\<open>generic\<close> are lifted.\<close>

type_synonym ('t, 's) client_opt = "('t, 's) generic_client \<Rightarrow> ('t, 's) generic_client"

definition WithClientOptions :: "'s client_option list \<Rightarrow> ('t, 's) client_opt" where
  "WithClientOptions copts g = g\<lparr>g_copts := copts\<rparr>"

definition on_generic :: "('t generic \<Rightarrow> 't generic) \<Rightarrow> ('t, 's) client_opt" where
  "on_generic f g = generic.extend (f (generic.truncate g)) (generic_client.fields (g_copts g))"

definition generic_New :: "'s doer \<Rightarrow> ('t \<Rightarrow> goerr + gmap) \<Rightarrow> (gmap \<Rightarrow> goerr + 't) \<Rightarrow> string \<Rightarrow> string \<Rightarrow> string \<Rightarrow>
    ('t, 's) client_opt list \<Rightarrow> goerr + 't generic \<times> 's Client" where
  "generic_New default_doer defaultEncoderFn defaultDecoderFn endpoint backend entity opts =
     (let g = foldl (\<lambda>g opt. opt g)
          \<lparr>g_be = backend, g_ent = entity, g_decFn = (\<lambda>m. Inl (PlainError nil_deref)),
            g_encFn = (\<lambda>t. Inl (PlainError nil_deref)), g_roProps = [], g_idProp = [], g_copts = []\<rparr>
          ([on_generic (WithPayloadDecoder defaultDecoderFn), on_generic (WithPayloadEncoder defaultEncoderFn),
            on_generic (ReadOnlyProperties []), on_generic (IdProperty ''id'')] @ opts)
      in rbind (NewClientWithResponses default_doer endpoint (g_copts g)) (\<lambda>c. Inr (generic.truncate g, c)))"

section \<open>What it makes\<close>

lemma on_generic_fields [simp]:
  "generic.truncate (on_generic f g) = f (generic.truncate g)" "g_copts (on_generic f g) = g_copts g"
  by (simp_all add: on_generic_def generic.defs generic_client.defs)

lemma truncate_copts [simp]: "generic.truncate (WithClientOptions copts g) = generic.truncate g"
  "g_copts (WithClientOptions copts g) = copts"
  by (simp_all add: WithClientOptions_def generic.defs)

lemma foldl_on_generic:
  "generic.truncate (foldl (\<lambda>g opt. opt g) g (map on_generic fs)) = foldl (\<lambda>g opt. opt g) (generic.truncate g) fs"
  "g_copts (foldl (\<lambda>g opt. opt g) g (map on_generic fs)) = g_copts g"
  by (induction fs arbitrary: g) simp_all

text \<open>The options of the package: those that set a field of \<^verbatim>\<open>generic\<close> (\<^verbatim>\<open>WithLogger\<close> aside) and those that
  pass options on to the generated client.\<close>

datatype ('t, 's) typed_opt = FieldOpt "'t generic \<Rightarrow> 't generic" | ClientOpts "'s client_option list"

fun opt_fn :: "('t, 's) typed_opt \<Rightarrow> ('t, 's) client_opt" where
  "opt_fn (FieldOpt f) = on_generic f"
| "opt_fn (ClientOpts copts) = WithClientOptions copts"

fun field_opts :: "('t, 's) typed_opt list \<Rightarrow> ('t generic \<Rightarrow> 't generic) list" where
  "field_opts [] = []"
| "field_opts (FieldOpt f # os) = f # field_opts os"
| "field_opts (ClientOpts copts # os) = field_opts os"

definition package_option :: "('t generic \<Rightarrow> 't generic) \<Rightarrow> bool" where
  "package_option f \<longleftrightarrow>
     (\<exists>ps. f = ReadOnlyProperties ps \<or> f = SkipProperties ps) \<or> (\<exists>p. f = IdProperty p) \<or>
     (\<exists>e. f = WithPayloadEncoder e) \<or> (\<exists>d. f = WithPayloadDecoder d)"

lemma package_option_keeps: "package_option f \<Longrightarrow> g_be (f g) = g_be g \<and> g_ent (f g) = g_ent g"
  by (auto simp: package_option_def SkipProperties_def ReadOnlyProperties_def IdProperty_def
      WithPayloadEncoder_def WithPayloadDecoder_def)

lemma package_options_keep:
  "list_all package_option fs \<Longrightarrow> g_be (foldl (\<lambda>g opt. opt g) g fs) = g_be g \<and> g_ent (foldl (\<lambda>g opt. opt g) g fs) = g_ent g"
  by (induction fs arbitrary: g) (simp_all add: package_option_keeps)

lemma client_New_keeps:
  assumes "list_all package_option fs"
  shows "g_be (client_New enc dec backend entity fs) = backend" "g_ent (client_New enc dec backend entity fs) = entity"
  unfolding client_New_def foldl_append
  by (simp_all add: package_options_keep [OF assms] ReadOnlyProperties_def IdProperty_def WithPayloadEncoder_def WithPayloadDecoder_def)

lemma truncate_opts:
  "generic.truncate (foldl (\<lambda>g opt. opt g) g (map opt_fn os)) = foldl (\<lambda>g opt. opt g) (generic.truncate g) (field_opts os)"
  by (induction os arbitrary: g rule: field_opts.induct) simp_all

lemma generic_New_parts:
  "generic_New default_doer enc dec endpoint backend entity (map opt_fn os @ WithClientOptions copts # map on_generic fs) =
    rbind (NewClientWithResponses default_doer endpoint copts) (\<lambda>c. Inr (client_New enc dec backend entity (field_opts os @ fs), c))"
proof -
  have tr: "generic.truncate \<lparr>g_be = a, g_ent = b, g_decFn = d, g_encFn = e, g_roProps = r, g_idProp = i, g_copts = cs\<rparr> =
      \<lparr>g_be = a, g_ent = b, g_decFn = d, g_encFn = e, g_roProps = r, g_idProp = i\<rparr>" for a b d e r i cs
    by (simp add: generic.defs)
  show ?thesis by (simp add: generic_New_def client_New_def foldl_on_generic truncate_opts tr Let_def)
qed

text \<open>C34: A typed client made for the address of a running server is connected to it: for every list of the
  package's options whose last \<^verbatim>\<open>WithClientOptions\<close> passes on just the transport, \<^verbatim>\<open>New\<close> succeeds, the client
  keeps the backend and entity it was given, and every call on it reaches the server (so that the end-to-end
  properties apply to it). When a base URL that does not parse is passed on after the transport, \<^verbatim>\<open>New\<close>
  fails.\<close>

theorem new_client_is_connected:
  assumes "serving im style rs scheme host psegs h" "url_Parse base = None"
    and "list_all package_option (field_opts os @ fs)"
  shows "(\<exists>g c. generic_New d enc_item dec_item (scheme @ ''://'' @ host @ join_path psegs) backend entity
        (map opt_fn os @ WithClientOptions [WithHTTPClient (over_http sniff enc h)] # map on_generic fs) = Inr (g, c) \<and>
        g = client_New enc_item dec_item backend entity (field_opts os @ fs) \<and>
        g_be g = backend \<and> g_ent g = entity \<and> connected style sniff enc rs c) \<and>
    (\<exists>err. generic_New d enc_item dec_item (scheme @ ''://'' @ host @ join_path psegs) backend entity
        (map opt_fn os @ WithClientOptions [WithHTTPClient (over_http sniff enc h), WithBaseURL base] # map on_generic fs) =
        Inl err)"
proof -
  have "prefix_ok psegs" "psegs \<noteq> []" using assms by (auto simp: serving_def deployed_def wire_ok_def address_ok_def)
  from deployed_client_Inr [OF this, of d sniff enc h scheme host]
  obtain c where c: "deployed_client d sniff enc h scheme host psegs = Inr c" by blast
  then have "connected style sniff enc rs c" unfolding connected_def using assms(1) by blast
  moreover have "generic_New d enc_item dec_item (scheme @ ''://'' @ host @ join_path psegs) backend entity
      (map opt_fn os @ WithClientOptions [WithHTTPClient (over_http sniff enc h)] # map on_generic fs) =
      Inr (client_New enc_item dec_item backend entity (field_opts os @ fs), c)"
    unfolding generic_New_parts using c by (simp add: deployed_client_def)
  moreover have "\<exists>err. NewClientWithResponses d (scheme @ ''://'' @ host @ join_path psegs)
      [WithHTTPClient (over_http sniff enc h), WithBaseURL base] = Inl err"
    using assms(2) by (simp add: NewClientWithResponses_def NewClient_def WithHTTPClient_def WithBaseURL_def url_result_def)
  ultimately show ?thesis using client_New_keeps [OF assms(3)] unfolding generic_New_parts by fastforce
qed

lemma bad_url: "url_Parse ''%'' = None"
  by code_simp

lemma id_option: "package_option (IdProperty p)"
  by (auto simp: package_option_def)

theorem new_client_is_connected_witness:
  "\<exists>g c. generic_New (\<lambda>r. preturn (Inl (PlainError ''unused''))) (Inr :: gmap \<Rightarrow> goerr + gmap) Inr ''http://localhost/api/v1'' ''main'' ''t''
      [WithClientOptions [WithBaseURL ''%''], on_generic (IdProperty ''n''), WithClientOptions [WithHTTPClient (over_http ref_sniff fmt_v ref_handler)]] =
      Inr (g, c) \<and> g_be g = ''main'' \<and> g_ent g = ''t'' \<and> connected ref_style ref_sniff fmt_v ref_rs c"
proof -
  have opts: "list_all package_option (field_opts [ClientOpts [WithBaseURL ''%''], FieldOpt (IdProperty ''n'' :: gmap generic \<Rightarrow> _)] @ [])"
    by (simp add: id_option)
  show ?thesis
    using new_client_is_connected [OF ref_serving bad_url opts, of "\<lambda>r. preturn (Inl (PlainError ''unused''))" Inr Inr
        "''main''" "''t''" ref_sniff fmt_v] by auto
qed

end
