(* ===== verification/Filter_Interfaces.thy ===== *)
theory Filter_Interfaces
  imports Client_Filter
begin

text \<open>
  The interfaces of \<^verbatim>\<open>pkg/query/types.go\<close>. In Go a value has every interface whose methods it has, so that
  the type switches of \<^verbatim>\<open>pkg/client/filter.go\<close> depend on the method sets of the expressions and on the
  order of the cases; \<^theory_text>\<open>Client_Filter\<close> matches on the kind of the expression instead. Here the methods are
  explicit, and the switch over interfaces turns out to be that match.
\<close>

section \<open>Interfaces\<close>

record InExpression =
  ix_Name :: string
  ix_Values :: "gval gslice"

record JunctionExpression =
  jx_Op :: Op
  jx_Sub :: "fexpr gslice"

record NotExpression =
  nx_Sub :: fexpr

record UnaryExpression =
  ux_Name :: string
  ux_Op :: Op

record BetweenExpression =
  bx_Name :: string
  bx_Left :: gval
  bx_Right :: gval

record SimpleExpression =
  sx_Name :: string
  sx_Op :: Op
  sx_Value :: gval

section \<open>Method sets\<close>

text \<open>What the methods of an expression return; nothing for a method it does not have. \<^verbatim>\<open>Sub\<close> of a junction and
  of a negation are different methods, since they differ in type.\<close>

record methods =
  m_Name :: "string option"
  m_Op :: "Op option"
  m_Value :: "gval option"
  m_Values :: "gval gslice option"
  m_Subs :: "fexpr gslice option"
  m_Sub :: "fexpr option"
  m_Left :: "gval option"
  m_Right :: "gval option"

definition no_methods :: methods where
  "no_methods = \<lparr>m_Name = None, m_Op = None, m_Value = None, m_Values = None, m_Subs = None, m_Sub = None, m_Left = None, m_Right = None\<rparr>"

definition simpleExpr_methods :: "string \<Rightarrow> Op \<Rightarrow> gval \<Rightarrow> methods" where
  "simpleExpr_methods name op val = no_methods\<lparr>m_Name := Some name, m_Op := Some op, m_Value := Some val\<rparr>"

definition junctionExpr_methods :: "Op \<Rightarrow> fexpr gslice \<Rightarrow> methods" where
  "junctionExpr_methods op sub = no_methods\<lparr>m_Op := Some op, m_Subs := Some sub\<rparr>"

definition notExpr_methods :: "fexpr \<Rightarrow> methods" where
  "notExpr_methods e = no_methods\<lparr>m_Sub := Some e\<rparr>"

definition inExpr_methods :: "string \<Rightarrow> gval gslice \<Rightarrow> methods" where
  "inExpr_methods name val = no_methods\<lparr>m_Name := Some name, m_Values := Some val\<rparr>"

definition unExpr_methods :: "string \<Rightarrow> Op \<Rightarrow> methods" where
  "unExpr_methods name op = no_methods\<lparr>m_Name := Some name, m_Op := Some op\<rparr>"

definition betweenExpr_methods :: "string \<Rightarrow> gval \<Rightarrow> gval \<Rightarrow> methods" where
  "betweenExpr_methods name left right = no_methods\<lparr>m_Name := Some name, m_Left := Some left, m_Right := Some right\<rparr>"

fun methods_of :: "fexpr \<Rightarrow> methods" where
  "methods_of NilE = no_methods"
| "methods_of (SimpleE name op val) = simpleExpr_methods name op val"
| "methods_of (JunctionE op sub) = junctionExpr_methods op sub"
| "methods_of (NotE e) = notExpr_methods e"
| "methods_of (InE name val) = inExpr_methods name val"
| "methods_of (UnE name op) = unExpr_methods name op"
| "methods_of (BetweenE name left right) = betweenExpr_methods name left right"

lemmas methods_defs = no_methods_def simpleExpr_methods_def junctionExpr_methods_def notExpr_methods_def
  inExpr_methods_def unExpr_methods_def betweenExpr_methods_def

section \<open>Type assertions\<close>

definition as_InExpression :: "fexpr \<Rightarrow> InExpression option" where
  "as_InExpression e = (case (m_Name (methods_of e), m_Values (methods_of e)) of
     (Some n, Some vs) \<Rightarrow> Some \<lparr>ix_Name = n, ix_Values = vs\<rparr> | _ \<Rightarrow> None)"

definition as_SimpleExpression :: "fexpr \<Rightarrow> SimpleExpression option" where
  "as_SimpleExpression e = (case (m_Name (methods_of e), m_Op (methods_of e), m_Value (methods_of e)) of
     (Some n, Some op, Some v) \<Rightarrow> Some \<lparr>sx_Name = n, sx_Op = op, sx_Value = v\<rparr> | _ \<Rightarrow> None)"

definition as_NotExpression :: "fexpr \<Rightarrow> NotExpression option" where
  "as_NotExpression e = map_option (\<lambda>s. \<lparr>nx_Sub = s\<rparr>) (m_Sub (methods_of e))"

definition as_JunctionExpression :: "fexpr \<Rightarrow> JunctionExpression option" where
  "as_JunctionExpression e = (case (m_Op (methods_of e), m_Subs (methods_of e)) of
     (Some op, Some sub) \<Rightarrow> Some \<lparr>jx_Op = op, jx_Sub = sub\<rparr> | _ \<Rightarrow> None)"

definition as_UnaryExpression :: "fexpr \<Rightarrow> UnaryExpression option" where
  "as_UnaryExpression e = (case (m_Name (methods_of e), m_Op (methods_of e)) of
     (Some n, Some op) \<Rightarrow> Some \<lparr>ux_Name = n, ux_Op = op\<rparr> | _ \<Rightarrow> None)"

definition as_BetweenExpression :: "fexpr \<Rightarrow> BetweenExpression option" where
  "as_BetweenExpression e = (case (m_Name (methods_of e), m_Left (methods_of e), m_Right (methods_of e)) of
     (Some n, Some l, Some r) \<Rightarrow> Some \<lparr>bx_Name = n, bx_Left = l, bx_Right = r\<rparr> | _ \<Rightarrow> None)"

lemmas assertion_defs = as_InExpression_def as_SimpleExpression_def as_NotExpression_def as_JunctionExpression_def
  as_UnaryExpression_def as_BetweenExpression_def

text \<open>The interfaces overlap: a comparison also has the methods of a unary expression.\<close>

lemma simple_is_unary: "as_UnaryExpression (SimpleE name op val) = Some \<lparr>ux_Name = name, ux_Op = op\<rparr>"
  by (simp add: assertion_defs methods_defs)

section \<open>The type switch\<close>

text \<open>One call of \<^verbatim>\<open>FilterExpressionAsPredicate\<close>; the calls for the operands are the argument \<open>self\<close>.\<close>

definition JunctionExpressionPredicate :: "(fexpr \<Rightarrow> bool outcome) \<Rightarrow> JunctionExpression \<Rightarrow> bool outcome" where
  "JunctionExpressionPredicate self je =
     (if jx_Op je = OpAnd then and_loop self True (elems (jx_Sub je))
      else if jx_Op je = OpOr then or_loop self False (elems (jx_Sub je))
      else Panics (''unsupported op for junction: '' @ jx_Op je))"

definition NotExpressionAsPredicate :: "(fexpr \<Rightarrow> bool outcome) \<Rightarrow> NotExpression \<Rightarrow> bool outcome" where
  "NotExpressionAsPredicate self ne = omap Not (self (nx_Sub ne))"

definition predicate_switch :: "('t, 'n) dom_ops \<Rightarrow> (gval \<Rightarrow> gval \<Rightarrow> bool) \<Rightarrow> 't option \<Rightarrow>
    (fexpr \<Rightarrow> bool outcome) \<Rightarrow> fexpr \<Rightarrow> bool outcome" where
  "predicate_switch dm eq item self e0 =
     (if e0 = NilE then Returns True
      else case as_InExpression e0 of
        Some ie \<Rightarrow> InExpressionAsPredicate dm eq (ix_Name ie) (elems (ix_Values ie)) item
      | None \<Rightarrow> (case as_SimpleExpression e0 of
        Some se \<Rightarrow> SimpleExpressionPredicate dm eq (sx_Name se) (sx_Op se) (sx_Value se) item
      | None \<Rightarrow> (case as_NotExpression e0 of
        Some ne \<Rightarrow> NotExpressionAsPredicate self ne
      | None \<Rightarrow> (case as_JunctionExpression e0 of
        Some je \<Rightarrow> JunctionExpressionPredicate self je
      | None \<Rightarrow> obind (fe_String e0) (\<lambda>s. Panics (''unsupported filter expression: '' @ s))))))"

text \<open>The type switch of the in-memory client finds every expression by its own kind: although the
  interfaces are satisfied by method sets and overlap, going through the cases in their order evaluates
  every filter as the predicate by kinds does.\<close>

lemma predicate_switch_by_kind:
  "predicate_switch dm eq item (\<lambda>e. FilterExpressionAsPredicate dm eq e item) e0 =
   FilterExpressionAsPredicate dm eq e0 item"
  by (cases e0) (simp_all add: predicate_switch_def assertion_defs methods_defs JunctionExpressionPredicate_def
      NotExpressionAsPredicate_def)

section \<open>Orders, paging and queries\<close>

record OrderInterface =
  o_Name :: string
  o_Asc :: bool

definition order_methods :: "order \<Rightarrow> OrderInterface" where
  "order_methods ord = \<lparr>o_Name = order_name ord, o_Asc = order_asc ord\<rparr>"

record PagingInterface =
  p_String :: string
  p_Offset :: "64 word"
  p_Size :: int

definition page_methods :: "page \<Rightarrow> PagingInterface" where
  "page_methods p = \<lparr>p_String = page_String p, p_Offset = page_offset p, p_Size = page_size p\<rparr>"

record QueryInterface =
  q_String :: "string outcome"
  q_Orders :: "OrderInterface list"
  q_Paging :: "PagingInterface option"
  q_Filter :: fexpr

definition qryData_methods :: "qryData \<Rightarrow> QueryInterface" where
  "qryData_methods q = \<lparr>q_String = qry_String q, q_Orders = map order_methods (qry_orders q),
     q_Paging = map_option page_methods (qry_paging q), q_Filter = qry_filter q\<rparr>"

text \<open>A query is known by its methods: those who only have the interface see all there is of it.\<close>

lemma qryData_methods_inject: "qryData_methods q = qryData_methods q' \<longleftrightarrow> q = q'"
proof
  assume eq: "qryData_methods q = qryData_methods q'"
  have "inj order_methods" by (rule injI) (auto simp: order_methods_def)
  moreover have "inj page_methods" by (rule injI) (auto simp: page_methods_def)
  moreover have "map order_methods (qry_orders q) = map order_methods (qry_orders q')"
    "map_option page_methods (qry_paging q) = map_option page_methods (qry_paging q')" "qry_filter q = qry_filter q'"
    using eq by (simp_all add: qryData_methods_def)
  ultimately have "qry_orders q = qry_orders q'" "qry_paging q = qry_paging q'" "qry_filter q = qry_filter q'"
    by (simp_all add: inj_map_eq_map inj_eq [OF option.inj_map])
  then show "q = q'" by simp
qed simp

end
