(* ===== verification/Client_Interfaces.thy ===== *)
theory Client_Interfaces
  imports Typed_Client Filter_Interfaces
begin

text \<open>
  The interfaces behind which the code keeps its implementations, as records of operations, with the values
  that have them: the generated client (\<^verbatim>\<open>ClientInterface\<close>, \<^verbatim>\<open>ClientWithResponsesInterface\<close>), the typed
  clients (\<^verbatim>\<open>GenericInterface\<close>, over HTTP and in memory) and the operations on a backend
  (\<^verbatim>\<open>crud.Interface\<close>).
\<close>

section \<open>The generated client\<close>

record 's ClientInterface =
  ci_ListBackends :: "request_editor list \<Rightarrow> ('s, goerr + http_response) prog"
  ci_GetVersionInfo :: "request_editor list \<Rightarrow> ('s, goerr + http_response) prog"
  ci_QueryNamed :: "string \<Rightarrow> string \<Rightarrow> QueryNamedParams option \<Rightarrow> request_editor list \<Rightarrow> ('s, goerr + http_response) prog"
  ci_ListEntities :: "string \<Rightarrow> request_editor list \<Rightarrow> ('s, goerr + http_response) prog"
  ci_ListItems :: "string \<Rightarrow> string \<Rightarrow> ListItemsParams option \<Rightarrow> request_editor list \<Rightarrow> ('s, goerr + http_response) prog"
  ci_CreateItemWithBody :: "string \<Rightarrow> string \<Rightarrow> string \<Rightarrow> string \<Rightarrow> request_editor list \<Rightarrow> ('s, goerr + http_response) prog"
  ci_CreateItem :: "string \<Rightarrow> string \<Rightarrow> gmap \<Rightarrow> request_editor list \<Rightarrow> ('s, goerr + http_response) prog"
  ci_BulkUpdateWithBody :: "string \<Rightarrow> string \<Rightarrow> string \<Rightarrow> string \<Rightarrow> request_editor list \<Rightarrow> ('s, goerr + http_response) prog"
  ci_BulkUpdate :: "string \<Rightarrow> string \<Rightarrow> BulkUpdateRequest \<Rightarrow> request_editor list \<Rightarrow> ('s, goerr + http_response) prog"
  ci_DeleteItemById :: "string \<Rightarrow> string \<Rightarrow> string \<Rightarrow> request_editor list \<Rightarrow> ('s, goerr + http_response) prog"
  ci_GetItemById :: "string \<Rightarrow> string \<Rightarrow> string \<Rightarrow> request_editor list \<Rightarrow> ('s, goerr + http_response) prog"
  ci_ExistsItemById :: "string \<Rightarrow> string \<Rightarrow> string \<Rightarrow> request_editor list \<Rightarrow> ('s, goerr + http_response) prog"
  ci_UpdateItemByIdWithBody :: "string \<Rightarrow> string \<Rightarrow> string \<Rightarrow> string \<Rightarrow> string \<Rightarrow> request_editor list \<Rightarrow> ('s, goerr + http_response) prog"
  ci_UpdateItemById :: "string \<Rightarrow> string \<Rightarrow> string \<Rightarrow> gmap \<Rightarrow> request_editor list \<Rightarrow> ('s, goerr + http_response) prog"

definition Client_methods :: "style_param \<Rightarrow> (gval \<Rightarrow> string) \<Rightarrow> 's Client \<Rightarrow> 's ClientInterface" where
  "Client_methods style enc c = \<lparr>
     ci_ListBackends = Client_ListBackends c,
     ci_GetVersionInfo = Client_GetVersionInfo c,
     ci_QueryNamed = Client_QueryNamed style c,
     ci_ListEntities = Client_ListEntities style c,
     ci_ListItems = Client_ListItems style c,
     ci_CreateItemWithBody = Client_CreateItemWithBody style c,
     ci_CreateItem = Client_CreateItem style enc c,
     ci_BulkUpdateWithBody = Client_BulkUpdateWithBody style c,
     ci_BulkUpdate = Client_BulkUpdate style enc c,
     ci_DeleteItemById = Client_DeleteItemById style c,
     ci_GetItemById = Client_GetItemById style c,
     ci_ExistsItemById = Client_ExistsItemById style c,
     ci_UpdateItemByIdWithBody = Client_UpdateItemByIdWithBody style c,
     ci_UpdateItemById = Client_UpdateItemById style enc c\<rparr>"

record ('s, 'v) ClientWithResponsesInterface =
  cw_ListBackendsWithResponse :: "request_editor list \<Rightarrow> ('s, goerr + payload api_response) prog"
  cw_GetVersionInfoWithResponse :: "request_editor list \<Rightarrow> ('s, goerr + 'v api_response) prog"
  cw_QueryNamedWithResponse :: "string \<Rightarrow> string \<Rightarrow> QueryNamedParams option \<Rightarrow> request_editor list \<Rightarrow> ('s, goerr + payload api_response) prog"
  cw_ListEntitiesWithResponse :: "string \<Rightarrow> request_editor list \<Rightarrow> ('s, goerr + payload api_response) prog"
  cw_ListItemsWithResponse :: "string \<Rightarrow> string \<Rightarrow> ListItemsParams option \<Rightarrow> request_editor list \<Rightarrow> ('s, goerr + payload api_response) prog"
  cw_CreateItemWithBodyWithResponse :: "string \<Rightarrow> string \<Rightarrow> string \<Rightarrow> string \<Rightarrow> request_editor list \<Rightarrow> ('s, goerr + payload api_response) prog"
  cw_CreateItemWithResponse :: "string \<Rightarrow> string \<Rightarrow> gmap \<Rightarrow> request_editor list \<Rightarrow> ('s, goerr + payload api_response) prog"
  cw_BulkUpdateWithBodyWithResponse :: "string \<Rightarrow> string \<Rightarrow> string \<Rightarrow> string \<Rightarrow> request_editor list \<Rightarrow> ('s, goerr + payload api_response) prog"
  cw_BulkUpdateWithResponse :: "string \<Rightarrow> string \<Rightarrow> BulkUpdateRequest \<Rightarrow> request_editor list \<Rightarrow> ('s, goerr + payload api_response) prog"
  cw_DeleteItemByIdWithResponse :: "string \<Rightarrow> string \<Rightarrow> string \<Rightarrow> request_editor list \<Rightarrow> ('s, goerr + payload api_response) prog"
  cw_GetItemByIdWithResponse :: "string \<Rightarrow> string \<Rightarrow> string \<Rightarrow> request_editor list \<Rightarrow> ('s, goerr + payload api_response) prog"
  cw_ExistsItemByIdWithResponse :: "string \<Rightarrow> string \<Rightarrow> string \<Rightarrow> request_editor list \<Rightarrow> ('s, goerr + payload api_response) prog"
  cw_UpdateItemByIdWithBodyWithResponse :: "string \<Rightarrow> string \<Rightarrow> string \<Rightarrow> string \<Rightarrow> string \<Rightarrow> request_editor list \<Rightarrow> ('s, goerr + payload api_response) prog"
  cw_UpdateItemByIdWithResponse :: "string \<Rightarrow> string \<Rightarrow> string \<Rightarrow> gmap \<Rightarrow> request_editor list \<Rightarrow> ('s, goerr + payload api_response) prog"

text \<open>\<^verbatim>\<open>ClientWithResponses\<close> embeds a \<^verbatim>\<open>ClientInterface\<close>: every method sends through it and parses.\<close>

definition ClientWithResponses_methods :: "(gval \<Rightarrow> 'v option) \<Rightarrow> 's ClientInterface \<Rightarrow> ('s, 'v) ClientWithResponsesInterface" where
  "ClientWithResponses_methods dec_version i = \<lparr>
     cw_ListBackendsWithResponse = (\<lambda>eds. parse_sent (ci_ListBackends i eds) ParseListBackendsResponse),
     cw_GetVersionInfoWithResponse = (\<lambda>eds. parse_sent (ci_GetVersionInfo i eds) (ParseGetVersionInfoResponse dec_version)),
     cw_QueryNamedWithResponse = (\<lambda>backend name params eds. parse_sent (ci_QueryNamed i backend name params eds) ParseQueryNamedResponse),
     cw_ListEntitiesWithResponse = (\<lambda>backend eds. parse_sent (ci_ListEntities i backend eds) ParseListEntitiesResponse),
     cw_ListItemsWithResponse = (\<lambda>backend entity lparams eds. parse_sent (ci_ListItems i backend entity lparams eds) ParseListItemsResponse),
     cw_CreateItemWithBodyWithResponse = (\<lambda>backend entity contentType body eds. parse_sent (ci_CreateItemWithBody i backend entity contentType body eds) ParseCreateItemResponse),
     cw_CreateItemWithResponse = (\<lambda>backend entity body eds. parse_sent (ci_CreateItem i backend entity body eds) ParseCreateItemResponse),
     cw_BulkUpdateWithBodyWithResponse = (\<lambda>backend entity contentType body eds. parse_sent (ci_BulkUpdateWithBody i backend entity contentType body eds) ParseBulkUpdateResponse),
     cw_BulkUpdateWithResponse = (\<lambda>backend entity bulk eds. parse_sent (ci_BulkUpdate i backend entity bulk eds) ParseBulkUpdateResponse),
     cw_DeleteItemByIdWithResponse = (\<lambda>backend entity item eds. parse_sent (ci_DeleteItemById i backend entity item eds) ParseDeleteItemByIdResponse),
     cw_GetItemByIdWithResponse = (\<lambda>backend entity item eds. parse_sent (ci_GetItemById i backend entity item eds) ParseGetItemByIdResponse),
     cw_ExistsItemByIdWithResponse = (\<lambda>backend entity item eds. parse_sent (ci_ExistsItemById i backend entity item eds) ParseExistsItemByIdResponse),
     cw_UpdateItemByIdWithBodyWithResponse = (\<lambda>backend entity item contentType body eds. parse_sent (ci_UpdateItemByIdWithBody i backend entity item contentType body eds) ParseUpdateItemByIdResponse),
     cw_UpdateItemByIdWithResponse = (\<lambda>backend entity item body eds. parse_sent (ci_UpdateItemById i backend entity item body eds) ParseUpdateItemByIdResponse)\<rparr>"

text \<open>Without editors of their own these are the calls of the typed client.\<close>

lemma with_responses:
  fixes style enc c and dec_version :: "gval \<Rightarrow> 'v option"
  defines "cw \<equiv> ClientWithResponses_methods dec_version (Client_methods style enc c)"
    and "do \<equiv> api_transport style enc c"
  shows
    "cw_ListBackendsWithResponse cw [] = ListBackendsWithResponse do"
    "cw_QueryNamedWithResponse cw backend name (Some params) [] = QueryNamedWithResponse do backend name params"
    "cw_ListEntitiesWithResponse cw backend [] = ListEntitiesWithResponse do backend"
    "cw_ListItemsWithResponse cw backend entity (Some lparams) [] = ListItemsWithResponse do backend entity lparams"
    "cw_CreateItemWithResponse cw backend entity body [] = CreateItemWithResponse do backend entity body"
    "cw_BulkUpdateWithResponse cw backend entity bulk [] = BulkUpdateWithResponse do backend entity bulk"
    "cw_DeleteItemByIdWithResponse cw backend entity item [] = DeleteItemByIdWithResponse do backend entity item"
    "cw_GetItemByIdWithResponse cw backend entity item [] = GetItemByIdWithResponse do backend entity item"
    "cw_ExistsItemByIdWithResponse cw backend entity item [] = ExistsItemByIdWithResponse do backend entity item"
    "cw_UpdateItemByIdWithResponse cw backend entity item body [] = UpdateItemByIdWithResponse do backend entity item body"
  by (simp_all add: cw_def do_def ClientWithResponses_methods_def Client_methods_def parse_sent_def with_response_def
    ListBackendsWithResponse_def QueryNamedWithResponse_def ListEntitiesWithResponse_def ListItemsWithResponse_def CreateItemWithResponse_def BulkUpdateWithResponse_def DeleteItemByIdWithResponse_def GetItemByIdWithResponse_def ExistsItemByIdWithResponse_def UpdateItemByIdWithResponse_def)

section \<open>Typed clients\<close>

text \<open>\<^verbatim>\<open>'i\<close> is what the code has as a pointer to an item.\<close>

record ('s, 'i) GenericInterface =
  gi_Query :: "string \<Rightarrow> qryData option \<Rightarrow> string list \<Rightarrow> ('s, goerr + PagedResult option) prog"
  gi_List :: "qryData option \<Rightarrow> ('s, goerr + 'i list \<times> int) prog"
  gi_Create :: "'i \<Rightarrow> ('s, goerr + 'i) prog"
  gi_Get :: "string \<Rightarrow> ('s, goerr + 'i) prog"
  gi_Delete :: "string \<Rightarrow> ('s, goerr option) prog"
  gi_Update :: "string \<Rightarrow> 'i \<Rightarrow> ('s, goerr + 'i) prog"
  gi_BulkUpdate :: "'i list \<Rightarrow> string \<Rightarrow> ('s, goerr option) prog"

definition generic_methods :: "'s transport \<Rightarrow> (gval \<Rightarrow> string) \<Rightarrow> 't generic \<Rightarrow> ('s, 't) GenericInterface" where
  "generic_methods do enc g = \<lparr>
     gi_Query = client_Query do g,
     gi_List = client_List do enc g,
     gi_Create = client_Create do g,
     gi_Get = client_Get do g,
     gi_Delete = client_Delete do g,
     gi_Update = client_Update do g,
     gi_BulkUpdate = client_BulkUpdate do g\<rparr>"

definition memory_methods :: "('t, 'n) dom_ops \<Rightarrow> (gval \<Rightarrow> gval \<Rightarrow> bool) \<Rightarrow> (nat \<Rightarrow> nat \<Rightarrow> nat) \<Rightarrow> 't key_fn \<Rightarrow>
    ('t store, ptr) GenericInterface" where
  "memory_methods dm eq spare isKeyFn = \<lparr>
     gi_Query = im_Query,
     gi_List = (\<lambda>q. pbind (plift (deref q)) (im_List dm eq spare)),
     gi_Create = im_Create,
     gi_Get = im_Get isKeyFn,
     gi_Delete = im_Delete isKeyFn,
     gi_Update = im_Update isKeyFn,
     gi_BulkUpdate = im_BulkUpdate\<rparr>"

section \<open>Operations on a backend\<close>

record ('d, 'c) CrudInterface =
  cr_ListEntities :: "(('d, 'c) world, goerr + string list) prog"
  cr_ListItems :: "string \<Rightarrow> qryData option \<Rightarrow> (('d, 'c) world, goerr + PagedResult) prog"
  cr_Exists :: "string \<Rightarrow> string \<Rightarrow> (('d, 'c) world, goerr + bool) prog"
  cr_Get :: "string \<Rightarrow> string \<Rightarrow> (('d, 'c) world, goerr + gmap option) prog"
  cr_Update :: "string \<Rightarrow> string \<Rightarrow> gmap \<Rightarrow> (('d, 'c) world, goerr + gmap option) prog"
  cr_Create :: "string \<Rightarrow> gmap \<Rightarrow> (('d, 'c) world, goerr + gmap option) prog"
  cr_Delete :: "string \<Rightarrow> string \<Rightarrow> (('d, 'c) world, goerr option) prog"
  cr_MultiDelete :: "string \<Rightarrow> gval list \<Rightarrow> (('d, 'c) world, goerr option) prog"
  cr_MultiUpdate :: "string \<Rightarrow> gmap list \<Rightarrow> (('d, 'c) world, goerr option) prog"
  cr_MultiCreate :: "string \<Rightarrow> bool \<Rightarrow> gmap list \<Rightarrow> (('d, 'c) world, goerr option) prog"
  cr_QueryNamed :: "string \<Rightarrow> qryData option \<Rightarrow> gval list \<Rightarrow> (('d, 'c) world, goerr + PagedResult) prog"

definition impl_methods :: "('d, 'c) impl \<Rightarrow> ('d, 'c) CrudInterface" where
  "impl_methods be = \<lparr>
     cr_ListEntities = ListEntities be,
     cr_ListItems = ListItems be,
     cr_Exists = Exists be,
     cr_Get = Get be,
     cr_Update = Update be,
     cr_Create = Create be,
     cr_Delete = Delete be,
     cr_MultiDelete = MultiDelete be,
     cr_MultiUpdate = MultiUpdate be,
     cr_MultiCreate = MultiCreate be,
     cr_QueryNamed = QueryNamed be\<rparr>"

end
