(* ===== verification/Api_Responses.thy ===== *)
theory Api_Responses
  imports Api_Client
begin

text \<open>
  The eleven response types of \<^verbatim>\<open>pkg/api/gen.go\<close> with their accessors. \<^theory_text>\<open>Api_Client\<close> parses every response
  to one record; here each \<^verbatim>\<open>Parse...Response\<close> fills the struct of its operation, and a locale states
  what the accessors of all of them have in common.
\<close>

section \<open>What the types share\<close>

text \<open>The status line of a response comes with it: \<^verbatim>\<open>http.Response\<close> has it beside the number.\<close>

record full_response = http_response +
  hr_Status :: string

record response_struct =
  re_Body :: string
  re_HTTPResponse :: "full_response option"

definition re_Status :: "'m response_struct_scheme \<Rightarrow> string" where
  "re_Status r = (case re_HTTPResponse r of Some rsp \<Rightarrow> hr_Status rsp | None \<Rightarrow> [])"

definition re_StatusCode :: "'m response_struct_scheme \<Rightarrow> int" where
  "re_StatusCode r = (case re_HTTPResponse r of Some rsp \<Rightarrow> hr_StatusCode rsp | None \<Rightarrow> 0)"

definition re_ContentType :: "'m response_struct_scheme \<Rightarrow> string" where
  "re_ContentType r = (case re_HTTPResponse r of Some rsp \<Rightarrow> hr_ContentType rsp | None \<Rightarrow> [])"

text \<open>The payload behind a pointer of a known type.\<close>

fun to_names :: "payload \<Rightarrow> string list option" where
  "to_names (JNames ns) = Some ns" | "to_names p = None"

fun to_paged :: "payload \<Rightarrow> PagedResult option" where
  "to_paged (JPaged r) = Some r" | "to_paged p = None"

fun to_dto :: "payload \<Rightarrow> gmap option" where
  "to_dto (JDto m) = Some m" | "to_dto p = None"

fun to_error :: "payload \<Rightarrow> ErrorObject option" where
  "to_error (JError e) = Some e" | "to_error p = None"

definition json_as :: "(payload \<Rightarrow> 'a option) \<Rightarrow> int \<Rightarrow> payload api_response \<Rightarrow> 'a option" where
  "json_as f status r = Option.bind (json_for status r) f"

definition json_at :: "int \<Rightarrow> 'v api_response \<Rightarrow> 'v option" where
  "json_at status r = (case rs_JSON r of Some (s, v) \<Rightarrow> if s = status then Some v else None | None \<Rightarrow> None)"

text \<open>A generated \<^verbatim>\<open>Parse...Response\<close>: read the body, then make the struct and fill its pointers.\<close>

definition typed_parse :: "(http_response \<Rightarrow> goerr + 'p api_response) \<Rightarrow> (string \<Rightarrow> full_response option \<Rightarrow> 'p api_response \<Rightarrow> 'r) \<Rightarrow>
    full_response \<Rightarrow> goerr + 'r" where
  "typed_parse parse build rsp =
     (case parse (http_response.truncate rsp) of Inl err \<Rightarrow> Inl err | Inr r \<Rightarrow> Inr (build (rs_BodyText r) (Some rsp) r))"

section \<open>\<^verbatim>\<open>ListBackendsResponse\<close>\<close>

record ListBackendsResponse = response_struct +
  lb_JSON200 :: "string list option"

definition ListBackendsResponse_GetJSON200 :: "ListBackendsResponse \<Rightarrow> string list option" where
  "ListBackendsResponse_GetJSON200 r = lb_JSON200 r"

definition ListBackendsResponse_GetBody :: "ListBackendsResponse \<Rightarrow> string" where
  "ListBackendsResponse_GetBody r = re_Body r"

definition ListBackendsResponse_Status :: "ListBackendsResponse \<Rightarrow> string" where
  "ListBackendsResponse_Status r = re_Status r"

definition ListBackendsResponse_StatusCode :: "ListBackendsResponse \<Rightarrow> int" where
  "ListBackendsResponse_StatusCode r = re_StatusCode r"

definition ListBackendsResponse_ContentType :: "ListBackendsResponse \<Rightarrow> string" where
  "ListBackendsResponse_ContentType r = re_ContentType r"

definition ListBackends_typed :: "full_response \<Rightarrow> goerr + ListBackendsResponse" where
  "ListBackends_typed = typed_parse ParseListBackendsResponse
     (\<lambda>body rsp r. \<lparr>re_Body = body, re_HTTPResponse = rsp, lb_JSON200 = json_as to_names 200 r\<rparr>)"

section \<open>\<^verbatim>\<open>GetVersionInfoResponse\<close>\<close>

record 'v GetVersionInfoResponse = response_struct +
  gv_JSON200 :: "'v option"

definition GetVersionInfoResponse_GetJSON200 :: "'v GetVersionInfoResponse \<Rightarrow> 'v option" where
  "GetVersionInfoResponse_GetJSON200 r = gv_JSON200 r"

definition GetVersionInfoResponse_GetBody :: "'v GetVersionInfoResponse \<Rightarrow> string" where
  "GetVersionInfoResponse_GetBody r = re_Body r"

definition GetVersionInfoResponse_Status :: "'v GetVersionInfoResponse \<Rightarrow> string" where
  "GetVersionInfoResponse_Status r = re_Status r"

definition GetVersionInfoResponse_StatusCode :: "'v GetVersionInfoResponse \<Rightarrow> int" where
  "GetVersionInfoResponse_StatusCode r = re_StatusCode r"

definition GetVersionInfoResponse_ContentType :: "'v GetVersionInfoResponse \<Rightarrow> string" where
  "GetVersionInfoResponse_ContentType r = re_ContentType r"

definition GetVersionInfo_typed :: "(gval \<Rightarrow> 'v option) \<Rightarrow> full_response \<Rightarrow> goerr + 'v GetVersionInfoResponse" where
  "GetVersionInfo_typed dec_version = typed_parse (ParseGetVersionInfoResponse dec_version) (\<lambda>body rsp r. \<lparr>re_Body = body, re_HTTPResponse = rsp, gv_JSON200 = json_at 200 r\<rparr>)"

section \<open>\<^verbatim>\<open>QueryNamedResponse\<close>\<close>

record QueryNamedResponse = response_struct +
  qr_JSON200 :: "PagedResult option"
  qr_JSON404 :: "ErrorObject option"

definition QueryNamedResponse_GetJSON200 :: "QueryNamedResponse \<Rightarrow> PagedResult option" where
  "QueryNamedResponse_GetJSON200 r = qr_JSON200 r"

definition QueryNamedResponse_GetJSON404 :: "QueryNamedResponse \<Rightarrow> ErrorObject option" where
  "QueryNamedResponse_GetJSON404 r = qr_JSON404 r"

definition QueryNamedResponse_GetBody :: "QueryNamedResponse \<Rightarrow> string" where
  "QueryNamedResponse_GetBody r = re_Body r"

definition QueryNamedResponse_Status :: "QueryNamedResponse \<Rightarrow> string" where
  "QueryNamedResponse_Status r = re_Status r"

definition QueryNamedResponse_StatusCode :: "QueryNamedResponse \<Rightarrow> int" where
  "QueryNamedResponse_StatusCode r = re_StatusCode r"

definition QueryNamedResponse_ContentType :: "QueryNamedResponse \<Rightarrow> string" where
  "QueryNamedResponse_ContentType r = re_ContentType r"

definition QueryNamed_typed :: "full_response \<Rightarrow> goerr + QueryNamedResponse" where
  "QueryNamed_typed = typed_parse ParseQueryNamedResponse
     (\<lambda>body rsp r. \<lparr>re_Body = body, re_HTTPResponse = rsp, qr_JSON200 = json_as to_paged 200 r, qr_JSON404 = json_as to_error 404 r\<rparr>)"

section \<open>\<^verbatim>\<open>ListEntitiesResponse\<close>\<close>

record ListEntitiesResponse = response_struct +
  le_JSON200 :: "string list option"

definition ListEntitiesResponse_GetJSON200 :: "ListEntitiesResponse \<Rightarrow> string list option" where
  "ListEntitiesResponse_GetJSON200 r = le_JSON200 r"

definition ListEntitiesResponse_GetBody :: "ListEntitiesResponse \<Rightarrow> string" where
  "ListEntitiesResponse_GetBody r = re_Body r"

definition ListEntitiesResponse_Status :: "ListEntitiesResponse \<Rightarrow> string" where
  "ListEntitiesResponse_Status r = re_Status r"

definition ListEntitiesResponse_StatusCode :: "ListEntitiesResponse \<Rightarrow> int" where
  "ListEntitiesResponse_StatusCode r = re_StatusCode r"

definition ListEntitiesResponse_ContentType :: "ListEntitiesResponse \<Rightarrow> string" where
  "ListEntitiesResponse_ContentType r = re_ContentType r"

definition ListEntities_typed :: "full_response \<Rightarrow> goerr + ListEntitiesResponse" where
  "ListEntities_typed = typed_parse ParseListEntitiesResponse
     (\<lambda>body rsp r. \<lparr>re_Body = body, re_HTTPResponse = rsp, le_JSON200 = json_as to_names 200 r\<rparr>)"

section \<open>\<^verbatim>\<open>ListItemsResponse\<close>\<close>

record ListItemsResponse = response_struct +
  li_JSON200 :: "PagedResult option"

definition ListItemsResponse_GetJSON200 :: "ListItemsResponse \<Rightarrow> PagedResult option" where
  "ListItemsResponse_GetJSON200 r = li_JSON200 r"

definition ListItemsResponse_GetBody :: "ListItemsResponse \<Rightarrow> string" where
  "ListItemsResponse_GetBody r = re_Body r"

definition ListItemsResponse_Status :: "ListItemsResponse \<Rightarrow> string" where
  "ListItemsResponse_Status r = re_Status r"

definition ListItemsResponse_StatusCode :: "ListItemsResponse \<Rightarrow> int" where
  "ListItemsResponse_StatusCode r = re_StatusCode r"

definition ListItemsResponse_ContentType :: "ListItemsResponse \<Rightarrow> string" where
  "ListItemsResponse_ContentType r = re_ContentType r"

definition ListItems_typed :: "full_response \<Rightarrow> goerr + ListItemsResponse" where
  "ListItems_typed = typed_parse ParseListItemsResponse
     (\<lambda>body rsp r. \<lparr>re_Body = body, re_HTTPResponse = rsp, li_JSON200 = json_as to_paged 200 r\<rparr>)"

section \<open>\<^verbatim>\<open>CreateItemResponse\<close>\<close>

record CreateItemResponse = response_struct +
  cr_JSON201 :: "gmap option"
  cr_JSON500 :: "ErrorObject option"

definition CreateItemResponse_GetJSON201 :: "CreateItemResponse \<Rightarrow> gmap option" where
  "CreateItemResponse_GetJSON201 r = cr_JSON201 r"

definition CreateItemResponse_GetJSON500 :: "CreateItemResponse \<Rightarrow> ErrorObject option" where
  "CreateItemResponse_GetJSON500 r = cr_JSON500 r"

definition CreateItemResponse_GetBody :: "CreateItemResponse \<Rightarrow> string" where
  "CreateItemResponse_GetBody r = re_Body r"

definition CreateItemResponse_Status :: "CreateItemResponse \<Rightarrow> string" where
  "CreateItemResponse_Status r = re_Status r"

definition CreateItemResponse_StatusCode :: "CreateItemResponse \<Rightarrow> int" where
  "CreateItemResponse_StatusCode r = re_StatusCode r"

definition CreateItemResponse_ContentType :: "CreateItemResponse \<Rightarrow> string" where
  "CreateItemResponse_ContentType r = re_ContentType r"

definition CreateItem_typed :: "full_response \<Rightarrow> goerr + CreateItemResponse" where
  "CreateItem_typed = typed_parse ParseCreateItemResponse
     (\<lambda>body rsp r. \<lparr>re_Body = body, re_HTTPResponse = rsp, cr_JSON201 = json_as to_dto 201 r, cr_JSON500 = json_as to_error 500 r\<rparr>)"

section \<open>\<^verbatim>\<open>BulkUpdateResponse\<close>\<close>

definition BulkUpdateResponse_GetBody :: "response_struct \<Rightarrow> string" where
  "BulkUpdateResponse_GetBody r = re_Body r"

definition BulkUpdateResponse_Status :: "response_struct \<Rightarrow> string" where
  "BulkUpdateResponse_Status r = re_Status r"

definition BulkUpdateResponse_StatusCode :: "response_struct \<Rightarrow> int" where
  "BulkUpdateResponse_StatusCode r = re_StatusCode r"

definition BulkUpdateResponse_ContentType :: "response_struct \<Rightarrow> string" where
  "BulkUpdateResponse_ContentType r = re_ContentType r"

definition BulkUpdate_typed :: "full_response \<Rightarrow> goerr + response_struct" where
  "BulkUpdate_typed = typed_parse ParseBulkUpdateResponse (\<lambda>body rsp r. \<lparr>re_Body = body, re_HTTPResponse = rsp\<rparr>)"

section \<open>\<^verbatim>\<open>DeleteItemByIdResponse\<close>\<close>

definition DeleteItemByIdResponse_GetBody :: "response_struct \<Rightarrow> string" where
  "DeleteItemByIdResponse_GetBody r = re_Body r"

definition DeleteItemByIdResponse_Status :: "response_struct \<Rightarrow> string" where
  "DeleteItemByIdResponse_Status r = re_Status r"

definition DeleteItemByIdResponse_StatusCode :: "response_struct \<Rightarrow> int" where
  "DeleteItemByIdResponse_StatusCode r = re_StatusCode r"

definition DeleteItemByIdResponse_ContentType :: "response_struct \<Rightarrow> string" where
  "DeleteItemByIdResponse_ContentType r = re_ContentType r"

definition DeleteItemById_typed :: "full_response \<Rightarrow> goerr + response_struct" where
  "DeleteItemById_typed = typed_parse ParseDeleteItemByIdResponse
     (\<lambda>body rsp r. \<lparr>re_Body = body, re_HTTPResponse = rsp\<rparr>)"

section \<open>\<^verbatim>\<open>GetItemByIdResponse\<close>\<close>

record GetItemByIdResponse = response_struct +
  gr_JSON200 :: "gmap option"
  gr_JSON404 :: "ErrorObject option"

definition GetItemByIdResponse_GetJSON200 :: "GetItemByIdResponse \<Rightarrow> gmap option" where
  "GetItemByIdResponse_GetJSON200 r = gr_JSON200 r"

definition GetItemByIdResponse_GetJSON404 :: "GetItemByIdResponse \<Rightarrow> ErrorObject option" where
  "GetItemByIdResponse_GetJSON404 r = gr_JSON404 r"

definition GetItemByIdResponse_GetBody :: "GetItemByIdResponse \<Rightarrow> string" where
  "GetItemByIdResponse_GetBody r = re_Body r"

definition GetItemByIdResponse_Status :: "GetItemByIdResponse \<Rightarrow> string" where
  "GetItemByIdResponse_Status r = re_Status r"

definition GetItemByIdResponse_StatusCode :: "GetItemByIdResponse \<Rightarrow> int" where
  "GetItemByIdResponse_StatusCode r = re_StatusCode r"

definition GetItemByIdResponse_ContentType :: "GetItemByIdResponse \<Rightarrow> string" where
  "GetItemByIdResponse_ContentType r = re_ContentType r"

definition GetItemById_typed :: "full_response \<Rightarrow> goerr + GetItemByIdResponse" where
  "GetItemById_typed = typed_parse ParseGetItemByIdResponse
     (\<lambda>body rsp r. \<lparr>re_Body = body, re_HTTPResponse = rsp, gr_JSON200 = json_as to_dto 200 r, gr_JSON404 = json_as to_error 404 r\<rparr>)"

section \<open>\<^verbatim>\<open>ExistsItemByIdResponse\<close>\<close>

definition ExistsItemByIdResponse_GetBody :: "response_struct \<Rightarrow> string" where
  "ExistsItemByIdResponse_GetBody r = re_Body r"

definition ExistsItemByIdResponse_Status :: "response_struct \<Rightarrow> string" where
  "ExistsItemByIdResponse_Status r = re_Status r"

definition ExistsItemByIdResponse_StatusCode :: "response_struct \<Rightarrow> int" where
  "ExistsItemByIdResponse_StatusCode r = re_StatusCode r"

definition ExistsItemByIdResponse_ContentType :: "response_struct \<Rightarrow> string" where
  "ExistsItemByIdResponse_ContentType r = re_ContentType r"

definition ExistsItemById_typed :: "full_response \<Rightarrow> goerr + response_struct" where
  "ExistsItemById_typed = typed_parse ParseExistsItemByIdResponse
     (\<lambda>body rsp r. \<lparr>re_Body = body, re_HTTPResponse = rsp\<rparr>)"

section \<open>\<^verbatim>\<open>UpdateItemByIdResponse\<close>\<close>

record UpdateItemByIdResponse = response_struct +
  ur_JSON202 :: "gmap option"
  ur_JSON404 :: "ErrorObject option"

definition UpdateItemByIdResponse_GetJSON202 :: "UpdateItemByIdResponse \<Rightarrow> gmap option" where
  "UpdateItemByIdResponse_GetJSON202 r = ur_JSON202 r"

definition UpdateItemByIdResponse_GetJSON404 :: "UpdateItemByIdResponse \<Rightarrow> ErrorObject option" where
  "UpdateItemByIdResponse_GetJSON404 r = ur_JSON404 r"

definition UpdateItemByIdResponse_GetBody :: "UpdateItemByIdResponse \<Rightarrow> string" where
  "UpdateItemByIdResponse_GetBody r = re_Body r"

definition UpdateItemByIdResponse_Status :: "UpdateItemByIdResponse \<Rightarrow> string" where
  "UpdateItemByIdResponse_Status r = re_Status r"

definition UpdateItemByIdResponse_StatusCode :: "UpdateItemByIdResponse \<Rightarrow> int" where
  "UpdateItemByIdResponse_StatusCode r = re_StatusCode r"

definition UpdateItemByIdResponse_ContentType :: "UpdateItemByIdResponse \<Rightarrow> string" where
  "UpdateItemByIdResponse_ContentType r = re_ContentType r"

definition UpdateItemById_typed :: "full_response \<Rightarrow> goerr + UpdateItemByIdResponse" where
  "UpdateItemById_typed = typed_parse ParseUpdateItemByIdResponse
     (\<lambda>body rsp r. \<lparr>re_Body = body, re_HTTPResponse = rsp, ur_JSON202 = json_as to_dto 202 r, ur_JSON404 = json_as to_error 404 r\<rparr>)"

section \<open>The contract of all of them\<close>

text \<open>What the accessors of a parsed response return is what the transport handed over: the whole body as
  text, the status and the content type.\<close>

locale typed_response =
  fixes parse :: "full_response \<Rightarrow> goerr + 'r"
    and body status ctype :: "'r \<Rightarrow> string" and code :: "'r \<Rightarrow> int"
  assumes parsed: "parse rsp = Inr r \<Longrightarrow>
    hr_Body rsp = Inr (body r) \<and> code r = hr_StatusCode rsp \<and> status r = hr_Status rsp \<and> ctype r = hr_ContentType rsp"
begin

lemma unreadable: "hr_Body rsp = Inl err \<Longrightarrow> parse rsp \<noteq> Inr r"
  using parsed [of rsp r] by auto

lemma same_answer: "parse rsp = Inr r \<Longrightarrow> parse rsp' = Inr r \<Longrightarrow> http_response.truncate rsp = http_response.truncate rsp'"
  using parsed [of rsp r] parsed [of rsp' r] by (cases rsp; cases rsp') (simp add: http_response.defs)

end

lemma parse_response_body: "parse_response cases rsp = Inr r \<Longrightarrow> hr_Body rsp = Inr (rs_BodyText r)"
  by (auto simp: parse_response_def split: sum.splits)

lemmas re_defs = re_Status_def re_StatusCode_def re_ContentType_def

interpretation ListBackends_response: typed_response ListBackends_typed ListBackendsResponse_GetBody ListBackendsResponse_Status ListBackendsResponse_ContentType
    ListBackendsResponse_StatusCode
  by unfold_locales (auto simp: ListBackends_typed_def typed_parse_def ParseListBackendsResponse_def re_defs
    ListBackendsResponse_GetBody_def ListBackendsResponse_Status_def ListBackendsResponse_StatusCode_def ListBackendsResponse_ContentType_def
    http_response.defs dest: parse_response_body split: sum.splits)

interpretation GetVersionInfo_response: typed_response "GetVersionInfo_typed dec_version" GetVersionInfoResponse_GetBody GetVersionInfoResponse_Status GetVersionInfoResponse_ContentType
    GetVersionInfoResponse_StatusCode for dec_version
  by unfold_locales (auto simp: GetVersionInfo_typed_def typed_parse_def ParseGetVersionInfoResponse_def re_defs
    GetVersionInfoResponse_GetBody_def GetVersionInfoResponse_Status_def GetVersionInfoResponse_StatusCode_def GetVersionInfoResponse_ContentType_def
    http_response.defs dest: parse_response_body split: sum.splits)

interpretation QueryNamed_response: typed_response QueryNamed_typed QueryNamedResponse_GetBody QueryNamedResponse_Status QueryNamedResponse_ContentType
    QueryNamedResponse_StatusCode
  by unfold_locales (auto simp: QueryNamed_typed_def typed_parse_def ParseQueryNamedResponse_def re_defs
    QueryNamedResponse_GetBody_def QueryNamedResponse_Status_def QueryNamedResponse_StatusCode_def QueryNamedResponse_ContentType_def
    http_response.defs dest: parse_response_body split: sum.splits)

interpretation ListEntities_response: typed_response ListEntities_typed ListEntitiesResponse_GetBody ListEntitiesResponse_Status ListEntitiesResponse_ContentType
    ListEntitiesResponse_StatusCode
  by unfold_locales (auto simp: ListEntities_typed_def typed_parse_def ParseListEntitiesResponse_def re_defs
    ListEntitiesResponse_GetBody_def ListEntitiesResponse_Status_def ListEntitiesResponse_StatusCode_def ListEntitiesResponse_ContentType_def
    http_response.defs dest: parse_response_body split: sum.splits)

interpretation ListItems_response: typed_response ListItems_typed ListItemsResponse_GetBody ListItemsResponse_Status ListItemsResponse_ContentType
    ListItemsResponse_StatusCode
  by unfold_locales (auto simp: ListItems_typed_def typed_parse_def ParseListItemsResponse_def re_defs
    ListItemsResponse_GetBody_def ListItemsResponse_Status_def ListItemsResponse_StatusCode_def ListItemsResponse_ContentType_def
    http_response.defs dest: parse_response_body split: sum.splits)

interpretation CreateItem_response: typed_response CreateItem_typed CreateItemResponse_GetBody CreateItemResponse_Status CreateItemResponse_ContentType
    CreateItemResponse_StatusCode
  by unfold_locales (auto simp: CreateItem_typed_def typed_parse_def ParseCreateItemResponse_def re_defs
    CreateItemResponse_GetBody_def CreateItemResponse_Status_def CreateItemResponse_StatusCode_def CreateItemResponse_ContentType_def
    http_response.defs dest: parse_response_body split: sum.splits)

interpretation BulkUpdate_response: typed_response BulkUpdate_typed BulkUpdateResponse_GetBody BulkUpdateResponse_Status BulkUpdateResponse_ContentType
    BulkUpdateResponse_StatusCode
  by unfold_locales (auto simp: BulkUpdate_typed_def typed_parse_def ParseBulkUpdateResponse_def re_defs
    BulkUpdateResponse_GetBody_def BulkUpdateResponse_Status_def BulkUpdateResponse_StatusCode_def BulkUpdateResponse_ContentType_def
    http_response.defs dest: parse_response_body split: sum.splits)

interpretation DeleteItemById_response: typed_response DeleteItemById_typed DeleteItemByIdResponse_GetBody DeleteItemByIdResponse_Status DeleteItemByIdResponse_ContentType
    DeleteItemByIdResponse_StatusCode
  by unfold_locales (auto simp: DeleteItemById_typed_def typed_parse_def ParseDeleteItemByIdResponse_def re_defs
    DeleteItemByIdResponse_GetBody_def DeleteItemByIdResponse_Status_def DeleteItemByIdResponse_StatusCode_def DeleteItemByIdResponse_ContentType_def
    http_response.defs dest: parse_response_body split: sum.splits)

interpretation GetItemById_response: typed_response GetItemById_typed GetItemByIdResponse_GetBody GetItemByIdResponse_Status GetItemByIdResponse_ContentType
    GetItemByIdResponse_StatusCode
  by unfold_locales (auto simp: GetItemById_typed_def typed_parse_def ParseGetItemByIdResponse_def re_defs
    GetItemByIdResponse_GetBody_def GetItemByIdResponse_Status_def GetItemByIdResponse_StatusCode_def GetItemByIdResponse_ContentType_def
    http_response.defs dest: parse_response_body split: sum.splits)

interpretation ExistsItemById_response: typed_response ExistsItemById_typed ExistsItemByIdResponse_GetBody ExistsItemByIdResponse_Status ExistsItemByIdResponse_ContentType
    ExistsItemByIdResponse_StatusCode
  by unfold_locales (auto simp: ExistsItemById_typed_def typed_parse_def ParseExistsItemByIdResponse_def re_defs
    ExistsItemByIdResponse_GetBody_def ExistsItemByIdResponse_Status_def ExistsItemByIdResponse_StatusCode_def ExistsItemByIdResponse_ContentType_def
    http_response.defs dest: parse_response_body split: sum.splits)

interpretation UpdateItemById_response: typed_response UpdateItemById_typed UpdateItemByIdResponse_GetBody UpdateItemByIdResponse_Status UpdateItemByIdResponse_ContentType
    UpdateItemByIdResponse_StatusCode
  by unfold_locales (auto simp: UpdateItemById_typed_def typed_parse_def ParseUpdateItemByIdResponse_def re_defs
    UpdateItemByIdResponse_GetBody_def UpdateItemByIdResponse_Status_def UpdateItemByIdResponse_StatusCode_def UpdateItemByIdResponse_ContentType_def
    http_response.defs dest: parse_response_body split: sum.splits)

text \<open>A JSON pointer is set only for the status of the response, and when the content type says JSON.\<close>

lemma parse_cases_status:
  "parse_cases ct code body cs = Inr (Some (st, p)) \<Longrightarrow> st = code \<and> contains_json ct"
  by (induction ct code body cs rule: parse_cases.induct) (auto split: option.splits if_splits)

lemma json_as_status:
  assumes "parse_response cases rsp = Inr r" "json_as f status r = Some x"
  shows "status = hr_StatusCode rsp \<and> contains_json (hr_ContentType rsp)"
proof -
  obtain st p where j: "rs_JSON r = Some (st, p)" "st = status"
    using assms(2) by (cases "rs_JSON r") (auto simp: json_as_def json_for_def split: if_splits)
  then obtain body where "parse_cases (hr_ContentType rsp) (hr_StatusCode rsp) body cases = Inr (Some (st, p))"
    using assms(1) by (auto simp: parse_response_def split: sum.splits)
  from parse_cases_status [OF this] j(2) show ?thesis by simp
qed

end
