(* ===== verification/Api_Spec.thy ===== *)
theory Api_Spec
  imports Std_Codec Go_Effects
begin

text \<open>
  The accessors of the OpenAPI document embedded in \<^verbatim>\<open>pkg/api/gen.go\<close>. The document itself (base64 over
  compressed JSON), decompression, the loader of the \<^verbatim>\<open>openapi3\<close> package and the table of the imported
  package are parameters; \<^verbatim>\<open>path.Clean\<close>, \<^verbatim>\<open>path.Dir\<close> and \<^verbatim>\<open>path.Join\<close> are written out.
\<close>

section \<open>Paths\<close>

text \<open>One component of a path: empty ones and dots go, two dots take the one before with them.\<close>

definition clean_step :: "bool \<Rightarrow> string list \<Rightarrow> string \<Rightarrow> string list" where
  "clean_step rooted out c =
     (if c = [] \<or> c = ''.'' then out
      else if c = ''..'' then
        (if out \<noteq> [] \<and> last out \<noteq> ''..'' then butlast out else if rooted then out else out @ [c])
      else out @ [c])"

definition path_Clean :: "string \<Rightarrow> string" where
  "path_Clean p =
     (let rooted = (p \<noteq> [] \<and> hd p = CHR ''/'');
          cleaned = join ''/'' (foldl (clean_step rooted) [] (split_on (CHR ''/'') p))
      in if rooted then CHR ''/'' # cleaned else if cleaned = [] then ''.'' else cleaned)"

definition path_Dir :: "string \<Rightarrow> string" where
  "path_Dir p = path_Clean (rev (dropWhile (\<lambda>c. c \<noteq> CHR ''/'') (rev p)))"

definition path_Join :: "string list \<Rightarrow> string" where
  "path_Join parts = (case filter (\<lambda>e. e \<noteq> []) parts of [] \<Rightarrow> [] | es \<Rightarrow> path_Clean (join ''/'' es))"

section \<open>The document\<close>

text \<open>The messages of the errors leave out the text of the error they wrap.\<close>

definition decodeSpec :: "string list \<Rightarrow> (nat list \<Rightarrow> goerr + nat list) \<Rightarrow> goerr + nat list" where
  "decodeSpec swaggerSpec inflate =
     (case b64_decode (concat swaggerSpec) of
        None \<Rightarrow> Inl (PlainError ''error base64 decoding spec'')
      | Some compressed \<Rightarrow>
          (case inflate compressed of Inl err \<Rightarrow> Inl (PlainError ''read flate'') | Inr data \<Rightarrow> Inr data))"

text \<open>\<^verbatim>\<open>rawSpec\<close> is a function that returns what was decoded when the package was loaded.\<close>

type_synonym raw_spec = "goerr + nat list"

definition rawSpec :: "string list \<Rightarrow> (nat list \<Rightarrow> goerr + nat list) \<Rightarrow> raw_spec" where
  "rawSpec swaggerSpec inflate = decodeSpec swaggerSpec inflate"

definition types_spec_url :: string where
  "types_spec_url = ''https://github.com/rkosegi/go-http-commons/releases/download/v0.0.4/api.types-spec.yaml''"

definition PathToRawSpec :: "raw_spec \<Rightarrow> (string \<Rightarrow> string \<rightharpoonup> raw_spec) \<Rightarrow> string \<Rightarrow> string \<rightharpoonup> raw_spec" where
  "PathToRawSpec raw externalRef0 pathToFile =
     (if length pathToFile > 0 then [pathToFile \<mapsto> raw] else Map.empty) ++
     externalRef0 (path_Join [path_Dir pathToFile, types_spec_url])"

text \<open>What the loader asks for a reference of the document, given by the text of its URL.\<close>

definition spec_resolver :: "(string \<rightharpoonup> raw_spec) \<Rightarrow> string \<Rightarrow> raw_spec" where
  "spec_resolver resolvePath url =
     (let pathToFile = path_Clean url
      in case resolvePath pathToFile of
           None \<Rightarrow> Inl (PlainError (''path not found: '' @ pathToFile))
         | Some spec \<Rightarrow> spec)"

definition GetSpec :: "raw_spec \<Rightarrow> (string \<Rightarrow> string \<rightharpoonup> raw_spec) \<Rightarrow>
    ((string \<Rightarrow> raw_spec) \<Rightarrow> nat list \<Rightarrow> goerr + 'doc) \<Rightarrow> goerr + 'doc" where
  "GetSpec raw externalRef0 load =
     (case raw of
        Inl err \<Rightarrow> Inl err
      | Inr specData \<Rightarrow> load (spec_resolver (PathToRawSpec raw externalRef0 [])) specData)"

definition GetSpecJSON :: "raw_spec \<Rightarrow> raw_spec" where
  "GetSpecJSON raw = raw"

definition GetSwagger :: "raw_spec \<Rightarrow> (string \<Rightarrow> string \<rightharpoonup> raw_spec) \<Rightarrow>
    ((string \<Rightarrow> raw_spec) \<Rightarrow> nat list \<Rightarrow> goerr + 'doc) \<Rightarrow> goerr + 'doc" where
  "GetSwagger = GetSpec"

section \<open>References\<close>

text \<open>The reference of the document is found: cleaning collapses the slashes after \<^verbatim>\<open>https:\<close>, in the key of
  the table and in what the loader asks for alike.\<close>

lemma types_spec_key: "path_Join [path_Dir [], types_spec_url] = path_Clean types_spec_url"
  by code_simp

lemma types_spec_resolved:
  assumes "\<And>p. externalRef0 p p = Some spec"
  shows "spec_resolver (PathToRawSpec raw externalRef0 []) types_spec_url = spec"
  using assms by (simp add: spec_resolver_def PathToRawSpec_def Let_def types_spec_key)

text \<open>Nothing else is: with a table of the one document, any other reference is an error, so that loading never
  leaves the program.\<close>

lemma others_not_found:
  assumes "\<And>p. dom (externalRef0 p) = {p}" "path_Clean url \<noteq> path_Clean types_spec_url"
  shows "spec_resolver (PathToRawSpec raw externalRef0 []) url = Inl (PlainError (''path not found: '' @ path_Clean url))"
proof -
  have "externalRef0 (path_Clean types_spec_url) (path_Clean url) = None"
    using assms by (metis domIff singletonD)
  then show ?thesis by (simp add: spec_resolver_def PathToRawSpec_def Let_def types_spec_key)
qed

end
