(* ===== verification/Spec2Isabelle.thy ===== *)
theory Spec2Isabelle
  imports Query_Properties Crud_Properties Client_Properties Server_Properties Main_Program Concurrent_Properties Metrics Client_Interfaces Api_Responses Api_Spec
begin

text \<open>
  A model of \<^verbatim>\<open>db2rest-bridge\<close>: a Go server that exposes the tables of SQL databases as a REST
  API, and the Go client library that talks to it (or keeps its items in memory). The theories
  follow the packages under \<^verbatim>\<open>src/pkg\<close>; every definition is translated from the code named beside
  its group.

  \<^bold>\<open>How the program works.\<close> A client builds a query with \<^verbatim>\<open>query.NewBuilder\<close> (filter expression,
  orders, page), sends it as request parameters (\<^verbatim>\<open>ToParams\<close>) and the server decodes it again
  (\<^verbatim>\<open>FromParams\<close>). A handler of \<^verbatim>\<open>pkg/server\<close> looks up the backend by name and calls an operation of
  \<^verbatim>\<open>pkg/crud\<close>, which checks the configured permission, renders the query or body as an SQL
  statement and runs it through \<^verbatim>\<open>database/sql\<close>; rows come back as maps from column names to values
  (\<^verbatim>\<open>mapEntity\<close>), and bodies are converted by column type on the way in (\<^verbatim>\<open>remapBody\<close>). Errors carry
  a status (\<^verbatim>\<open>ErrorWithStatus\<close>) or come from the driver, and the error mapper of the server turns
  both into a response, which the client parses (\<^verbatim>\<open>Parse...Response\<close>) and converts to items.

  \<^bold>\<open>The theories.\<close>

  \<^item> \<^theory_text>\<open>Bridge_Prelude\<close>: outcomes of Go code (a value or a panic), nil-able slices, the functions of
    \<^verbatim>\<open>strings\<close> in use, decimal printing. \<^theory_text>\<open>Go_Values\<close>: the dynamic values behind \<^verbatim>\<open>interface{}\<close>
    (\<^verbatim>\<open>gval\<close>) and their \<^verbatim>\<open>%v\<close> form; a \<^verbatim>\<open>float64\<close> is the decimal that Go prints for it.
    \<^theory_text>\<open>Go_Float\<close>: rounding of a decimal to the nearest IEEE double and back (\<^verbatim>\<open>f64_round\<close>), which integers
    below \<open>2 ^ 53\<close> survive.
    \<^theory_text>\<open>Go_Effects\<close>: error values, programs over a state that may panic (\<^verbatim>\<open>prog\<close>, \<^verbatim>\<open>pbind\<close>), and
    the predicate \<^verbatim>\<open>keeps\<close> for relations a program preserves.
  \<^item> \<^theory_text>\<open>Filter_Expr\<close>: \<^verbatim>\<open>pkg/query/filter.go\<close> and the decoder of \<^verbatim>\<open>codec.go\<close>: the six kinds of
    expression (\<^verbatim>\<open>fexpr\<close>), one \<^verbatim>\<open>String\<close> and one \<^verbatim>\<open>MarshalJSON\<close> each, the wrapper types of the API.
    \<^theory_text>\<open>Filter_Codec\<close>: decoding undoes marshalling. \<^theory_text>\<open>Filter_Sql\<close>: an abstract specification, the
    lexical rules and precedence grammar of SQL conditions, and that \<^verbatim>\<open>String\<close> refines it.
  \<^item> \<^theory_text>\<open>Json\<close>, \<^theory_text>\<open>Json_Roundtrip\<close>: what the program uses of \<^verbatim>\<open>encoding/json\<close> (printer with sorted keys
    and HTML escapes, parser) and that parsing undoes printing. The parser gives numbers as the decimals
    of the text; \<^verbatim>\<open>json_any\<close> of \<^theory_text>\<open>Filter_Expr\<close> makes them the \<^verbatim>\<open>float64\<close> values of an \<^verbatim>\<open>interface{}\<close>, in
    filters and in the values of items, and the integer fields of structs are read from the decimal.
  \<^item> \<^theory_text>\<open>Codec_Interface\<close>: the locales \<^verbatim>\<open>wire_codec\<close> and \<^verbatim>\<open>exact_codec\<close>, the contract of the two ends of
    the wire. \<^theory_text>\<open>Query\<close>: \<^verbatim>\<open>query.go\<close>, \<^verbatim>\<open>builder.go\<close> and the rest of \<^verbatim>\<open>codec.go\<close>; page offsets are
    64-bit words. \<^theory_text>\<open>Query_Codec\<close> interprets the contract for orders, offsets, filters and whole
    queries.
  \<^item> \<^theory_text>\<open>Sql_Builder\<close>: the statement builders of \<^verbatim>\<open>pkg/crud/misc.go\<close>, loops included.
    \<^theory_text>\<open>Std_Codec\<close>: base64, points in time and numbers as text. \<^theory_text>\<open>Database\<close>: \<^verbatim>\<open>database/sql\<close> with an
    arbitrary driver (a parameter with its own state), the trace of the calls it receives
    (\<^verbatim>\<open>w_calls\<close>), scanning of rows (\<^verbatim>\<open>mapValue\<close>, \<^verbatim>\<open>mapEntity\<close>).
  \<^item> \<^theory_text>\<open>Backend_Config\<close>: \<^verbatim>\<open>pkg/types/types.go\<close> (configuration, its normalisation, opening a database,
    \<^verbatim>\<open>ErrorWithStatus\<close>). \<^theory_text>\<open>Crud_Ops\<close>: \<^verbatim>\<open>pkg/crud/impl.go\<close> and \<^verbatim>\<open>types.go\<close>, one program per operation.
    \<^theory_text>\<open>Crud_Effects\<close>: which calls each operation makes. \<^theory_text>\<open>Crud_Tx\<close>: the locale \<^verbatim>\<open>tx_batch\<close> for
    batches in a transaction, interpreted on the loops of \<^verbatim>\<open>MultiUpdate\<close> and \<^verbatim>\<open>MultiCreate\<close>.
  \<^item> \<^theory_text>\<open>Client_Filter\<close>, \<^theory_text>\<open>Client_Memory\<close>: \<^verbatim>\<open>pkg/client/filter.go\<close>, \<^verbatim>\<open>inmemory.go\<close> (a slice of pointers
    over an explicit heap) and the batch loader. \<^theory_text>\<open>Api_Client\<close>: the types and responses of
    \<^verbatim>\<open>pkg/api/gen.go\<close> over an arbitrary transport. \<^theory_text>\<open>Client_Ops\<close>: \<^verbatim>\<open>ops.go\<close>, \<^verbatim>\<open>impl.go\<close>, \<^verbatim>\<open>misc.go\<close>;
    \<^theory_text>\<open>Typed_Client\<close>: \<^verbatim>\<open>New\<close> with the generated client it makes.
  \<^item> \<^theory_text>\<open>Net_Url\<close>, \<^theory_text>\<open>Url_Facts\<close>: what the program uses of \<^verbatim>\<open>net/url\<close> (escaping, parsing, resolving,
    queries), with its round trips. \<^theory_text>\<open>Api_Requests\<close>: the request builders and the client of \<^verbatim>\<open>gen.go\<close>.
  \<^item> \<^theory_text>\<open>Server\<close>: \<^verbatim>\<open>pkg/server\<close> and \<^verbatim>\<open>pkg/cmd/main.go\<close>: the response writer, the error mapper, one
    handler per operation, start (\<^verbatim>\<open>Run\<close>) and stop; \<^verbatim>\<open>serve\<close> calls the handler of a request.
    \<^theory_text>\<open>Api_Server\<close>: the server half of \<^verbatim>\<open>gen.go\<close> (parameter binding, middlewares, routes) and the
    handler that \<^verbatim>\<open>Run\<close> builds, with the callback for the metrics.
  \<^item> Client and server together: \<^theory_text>\<open>Wire\<close> states the laws of the imported styling, binding and routing
    functions, \<^theory_text>\<open>Routing\<close> which route a path takes, \<^theory_text>\<open>Deployment\<close> what a running server behind an address
    is (\<^verbatim>\<open>deployed\<close>) and how it answers (\<^verbatim>\<open>over_http\<close>), \<^theory_text>\<open>Request_Delivery\<close> that every request reaches its
    handler, \<^theory_text>\<open>Misrouted\<close> which do not, \<^theory_text>\<open>Reference_Deployment\<close> an instance of all the laws.
    \<^theory_text>\<open>End_To_End\<close>, \<^theory_text>\<open>Typed_List\<close>, \<^theory_text>\<open>Typed_Writes\<close>: the typed operations over it; \<^theory_text>\<open>Typed_Operation\<close>: the
    contract they share as a locale, and its interpretations. \<^theory_text>\<open>Load_All\<close>: the batch loader over all of it.
  \<^item> The server over time: \<^theory_text>\<open>Permissions\<close> shows which calls a backend's permissions let through, from the
    operations up to the HTTP handler, \<^theory_text>\<open>Main_Program\<close> lifts it to the program from \<^verbatim>\<open>main\<close> to its end;
    \<^theory_text>\<open>Server_Runs\<close>: runs of the server as a step relation, one request a step, with the rollback at the end
    of a request's context, and their transactions.
  \<^item> Requests at the same time: \<^theory_text>\<open>Replay\<close> runs a program on a list of replies and relates that to running it on a
    driver; \<^theory_text>\<open>Interleaving\<close> makes requests processes of one database call after the other (the locale
    \<^verbatim>\<open>coherent_process\<close>, interpreted on \<^verbatim>\<open>serve\<close>), with the pool of connections, schedules as an inductive
    relation and their invariant; \<^theory_text>\<open>Call_Bounds\<close> bounds the calls of the operations; \<^theory_text>\<open>Concurrency\<close> brackets the
    transactions of every request; \<^theory_text>\<open>Undisturbed\<close> relates a process alone to \<^verbatim>\<open>serve\<close>.
  \<^item> Interfaces: \<^theory_text>\<open>Filter_Interfaces\<close> (method sets, type assertions and the type switch of the in-memory client),
    \<^theory_text>\<open>Client_Interfaces\<close> (the interfaces of the generated client, of typed clients and of backends as records, and
    what implements them), \<^theory_text>\<open>Api_Responses\<close> (the eleven response structs with their accessors and the contract
    they share as a locale), \<^theory_text>\<open>Api_Spec\<close> (the accessors of the embedded OpenAPI document).
  \<^item> The numbered properties, each with a concrete instance, are in \<^theory_text>\<open>Query_Properties\<close>,
    \<^theory_text>\<open>Crud_Properties\<close>, \<^theory_text>\<open>Client_Properties\<close>, \<^theory_text>\<open>Server_Properties\<close>, \<^theory_text>\<open>Wire_Properties\<close>,
    \<^theory_text>\<open>Typed_Properties\<close>, \<^theory_text>\<open>Typed_Client\<close>, \<^theory_text>\<open>Load_All\<close>, \<^theory_text>\<open>Metrics\<close>, \<^theory_text>\<open>Main_Program\<close>,
    \<^theory_text>\<open>Server_Runs\<close> and \<^theory_text>\<open>Concurrent_Properties\<close>.

  \<^bold>\<open>What the properties show.\<close> The whole path: a request reaches the handler of its operation with
  the client's arguments (C1); loading a table through every layer down to the driver ends and loads
  all of it (C2); what each typed operation returns for what the server's operation returned, errors
  and panics included (C16 to C22; a named query also without arguments or paging); a typed client made for the server's address is connected to it
  (C34); which entities and ids cannot be addressed (C35, C36). Queries: they survive the wire
  (C3, C4), their SQL text means what the filter means (C5), and where filters lose their meaning or
  panic (C37 to C39). The database: over a whole run of the program it only sees what the configuration
  of its backend permits (C6), batches are atomic and one transaction with one statement for each object in order (C8, C9), no run leaves a
  transaction open (C10), though updates by numeric ids never work (C23), values and rows keep their
  meaning (C24, C25), statements have the intended shape (C32, C33). Requests at the same time: the
  permissions hold under every interleaving (C7), open transactions belong to running requests and
  respect the limit of the pool (C11), every schedule ends (C14), with enough connections nobody waits for
  ever (C13), with too few bulk inserts deadlock (C12), and a request that is not disturbed does what the
  handler does in one step (C15). The rest: the status of errors (C26), normalisation of the configuration
  (C27), the in-memory client and the loader (C28 to C31), the metrics (C40).

  \<^bold>\<open>Bounds.\<close> The JSON parser is structural in a fuel argument; \<^verbatim>\<open>json_decode\<close> gives it twice the
  length of the text and two, which \<^verbatim>\<open>json_decode_enc\<close> shows to be enough for every text the encoder writes. The
  condition reader of \<^theory_text>\<open>Filter_Sql\<close> is a specification with fuel; the properties hold for all fuel
  above a bound. The batch loader of the client may run for ever and is a
  \<^theory_text>\<open>partial_function (option)\<close>: C29 proves when it returns and when it does not. All other loops
  are recursive functions proved terminating. Go's \<^verbatim>\<open>int\<close> counters of slices are natural numbers or
  integers; \<^verbatim>\<open>uint64\<close> offsets are words, so that their conversion from signed parameters wraps as in
  the code. A \<^verbatim>\<open>float32\<close> (the page offset of a response) is rounded as the code's conversion does. Numbers
  decoded into an \<^verbatim>\<open>interface{}\<close> and DECIMAL columns are rounded to the nearest \<^verbatim>\<open>float64\<close> (C3 has an integer
  above \<open>2 ^ 53\<close> that changes), and a number beyond its range is an error; \<^verbatim>\<open>row_ok\<close> and \<^verbatim>\<open>filter_ok\<close> ask
  for values within it, which every integer of Go is.

  \<^bold>\<open>Conditions on text.\<close> Strings are bytes. \<^verbatim>\<open>encoding/json\<close> replaces bytes that are not UTF-8 by U+FFFD,
  which the model does not do: C3 and C4 ask for UTF-8, and the typed operations (C2, C16 to C22) are to be read for
  such texts as well. The reader of SQL in C5 has MySQL's tokens (words, numbers, operators, quoted
  text); comments, quoted and qualified identifiers, variables and escapes are no part of it and make a
  text unreadable, so that C5 does not speak of filters with such names. Its parameter \<^verbatim>\<open>reserved\<close> stands for
  the reserved words of the server beyond those of the grammar. \<^verbatim>\<open>DefaultFilter\<close>, whose text is
  \<^verbatim>\<open>1 AND '1'\<close>, is not a comparison and outside C5.

  \<^bold>\<open>What is a parameter.\<close> The driver and the state of the database, the metadata cache
  (\<^verbatim>\<open>cache_ops\<close>; its contract is \<^verbatim>\<open>cache_lawful\<close>, and \<^verbatim>\<open>cache_usable\<close> for requests at the same time), the output builder that writes responses (\<^verbatim>\<open>sender\<close>;
  \<^verbatim>\<open>sender_lawful\<close>, \<^verbatim>\<open>json_sender\<close>), the styling and binding of parameters by the runtime of the code
  generator (\<^verbatim>\<open>style_lawful\<close>, \<^verbatim>\<open>binder_lawful\<close>), the router \<^verbatim>\<open>gorilla/mux\<close> (\<^verbatim>\<open>mux_lawful\<close>: the first matching
  route, 405 or 404 otherwise), the logging, metrics and CORS middlewares (\<^verbatim>\<open>neutral_imports\<close>: they reach
  the databases only through the handler), the HTTP server (\<^verbatim>\<open>http_server_lawful\<close>), the guess of a content
  type by \<^verbatim>\<open>net/http\<close>, the imported check of the server section, the client's encoding of items to
  maps, the text of an arbitrary nested value, the package that decodes an item
  of the in-memory client to a node with properties (\<^verbatim>\<open>dom_ops\<close>; its \<^verbatim>\<open>AsContainer\<close> panics for an item that is
  not an object, and so does every predicate that looks at a property). \<^verbatim>\<open>mux_lawful\<close> is stated for all templates;
  the router reads regular expressions in some, of which the program has none. Properties over them state what they need as
  hypotheses and have an instance with a concrete parameter.

  \<^bold>\<open>What is not modelled.\<close> Logging; the connections of \<^verbatim>\<open>net/http\<close> and the listener (a request is
  delivered and answered in one step, a panic closes its connection); the storage of the metrics; the
  command-line flags and the reading of the YAML file; the data of the embedded document, its
  decompression and its loader. Of contexts only the end of a request counts: a client that gives up
  earlier is not modelled. In a schedule a database call with the reading of its rows is one step, the
  requests are those of one backend, and each request has the metadata cache for itself from the state
  it finds (any state): an entry that another request adds meanwhile, or that expires, is not seen
  before the next request. Where a request is one step (\<^theory_text>\<open>Server_Runs\<close>, the typed clients), C15 says
  what that step stands for. The rollback at the end of a context is part of \<^theory_text>\<open>Server_Runs\<close> and of schedules;
  the run of the whole program (C6) and the typed operations (C16 to C22) end with the handler.

  What remains of the implementation is package clauses, imports, comments, logging and the data of
  the embedded document.
\<close>

end
